(* ===== verification/Prelude.thy ===== *)
theory Prelude
  imports Main "HOL-Library.Word" "HOL-Library.Monad_Syntax"
begin

text \<open>
  Shared vocabulary of the development: the machine integer types of the C sources,
  loops whose body may fail, the kernel services the sources call, and the lemmas on
  words, pages and lists that every component uses.

  Conventions. A C function that may touch memory out of bounds, dereference a null
  pointer or fail to return is a HOL function into \<open>option\<close>; \<open>None\<close> is exactly that
  undefined behaviour or divergence, never an error code. Error codes of the source are values.
\<close>

unbundle bit_operations_syntax

section \<open>Types and collections\<close>

type_synonym u8 = "8 word"
type_synonym u16 = "16 word"
type_synonym u32 = "32 word"
type_synonym u64 = "64 word"

named_theorems hb_consts \<open>values of the macros of the sources\<close>
named_theorems page_simps \<open>rewriting with page addresses, masks and entries\<close>

section \<open>Loops\<close>

text \<open>A counting loop \<open>for (i = 0; i < n; i++)\<close> whose body may fail is
  \<open>foldo body [0..<n]\<close>.\<close>

fun foldo :: "('a \<Rightarrow> 's \<Rightarrow> 's option) \<Rightarrow> 'a list \<Rightarrow> 's \<Rightarrow> 's option" where
  "foldo f [] s = Some s"
| "foldo f (x # xs) s = Option.bind (f x s) (foldo f xs)"

lemma foldo_append: "foldo f (xs @ ys) s = Option.bind (foldo f xs s) (foldo f ys)"
  by (induction xs arbitrary: s) (auto simp: bind_eq_None_conv split: Option.bind_split)

text \<open>Total correctness of a counting loop: an invariant indexed by the number of
  iterations done.\<close>

lemma foldo_upt_total:
  assumes "P 0 s"
    and "\<And>i s. i < n \<Longrightarrow> P i s \<Longrightarrow> \<exists>s'. f i s = Some s' \<and> P (Suc i) s'"
  shows "\<exists>s'. foldo f [0..<n] s = Some s' \<and> P n s'"
  using assms(2)
proof (induction n)
  case 0
  with assms(1) show ?case by simp
next
  case (Suc n)
  then obtain t where t: "foldo f [0..<n] s = Some t" "P n t"
    by (metis less_SucI)
  moreover obtain s' where "f n t = Some s'" "P (Suc n) s'"
    using Suc.prems t(2) by blast
  ultimately show ?case by (auto simp: foldo_append)
qed

text \<open>The same rule for a loop over the elements of a list.\<close>

lemma foldo_list_total:
  assumes "P [] s"
    and "\<And>ys x zs s. xs = ys @ x # zs \<Longrightarrow> P ys s \<Longrightarrow> \<exists>s'. f x s = Some s' \<and> P (ys @ [x]) s'"
  shows "\<exists>s'. foldo f xs s = Some s' \<and> P xs s'"
  using assms(2)
proof (induction xs rule: rev_induct)
  case Nil
  with assms(1) show ?case by simp
next
  case (snoc x xs)
  have "\<exists>s'. foldo f xs s = Some s' \<and> P xs s'"
    by (rule snoc.IH) (use snoc.prems in \<open>auto\<close>)
  then obtain t where t: "foldo f xs s = Some t" "P xs t" by blast
  moreover obtain s' where "f x t = Some s'" "P (xs @ [x]) s'"
    using snoc.prems [of xs x "[]" t] t(2) by auto
  ultimately show ?case by (auto simp: foldo_append)
qed

text \<open>The loop \<open>for (i = a; i < e; i += 4KB)\<close> on 64-bit addresses. Nothing in the header
  of the loop excludes that \<open>i\<close> wraps around, so it is a partial function; the lemmas
  below show when it returns.\<close>

partial_function (option) page_loop ::
  "(u64 \<Rightarrow> 's \<Rightarrow> 's option) \<Rightarrow> u64 \<Rightarrow> u64 \<Rightarrow> 's \<Rightarrow> 's option" where
  "page_loop f i e s =
     (if i < e then Option.bind (f i s) (\<lambda>s'. page_loop f (i + 4096) e s') else Some s)"

lemma page_loop_done: "\<not> i < e \<Longrightarrow> page_loop f i e s = Some s"
  by (simp add: page_loop.simps)

lemma page_loop_step:
  "i < e \<Longrightarrow> page_loop f i e s = Option.bind (f i s) (\<lambda>s'. page_loop f (i + 4096) e s')"
  by (subst page_loop.simps) simp

section \<open>Words and pages\<close>

definition PAGE_SIZE :: u64 where
  [hb_consts]: "PAGE_SIZE = 4096"

definition page_aligned :: "u64 \<Rightarrow> bool" where
  "page_aligned a \<longleftrightarrow> a AND mask 12 = 0"

text \<open>\<open>page_of a\<close> is the page number of an address, \<open>page_base a\<close> the address of the
  page.\<close>

definition page_of :: "u64 \<Rightarrow> nat" where
  "page_of a = unat a div 4096"

definition page_base :: "u64 \<Rightarrow> u64" where
  "page_base a = a AND NOT (mask 12)"

lemma unat_u64_less: "unat (a :: u64) < 18446744073709551616"
proof -
  have "unat a < 2 ^ LENGTH(64)" by (rule unsigned_less)
  then show ?thesis by simp
qed

lemma unat_page_base: "unat (page_base a) = unat a div 4096 * 4096"
proof -
  have "page_base a = push_bit 12 (drop_bit 12 a)"
    by (auto simp: page_base_def bit_eq_iff bit_simps)
  also have "unat \<dots> = unat a div 4096 * 4096"
  proof -
    have "unat a div 4096 * 4096 < 2 ^ 64"
      using unat_u64_less [of a] div_times_less_eq_dividend [of "unat a" 4096]
      by simp
    then show ?thesis
      by (simp add: push_bit_eq_mult drop_bit_eq_div unat_word_ariths unat_div)
  qed
  finally show ?thesis .
qed

lemma page_aligned_iff: "page_aligned a \<longleftrightarrow> unat a mod 4096 = 0"
proof -
  have "unat (a AND mask 12) = unat a mod 4096"
    by (simp add: take_bit_eq_mask [symmetric] take_bit_eq_mod unat_mod del: take_bit_eq_mask)
  then show ?thesis
    by (metis page_aligned_def unsigned_0 unsigned_word_eqI word_eq_iff_unsigned)
qed

text \<open>Bits of small and of aligned values.\<close>

lemma bit_small:
  assumes "unat (a :: u64) < 2 ^ k" "bit a n"
  shows "n < k"
proof (rule ccontr)
  assume "\<not> n < k"
  have "2 ^ n \<le> unat a"
  proof (rule ccontr)
    assume "\<not> 2 ^ n \<le> unat a"
    then have "\<not> bit (unat a) n" by (simp add: bit_iff_odd)
    with assms(2) show False by (simp add: bit_unsigned_iff)
  qed
  moreover have "(2::nat) ^ k \<le> 2 ^ n" using \<open>\<not> n < k\<close> by simp
  ultimately show False using assms(1) by simp
qed

lemma take_bit_small: "unat (a :: u64) < 2 ^ k \<Longrightarrow> take_bit k a = a"
  by (auto simp: bit_eq_iff bit_simps dest: bit_small)

lemma aligned_bit: "page_aligned a \<Longrightarrow> bit a n \<Longrightarrow> 12 \<le> n"
proof (rule ccontr)
  assume "page_aligned a" "bit a n" "\<not> 12 \<le> n"
  then have "bit (a AND mask 12) n" by (simp add: bit_simps)
  with \<open>page_aligned a\<close> show False by (simp add: page_aligned_def)
qed

lemma shift_base:
  "k \<le> 64 \<Longrightarrow> of_nat (unat (a :: u64) div 2 ^ k) * 2 ^ k = a AND NOT (mask k)"
proof -
  have "of_nat (unat a div 2 ^ k) = drop_bit k a"
  proof -
    have "unat (drop_bit k a) = unat a div 2 ^ k" 
      unfolding unat_drop_bit_eq by (rule drop_bit_eq_div)
    moreover have "drop_bit k a = of_nat (unat (drop_bit k a))" by simp
    ultimately show ?thesis by simp
  qed
  then have "of_nat (unat a div 2 ^ k) * 2 ^ k = push_bit k (drop_bit k a)"
    by (simp add: push_bit_eq_mult)
  also have "\<dots> = a AND NOT (mask k)"
    by (auto simp: bit_eq_iff bit_simps)
  finally show ?thesis .
qed

text \<open>The page loop between two page addresses is a counting loop over the pages.\<close>

lemma unat_page_addr: "k < 2 ^ 52 \<Longrightarrow> unat (of_nat (k * 4096) :: u64) = k * 4096"
  by (simp add: unat_of_nat take_bit_eq_mod del: of_nat_mult)

lemma page_loop_pages:
  assumes "a < 2 ^ 52" "b < 2 ^ 52"
  shows "page_loop f (of_nat (a * 4096)) (of_nat (b * 4096)) s =
    foldo f (map (\<lambda>k. of_nat (k * 4096)) [a..<b]) s"
  using assms
proof (induction "b - a" arbitrary: a s)
  case 0
  then have "\<not> of_nat (a * 4096) < (of_nat (b * 4096) :: u64)"
    using 0 by (simp add: word_less_nat_alt unat_page_addr del: of_nat_mult)
  with 0 show ?case by (simp add: page_loop_done del: of_nat_mult)
next
  case (Suc n)
  then have ab: "a < b" by simp
  then have lt: "of_nat (a * 4096) < (of_nat (b * 4096) :: u64)"
    using Suc.prems by (simp add: word_less_nat_alt unat_page_addr del: of_nat_mult)
  have nxt: "of_nat (a * 4096) + 4096 = (of_nat (Suc a * 4096) :: u64)" by simp
  have "page_loop f (of_nat (Suc a * 4096)) (of_nat (b * 4096)) s' =
      foldo f (map (\<lambda>k. of_nat (k * 4096)) [Suc a..<b]) s'" for s'
    using Suc.hyps(1) [of "Suc a"] Suc.hyps(2) Suc.prems ab by simp
  then show ?case
    using lt ab by (simp add: page_loop_step nxt upt_conv_Cons del: of_nat_mult)
qed

lemma page_base_of_nat: "page_base a = of_nat (page_of a * 4096)"
proof -
  have "unat (page_base a) = page_of a * 4096"
    by (simp add: unat_page_base page_of_def)
  then have "of_nat (unat (page_base a)) = (of_nat (page_of a * 4096) :: u64)" by (rule arg_cong)
  then show ?thesis by simp
qed

lemma page_of_less: "page_of a < 2 ^ 52"
  using unat_u64_less [of a] by (simp add: page_of_def less_mult_imp_div_less)


lemma page_base_within:
  assumes "page_aligned a" "unat a + 4096 \<le> 2 ^ 64" "unat x < 4096"
  shows "page_base (a + x) = a"
proof -
  obtain k where k: "unat a = 4096 * k" using assms(1) by (auto simp: page_aligned_iff)
  have "unat (a + x) = unat a + unat x" using assms(2,3) by (simp add: unat_word_ariths)
  then have "unat (page_base (a + x)) = unat a" using k assms(3) by (simp add: unat_page_base)
  then show ?thesis by (rule unsigned_word_eqI)
qed

end
