(* ===== verification/Vmcs_Fields.thy ===== *)
theory Vmcs_Fields
  imports Prelude
begin

text \<open>
  The macros of hyper_box.h that name the fields of the VMCS, the flags of its control fields, the exit reasons and
  the registers, and the macros that take the instruction information and the exit qualification apart. A flag
  \<open>0x01 << 31\<close> is a negative \<open>int\<close> of C: where it is used as a \<open>u64\<close> it is sign extended.
\<close>

section \<open>Fields of the guest state\<close>

definition VM_GUEST_ES_SELECTOR :: u64 where [hb_consts]: "VM_GUEST_ES_SELECTOR = 0x800"
definition VM_GUEST_CS_SELECTOR :: u64 where [hb_consts]: "VM_GUEST_CS_SELECTOR = 0x802"
definition VM_GUEST_SS_SELECTOR :: u64 where [hb_consts]: "VM_GUEST_SS_SELECTOR = 0x804"
definition VM_GUEST_DS_SELECTOR :: u64 where [hb_consts]: "VM_GUEST_DS_SELECTOR = 0x806"
definition VM_GUEST_FS_SELECTOR :: u64 where [hb_consts]: "VM_GUEST_FS_SELECTOR = 0x808"
definition VM_GUEST_GS_SELECTOR :: u64 where [hb_consts]: "VM_GUEST_GS_SELECTOR = 0x80A"
definition VM_GUEST_LDTR_SELECTOR :: u64 where [hb_consts]: "VM_GUEST_LDTR_SELECTOR = 0x80C"
definition VM_GUEST_TR_SELECTOR :: u64 where [hb_consts]: "VM_GUEST_TR_SELECTOR = 0x80E"
definition VM_VMCS_LINK_PTR :: u64 where [hb_consts]: "VM_VMCS_LINK_PTR = 0x2800"
definition VM_GUEST_DEBUGCTL :: u64 where [hb_consts]: "VM_GUEST_DEBUGCTL = 0x2802"
definition VM_GUEST_PAT :: u64 where [hb_consts]: "VM_GUEST_PAT = 0x2804"
definition VM_GUEST_EFER :: u64 where [hb_consts]: "VM_GUEST_EFER = 0x2806"
definition VM_GUEST_PERF_GLOBAL_CTRL :: u64 where [hb_consts]: "VM_GUEST_PERF_GLOBAL_CTRL = 0x2808"
definition VM_GUEST_ES_LIMIT :: u64 where [hb_consts]: "VM_GUEST_ES_LIMIT = 0x4800"
definition VM_GUEST_CS_LIMIT :: u64 where [hb_consts]: "VM_GUEST_CS_LIMIT = 0x4802"
definition VM_GUEST_SS_LIMIT :: u64 where [hb_consts]: "VM_GUEST_SS_LIMIT = 0x4804"
definition VM_GUEST_DS_LIMIT :: u64 where [hb_consts]: "VM_GUEST_DS_LIMIT = 0x4806"
definition VM_GUEST_FS_LIMIT :: u64 where [hb_consts]: "VM_GUEST_FS_LIMIT = 0x4808"
definition VM_GUEST_GS_LIMIT :: u64 where [hb_consts]: "VM_GUEST_GS_LIMIT = 0x480A"
definition VM_GUEST_LDTR_LIMIT :: u64 where [hb_consts]: "VM_GUEST_LDTR_LIMIT = 0x480C"
definition VM_GUEST_TR_LIMIT :: u64 where [hb_consts]: "VM_GUEST_TR_LIMIT = 0x480E"
definition VM_GUEST_GDTR_LIMIT :: u64 where [hb_consts]: "VM_GUEST_GDTR_LIMIT = 0x4810"
definition VM_GUEST_IDTR_LIMIT :: u64 where [hb_consts]: "VM_GUEST_IDTR_LIMIT = 0x4812"
definition VM_GUEST_ES_ACC_RIGHT :: u64 where [hb_consts]: "VM_GUEST_ES_ACC_RIGHT = 0x4814"
definition VM_GUEST_CS_ACC_RIGHT :: u64 where [hb_consts]: "VM_GUEST_CS_ACC_RIGHT = 0x4816"
definition VM_GUEST_SS_ACC_RIGHT :: u64 where [hb_consts]: "VM_GUEST_SS_ACC_RIGHT = 0x4818"
definition VM_GUEST_DS_ACC_RIGHT :: u64 where [hb_consts]: "VM_GUEST_DS_ACC_RIGHT = 0x481A"
definition VM_GUEST_FS_ACC_RIGHT :: u64 where [hb_consts]: "VM_GUEST_FS_ACC_RIGHT = 0x481C"
definition VM_GUEST_GS_ACC_RIGHT :: u64 where [hb_consts]: "VM_GUEST_GS_ACC_RIGHT = 0x481E"
definition VM_GUEST_LDTR_ACC_RIGHT :: u64 where [hb_consts]: "VM_GUEST_LDTR_ACC_RIGHT = 0x4820"
definition VM_GUEST_TR_ACC_RIGHT :: u64 where [hb_consts]: "VM_GUEST_TR_ACC_RIGHT = 0x4822"
definition VM_GUEST_INT_STATE :: u64 where [hb_consts]: "VM_GUEST_INT_STATE = 0x4824"
definition VM_GUEST_ACTIVITY_STATE :: u64 where [hb_consts]: "VM_GUEST_ACTIVITY_STATE = 0x4826"
definition VM_GUEST_SMBASE :: u64 where [hb_consts]: "VM_GUEST_SMBASE = 0x4828"
definition VM_GUEST_IA32_SYSENTER_CS :: u64 where [hb_consts]: "VM_GUEST_IA32_SYSENTER_CS = 0x482A"
definition VM_GUEST_VMX_PRE_TIMER_VALUE :: u64 where [hb_consts]: "VM_GUEST_VMX_PRE_TIMER_VALUE = 0x482E"
definition VM_GUEST_CR0 :: u64 where [hb_consts]: "VM_GUEST_CR0 = 0x6800"
definition VM_GUEST_CR3 :: u64 where [hb_consts]: "VM_GUEST_CR3 = 0x6802"
definition VM_GUEST_CR4 :: u64 where [hb_consts]: "VM_GUEST_CR4 = 0x6804"
definition VM_GUEST_ES_BASE :: u64 where [hb_consts]: "VM_GUEST_ES_BASE = 0x6806"
definition VM_GUEST_CS_BASE :: u64 where [hb_consts]: "VM_GUEST_CS_BASE = 0x6808"
definition VM_GUEST_SS_BASE :: u64 where [hb_consts]: "VM_GUEST_SS_BASE = 0x680A"
definition VM_GUEST_DS_BASE :: u64 where [hb_consts]: "VM_GUEST_DS_BASE = 0x680C"
definition VM_GUEST_FS_BASE :: u64 where [hb_consts]: "VM_GUEST_FS_BASE = 0x680E"
definition VM_GUEST_GS_BASE :: u64 where [hb_consts]: "VM_GUEST_GS_BASE = 0x6810"
definition VM_GUEST_LDTR_BASE :: u64 where [hb_consts]: "VM_GUEST_LDTR_BASE = 0x6812"
definition VM_GUEST_TR_BASE :: u64 where [hb_consts]: "VM_GUEST_TR_BASE = 0x6814"
definition VM_GUEST_GDTR_BASE :: u64 where [hb_consts]: "VM_GUEST_GDTR_BASE = 0x6816"
definition VM_GUEST_IDTR_BASE :: u64 where [hb_consts]: "VM_GUEST_IDTR_BASE = 0x6818"
definition VM_GUEST_DR7 :: u64 where [hb_consts]: "VM_GUEST_DR7 = 0x681A"
definition VM_GUEST_RSP :: u64 where [hb_consts]: "VM_GUEST_RSP = 0x681C"
definition VM_GUEST_RIP :: u64 where [hb_consts]: "VM_GUEST_RIP = 0x681E"
definition VM_GUEST_RFLAGS :: u64 where [hb_consts]: "VM_GUEST_RFLAGS = 0x6820"
definition VM_GUEST_PENDING_DBG_EXCEPTS :: u64 where [hb_consts]: "VM_GUEST_PENDING_DBG_EXCEPTS = 0x6822"
definition VM_GUEST_IA32_SYSENTER_ESP :: u64 where [hb_consts]: "VM_GUEST_IA32_SYSENTER_ESP = 0x6824"
definition VM_GUEST_IA32_SYSENTER_EIP :: u64 where [hb_consts]: "VM_GUEST_IA32_SYSENTER_EIP = 0x6826"

section \<open>Fields of the host state\<close>

definition VM_HOST_ES_SELECTOR :: u64 where [hb_consts]: "VM_HOST_ES_SELECTOR = 0xC00"
definition VM_HOST_CS_SELECTOR :: u64 where [hb_consts]: "VM_HOST_CS_SELECTOR = 0xC02"
definition VM_HOST_SS_SELECTOR :: u64 where [hb_consts]: "VM_HOST_SS_SELECTOR = 0xC04"
definition VM_HOST_DS_SELECTOR :: u64 where [hb_consts]: "VM_HOST_DS_SELECTOR = 0xC06"
definition VM_HOST_FS_SELECTOR :: u64 where [hb_consts]: "VM_HOST_FS_SELECTOR = 0xC08"
definition VM_HOST_GS_SELECTOR :: u64 where [hb_consts]: "VM_HOST_GS_SELECTOR = 0xC0A"
definition VM_HOST_TR_SELECTOR :: u64 where [hb_consts]: "VM_HOST_TR_SELECTOR = 0xC0C"
definition VM_HOST_PAT :: u64 where [hb_consts]: "VM_HOST_PAT = 0x2C00"
definition VM_HOST_EFER :: u64 where [hb_consts]: "VM_HOST_EFER = 0x2C02"
definition VM_HOST_PERF_GLOBAL_CTRL :: u64 where [hb_consts]: "VM_HOST_PERF_GLOBAL_CTRL = 0x2C04"
definition VM_HOST_IA32_SYSENTER_CS :: u64 where [hb_consts]: "VM_HOST_IA32_SYSENTER_CS = 0x4C00"
definition VM_HOST_CR0 :: u64 where [hb_consts]: "VM_HOST_CR0 = 0x6C00"
definition VM_HOST_CR3 :: u64 where [hb_consts]: "VM_HOST_CR3 = 0x6C02"
definition VM_HOST_CR4 :: u64 where [hb_consts]: "VM_HOST_CR4 = 0x6C04"
definition VM_HOST_FS_BASE :: u64 where [hb_consts]: "VM_HOST_FS_BASE = 0x6C06"
definition VM_HOST_GS_BASE :: u64 where [hb_consts]: "VM_HOST_GS_BASE = 0x6C08"
definition VM_HOST_TR_BASE :: u64 where [hb_consts]: "VM_HOST_TR_BASE = 0x6C0A"
definition VM_HOST_GDTR_BASE :: u64 where [hb_consts]: "VM_HOST_GDTR_BASE = 0x6C0C"
definition VM_HOST_IDTR_BASE :: u64 where [hb_consts]: "VM_HOST_IDTR_BASE = 0x6C0E"
definition VM_HOST_IA32_SYSENTER_ESP :: u64 where [hb_consts]: "VM_HOST_IA32_SYSENTER_ESP = 0x6C10"
definition VM_HOST_IA32_SYSENTER_EIP :: u64 where [hb_consts]: "VM_HOST_IA32_SYSENTER_EIP = 0x6C12"
definition VM_HOST_RSP :: u64 where [hb_consts]: "VM_HOST_RSP = 0x6C14"
definition VM_HOST_RIP :: u64 where [hb_consts]: "VM_HOST_RIP = 0x6C16"

section \<open>Control fields\<close>

definition VM_CTRL_VIRTUAL_PROCESS_ID :: u64 where [hb_consts]: "VM_CTRL_VIRTUAL_PROCESS_ID = 0x0000"
definition VM_CTRL_IO_BITMAP_A_ADDR :: u64 where [hb_consts]: "VM_CTRL_IO_BITMAP_A_ADDR = 0x2000"
definition VM_CTRL_IO_BITMAP_B_ADDR :: u64 where [hb_consts]: "VM_CTRL_IO_BITMAP_B_ADDR = 0x2002"
definition VM_CTRL_MSR_BITMAPS :: u64 where [hb_consts]: "VM_CTRL_MSR_BITMAPS = 0x2004"
definition VM_CTRL_VM_EXIT_MSR_LOAD_ADDR :: u64 where [hb_consts]: "VM_CTRL_VM_EXIT_MSR_LOAD_ADDR = 0x2008"
definition VM_CTRL_VM_ENTRY_MSR_LOAD_ADDR :: u64 where [hb_consts]: "VM_CTRL_VM_ENTRY_MSR_LOAD_ADDR = 0x200A"
definition VM_CTRL_EXECUTIVE_VMCS_PTR :: u64 where [hb_consts]: "VM_CTRL_EXECUTIVE_VMCS_PTR = 0x200C"
definition VM_CTRL_TSC_OFFSET :: u64 where [hb_consts]: "VM_CTRL_TSC_OFFSET = 0x2010"
definition VM_CTRL_VIRTUAL_APIC_ADDR :: u64 where [hb_consts]: "VM_CTRL_VIRTUAL_APIC_ADDR = 0x2012"
definition VM_CTRL_EPT_PTR :: u64 where [hb_consts]: "VM_CTRL_EPT_PTR = 0x201A"
definition VM_CTRL_VMREAD_BITMAP_ADDR :: u64 where [hb_consts]: "VM_CTRL_VMREAD_BITMAP_ADDR = 0x2026"
definition VM_CTRL_VMWRITE_BITMAP_ADDR :: u64 where [hb_consts]: "VM_CTRL_VMWRITE_BITMAP_ADDR = 0x2028"
definition VM_CTRL_PIN_BASED_VM_EXE_CTRL :: u64 where [hb_consts]: "VM_CTRL_PIN_BASED_VM_EXE_CTRL = 0x4000"
definition VM_CTRL_PRI_PROC_BASED_EXE_CTRL :: u64 where [hb_consts]: "VM_CTRL_PRI_PROC_BASED_EXE_CTRL = 0x4002"
definition VM_CTRL_EXCEPTION_BITMAP :: u64 where [hb_consts]: "VM_CTRL_EXCEPTION_BITMAP = 0x4004"
definition VM_CTRL_PAGE_FAULT_ERR_CODE_MASK :: u64 where [hb_consts]: "VM_CTRL_PAGE_FAULT_ERR_CODE_MASK = 0x4006"
definition VM_CTRL_PAGE_FAULT_ERR_CODE_MATCH :: u64 where [hb_consts]: "VM_CTRL_PAGE_FAULT_ERR_CODE_MATCH = 0x4008"
definition VM_CTRL_CR3_TARGET_COUNT :: u64 where [hb_consts]: "VM_CTRL_CR3_TARGET_COUNT = 0x400A"
definition VM_CTRL_VM_EXIT_CTRLS :: u64 where [hb_consts]: "VM_CTRL_VM_EXIT_CTRLS = 0x400C"
definition VM_CTRL_VM_EXIT_MSR_STORE_COUNT :: u64 where [hb_consts]: "VM_CTRL_VM_EXIT_MSR_STORE_COUNT = 0x400E"
definition VM_CTRL_VM_EXIT_MSR_LOAD_COUNT :: u64 where [hb_consts]: "VM_CTRL_VM_EXIT_MSR_LOAD_COUNT = 0x4010"
definition VM_CTRL_VM_ENTRY_CTRLS :: u64 where [hb_consts]: "VM_CTRL_VM_ENTRY_CTRLS = 0x4012"
definition VM_CTRL_VM_ENTRY_MSR_LOAD_COUNT :: u64 where [hb_consts]: "VM_CTRL_VM_ENTRY_MSR_LOAD_COUNT = 0x4014"
definition VM_CTRL_VM_ENTRY_INT_INFO_FIELD :: u64 where [hb_consts]: "VM_CTRL_VM_ENTRY_INT_INFO_FIELD = 0x4016"
definition VM_CTRL_VM_ENTRY_EXCEPT_ERR_CODE :: u64 where [hb_consts]: "VM_CTRL_VM_ENTRY_EXCEPT_ERR_CODE = 0x4018"
definition VM_CTRL_VM_ENTRY_INST_LENGTH :: u64 where [hb_consts]: "VM_CTRL_VM_ENTRY_INST_LENGTH = 0x401A"
definition VM_CTRL_TPR_THRESHOLD :: u64 where [hb_consts]: "VM_CTRL_TPR_THRESHOLD = 0x401C"
definition VM_CTRL_SEC_PROC_BASED_EXE_CTRL :: u64 where [hb_consts]: "VM_CTRL_SEC_PROC_BASED_EXE_CTRL = 0x401E"
definition VM_CTRL_CR0_GUEST_HOST_MASK :: u64 where [hb_consts]: "VM_CTRL_CR0_GUEST_HOST_MASK = 0x6000"
definition VM_CTRL_CR4_GUEST_HOST_MASK :: u64 where [hb_consts]: "VM_CTRL_CR4_GUEST_HOST_MASK = 0x6002"
definition VM_CTRL_CR0_READ_SHADOW :: u64 where [hb_consts]: "VM_CTRL_CR0_READ_SHADOW = 0x6004"
definition VM_CTRL_CR4_READ_SHADOW :: u64 where [hb_consts]: "VM_CTRL_CR4_READ_SHADOW = 0x6006"
definition VM_CTRL_CR3_TARGET_VALUE_0 :: u64 where [hb_consts]: "VM_CTRL_CR3_TARGET_VALUE_0 = 0x6008"
definition VM_CTRL_CR3_TARGET_VALUE_1 :: u64 where [hb_consts]: "VM_CTRL_CR3_TARGET_VALUE_1 = 0x600A"
definition VM_CTRL_CR3_TARGET_VALUE_2 :: u64 where [hb_consts]: "VM_CTRL_CR3_TARGET_VALUE_2 = 0x600C"
definition VM_CTRL_CR3_TARGET_VALUE_3 :: u64 where [hb_consts]: "VM_CTRL_CR3_TARGET_VALUE_3 = 0x600E"

section \<open>Exit information\<close>

definition VM_DATA_GUEST_PHY_ADDR :: u64 where [hb_consts]: "VM_DATA_GUEST_PHY_ADDR = 0x2400"
definition VM_DATA_INST_ERROR :: u64 where [hb_consts]: "VM_DATA_INST_ERROR = 0x4400"
definition VM_DATA_EXIT_REASON :: u64 where [hb_consts]: "VM_DATA_EXIT_REASON = 0x4402"
definition VM_DATA_VM_EXIT_INT_INFO :: u64 where [hb_consts]: "VM_DATA_VM_EXIT_INT_INFO = 0x4404"
definition VM_DATA_VM_EXIT_INST_LENGTH :: u64 where [hb_consts]: "VM_DATA_VM_EXIT_INST_LENGTH = 0x440C"
definition VM_DATA_VM_EXIT_INST_INFO :: u64 where [hb_consts]: "VM_DATA_VM_EXIT_INST_INFO = 0x440E"
definition VM_DATA_EXIT_QUALIFICATION :: u64 where [hb_consts]: "VM_DATA_EXIT_QUALIFICATION = 0x6400"
definition VM_DATA_GUEST_LINEAR_ADDR :: u64 where [hb_consts]: "VM_DATA_GUEST_LINEAR_ADDR = 0x640A"

section \<open>Flags of the control fields\<close>

definition VM_BIT_VM_ENTRY_LOAD_DEBUG_CTRL :: u64 where [hb_consts]: "VM_BIT_VM_ENTRY_LOAD_DEBUG_CTRL = 0x4"
definition VM_BIT_VM_ENTRY_CTRL_IA32E_MODE_GUEST :: u64 where [hb_consts]: "VM_BIT_VM_ENTRY_CTRL_IA32E_MODE_GUEST = 0x200"
definition VM_BIT_VM_EXIT_SAVE_DEBUG_CTRL :: u64 where [hb_consts]: "VM_BIT_VM_EXIT_SAVE_DEBUG_CTRL = 0x4"
definition VM_BIT_VM_EXIT_CTRL_HOST_ADDR_SIZE :: u64 where [hb_consts]: "VM_BIT_VM_EXIT_CTRL_HOST_ADDR_SIZE = 0x200"
definition VM_BIT_VM_EXIT_CTRL_SAVE_IA32_EFER :: u64 where [hb_consts]: "VM_BIT_VM_EXIT_CTRL_SAVE_IA32_EFER = 0x100000"
definition VM_BIT_VM_EXIT_CTRL_SAVE_PRE_TIMER :: u64 where [hb_consts]: "VM_BIT_VM_EXIT_CTRL_SAVE_PRE_TIMER = 0x400000"
definition VM_BIT_VM_PIN_BASED_USE_PRE_TIMER :: u64 where [hb_consts]: "VM_BIT_VM_PIN_BASED_USE_PRE_TIMER = 0x40"
definition VM_BIT_VM_PRI_PROC_CTRL_USE_MOVE_DR :: u64 where [hb_consts]: "VM_BIT_VM_PRI_PROC_CTRL_USE_MOVE_DR = 0x800000"
definition VM_BIT_VM_PRI_PROC_CTRL_USE_IO_BITMAP :: u64 where [hb_consts]: "VM_BIT_VM_PRI_PROC_CTRL_USE_IO_BITMAP = 0x2000000"
definition VM_BIT_VM_PRI_PROC_CTRL_USE_MSR_BITMAP :: u64 where [hb_consts]: "VM_BIT_VM_PRI_PROC_CTRL_USE_MSR_BITMAP = 0x10000000"
definition VM_BIT_VM_PRI_PROC_CTRL_USE_SEC_CTRL :: u64 where [hb_consts]: "VM_BIT_VM_PRI_PROC_CTRL_USE_SEC_CTRL = 0xffffffff80000000"
definition VM_BIT_VM_SEC_PROC_CTRL_USE_EPT :: u64 where [hb_consts]: "VM_BIT_VM_SEC_PROC_CTRL_USE_EPT = 0x2"
definition VM_BIT_VM_SEC_PROC_CTRL_DESC_TABLE :: u64 where [hb_consts]: "VM_BIT_VM_SEC_PROC_CTRL_DESC_TABLE = 0x4"
definition VM_BIT_VM_SEC_PROC_CTRL_ENABLE_RDTSCP :: u64 where [hb_consts]: "VM_BIT_VM_SEC_PROC_CTRL_ENABLE_RDTSCP = 0x8"
definition VM_BIT_VM_SEC_PROC_CTRL_ENABLE_VPID :: u64 where [hb_consts]: "VM_BIT_VM_SEC_PROC_CTRL_ENABLE_VPID = 0x20"
definition VM_BIT_VM_SEC_PROC_CTRL_UNREST_GUEST :: u64 where [hb_consts]: "VM_BIT_VM_SEC_PROC_CTRL_UNREST_GUEST = 0x80"
definition VM_BIT_VM_SEC_PROC_CTRL_ENABLE_INVPCID :: u64 where [hb_consts]: "VM_BIT_VM_SEC_PROC_CTRL_ENABLE_INVPCID = 0x1000"
definition VM_BIT_VM_SEC_PROC_CTRL_VMCS_SHADOWING :: u64 where [hb_consts]: "VM_BIT_VM_SEC_PROC_CTRL_VMCS_SHADOWING = 0x4000"
definition VM_BIT_VM_SEC_PROC_CTRL_ENABLE_XSAVE :: u64 where [hb_consts]: "VM_BIT_VM_SEC_PROC_CTRL_ENABLE_XSAVE = 0x100000"

section \<open>Exit reasons\<close>

definition VM_EXIT_REASON_EXCEPT_OR_NMI :: u64 where [hb_consts]: "VM_EXIT_REASON_EXCEPT_OR_NMI = 0"
definition VM_EXIT_REASON_EXT_INTTERUPT :: u64 where [hb_consts]: "VM_EXIT_REASON_EXT_INTTERUPT = 1"
definition VM_EXIT_REASON_TRIPLE_FAULT :: u64 where [hb_consts]: "VM_EXIT_REASON_TRIPLE_FAULT = 2"
definition VM_EXIT_REASON_INIT_SIGNAL :: u64 where [hb_consts]: "VM_EXIT_REASON_INIT_SIGNAL = 3"
definition VM_EXIT_REASON_START_UP_IPI :: u64 where [hb_consts]: "VM_EXIT_REASON_START_UP_IPI = 4"
definition VM_EXIT_REASON_IO_SMI :: u64 where [hb_consts]: "VM_EXIT_REASON_IO_SMI = 5"
definition VM_EXIT_REASON_OTHER_SMI :: u64 where [hb_consts]: "VM_EXIT_REASON_OTHER_SMI = 6"
definition VM_EXIT_REASON_INT_WINDOW :: u64 where [hb_consts]: "VM_EXIT_REASON_INT_WINDOW = 7"
definition VM_EXIT_REASON_NMI_WINDOW :: u64 where [hb_consts]: "VM_EXIT_REASON_NMI_WINDOW = 8"
definition VM_EXIT_REASON_TASK_SWITCH :: u64 where [hb_consts]: "VM_EXIT_REASON_TASK_SWITCH = 9"
definition VM_EXIT_REASON_CPUID :: u64 where [hb_consts]: "VM_EXIT_REASON_CPUID = 10"
definition VM_EXIT_REASON_GETSEC :: u64 where [hb_consts]: "VM_EXIT_REASON_GETSEC = 11"
definition VM_EXIT_REASON_HLT :: u64 where [hb_consts]: "VM_EXIT_REASON_HLT = 12"
definition VM_EXIT_REASON_INVD :: u64 where [hb_consts]: "VM_EXIT_REASON_INVD = 13"
definition VM_EXIT_REASON_INVLPG :: u64 where [hb_consts]: "VM_EXIT_REASON_INVLPG = 14"
definition VM_EXIT_REASON_RDPMC :: u64 where [hb_consts]: "VM_EXIT_REASON_RDPMC = 15"
definition VM_EXIT_REASON_RDTSC :: u64 where [hb_consts]: "VM_EXIT_REASON_RDTSC = 16"
definition VM_EXIT_REASON_RSM :: u64 where [hb_consts]: "VM_EXIT_REASON_RSM = 17"
definition VM_EXIT_REASON_VMCALL :: u64 where [hb_consts]: "VM_EXIT_REASON_VMCALL = 18"
definition VM_EXIT_REASON_VMCLEAR :: u64 where [hb_consts]: "VM_EXIT_REASON_VMCLEAR = 19"
definition VM_EXIT_REASON_VMLAUNCH :: u64 where [hb_consts]: "VM_EXIT_REASON_VMLAUNCH = 20"
definition VM_EXIT_REASON_VMPTRLD :: u64 where [hb_consts]: "VM_EXIT_REASON_VMPTRLD = 21"
definition VM_EXIT_REASON_VMPTRST :: u64 where [hb_consts]: "VM_EXIT_REASON_VMPTRST = 22"
definition VM_EXIT_REASON_VMREAD :: u64 where [hb_consts]: "VM_EXIT_REASON_VMREAD = 23"
definition VM_EXIT_REASON_VMRESUME :: u64 where [hb_consts]: "VM_EXIT_REASON_VMRESUME = 24"
definition VM_EXIT_REASON_VMWRITE :: u64 where [hb_consts]: "VM_EXIT_REASON_VMWRITE = 25"
definition VM_EXIT_REASON_VMXOFF :: u64 where [hb_consts]: "VM_EXIT_REASON_VMXOFF = 26"
definition VM_EXIT_REASON_VMXON :: u64 where [hb_consts]: "VM_EXIT_REASON_VMXON = 27"
definition VM_EXIT_REASON_CTRL_REG_ACCESS :: u64 where [hb_consts]: "VM_EXIT_REASON_CTRL_REG_ACCESS = 28"
definition VM_EXIT_REASON_MOV_DR :: u64 where [hb_consts]: "VM_EXIT_REASON_MOV_DR = 29"
definition VM_EXIT_REASON_IO_INST :: u64 where [hb_consts]: "VM_EXIT_REASON_IO_INST = 30"
definition VM_EXIT_REASON_RDMSR :: u64 where [hb_consts]: "VM_EXIT_REASON_RDMSR = 31"
definition VM_EXIT_REASON_WRMSR :: u64 where [hb_consts]: "VM_EXIT_REASON_WRMSR = 32"
definition VM_EXIT_REASON_VM_ENTRY_FAILURE_INV_GUEST :: u64 where [hb_consts]: "VM_EXIT_REASON_VM_ENTRY_FAILURE_INV_GUEST = 33"
definition VM_EXIT_REASON_VM_ENTRY_FAILURE_MSR_LOAD :: u64 where [hb_consts]: "VM_EXIT_REASON_VM_ENTRY_FAILURE_MSR_LOAD = 34"
definition VM_EXIT_REASON_MWAIT :: u64 where [hb_consts]: "VM_EXIT_REASON_MWAIT = 36"
definition VM_EXIT_REASON_MONITOR_TRAP_FLAG :: u64 where [hb_consts]: "VM_EXIT_REASON_MONITOR_TRAP_FLAG = 37"
definition VM_EXIT_REASON_MONITOR :: u64 where [hb_consts]: "VM_EXIT_REASON_MONITOR = 39"
definition VM_EXIT_REASON_PAUSE :: u64 where [hb_consts]: "VM_EXIT_REASON_PAUSE = 40"
definition VM_EXIT_REASON_VM_ENTRY_FAILURE_MACHINE_CHECK :: u64 where [hb_consts]: "VM_EXIT_REASON_VM_ENTRY_FAILURE_MACHINE_CHECK = 41"
definition VM_EXIT_REASON_TRP_BELOW_THRESHOLD :: u64 where [hb_consts]: "VM_EXIT_REASON_TRP_BELOW_THRESHOLD = 43"
definition VM_EXIT_REASON_APIC_ACCESS :: u64 where [hb_consts]: "VM_EXIT_REASON_APIC_ACCESS = 44"
definition VM_EXIT_REASON_VIRTUALIZED_EOI :: u64 where [hb_consts]: "VM_EXIT_REASON_VIRTUALIZED_EOI = 45"
definition VM_EXIT_REASON_ACCESS_GDTR_OR_IDTR :: u64 where [hb_consts]: "VM_EXIT_REASON_ACCESS_GDTR_OR_IDTR = 46"
definition VM_EXIT_REASON_ACCESS_LDTR_OR_TR :: u64 where [hb_consts]: "VM_EXIT_REASON_ACCESS_LDTR_OR_TR = 47"
definition VM_EXIT_REASON_EPT_VIOLATION :: u64 where [hb_consts]: "VM_EXIT_REASON_EPT_VIOLATION = 48"
definition VM_EXIT_REASON_EPT_MISCONFIGURATION :: u64 where [hb_consts]: "VM_EXIT_REASON_EPT_MISCONFIGURATION = 49"
definition VM_EXIT_REASON_INVEPT :: u64 where [hb_consts]: "VM_EXIT_REASON_INVEPT = 50"
definition VM_EXIT_REASON_RDTSCP :: u64 where [hb_consts]: "VM_EXIT_REASON_RDTSCP = 51"
definition VM_EXIT_REASON_VMX_PREEMP_TIMER_EXPIRED :: u64 where [hb_consts]: "VM_EXIT_REASON_VMX_PREEMP_TIMER_EXPIRED = 52"
definition VM_EXIT_REASON_INVVPID :: u64 where [hb_consts]: "VM_EXIT_REASON_INVVPID = 53"
definition VM_EXIT_REASON_WBINVD :: u64 where [hb_consts]: "VM_EXIT_REASON_WBINVD = 54"
definition VM_EXIT_REASON_XSETBV :: u64 where [hb_consts]: "VM_EXIT_REASON_XSETBV = 55"
definition VM_EXIT_REASON_APIC_WRITE :: u64 where [hb_consts]: "VM_EXIT_REASON_APIC_WRITE = 56"
definition VM_EXIT_REASON_RDRAND :: u64 where [hb_consts]: "VM_EXIT_REASON_RDRAND = 57"
definition VM_EXIT_REASON_INVPCID :: u64 where [hb_consts]: "VM_EXIT_REASON_INVPCID = 58"
definition VM_EXIT_REASON_VMFUNC :: u64 where [hb_consts]: "VM_EXIT_REASON_VMFUNC = 59"
definition VM_EXIT_REASON_RDSEED :: u64 where [hb_consts]: "VM_EXIT_REASON_RDSEED = 61"
definition VM_EXIT_REASON_XSAVES :: u64 where [hb_consts]: "VM_EXIT_REASON_XSAVES = 63"
definition VM_EXIT_REASON_XRSTORS :: u64 where [hb_consts]: "VM_EXIT_REASON_XRSTORS = 64"

section \<open>Exit qualification and instruction information\<close>

definition VM_INST_INFO_SGDT :: u64 where [hb_consts]: "VM_INST_INFO_SGDT = 0"
definition VM_INST_INFO_SIDT :: u64 where [hb_consts]: "VM_INST_INFO_SIDT = 1"
definition VM_INST_INFO_LGDT :: u64 where [hb_consts]: "VM_INST_INFO_LGDT = 2"
definition VM_INST_INFO_LIDT :: u64 where [hb_consts]: "VM_INST_INFO_LIDT = 3"
definition VM_INST_INFO_SLDT :: u64 where [hb_consts]: "VM_INST_INFO_SLDT = 0"
definition VM_INST_INFO_STR :: u64 where [hb_consts]: "VM_INST_INFO_STR = 1"
definition VM_INST_INFO_LLDT :: u64 where [hb_consts]: "VM_INST_INFO_LLDT = 2"
definition VM_INST_INFO_LTR :: u64 where [hb_consts]: "VM_INST_INFO_LTR = 3"
definition VM_INST_INFO_IDX_REG_INVALID :: u64 where [hb_consts]: "VM_INST_INFO_IDX_REG_INVALID = 0x400000"
definition VM_INST_INFO_BASE_REG_INVALID :: u64 where [hb_consts]: "VM_INST_INFO_BASE_REG_INVALID = 0x8000000"
definition VM_INST_INFO_ADDR_SIZE_16BIT :: u64 where [hb_consts]: "VM_INST_INFO_ADDR_SIZE_16BIT = 0"
definition VM_INST_INFO_ADDR_SIZE_32BIT :: u64 where [hb_consts]: "VM_INST_INFO_ADDR_SIZE_32BIT = 1"
definition VM_INST_INFO_ADDR_SIZE_64BIT :: u64 where [hb_consts]: "VM_INST_INFO_ADDR_SIZE_64BIT = 2"
definition VM_EXIT_INT_TYPE_NMI :: u64 where [hb_consts]: "VM_EXIT_INT_TYPE_NMI = 2"
definition VM_INT_DEBUG_EXCEPTION :: u64 where [hb_consts]: "VM_INT_DEBUG_EXCEPTION = 1"
definition VM_INT_MACHINE_CHECK :: u64 where [hb_consts]: "VM_INT_MACHINE_CHECK = 18"
definition VM_EXIT_QUAL_CTRL_REG_ACC_MOVE_TO_CR :: u64 where [hb_consts]: "VM_EXIT_QUAL_CTRL_REG_ACC_MOVE_TO_CR = 0"
definition VM_EXIT_QUAL_CTRL_REG_ACC_MOVE_FROM_CR :: u64 where [hb_consts]: "VM_EXIT_QUAL_CTRL_REG_ACC_MOVE_FROM_CR = 1"

section \<open>Registers\<close>

definition REG_NUM_CR0 :: nat where [hb_consts]: "REG_NUM_CR0 = 0"
definition REG_NUM_CR2 :: nat where [hb_consts]: "REG_NUM_CR2 = 2"
definition REG_NUM_CR3 :: nat where [hb_consts]: "REG_NUM_CR3 = 3"
definition REG_NUM_CR4 :: nat where [hb_consts]: "REG_NUM_CR4 = 4"
definition REG_NUM_CR8 :: nat where [hb_consts]: "REG_NUM_CR8 = 8"
definition REG_NUM_RAX :: nat where [hb_consts]: "REG_NUM_RAX = 0"
definition REG_NUM_RCX :: nat where [hb_consts]: "REG_NUM_RCX = 1"
definition REG_NUM_RDX :: nat where [hb_consts]: "REG_NUM_RDX = 2"
definition REG_NUM_RBX :: nat where [hb_consts]: "REG_NUM_RBX = 3"
definition REG_NUM_RSP :: nat where [hb_consts]: "REG_NUM_RSP = 4"
definition REG_NUM_RBP :: nat where [hb_consts]: "REG_NUM_RBP = 5"
definition REG_NUM_RSI :: nat where [hb_consts]: "REG_NUM_RSI = 6"
definition REG_NUM_RDI :: nat where [hb_consts]: "REG_NUM_RDI = 7"
definition REG_NUM_R8 :: nat where [hb_consts]: "REG_NUM_R8 = 8"
definition REG_NUM_R9 :: nat where [hb_consts]: "REG_NUM_R9 = 9"
definition REG_NUM_R10 :: nat where [hb_consts]: "REG_NUM_R10 = 10"
definition REG_NUM_R11 :: nat where [hb_consts]: "REG_NUM_R11 = 11"
definition REG_NUM_R12 :: nat where [hb_consts]: "REG_NUM_R12 = 12"
definition REG_NUM_R13 :: nat where [hb_consts]: "REG_NUM_R13 = 13"
definition REG_NUM_R14 :: nat where [hb_consts]: "REG_NUM_R14 = 14"
definition REG_NUM_R15 :: nat where [hb_consts]: "REG_NUM_R15 = 15"

section \<open>Model specific registers\<close>

definition MSR_IA32_FEATURE_CONTROL_BIT_CONTROL_LOCKED :: u32 where [hb_consts]: "MSR_IA32_FEATURE_CONTROL_BIT_CONTROL_LOCKED = 0x1"
definition MSR_IA32_FEATURE_CONTROL_BIT_VMXON_ENABLED_OUTPUTSIDE_SMX :: u32 where [hb_consts]: "MSR_IA32_FEATURE_CONTROL_BIT_VMXON_ENABLED_OUTPUTSIDE_SMX = 0x4"
definition MSR_IA32_VM_BASIC :: u32 where [hb_consts]: "MSR_IA32_VM_BASIC = 0x480"
definition MSR_IA32_VMX_EXIT_CTRLS :: u32 where [hb_consts]: "MSR_IA32_VMX_EXIT_CTRLS = 0x483"
definition MSR_IA32_VMX_TRUE_EXIT_CTRLS :: u32 where [hb_consts]: "MSR_IA32_VMX_TRUE_EXIT_CTRLS = 0x48F"
definition MSR_IA32_VMX_ENTRY_CTRLS :: u32 where [hb_consts]: "MSR_IA32_VMX_ENTRY_CTRLS = 0x484"
definition MSR_IA32_VMX_TRUE_ENTRY_CTRLS :: u32 where [hb_consts]: "MSR_IA32_VMX_TRUE_ENTRY_CTRLS = 0x490"
definition MSR_FS_BASE_ADDR :: u32 where [hb_consts]: "MSR_FS_BASE_ADDR = 0xC0000100"
definition MSR_GS_BASE_ADDR :: u32 where [hb_consts]: "MSR_GS_BASE_ADDR = 0xC0000101"
definition MSR_IA32_EFER :: u32 where [hb_consts]: "MSR_IA32_EFER = 0xC0000080"
definition MSR_IA32_PERF_GLOBAL_CTRL :: u32 where [hb_consts]: "MSR_IA32_PERF_GLOBAL_CTRL = 0x38F"
definition MSR_IA32_PAT :: u32 where [hb_consts]: "MSR_IA32_PAT = 0x277"
definition MSR_IA32_STAR :: u32 where [hb_consts]: "MSR_IA32_STAR = 0xC0000081"
definition MSR_IA32_LSTAR :: u32 where [hb_consts]: "MSR_IA32_LSTAR = 0xC0000082"
definition MSR_IA32_FMASK :: u32 where [hb_consts]: "MSR_IA32_FMASK = 0xC0000084"

section \<open>Flags of registers\<close>

definition MASK_GDT_ACCESS :: u64 where [hb_consts]: "MASK_GDT_ACCESS = 0x03"
definition DR_BIT_ADD_TASK :: u64 where [hb_consts]: "DR_BIT_ADD_TASK = 0x1"
definition DR_BIT_DEL_TASK :: u64 where [hb_consts]: "DR_BIT_DEL_TASK = 0x2"
definition DR_BIT_SYSCALL_64 :: u64 where [hb_consts]: "DR_BIT_SYSCALL_64 = 0x4"
definition DR_BIT_COMMIT_CREDS :: u64 where [hb_consts]: "DR_BIT_COMMIT_CREDS = 0x8"
definition CPUID_1_ECX_VMX :: u64 where [hb_consts]: "CPUID_1_ECX_VMX = 0x20"
definition CPUID_1_ECX_SMX :: u64 where [hb_consts]: "CPUID_1_ECX_SMX = 0x40"
definition CPUID_D_EAX_XSAVES :: u64 where [hb_consts]: "CPUID_D_EAX_XSAVES = 0x8"
definition RFLAGS_BIT_CF :: u64 where [hb_consts]: "RFLAGS_BIT_CF = 0x1"
definition RFLAGS_BIT_ZF :: u64 where [hb_consts]: "RFLAGS_BIT_ZF = 0x40"
definition RFLAGS_BIT_RF :: u64 where [hb_consts]: "RFLAGS_BIT_RF = 0x10000"
definition EFER_BIT_LME :: u64 where [hb_consts]: "EFER_BIT_LME = 0x100"
definition CR0_BIT_WP :: u64 where [hb_consts]: "CR0_BIT_WP = 0x10000"
definition CR0_BIT_PG :: u64 where [hb_consts]: "CR0_BIT_PG = 0x80000000"
definition CR4_BIT_MCE :: u64 where [hb_consts]: "CR4_BIT_MCE = 0x40"
definition CR4_BIT_VMXE :: u64 where [hb_consts]: "CR4_BIT_VMXE = 0x2000"
definition CR4_BIT_SMXE :: u64 where [hb_consts]: "CR4_BIT_SMXE = 0x4000"
definition CR4_BIT_SMEP :: u64 where [hb_consts]: "CR4_BIT_SMEP = 0x100000"

section \<open>Services of the hypervisor\<close>

definition VM_SERVICE_GET_LOGINFO :: u64 where [hb_consts]: "VM_SERVICE_GET_LOGINFO = 0"

section \<open>Composite macros\<close>

definition VM_BIT_REVISION_SHADOW_VMCS :: u32 where [hb_consts]: "VM_BIT_REVISION_SHADOW_VMCS = 0x80000000"

definition VM_BIT_VM_ENTRY_INT_INFO_NMI :: u64 where [hb_consts]: "VM_BIT_VM_ENTRY_INT_INFO_NMI = 0x200"
definition VM_BIT_VM_ENTRY_INT_INFO_HW :: u64 where [hb_consts]: "VM_BIT_VM_ENTRY_INT_INFO_HW = 0x300"
definition VM_BIT_VM_ENTRY_INT_INFO_VALID :: u64 where [hb_consts]: "VM_BIT_VM_ENTRY_INT_INFO_VALID = 0xFFFFFFFF80000000"

definition VM_ENTRY_INT_INFO_UD :: u64 where
  [hb_consts]: "VM_ENTRY_INT_INFO_UD = 6 OR VM_BIT_VM_ENTRY_INT_INFO_HW OR VM_BIT_VM_ENTRY_INT_INFO_VALID"

definition VM_ENTRY_INT_INFO_NMI :: u64 where
  [hb_consts]: "VM_ENTRY_INT_INFO_NMI = 2 OR VM_BIT_VM_ENTRY_INT_INFO_NMI OR VM_BIT_VM_ENTRY_INT_INFO_VALID"

definition VM_INST_INFO_INST_IDENTITY :: "u64 \<Rightarrow> u64" where
  "VM_INST_INFO_INST_IDENTITY info = drop_bit 28 info AND 0x03"

definition VM_INST_INFO_MEM_REG :: "u64 \<Rightarrow> u64" where
  "VM_INST_INFO_MEM_REG info = drop_bit 10 info AND 0x01"

definition VM_INST_INFO_REG1 :: "u64 \<Rightarrow> nat" where
  "VM_INST_INFO_REG1 info = unat (drop_bit 3 info AND 0x0F)"

definition VM_INST_INFO_REG2 :: "u64 \<Rightarrow> nat" where
  "VM_INST_INFO_REG2 info = unat (drop_bit 28 info AND 0x0F)"

definition VM_INST_INFO_IDX_REG :: "u64 \<Rightarrow> nat" where
  "VM_INST_INFO_IDX_REG info = unat (drop_bit 18 info AND 0x0F)"

definition VM_INST_INFO_SCALE :: "u64 \<Rightarrow> nat" where
  "VM_INST_INFO_SCALE info = unat (info AND 0x03)"

definition VM_INST_INFO_BASE_REG :: "u64 \<Rightarrow> nat" where
  "VM_INST_INFO_BASE_REG info = unat (drop_bit 23 info AND 0x0F)"

definition VM_INST_INFO_ADDR_SIZE :: "u64 \<Rightarrow> u64" where
  "VM_INST_INFO_ADDR_SIZE info = drop_bit 7 info AND 0x07"

definition VM_EXIT_INT_INFO_INT_TYPE :: "u64 \<Rightarrow> u64" where
  "VM_EXIT_INT_INFO_INT_TYPE info = drop_bit 8 info AND 0x07"

definition VM_EXIT_INT_INFO_VECTOR :: "u64 \<Rightarrow> u64" where
  "VM_EXIT_INT_INFO_VECTOR info = info AND 0xFF"

definition VM_EXIT_QUAL_CTRL_REG_ACC_GET_CTRL_REG_NUMBER :: "u64 \<Rightarrow> nat" where
  "VM_EXIT_QUAL_CTRL_REG_ACC_GET_CTRL_REG_NUMBER x = unat (x AND 0xF)"

definition VM_EXIT_QUAL_CTRL_REG_ACC_GET_ACC_TYPE :: "u64 \<Rightarrow> u64" where
  "VM_EXIT_QUAL_CTRL_REG_ACC_GET_ACC_TYPE x = drop_bit 4 x AND 0x3"

definition VM_EXIT_QUAL_CTRL_REG_ACC_GET_GP_REG_NUMBER :: "u64 \<Rightarrow> nat" where
  "VM_EXIT_QUAL_CTRL_REG_ACC_GET_GP_REG_NUMBER x = unat (drop_bit 8 x AND 0xF)"

section \<open>The fields the hypervisor uses\<close>

definition vmcs_state_fields :: "u64 list" where
  "vmcs_state_fields = [VM_GUEST_ES_SELECTOR, VM_GUEST_CS_SELECTOR, VM_GUEST_SS_SELECTOR, VM_GUEST_DS_SELECTOR,
     VM_GUEST_FS_SELECTOR, VM_GUEST_GS_SELECTOR, VM_GUEST_LDTR_SELECTOR, VM_GUEST_TR_SELECTOR,
     VM_VMCS_LINK_PTR, VM_GUEST_DEBUGCTL, VM_GUEST_PAT, VM_GUEST_EFER,
     VM_GUEST_PERF_GLOBAL_CTRL, VM_GUEST_ES_LIMIT, VM_GUEST_CS_LIMIT, VM_GUEST_SS_LIMIT,
     VM_GUEST_DS_LIMIT, VM_GUEST_FS_LIMIT, VM_GUEST_GS_LIMIT, VM_GUEST_LDTR_LIMIT,
     VM_GUEST_TR_LIMIT, VM_GUEST_GDTR_LIMIT, VM_GUEST_IDTR_LIMIT, VM_GUEST_ES_ACC_RIGHT,
     VM_GUEST_CS_ACC_RIGHT, VM_GUEST_SS_ACC_RIGHT, VM_GUEST_DS_ACC_RIGHT, VM_GUEST_FS_ACC_RIGHT,
     VM_GUEST_GS_ACC_RIGHT, VM_GUEST_LDTR_ACC_RIGHT, VM_GUEST_TR_ACC_RIGHT, VM_GUEST_INT_STATE,
     VM_GUEST_ACTIVITY_STATE, VM_GUEST_SMBASE, VM_GUEST_IA32_SYSENTER_CS, VM_GUEST_VMX_PRE_TIMER_VALUE,
     VM_GUEST_CR0, VM_GUEST_CR3, VM_GUEST_CR4, VM_GUEST_ES_BASE,
     VM_GUEST_CS_BASE, VM_GUEST_SS_BASE, VM_GUEST_DS_BASE, VM_GUEST_FS_BASE,
     VM_GUEST_GS_BASE, VM_GUEST_LDTR_BASE, VM_GUEST_TR_BASE, VM_GUEST_GDTR_BASE,
     VM_GUEST_IDTR_BASE, VM_GUEST_DR7, VM_GUEST_RSP, VM_GUEST_RIP,
     VM_GUEST_RFLAGS, VM_GUEST_PENDING_DBG_EXCEPTS, VM_GUEST_IA32_SYSENTER_ESP, VM_GUEST_IA32_SYSENTER_EIP,
     VM_HOST_ES_SELECTOR, VM_HOST_CS_SELECTOR, VM_HOST_SS_SELECTOR, VM_HOST_DS_SELECTOR,
     VM_HOST_FS_SELECTOR, VM_HOST_GS_SELECTOR, VM_HOST_TR_SELECTOR, VM_HOST_PAT,
     VM_HOST_EFER, VM_HOST_PERF_GLOBAL_CTRL, VM_HOST_IA32_SYSENTER_CS, VM_HOST_CR0,
     VM_HOST_CR3, VM_HOST_CR4, VM_HOST_FS_BASE, VM_HOST_GS_BASE,
     VM_HOST_TR_BASE, VM_HOST_GDTR_BASE, VM_HOST_IDTR_BASE, VM_HOST_IA32_SYSENTER_ESP,
     VM_HOST_IA32_SYSENTER_EIP, VM_HOST_RSP, VM_HOST_RIP,
     VM_CTRL_VIRTUAL_PROCESS_ID, VM_CTRL_IO_BITMAP_A_ADDR, VM_CTRL_IO_BITMAP_B_ADDR, VM_CTRL_MSR_BITMAPS,
     VM_CTRL_VM_EXIT_MSR_LOAD_ADDR, VM_CTRL_VM_ENTRY_MSR_LOAD_ADDR, VM_CTRL_EXECUTIVE_VMCS_PTR, VM_CTRL_TSC_OFFSET,
     VM_CTRL_VIRTUAL_APIC_ADDR, VM_CTRL_EPT_PTR, VM_CTRL_VMREAD_BITMAP_ADDR, VM_CTRL_VMWRITE_BITMAP_ADDR,
     VM_CTRL_PIN_BASED_VM_EXE_CTRL, VM_CTRL_PRI_PROC_BASED_EXE_CTRL, VM_CTRL_EXCEPTION_BITMAP, VM_CTRL_PAGE_FAULT_ERR_CODE_MASK,
     VM_CTRL_PAGE_FAULT_ERR_CODE_MATCH, VM_CTRL_CR3_TARGET_COUNT, VM_CTRL_VM_EXIT_CTRLS, VM_CTRL_VM_EXIT_MSR_STORE_COUNT,
     VM_CTRL_VM_EXIT_MSR_LOAD_COUNT, VM_CTRL_VM_ENTRY_CTRLS, VM_CTRL_VM_ENTRY_MSR_LOAD_COUNT, VM_CTRL_VM_ENTRY_INT_INFO_FIELD,
     VM_CTRL_VM_ENTRY_EXCEPT_ERR_CODE, VM_CTRL_VM_ENTRY_INST_LENGTH, VM_CTRL_TPR_THRESHOLD, VM_CTRL_SEC_PROC_BASED_EXE_CTRL,
     VM_CTRL_CR0_GUEST_HOST_MASK, VM_CTRL_CR4_GUEST_HOST_MASK, VM_CTRL_CR0_READ_SHADOW, VM_CTRL_CR4_READ_SHADOW,
     VM_CTRL_CR3_TARGET_VALUE_0, VM_CTRL_CR3_TARGET_VALUE_1, VM_CTRL_CR3_TARGET_VALUE_2, VM_CTRL_CR3_TARGET_VALUE_3]"

definition vmcs_data_fields :: "u64 list" where
  "vmcs_data_fields = [VM_DATA_GUEST_PHY_ADDR, VM_DATA_INST_ERROR, VM_DATA_EXIT_REASON, VM_DATA_VM_EXIT_INT_INFO,
     VM_DATA_VM_EXIT_INST_LENGTH, VM_DATA_VM_EXIT_INST_INFO, VM_DATA_EXIT_QUALIFICATION, VM_DATA_GUEST_LINEAR_ADDR]"

end
