(* ===== verification/Task_Tree.thy ===== *)
theory Task_Tree
  imports Prelude
begin

text \<open>
  The search tree of the monitor (monitor.c: \<open>hb_add_tree\<close>, \<open>hb_search_tree\<close>, \<open>hb_del_tree\<close>).
  The nodes are the entries of the pool of task nodes, named by their index; the key of a node is
  read from the node, so the operations take the key function as an argument.

  The rebalancing and iteration functions of the kernel's red-black tree library
  (\<open>rb_insert_color\<close>, \<open>rb_erase\<close>, \<open>rb_first\<close>, \<open>rb_next\<close>) are parameters, collected in the
  record \<open>rb_library\<close>; \<open>rb_ok\<close> states their documented effect on the sequence of the nodes. What
  the clients of the tree rely on is the locale \<open>task_index\<close>.
\<close>

section \<open>Data and operations\<close>

text \<open>A node with its colour bit, set by \<open>rb_link_node\<close> to red.\<close>

datatype rbtree = Leaf | Node bool rbtree nat rbtree

fun inorder :: "rbtree \<Rightarrow> nat list" where
  "inorder Leaf = []"
| "inorder (Node c l x r) = inorder l @ x # inorder r"

record rb_library =
  rb_insert_color :: "nat \<Rightarrow> rbtree \<Rightarrow> rbtree"
  rb_erase :: "nat \<Rightarrow> rbtree \<Rightarrow> rbtree"
  rb_first :: "rbtree \<Rightarrow> nat option"
  rb_next :: "rbtree \<Rightarrow> nat \<Rightarrow> nat option"

text \<open>The descent of \<open>hb_add_tree\<close> to the place of the new node, with \<open>rb_link_node\<close> there; no
  result where the key is found.\<close>

fun rb_link :: "(nat \<Rightarrow> u64) \<Rightarrow> nat \<Rightarrow> rbtree \<Rightarrow> rbtree option" where
  "rb_link key node Leaf = Some (Node False Leaf node Leaf)"
| "rb_link key node (Node c l cur r) =
     (if key node < key cur then map_option (\<lambda>l'. Node c l' cur r) (rb_link key node l)
      else if key node > key cur then map_option (\<lambda>r'. Node c l cur r') (rb_link key node r)
      else None)"

definition hb_add_tree :: "rb_library \<Rightarrow> (nat \<Rightarrow> u64) \<Rightarrow> nat \<Rightarrow> rbtree \<Rightarrow> rbtree" where
  "hb_add_tree lib key node root =
     (case rb_link key node root of
        None \<Rightarrow> root
      | Some root' \<Rightarrow> rb_insert_color lib node root')"

fun hb_search_tree :: "(nat \<Rightarrow> u64) \<Rightarrow> rbtree \<Rightarrow> u64 \<Rightarrow> nat option" where
  "hb_search_tree key Leaf k = None"
| "hb_search_tree key (Node c l cur r) k =
     (if k < key cur then hb_search_tree key l k
      else if k > key cur then hb_search_tree key r k
      else Some cur)"

text \<open>A null node is ignored.\<close>

definition hb_del_tree :: "rb_library \<Rightarrow> nat option \<Rightarrow> rbtree \<Rightarrow> rbtree" where
  "hb_del_tree lib node root = (case node of None \<Rightarrow> root | Some x \<Rightarrow> rb_erase lib x root)"

text \<open>The loop \<open>for (node = rb_first (root); node; node = rb_next (node))\<close>. The body may change the
  tree, and the next node is looked up in the tree the body left; it may not terminate.\<close>

partial_function (option) rb_loop ::
  "rb_library \<Rightarrow> ('s \<Rightarrow> rbtree) \<Rightarrow> (nat \<Rightarrow> 's \<Rightarrow> 's) \<Rightarrow> nat option \<Rightarrow> 's \<Rightarrow> 's option" where
  "rb_loop lib root body node s =
     (case node of
        None \<Rightarrow> Some s
      | Some x \<Rightarrow> (let s' = body x s in rb_loop lib root body (rb_next lib (root s') x) s'))"

definition rb_for_each ::
  "rb_library \<Rightarrow> ('s \<Rightarrow> rbtree) \<Rightarrow> (nat \<Rightarrow> 's \<Rightarrow> 's) \<Rightarrow> 's \<Rightarrow> 's option" where
  "rb_for_each lib root body s = rb_loop lib root body (rb_first lib (root s)) s"

section \<open>The library\<close>

definition next_of :: "nat list \<Rightarrow> nat \<Rightarrow> nat option" where
  "next_of xs x = (case dropWhile (\<lambda>y. y \<noteq> x) xs of (_ # y # _) \<Rightarrow> Some y | _ \<Rightarrow> None)"

text \<open>Documented behaviour: \<open>rb_insert_color\<close> only rebalances, \<open>rb_erase\<close> takes the node out, and
  the iteration follows the order of the tree. Nothing is said about \<open>rb_next\<close> on a node that is not in the
  tree.\<close>

definition rb_ok :: "rb_library \<Rightarrow> bool" where
  "rb_ok lib \<longleftrightarrow>
     (\<forall>x t. inorder (rb_insert_color lib x t) = inorder t) \<and>
     (\<forall>x t. x \<in> set (inorder t) \<longrightarrow> inorder (rb_erase lib x t) = remove1 x (inorder t)) \<and>
     (\<forall>t. rb_first lib t = (case inorder t of [] \<Rightarrow> None | x # _ \<Rightarrow> Some x)) \<and>
     (\<forall>x t. x \<in> set (inorder t) \<longrightarrow> distinct (inorder t) \<longrightarrow> rb_next lib t x = next_of (inorder t) x)"

text \<open>A library without rebalancing, as an instance.\<close>

fun del_min :: "rbtree \<Rightarrow> (nat \<times> rbtree) option" where
  "del_min Leaf = None"
| "del_min (Node c l x r) =
     (case del_min l of None \<Rightarrow> Some (x, r) | Some (m, l') \<Rightarrow> Some (m, Node c l' x r))"

fun erase_node :: "nat \<Rightarrow> rbtree \<Rightarrow> rbtree" where
  "erase_node x Leaf = Leaf"
| "erase_node x (Node c l y r) =
     (if x \<in> set (inorder l) then Node c (erase_node x l) y r
      else if x = y then (case del_min r of None \<Rightarrow> l | Some (m, r') \<Rightarrow> Node c l m r')
      else Node c l y (erase_node x r))"

definition plain_lib :: rb_library where
  "plain_lib = \<lparr>rb_insert_color = (\<lambda>x t. t), rb_erase = erase_node,
     rb_first = (\<lambda>t. case inorder t of [] \<Rightarrow> None | x # _ \<Rightarrow> Some x),
     rb_next = (\<lambda>t x. next_of (inorder t) x)\<rparr>"

lemma del_min_inorder:
  "del_min t = None \<longleftrightarrow> t = Leaf" "del_min t = Some (m, t') \<Longrightarrow> inorder t = m # inorder t'"
  by (induction t arbitrary: m t') (auto split: option.splits)

lemma erase_node_inorder: "x \<in> set (inorder t) \<Longrightarrow> inorder (erase_node x t) = remove1 x (inorder t)"
proof (induction t)
  case (Node c l y r)
  show ?case
  proof (cases "x = y \<and> x \<notin> set (inorder l)")
    case True
    then show ?thesis
      by (cases "del_min r") (auto simp: del_min_inorder remove1_append dest: del_min_inorder(2))
  qed (use Node in \<open>auto simp: remove1_append\<close>)
qed simp

lemma plain_lib_ok: "rb_ok plain_lib"
  by (simp add: rb_ok_def plain_lib_def erase_node_inorder)

section \<open>Order\<close>

text \<open>The tree is ordered by the keys of its nodes, without duplicates.\<close>

definition ordered :: "(nat \<Rightarrow> u64) \<Rightarrow> rbtree \<Rightarrow> bool" where
  "ordered key t \<longleftrightarrow> sorted_wrt (\<lambda>x y. key x < key y) (inorder t)"

lemma ordered_Node:
  "ordered key (Node c l x r) \<longleftrightarrow> ordered key l \<and> ordered key r \<and>
     (\<forall>y \<in> set (inorder l). key y < key x) \<and> (\<forall>y \<in> set (inorder r). key x < key y) \<and>
     (\<forall>y \<in> set (inorder l). \<forall>z \<in> set (inorder r). key y < key z)"
  by (auto simp: ordered_def sorted_wrt_append)

lemma sorted_keys_distinct: "sorted_wrt (\<lambda>x y. key x < (key y :: u64)) xs \<Longrightarrow> distinct xs"
  by (induction xs) auto

lemma ordered_distinct: "ordered key t \<Longrightarrow> distinct (inorder t)"
  unfolding ordered_def by (rule sorted_keys_distinct)

lemma search_Some_iff:
  assumes "ordered key t"
  shows "hb_search_tree key t k = Some x \<longleftrightarrow> x \<in> set (inorder t) \<and> key x = k"
  using assms
proof (induction t)
  case (Node c l y r)
  then show ?case by (auto simp: ordered_Node not_less)
qed simp

lemma search_None_iff:
  assumes "ordered key t"
  shows "hb_search_tree key t k = None \<longleftrightarrow> (\<forall>x \<in> set (inorder t). key x \<noteq> k)"
  using search_Some_iff [OF assms, of k] by (metis not_Some_eq)

lemma rb_link_spec:
  assumes "ordered key t"
  shows "(case rb_link key x t of
      None \<Rightarrow> key x \<in> key ` set (inorder t)
    | Some t' \<Rightarrow> key x \<notin> key ` set (inorder t) \<and> ordered key t' \<and>
        set (inorder t') = insert x (set (inorder t)))"
  using assms
proof (induction t)
  case (Node c l y r)
  then have l: "ordered key l" and r: "ordered key r" by (auto simp: ordered_Node)
  consider "key x < key y" | "key y < key x" | "key x = key y" by (meson linorder_cases)
  then show ?case
  proof cases
    case 1
    then have "\<forall>z \<in> set (inorder r). key x < key z" using Node.prems by (auto simp: ordered_Node)
    with 1 Node.IH(1) [OF l] Node.prems show ?thesis
      by (auto simp: ordered_Node split: option.splits)
  next
    case 2
    then have "\<forall>z \<in> set (inorder l). key z < key x" using Node.prems by (auto simp: ordered_Node)
    with 2 Node.IH(2) [OF r] Node.prems show ?thesis
      by (auto simp: ordered_Node split: option.splits)
  qed simp
qed (simp add: ordered_def)


lemma hb_add_tree_nodes:
  assumes "rb_ok lib" "ordered key t"
  shows "ordered key (hb_add_tree lib key x t)"
    and "set (inorder (hb_add_tree lib key x t)) =
      (if key x \<in> key ` set (inorder t) then set (inorder t) else insert x (set (inorder t)))"
  using rb_link_spec [OF assms(2), of x] assms
  by (auto simp: hb_add_tree_def rb_ok_def ordered_def split: option.splits)

lemma hb_del_tree_nodes:
  assumes "rb_ok lib" "ordered key t" "x \<in> set (inorder t)"
  shows "ordered key (hb_del_tree lib (Some x) t)"
    and "set (inorder (hb_del_tree lib (Some x) t)) = set (inorder t) - {x}"
proof -
  have eq: "inorder (hb_del_tree lib (Some x) t) = remove1 x (inorder t)"
    using assms by (simp add: hb_del_tree_def rb_ok_def)
  have d: "distinct (inorder t)" using assms(2) by (rule ordered_distinct)
  show "set (inorder (hb_del_tree lib (Some x) t)) = set (inorder t) - {x}"
    unfolding eq using d by simp
  show "ordered key (hb_del_tree lib (Some x) t)"
    using assms(2) d unfolding ordered_def eq by (simp add: distinct_remove1_removeAll removeAll_filter_not_eq sorted_wrt_filter)
qed

text \<open>A loop that leaves the tree alone visits all of its nodes in order.\<close>

lemma next_of_append: "distinct (xs @ x # ys) \<Longrightarrow> next_of (xs @ x # ys) x = (case ys of [] \<Rightarrow> None | y # _ \<Rightarrow> Some y)"
  by (induction xs) (auto simp: next_of_def split: list.splits)

lemma rb_loop_fold:
  assumes ok: "rb_ok lib" and keep: "\<And>x s. root (body x s) = root s" and d: "distinct (inorder (root s))"
    and "inorder (root s) = xs @ ys"
  shows "rb_loop lib root body (case ys of [] \<Rightarrow> None | y # _ \<Rightarrow> Some y) s = Some (fold body ys s)"
  using assms(3,4)
proof (induction ys arbitrary: xs s)
  case Nil
  then show ?case by (simp add: rb_loop.simps)
next
  case (Cons y ys)
  have "y \<in> set (inorder (root (body y s)))" "distinct (inorder (root (body y s)))"
    using Cons.prems keep by simp_all
  then have "rb_next lib (root (body y s)) y = next_of (inorder (root (body y s))) y"
    using ok by (simp add: rb_ok_def)
  then have nxt: "rb_next lib (root (body y s)) y = (case ys of [] \<Rightarrow> None | z # _ \<Rightarrow> Some z)"
    using Cons.prems keep next_of_append [of xs y ys] by simp
  have "rb_loop lib root body (Some y) s =
      rb_loop lib root body (rb_next lib (root (body y s)) y) (body y s)"
    by (subst rb_loop.simps) (simp add: Let_def)
  also have "\<dots> = Some (fold body ys (body y s))"
    unfolding nxt by (rule Cons.IH [of _ "xs @ [y]"]) (use Cons.prems keep in simp_all)
  finally show ?case by simp
qed

lemma rb_for_each_fold:
  assumes "rb_ok lib" "\<And>x s. root (body x s) = root s" "distinct (inorder (root s))"
  shows "rb_for_each lib root body s = Some (fold body (inorder (root s)) s)"
  using rb_loop_fold [of lib root body s "[]" "inorder (root s)"] assms
  by (simp add: rb_for_each_def rb_ok_def)

section \<open>The contract of an index\<close>

text \<open>What the task manager relies on: nodes are found by key, a second node with a key that is
  present is not entered, and the other nodes are not disturbed.\<close>

locale task_index =
  fixes add :: "(nat \<Rightarrow> u64) \<Rightarrow> nat \<Rightarrow> 't \<Rightarrow> 't"
    and find :: "(nat \<Rightarrow> u64) \<Rightarrow> 't \<Rightarrow> u64 \<Rightarrow> nat option"
    and del :: "nat option \<Rightarrow> 't \<Rightarrow> 't"
    and nodes :: "'t \<Rightarrow> nat set"
    and invar :: "(nat \<Rightarrow> u64) \<Rightarrow> 't \<Rightarrow> bool"
  assumes find_iff: "invar key t \<Longrightarrow> find key t k = Some x \<longleftrightarrow> x \<in> nodes t \<and> key x = k"
    and add_nodes: "invar key t \<Longrightarrow>
      nodes (add key x t) = (if key x \<in> key ` nodes t then nodes t else insert x (nodes t))"
    and add_invar: "invar key t \<Longrightarrow> invar key (add key x t)"
    and del_nodes: "invar key t \<Longrightarrow> x \<in> nodes t \<Longrightarrow> nodes (del (Some x) t) = nodes t - {x}"
    and del_invar: "invar key t \<Longrightarrow> x \<in> nodes t \<Longrightarrow> invar key (del (Some x) t)"
    and invar_cong: "\<forall>x \<in> nodes t. key' x = key x \<Longrightarrow> invar key' t = invar key t"
begin

lemma find_add_new:
  assumes "invar key t" "find key t (key x) = None"
  shows "find key (add key x t) k = (if k = key x then Some x else find key t k)"
proof -
  have no: "\<not> (y \<in> nodes t \<and> key y = key x)" for y
    using find_iff [OF assms(1), of "key x" y] assms(2) by simp
  then have new: "key x \<notin> key ` nodes t" by (metis imageE)
  have "find key (add key x t) k = Some y \<longleftrightarrow> (if k = key x then Some x else find key t k) = Some y" for y
    using find_iff [OF add_invar [OF assms(1)], of x k y] find_iff [OF assms(1), of k y] add_nodes [OF assms(1), of x]
      new no by (cases "k = key x") auto
  then show ?thesis by (metis not_Some_eq)
qed

lemma find_add_present:
  assumes "invar key t" "find key t (key x) = Some y"
  shows "nodes (add key x t) = nodes t" "find key (add key x t) k = find key t k"
proof -
  have "y \<in> nodes t \<and> key y = key x" using find_iff [OF assms(1), of "key x" y] assms(2) by simp
  then have "key x \<in> key ` nodes t" by (metis image_eqI)
  then show n: "nodes (add key x t) = nodes t" using add_nodes [OF assms(1)] by simp
  have "find key (add key x t) k = Some z \<longleftrightarrow> find key t k = Some z" for z
    using find_iff [OF add_invar [OF assms(1)], of x k z] find_iff [OF assms(1), of k z] n by simp
  then show "find key (add key x t) k = find key t k" by (metis not_Some_eq)
qed

lemma find_del:
  assumes "invar key t" "find key t k = Some x"
  shows "find key (del (Some x) t) k' = (if k' = k then None else find key t k')"
proof -
  have x: "x \<in> nodes t" "key x = k" using find_iff [OF assms(1)] assms(2) by simp_all
  have uniq: "y = x" if "y \<in> nodes t" "key y = k" for y
    using find_iff [OF assms(1), of k y] that assms(2) by simp
  have f: "find key (del (Some x) t) k' = Some y \<longleftrightarrow> y \<in> nodes t \<and> y \<noteq> x \<and> key y = k'" for y
    using find_iff [OF del_invar [OF assms(1) x(1)], of k' y] del_nodes [OF assms(1) x(1)] by auto
  show ?thesis
  proof (cases "k' = k")
    case True
    then have "find key (del (Some x) t) k' \<noteq> Some y" for y using f uniq by blast
    with True show ?thesis by (metis not_Some_eq)
  next
    case False
    then have "find key (del (Some x) t) k' = Some y \<longleftrightarrow> find key t k' = Some y" for y
      using f find_iff [OF assms(1), of k' y] x(2) by blast
    with False show ?thesis by (metis not_Some_eq)
  qed
qed

end

text \<open>The tree with a library that does what it documents is such an index.\<close>

definition tree_invar :: "rb_library \<Rightarrow> (nat \<Rightarrow> u64) \<Rightarrow> rbtree \<Rightarrow> bool" where
  "tree_invar lib key t \<longleftrightarrow> rb_ok lib \<and> ordered key t"

definition tree_nodes :: "rbtree \<Rightarrow> nat set" where
  "tree_nodes t = set (inorder t)"

lemma ordered_cong: "\<forall>x \<in> set (inorder t). key' x = key x \<Longrightarrow> ordered key' t = ordered key t"
  by (simp add: ordered_def sorted_wrt_iff_nth_less)

interpretation tree: task_index "hb_add_tree lib" hb_search_tree "hb_del_tree lib" tree_nodes "tree_invar lib"
  for lib
proof unfold_locales
  fix key key' t x k
  show "tree_invar lib key t \<Longrightarrow> hb_search_tree key t k = Some x \<longleftrightarrow> x \<in> tree_nodes t \<and> key x = k"
    by (simp add: tree_invar_def tree_nodes_def search_Some_iff)
  show "tree_invar lib key t \<Longrightarrow> tree_nodes (hb_add_tree lib key x t) =
      (if key x \<in> key ` tree_nodes t then tree_nodes t else insert x (tree_nodes t))"
    unfolding tree_invar_def tree_nodes_def by (rule hb_add_tree_nodes(2)) auto
  show "tree_invar lib key t \<Longrightarrow> tree_invar lib key (hb_add_tree lib key x t)"
    by (simp add: tree_invar_def hb_add_tree_nodes)
  show "tree_invar lib key t \<Longrightarrow> x \<in> tree_nodes t \<Longrightarrow> tree_nodes (hb_del_tree lib (Some x) t) = tree_nodes t - {x}"
    unfolding tree_invar_def tree_nodes_def by (rule hb_del_tree_nodes(2)) auto
  show "tree_invar lib key t \<Longrightarrow> x \<in> tree_nodes t \<Longrightarrow> tree_invar lib key (hb_del_tree lib (Some x) t)"
    unfolding tree_invar_def tree_nodes_def using hb_del_tree_nodes(1) by blast
  show "\<forall>x \<in> tree_nodes t. key' x = key x \<Longrightarrow> tree_invar lib key' t = tree_invar lib key t"
    using ordered_cong [of t key' key] by (simp add: tree_invar_def tree_nodes_def)
qed

end
