(* ===== verification/Kernel_Env.thy ===== *)
theory Kernel_Env
  imports Prelude
begin

text \<open>
  The services of the Linux kernel that the sources call and that are not part of the
  repository. They are parameters of the model: a record of functions that every operation
  takes as an argument. What the code relies on is stated as named predicates
  (\<open>direct_map_ok\<close>, \<open>fresh_pages\<close>), which are hypotheses of the theorems that need them.

  \<^item> \<open>get_free_page n\<close>, \<open>vzalloc n\<close>: the pointer that the n-th call of the page
    allocator and of \<open>vzalloc\<close>/\<open>vmalloc\<close> returns, 0 when it fails.
  \<^item> \<open>virt_to_phys\<close>, \<open>phys_to_virt\<close>: the direct mapping of the kernel.
  \<^item> \<open>vmalloc_to_pfn\<close>: the page frame behind a vmalloc address.
  \<^item> \<open>system_ram start n\<close>: the ranges (first page frame, number of frames) that
    \<open>walk_system_ram_range (start, n, ...)\<close> hands to its callback, in order.
  \<^item> \<open>kallsyms\<close>: \<open>kallsyms_lookup_name\<close>, 0 for an unknown symbol; \<open>sizeof_module\<close>: the
    size of the kernel's \<open>struct module\<close>.

  The allocator's history is the record \<open>kheap\<close>.
\<close>

record kernel_env =
  get_free_page :: "nat \<Rightarrow> u64"
  vzalloc :: "nat \<Rightarrow> u64"
  virt_to_phys :: "u64 \<Rightarrow> u64"
  phys_to_virt :: "u64 \<Rightarrow> u64"
  vmalloc_to_pfn :: "u64 \<Rightarrow> u64"
  system_ram :: "u64 \<Rightarrow> u64 \<Rightarrow> (u64 \<times> u64) list"
  totalram_pages :: u64
  kallsyms :: "string \<Rightarrow> u64"
  sizeof_module :: u64

record kheap =
  kh_page_calls :: nat
  kh_vmalloc_calls :: nat
  kh_freed :: "u64 list"
  kh_vfreed :: "u64 list"

definition kh_init :: kheap where
  "kh_init = \<lparr>kh_page_calls = 0, kh_vmalloc_calls = 0, kh_freed = [], kh_vfreed = []\<rparr>"

lemma kh_init_simps [simp]:
  "kh_page_calls kh_init = 0" "kh_vmalloc_calls kh_init = 0" "kh_freed kh_init = []" "kh_vfreed kh_init = []"
  by (simp_all add: kh_init_def)

definition kh_get_free_page :: "kernel_env \<Rightarrow> kheap \<Rightarrow> u64 \<times> kheap" where
  "kh_get_free_page env h =
     (get_free_page env (kh_page_calls h), h\<lparr>kh_page_calls := Suc (kh_page_calls h)\<rparr>)"

definition kh_vzalloc :: "kernel_env \<Rightarrow> kheap \<Rightarrow> u64 \<times> kheap" where
  "kh_vzalloc env h =
     (vzalloc env (kh_vmalloc_calls h), h\<lparr>kh_vmalloc_calls := Suc (kh_vmalloc_calls h)\<rparr>)"

definition kh_free_page :: "u64 \<Rightarrow> kheap \<Rightarrow> kheap" where
  "kh_free_page p h = h\<lparr>kh_freed := kh_freed h @ [p]\<rparr>"

definition kh_vfree :: "u64 \<Rightarrow> kheap \<Rightarrow> kheap" where
  "kh_vfree p h = h\<lparr>kh_vfreed := kh_vfreed h @ [p]\<rparr>"

text \<open>\<open>hb_get_symbol_address\<close> (hypervisor.c): an unresolved symbol ends in \<open>hb_hang\<close>, which
  sleeps for as long as the system is not shutting down, so the call does not return.\<close>

definition hb_get_symbol_address :: "kernel_env \<Rightarrow> string \<Rightarrow> u64 option" where
  "hb_get_symbol_address env symbol =
     (let log_addr = kallsyms env symbol in if log_addr = 0 then None else Some log_addr)"

text \<open>Documented behaviour of the direct mapping for a page \<open>p\<close> the kernel handed out: it is
  page aligned and does not touch the last page of the address space, its physical address is page
  aligned and below the architectural limit of \<open>2 ^ 52\<close>, and the two translations are inverse
  on it.\<close>

definition direct_mapped :: "kernel_env \<Rightarrow> u64 \<Rightarrow> bool" where
  "direct_mapped env p \<longleftrightarrow> p \<noteq> 0 \<and> page_aligned p \<and> unat p + 8192 \<le> 2 ^ 64 \<and>
     page_aligned (virt_to_phys env p) \<and>
     unat (virt_to_phys env p) < 2 ^ 52 \<and> phys_to_virt env (virt_to_phys env p) = p"

text \<open>Documented behaviour of the page allocator: two successful calls return different pages,
  and every page is direct mapped.\<close>

definition fresh_pages :: "kernel_env \<Rightarrow> bool" where
  "fresh_pages env \<longleftrightarrow>
     (\<forall>n. get_free_page env n \<noteq> 0 \<longrightarrow> direct_mapped env (get_free_page env n)) \<and>
     (\<forall>m n. m \<noteq> n \<longrightarrow> get_free_page env m \<noteq> 0 \<longrightarrow> get_free_page env m \<noteq> get_free_page env n)"

text \<open>The kernel has \<open>walk_system_ram_range\<close>, and it clips the ranges it reports to the ones it was asked for.\<close>

definition ram_ranges_clipped :: "kernel_env \<Rightarrow> bool" where
  "ram_ranges_clipped env \<longleftrightarrow> kallsyms env ''walk_system_ram_range'' \<noteq> 0 \<and>
     (\<forall>s n start size. (start, size) \<in> set (system_ram env s n) \<longrightarrow>
        unat s \<le> unat start \<and> unat start + unat size \<le> unat s + unat n)"


section \<open>A concrete kernel\<close>

text \<open>An instance of the services for the examples: the direct mapping is the identity, the page
  allocator hands out consecutive pages until it is exhausted, all memory is System RAM, and the
  module area lies at another place of the address space.\<close>

definition sample_env :: kernel_env where
  "sample_env =
     \<lparr>get_free_page = (\<lambda>n. if n < 2 ^ 30 then of_nat ((n + 1) * 4096) else 0),
      vzalloc = (\<lambda>n. 0xFFFFC90000000000 + of_nat (n * 4096)),
      virt_to_phys = (\<lambda>a. a), phys_to_virt = (\<lambda>a. a),
      vmalloc_to_pfn = (\<lambda>a. take_bit 20 (drop_bit 12 a)),
      system_ram = (\<lambda>s n. [(s, n)]),
      totalram_pages = 0x80000,
      kallsyms = (\<lambda>name. if name = ''missing'' then 0 else 0x1000000 + of_nat (length name * 4096)),
      sizeof_module = 0x380\<rparr>"

lemma sample_page:
  assumes "n < 2 ^ 30"
  shows "unat (get_free_page sample_env n) = (n + 1) * 4096"
proof -
  have "get_free_page sample_env n = of_nat ((n + 1) * 4096)" using assms by (simp add: sample_env_def)
  then show ?thesis using assms unat_page_addr [of "n + 1"] by (simp only:) simp
qed

lemma sample_fresh_pages: "fresh_pages sample_env"
proof -
  have dm: "direct_mapped sample_env (get_free_page sample_env n)" if "get_free_page sample_env n \<noteq> 0" for n
  proof -
    have n: "n < 2 ^ 30" using that by (auto simp: sample_env_def split: if_splits)
    have "virt_to_phys sample_env a = a" "phys_to_virt sample_env a = a" for a by (simp_all add: sample_env_def)
    then show ?thesis
      using sample_page [OF n] that n by (simp add: direct_mapped_def page_aligned_iff)
  qed
  have "m = n" if "get_free_page sample_env m \<noteq> 0" "get_free_page sample_env m = get_free_page sample_env n" for m n
  proof -
    have "m < 2 ^ 30" "n < 2 ^ 30" using that by (auto simp: sample_env_def split: if_splits)
    then have "(m + 1) * 4096 = (n + 1) * 4096" using sample_page that(2) by metis
    then show ?thesis by simp
  qed
  with dm show ?thesis unfolding fresh_pages_def by blast
qed

lemma sample_ram_clipped: "ram_ranges_clipped sample_env"
  by (auto simp: ram_ranges_clipped_def sample_env_def)

end
