(* ===== verification/Ept.thy ===== *)
theory Ept
  imports Kernel_Env
begin

text \<open>
  The extended page tables of Hyper-box (mmu.c, mmu.h): allocation and release of the table
  pages, construction of the four-level identity mapping of the guest-physical space, and the
  operations that change the permissions of one page.

  A table page is addressed by its kernel pointer; \<open>ept_mem p i\<close> is its i-th 64-bit entry.
  A pointer array is a pair of its own address and its contents; address 0 is the null pointer.
  Accesses through a null pointer or beyond an array give \<open>None\<close>.
\<close>

section \<open>Macros of mmu.h\<close>

definition VAL_512GB :: u64 where [hb_consts]: "VAL_512GB = 512 * 1024 * 1024 * 1024"
definition VAL_4GB :: u64 where [hb_consts]: "VAL_4GB = 4 * 1024 * 1024 * 1024"
definition VAL_1GB :: u64 where [hb_consts]: "VAL_1GB = 1024 * 1024 * 1024"
definition VAL_2MB :: u64 where [hb_consts]: "VAL_2MB = 2 * 1024 * 1024"
definition VAL_4KB :: u64 where [hb_consts]: "VAL_4KB = 4 * 1024"
definition PML4_PAGE_COUNT :: u64 where [hb_consts]: "PML4_PAGE_COUNT = 1"
definition MASK_PAGE_SIZE_FLAG :: u64 where [hb_consts]: "MASK_PAGE_SIZE_FLAG = push_bit 7 1"
definition MASK_PAGEADDR :: u64 where [hb_consts]: "MASK_PAGEADDR = 0xFFFFFFFFFFFFF000"

definition EPT_TYPE_PML4 :: int where [hb_consts]: "EPT_TYPE_PML4 = 0"
definition EPT_TYPE_PDPTEPD :: int where [hb_consts]: "EPT_TYPE_PDPTEPD = 1"
definition EPT_TYPE_PDEPT :: int where [hb_consts]: "EPT_TYPE_PDEPT = 2"
definition EPT_TYPE_PTE :: int where [hb_consts]: "EPT_TYPE_PTE = 3"

definition EPT_READ :: u64 where [hb_consts]: "EPT_READ = push_bit 0 1"
definition EPT_WRITE :: u64 where [hb_consts]: "EPT_WRITE = push_bit 1 1"
definition EPT_EXECUTE :: u64 where [hb_consts]: "EPT_EXECUTE = push_bit 2 1"
definition EPT_ALL_ACCESS :: u64 where
  [hb_consts]: "EPT_ALL_ACCESS = EPT_READ OR EPT_WRITE OR EPT_EXECUTE"
definition EPT_BIT_MEM_TYPE_WB :: u64 where [hb_consts]: "EPT_BIT_MEM_TYPE_WB = push_bit 3 6"
definition EPT_PAGE_ENT_COUNT :: u64 where [hb_consts]: "EPT_PAGE_ENT_COUNT = 512"
definition EPT_PAGE_SIZE :: u64 where [hb_consts]: "EPT_PAGE_SIZE = 4096"

text \<open>\<open>CEIL\<close> of hyper_box.h, on 64-bit operands: the sum wraps around.\<close>

definition CEIL :: "u64 \<Rightarrow> u64 \<Rightarrow> u64" where
  "CEIL x y = (x + y - 1) div y"

section \<open>State\<close>

type_synonym ptr_array = "u64 \<times> u64 list"

record hb_ept_info =
  pml4_ent_count :: u64
  pdpte_pd_ent_count :: u64
  pdept_ent_count :: u64
  pte_ent_count :: u64
  pml4_page_count :: u64
  pdpte_pd_page_count :: u64
  pdept_page_count :: u64
  pte_page_count :: u64
  pml4_page_addr_array :: ptr_array
  pdpte_pd_page_addr_array :: ptr_array
  pdept_page_addr_array :: ptr_array
  pte_page_addr_array :: ptr_array

record ept_state =
  g_ept_info :: hb_ept_info
  ept_mem :: "u64 \<Rightarrow> nat \<Rightarrow> u64"

text \<open>Conversion of a 64-bit value to the \<open>int\<close> parameter of a C function.\<close>

definition to_int :: "u64 \<Rightarrow> int" where
  "to_int x = sint (ucast x :: u32)"

definition array_at :: "ptr_array \<Rightarrow> int \<Rightarrow> u64 option" where
  "array_at a i =
     (if fst a \<noteq> 0 \<and> 0 \<le> i \<and> nat i < length (snd a) then Some (snd a ! nat i) else None)"

definition ept_store :: "u64 \<Rightarrow> nat \<Rightarrow> u64 \<Rightarrow> ept_state \<Rightarrow> ept_state option" where
  "ept_store p i v st =
     (if p = 0 then None
      else Some (st\<lparr>ept_mem := (ept_mem st)(p := (ept_mem st p)(i := v))\<rparr>))"

definition ept_load :: "u64 \<Rightarrow> nat \<Rightarrow> ept_state \<Rightarrow> u64 option" where
  "ept_load p i st = (if p = 0 then None else Some (ept_mem st p i))"

text \<open>\<open>memset (table, 0, sizeof (struct hb_ept_pagetable))\<close>\<close>

definition ept_clear_page :: "u64 \<Rightarrow> ept_state \<Rightarrow> ept_state option" where
  "ept_clear_page p st =
     (if p = 0 then None else Some (st\<lparr>ept_mem := (ept_mem st)(p := (\<lambda>_. 0))\<rparr>))"

section \<open>Table pointers\<close>

definition hb_get_pagetable_log_addr :: "int \<Rightarrow> int \<Rightarrow> ept_state \<Rightarrow> u64 option" where
  "hb_get_pagetable_log_addr type index st =
     (let table_array_addr =
        (if type = EPT_TYPE_PML4 then pml4_page_addr_array (g_ept_info st)
         else if type = EPT_TYPE_PDPTEPD then pdpte_pd_page_addr_array (g_ept_info st)
         else if type = EPT_TYPE_PDEPT then pdept_page_addr_array (g_ept_info st)
         else pte_page_addr_array (g_ept_info st))
      in array_at table_array_addr index)"

definition hb_get_pagetable_phy_addr :: "kernel_env \<Rightarrow> int \<Rightarrow> int \<Rightarrow> ept_state \<Rightarrow> u64 option" where
  "hb_get_pagetable_phy_addr env type index st =
     Option.bind (hb_get_pagetable_log_addr type index st)
       (\<lambda>table_log_addr. Some (virt_to_phys env table_log_addr))"

section \<open>Permissions of one page\<close>

definition hb_set_ept_page_addr :: "u64 \<Rightarrow> u64 \<Rightarrow> ept_state \<Rightarrow> ept_state option" where
  "hb_set_ept_page_addr phy_addr addr st =
     (let page_offset = phy_addr div EPT_PAGE_SIZE;
          page_index = unat (page_offset mod EPT_PAGE_ENT_COUNT)
      in do {
        page_table_addr \<leftarrow>
          hb_get_pagetable_log_addr EPT_TYPE_PTE (to_int (page_offset div EPT_PAGE_ENT_COUNT)) st;
        old \<leftarrow> ept_load page_table_addr page_index st;
        ept_store page_table_addr page_index
          ((addr AND MASK_PAGEADDR) OR (old AND NOT MASK_PAGEADDR)) st
      })"

text \<open>\<open>flags\<close> is a \<open>u32\<close>, widened to 64 bits by the \<open>|\<close>.\<close>

definition hb_set_ept_page_flags :: "u64 \<Rightarrow> u32 \<Rightarrow> ept_state \<Rightarrow> ept_state option" where
  "hb_set_ept_page_flags phy_addr flags st =
     (let page_offset = phy_addr div EPT_PAGE_SIZE;
          page_index = unat (page_offset mod EPT_PAGE_ENT_COUNT)
      in do {
        page_table_addr \<leftarrow>
          hb_get_pagetable_log_addr EPT_TYPE_PTE (to_int (page_offset div EPT_PAGE_ENT_COUNT)) st;
        old \<leftarrow> ept_load page_table_addr page_index st;
        ept_store page_table_addr page_index ((old AND MASK_PAGEADDR) OR ucast flags) st
      })"

definition hb_set_ept_hide_page :: "u64 \<Rightarrow> ept_state \<Rightarrow> ept_state option" where
  "hb_set_ept_hide_page phy_addr st = hb_set_ept_page_flags phy_addr (ucast EPT_BIT_MEM_TYPE_WB) st"

definition hb_set_ept_read_only_page :: "u64 \<Rightarrow> ept_state \<Rightarrow> ept_state option" where
  "hb_set_ept_read_only_page phy_addr st = do {
     st \<leftarrow> hb_set_ept_page_flags phy_addr (ucast (EPT_READ OR EPT_BIT_MEM_TYPE_WB)) st;
     hb_set_ept_page_addr phy_addr phy_addr st
   }"

definition hb_set_ept_lock_page :: "u64 \<Rightarrow> ept_state \<Rightarrow> ept_state option" where
  "hb_set_ept_lock_page phy_addr st = do {
     st \<leftarrow> hb_set_ept_page_flags phy_addr
       (ucast (EPT_READ OR EPT_EXECUTE OR EPT_BIT_MEM_TYPE_WB)) st;
     hb_set_ept_page_addr phy_addr phy_addr st
   }"

definition hb_set_ept_all_access_page :: "u64 \<Rightarrow> ept_state \<Rightarrow> ept_state option" where
  "hb_set_ept_all_access_page phy_addr st = do {
     st \<leftarrow> hb_set_ept_page_flags phy_addr (ucast (EPT_ALL_ACCESS OR EPT_BIT_MEM_TYPE_WB)) st;
     hb_set_ept_page_addr phy_addr phy_addr st
   }"

section \<open>Construction of the identity mapping\<close>

text \<open>The four stages of \<open>hb_setup_ept_pagetable_4KB\<close>. The running \<open>base_addr\<close> of the
  second and third stage is threaded with the state.\<close>

definition setup_pml4 :: "kernel_env \<Rightarrow> ept_state \<Rightarrow> ept_state option" where
  "setup_pml4 env st = do {
     ept_info \<leftarrow> hb_get_pagetable_log_addr EPT_TYPE_PML4 0 st;
     st \<leftarrow> ept_clear_page ept_info st;
     foldo (\<lambda>i st. do {
         next_page_table_addr \<leftarrow> hb_get_pagetable_phy_addr env EPT_TYPE_PDPTEPD (int i) st;
         ept_store ept_info i (next_page_table_addr OR EPT_ALL_ACCESS) st
       }) [0..<unat EPT_PAGE_ENT_COUNT] st
   }"

definition leaf_entry :: "u64 \<Rightarrow> u64" where
  "leaf_entry base_addr = base_addr OR EPT_ALL_ACCESS OR MASK_PAGE_SIZE_FLAG OR EPT_BIT_MEM_TYPE_WB"

definition setup_pdpte_pd_page ::
  "kernel_env \<Rightarrow> nat \<Rightarrow> u64 \<times> ept_state \<Rightarrow> (u64 \<times> ept_state) option" where
  "setup_pdpte_pd_page env j s = (let (base_addr, st) = s in do {
     ept_info \<leftarrow> hb_get_pagetable_log_addr EPT_TYPE_PDPTEPD (to_int (of_nat j)) st;
     st \<leftarrow> ept_clear_page ept_info st;
     if of_nat j * EPT_PAGE_ENT_COUNT > pdpte_pd_ent_count (g_ept_info st) then
       foldo (\<lambda>i (base_addr, st). do {
           st \<leftarrow> ept_store ept_info i (leaf_entry base_addr) st;
           Some (base_addr + VAL_1GB, st)
         }) [0..<unat EPT_PAGE_ENT_COUNT] (base_addr, st)
     else
       (let rest = pdpte_pd_ent_count (g_ept_info st) - of_nat j * EPT_PAGE_ENT_COUNT;
            loop_cnt = (if rest > EPT_PAGE_ENT_COUNT then EPT_PAGE_ENT_COUNT else rest)
        in foldo (\<lambda>i (base_addr, st). do {
             st \<leftarrow>
               (if of_nat i < loop_cnt then do {
                  next_page_table_addr \<leftarrow> hb_get_pagetable_phy_addr env EPT_TYPE_PDEPT
                    (to_int (of_nat j * EPT_PAGE_ENT_COUNT + of_nat i)) st;
                  ept_store ept_info i (next_page_table_addr OR EPT_ALL_ACCESS) st
                }
                else ept_store ept_info i (leaf_entry base_addr) st);
             Some (base_addr + VAL_1GB, st)
           }) [0..<unat EPT_PAGE_ENT_COUNT] (base_addr, st))
   })"

definition setup_pdpte_pd :: "kernel_env \<Rightarrow> ept_state \<Rightarrow> ept_state option" where
  "setup_pdpte_pd env st = map_option snd
     (foldo (setup_pdpte_pd_page env) [0..<unat (pdpte_pd_page_count (g_ept_info st))] (0, st))"

definition setup_pdept_page ::
  "kernel_env \<Rightarrow> nat \<Rightarrow> u64 \<times> ept_state \<Rightarrow> (u64 \<times> ept_state) option" where
  "setup_pdept_page env j s = (let (base_addr, st) = s in do {
     ept_info \<leftarrow> hb_get_pagetable_log_addr EPT_TYPE_PDEPT (to_int (of_nat j)) st;
     st \<leftarrow> ept_clear_page ept_info st;
     let rest = pdept_ent_count (g_ept_info st) - of_nat j * EPT_PAGE_ENT_COUNT;
         loop_cnt = (if rest > EPT_PAGE_ENT_COUNT then EPT_PAGE_ENT_COUNT else rest)
     in foldo (\<lambda>i (base_addr, st). do {
          st \<leftarrow>
            (if of_nat i < loop_cnt then do {
               next_page_table_addr \<leftarrow> hb_get_pagetable_phy_addr env EPT_TYPE_PTE
                 (to_int (of_nat j * EPT_PAGE_ENT_COUNT + of_nat i)) st;
               ept_store ept_info i (next_page_table_addr OR EPT_ALL_ACCESS) st
             }
             else ept_store ept_info i (leaf_entry base_addr) st);
          Some (base_addr + VAL_2MB, st)
        }) [0..<unat EPT_PAGE_ENT_COUNT] (base_addr, st)
   })"

definition setup_pdept :: "kernel_env \<Rightarrow> ept_state \<Rightarrow> ept_state option" where
  "setup_pdept env st = map_option snd
     (foldo (setup_pdept_page env) [0..<unat (pdept_page_count (g_ept_info st))] (0, st))"

definition setup_pte_page :: "nat \<Rightarrow> ept_state \<Rightarrow> ept_state option" where
  "setup_pte_page j st = do {
     ept_info \<leftarrow> hb_get_pagetable_log_addr EPT_TYPE_PTE (to_int (of_nat j)) st;
     st \<leftarrow> ept_clear_page ept_info st;
     foldo (\<lambda>i st. ept_store ept_info i
         (((of_nat j * EPT_PAGE_ENT_COUNT + of_nat i) * EPT_PAGE_SIZE)
            OR EPT_ALL_ACCESS OR EPT_BIT_MEM_TYPE_WB) st)
       [0..<unat EPT_PAGE_ENT_COUNT] st
   }"

definition setup_pte :: "ept_state \<Rightarrow> ept_state option" where
  "setup_pte st = foldo setup_pte_page [0..<unat (pte_page_count (g_ept_info st))] st"

definition hb_callback_set_write_back_to_ram ::
  "u64 \<times> u64 \<Rightarrow> ept_state \<Rightarrow> ept_state option" where
  "hb_callback_set_write_back_to_ram rng st = (let (start, size) = rng in
     foldo (\<lambda>i st. do {
         ept_info \<leftarrow> hb_get_pagetable_log_addr EPT_TYPE_PTE
           (to_int (of_nat i div EPT_PAGE_ENT_COUNT)) st;
         old \<leftarrow> ept_load ept_info (unat (of_nat i mod EPT_PAGE_ENT_COUNT)) st;
         ept_store ept_info (unat (of_nat i mod EPT_PAGE_ENT_COUNT)) (old OR EPT_BIT_MEM_TYPE_WB) st
       }) [unat start..<unat (start + size)] st)"

definition hb_setup_ept_system_ram_range ::
  "kernel_env \<Rightarrow> u64 \<Rightarrow> ept_state \<Rightarrow> ept_state option" where
  "hb_setup_ept_system_ram_range env g_max_ram_size st = do {
     func \<leftarrow> hb_get_symbol_address env ''walk_system_ram_range'';
     if func = 0 then Some st
     else foldo hb_callback_set_write_back_to_ram (system_ram env 0 (g_max_ram_size div PAGE_SIZE)) st
   }"

definition hb_setup_ept_pagetable_4KB ::
  "kernel_env \<Rightarrow> u64 \<Rightarrow> ept_state \<Rightarrow> ept_state option" where
  "hb_setup_ept_pagetable_4KB env g_max_ram_size st = do {
     st \<leftarrow> setup_pml4 env st;
     st \<leftarrow> setup_pdpte_pd env st;
     st \<leftarrow> setup_pdept env st;
     st \<leftarrow> setup_pte st;
     hb_setup_ept_system_ram_range env g_max_ram_size st
   }"

section \<open>Allocation and release of the table pages\<close>

fun alloc_pages_loop ::
  "kernel_env \<Rightarrow> nat \<Rightarrow> nat \<Rightarrow> u64 list \<Rightarrow> kheap \<Rightarrow> int \<times> u64 list \<times> kheap" where
  "alloc_pages_loop env i 0 arr h = (0, arr, h)"
| "alloc_pages_loop env i (Suc n) arr h =
     (let (p, h) = kh_get_free_page env h; arr = arr[i := p]
      in if p = 0 then (-1, arr, h) else alloc_pages_loop env (Suc i) n arr h)"

definition hb_alloc_ept_pages_internal ::
  "kernel_env \<Rightarrow> u64 list \<Rightarrow> int \<Rightarrow> kheap \<Rightarrow> int \<times> u64 list \<times> kheap" where
  "hb_alloc_ept_pages_internal env arr count h = alloc_pages_loop env 0 (nat count) arr h"

definition hb_free_ept_pages_internal :: "u64 list \<Rightarrow> int \<Rightarrow> kheap \<Rightarrow> kheap" where
  "hb_free_ept_pages_internal arr count h =
     fold (\<lambda>i h. if arr ! i \<noteq> 0 then kh_free_page (arr ! i) h else h) [0..<nat count] h"

text \<open>A vzalloc'ed array of \<open>n\<close> pointers: zero-filled, or null.\<close>

definition new_array :: "kernel_env \<Rightarrow> u64 \<Rightarrow> kheap \<Rightarrow> ptr_array \<times> kheap" where
  "new_array env n h =
     (let (p, h) = kh_vzalloc env h in ((p, if p = 0 then [] else replicate (unat n) 0), h))"

text \<open>One \<open>if (hb_alloc_ept_pages_internal (...) != 0) goto ERROR\<close>.\<close>

definition fill_array ::
  "kernel_env \<Rightarrow> ptr_array \<Rightarrow> u64 \<Rightarrow> kheap \<Rightarrow> int \<times> ptr_array \<times> kheap" where
  "fill_array env a n h =
     (let (r, xs, h) = hb_alloc_ept_pages_internal env (snd a) (to_int n) h
      in (r, (fst a, xs), h))"

definition ept_counts :: "u64 \<Rightarrow> hb_ept_info \<Rightarrow> hb_ept_info" where
  "ept_counts g_max_ram_size info =
     (let pdept_ents = CEIL g_max_ram_size VAL_2MB; pte_ents = CEIL g_max_ram_size VAL_4KB in
      info\<lparr>pml4_ent_count := CEIL g_max_ram_size VAL_512GB,
           pdpte_pd_ent_count := CEIL g_max_ram_size VAL_1GB,
           pdept_ent_count := pdept_ents,
           pte_ent_count := pte_ents,
           pml4_page_count := PML4_PAGE_COUNT,
           pdpte_pd_page_count := EPT_PAGE_ENT_COUNT,
           pdept_page_count := CEIL pdept_ents EPT_PAGE_ENT_COUNT,
           pte_page_count := CEIL pte_ents EPT_PAGE_ENT_COUNT\<rparr>)"

definition hb_alloc_ept_pages ::
  "kernel_env \<Rightarrow> u64 \<Rightarrow> hb_ept_info \<Rightarrow> kheap \<Rightarrow> int \<times> hb_ept_info \<times> kheap" where
  "hb_alloc_ept_pages env g_max_ram_size info h =
     (let info = ept_counts g_max_ram_size info;
          (a4, h) = new_array env (pml4_page_count info) h;
          (a3, h) = new_array env (pdpte_pd_page_count info) h;
          (a2, h) = new_array env (pdept_page_count info) h;
          (a1, h) = new_array env (pte_page_count info) h;
          info = info\<lparr>pml4_page_addr_array := a4, pdpte_pd_page_addr_array := a3,
                      pdept_page_addr_array := a2, pte_page_addr_array := a1\<rparr>
      in if fst a4 = 0 \<or> fst a3 = 0 \<or> fst a2 = 0 \<or> fst a1 = 0 then (-1, info, h)
         else
           let (r, a4, h) = fill_array env a4 (pml4_page_count info) h;
               info = info\<lparr>pml4_page_addr_array := a4\<rparr>
           in if r \<noteq> 0 then (-1, info, h) else
           let (r, a3, h) = fill_array env a3 (pdpte_pd_page_count info) h;
               info = info\<lparr>pdpte_pd_page_addr_array := a3\<rparr>
           in if r \<noteq> 0 then (-1, info, h) else
           let (r, a2, h) = fill_array env a2 (pdept_page_count info) h;
               info = info\<lparr>pdept_page_addr_array := a2\<rparr>
           in if r \<noteq> 0 then (-1, info, h) else
           let (r, a1, h) = fill_array env a1 (pte_page_count info) h;
               info = info\<lparr>pte_page_addr_array := a1\<rparr>
           in if r \<noteq> 0 then (-1, info, h) else (0, info, h))"

text \<open>Release of one array: its pages, then the array itself, whose pointer becomes null.\<close>

definition free_array :: "ptr_array \<Rightarrow> u64 \<Rightarrow> kheap \<Rightarrow> ptr_array \<times> kheap" where
  "free_array a n h =
     (if fst a \<noteq> 0
      then ((0, []), kh_vfree (fst a) (hb_free_ept_pages_internal (snd a) (to_int n) h))
      else (a, h))"

definition hb_free_ept_pages :: "hb_ept_info \<Rightarrow> kheap \<Rightarrow> hb_ept_info \<times> kheap" where
  "hb_free_ept_pages info h =
     (let (a4, h) = free_array (pml4_page_addr_array info) (pml4_page_count info) h;
          (a3, h) = free_array (pdpte_pd_page_addr_array info) (pdpte_pd_page_count info) h;
          (a2, h) = free_array (pdept_page_addr_array info) (pdept_page_count info) h;
          (a1, h) = free_array (pte_page_addr_array info) (pte_page_count info) h
      in (info\<lparr>pml4_page_addr_array := a4, pdpte_pd_page_addr_array := a3,
               pdept_page_addr_array := a2, pte_page_addr_array := a1\<rparr>, h))"

section \<open>Size of the RAM\<close>

text \<open>The callback raises \<open>g_ram_end\<close> to the end of each System RAM range.\<close>

definition hb_callback_walk_ram :: "u64 \<times> u64 \<Rightarrow> u64 \<Rightarrow> u64" where
  "hb_callback_walk_ram rng g_ram_end = (let (start, size) = rng in
     if g_ram_end < (start + size) * PAGE_SIZE then (start + size) * PAGE_SIZE else g_ram_end)"

definition hb_get_max_ram_size :: "kernel_env \<Rightarrow> u64 option" where
  "hb_get_max_ram_size env = do {
     let total_pages = totalram_pages env;
     func \<leftarrow> hb_get_symbol_address env ''walk_system_ram_range'';
     if func = 0 then Some (total_pages * 2 * VAL_4KB)
     else Some (fold hb_callback_walk_ram (system_ram env 0 (total_pages * 2)) 0)
   }"

text \<open>The adjustment \<open>hyper_box_init\<close> makes: at least 4GB, a multiple of 1GB, plus 1GB.\<close>

definition adjust_max_ram_size :: "u64 \<Rightarrow> u64" where
  "adjust_max_ram_size ram =
     (if ram < VAL_4GB then VAL_4GB else CEIL ram VAL_1GB * VAL_1GB) + VAL_1GB"

end
