(* ===== verification/Task_Manager.thy ===== *)
theory Task_Manager
  imports Task_Tree Kernel_Env Ept
begin

text \<open>
  The task manager of the monitor (monitor.c): the pool of task nodes with its free list and search
  tree, the callbacks of the hardware breakpoints on task creation and exit, and the check for hidden
  tasks.

  \<^item> The pool is a function from the index of a node to its contents. The kernel's list macros are used
    as a stack on \<open>free_node_head\<close>; it is the list of the free indices.
  \<^item> \<open>task_struct\<close> holds the fields of the kernel's structure that the code reads; the tasks are objects of
    the guest, given to the operations as a function \<open>kt\<close> from pointers. The sequence that
    \<open>for_each_process_thread\<close> runs through is the argument \<open>procs\<close>: it is what the guest shows.
  \<^item> Signals sent through \<open>do_send_sig_info\<close>, error codes given to \<open>hb_error_log\<close> and the addresses
    handed to \<open>hb_sync_page_table\<close> are recorded in the state, in order.
  \<^item> The locks are spin locks taken at the start and released at the end of each access to the tree, so an
    operation is one atomic step. A loop over the tree may fail to return, so its users are partial.
\<close>

section \<open>Data\<close>

record cred =
  uid :: u32
  gid :: u32
  suid :: u32
  sgid :: u32
  euid :: u32
  egid :: u32
  fsuid :: u32
  fsgid :: u32

record task_struct =
  ts_pid :: int
  ts_tgid :: int
  ts_comm :: string
  ts_cred :: cred
  ts_seccomp_mode :: int
  ts_mm :: u64
  ts_group_leader :: u64
  ts_tasks_next :: u64
  ts_exe_dentries :: "string list"

record hb_task_node =
  tn_task :: u64
  tn_pid :: int
  tn_tgid :: int
  tn_comm :: string
  tn_cred :: cred
  tn_syscall_number :: int
  tn_need_exit :: int
  tn_need_trace :: int
  tn_seccomp_mode :: int
  tn_mm :: u64

text \<open>The counter \<open>g_task_count\<close> is an \<open>int\<close>: 32 bits that wrap around, read as a signed number.\<close>

record monitor =
  tm_pool :: "nat \<Rightarrow> hb_task_node"
  free_node_head :: "nat list"
  existing_node_head :: rbtree
  g_task_count :: "32 word"
  m_signals :: "u64 list"
  m_errors :: "int list"
  m_synced :: "u64 list"
  g_last_task_check_jiffies :: u64
  g_last_dkom_check_jiffies :: u64
  g_vfs_object_attack_detected :: int
  g_net_object_attack_detected :: int

text \<open>What the code takes from the kernel's headers and libraries.\<close>

record mon_env =
  rb_lib :: rb_library
  TASK_NODE_MAX :: nat
  sizeof_task_struct :: u64
  init_tasks_next :: u64

definition ERROR_KERNEL_MODIFICATION :: int where [hb_consts]: "ERROR_KERNEL_MODIFICATION = 4"
definition ERROR_TASK_OVERFLOW :: int where [hb_consts]: "ERROR_TASK_OVERFLOW = 8"

text \<open>System call numbers of the x86-64 ABI.\<close>

definition NR_clone :: int where [hb_consts]: "NR_clone = 56"
definition NR_fork :: int where [hb_consts]: "NR_fork = 57"
definition NR_vfork :: int where [hb_consts]: "NR_vfork = 58"
definition NR_execve :: int where [hb_consts]: "NR_execve = 59"
definition NR_execveat :: int where [hb_consts]: "NR_execveat = 322"

section \<open>Helpers\<close>

definition hb_error_log :: "int \<Rightarrow> monitor \<Rightarrow> monitor" where
  "hb_error_log code s = s\<lparr>m_errors := m_errors s @ [code]\<rparr>"

text \<open>\<open>g_do_send_sig_info_fp (SIGKILL, SEND_SIG_PRIV, task, PIDTYPE_TGID)\<close>\<close>

definition send_sigkill :: "u64 \<Rightarrow> monitor \<Rightarrow> monitor" where
  "send_sigkill task s = s\<lparr>m_signals := m_signals s @ [task]\<rparr>"

definition sync_page_count :: "u64 \<Rightarrow> u64 \<Rightarrow> u64" where
  "sync_page_count addr sz = ((addr mod VAL_4KB) + sz + VAL_4KB - 1) div VAL_4KB"

definition hb_sync_page :: "u64 \<Rightarrow> u64 \<Rightarrow> monitor \<Rightarrow> monitor" where
  "hb_sync_page addr sz s =
     fold (\<lambda>i s. s\<lparr>m_synced := m_synced s @ [addr + VAL_4KB * of_nat i]\<rparr>)
       [0..<unat (sync_page_count addr sz)] s"

text \<open>\<open>hb_common_node\<close> overlays \<open>hb_task_node\<close>: the key is the task pointer.\<close>

definition tm_key :: "monitor \<Rightarrow> nat \<Rightarrow> u64" where
  "tm_key s = (\<lambda>i. tn_task (tm_pool s i))"

definition hb_find_task :: "monitor \<Rightarrow> u64 \<Rightarrow> nat option" where
  "hb_find_task s task = hb_search_tree (tm_key s) (existing_node_head s) task"

definition set_node :: "nat \<Rightarrow> (hb_task_node \<Rightarrow> hb_task_node) \<Rightarrow> monitor \<Rightarrow> monitor" where
  "set_node i f s = s\<lparr>tm_pool := (tm_pool s)(i := f (tm_pool s i))\<rparr>"

section \<open>The task manager\<close>

definition zero_cred :: cred where
  "zero_cred = \<lparr>uid = 0, gid = 0, suid = 0, sgid = 0, euid = 0, egid = 0, fsuid = 0, fsgid = 0\<rparr>"

definition zero_node :: hb_task_node where
  "zero_node = \<lparr>tn_task = 0, tn_pid = 0, tn_tgid = 0, tn_comm = [], tn_cred = zero_cred,
     tn_syscall_number = 0, tn_need_exit = 0, tn_need_trace = 0, tn_seccomp_mode = 0, tn_mm = 0\<rparr>"

text \<open>All nodes are pushed on the free list, the last one on top.\<close>

definition all_free :: "nat \<Rightarrow> nat list" where
  "all_free n = fold (\<lambda>i xs. i # xs) [0..<n] []"

text \<open>\<open>pool\<close> is the result of \<open>vmalloc\<close>; the look-up of the signal function may not return.\<close>

definition hb_prepare_monitor :: "mon_env \<Rightarrow> kernel_env \<Rightarrow> u64 \<Rightarrow> monitor \<Rightarrow> (int \<times> monitor) option" where
  "hb_prepare_monitor env kenv pool s =
     (let s = s\<lparr>free_node_head := [], existing_node_head := Leaf\<rparr> in
      if pool = 0 then Some (-1, s)
      else
        let s = s\<lparr>tm_pool := (\<lambda>_. zero_node), free_node_head := all_free (TASK_NODE_MAX env)\<rparr>
        in do {
          _ \<leftarrow> hb_get_symbol_address kenv ''do_send_sig_info'';
          Some (0, s)
        })"

definition new_node :: "u64 \<Rightarrow> task_struct \<Rightarrow> hb_task_node" where
  "new_node task t =
     \<lparr>tn_task = task, tn_pid = ts_pid t, tn_tgid = ts_tgid t, tn_comm = ts_comm t, tn_cred = ts_cred t,
      tn_syscall_number = -1, tn_need_exit = 0, tn_need_trace = 0,
      tn_seccomp_mode = ts_seccomp_mode t, tn_mm = ts_mm t\<rparr>"

definition hb_add_task_to_task_manager ::
  "mon_env \<Rightarrow> (u64 \<Rightarrow> task_struct) \<Rightarrow> u64 \<Rightarrow> monitor \<Rightarrow> nat option \<times> monitor" where
  "hb_add_task_to_task_manager env kt task s =
     (let s = s\<lparr>g_task_count := g_task_count s + 1\<rparr> in
      case free_node_head s of
        [] \<Rightarrow> (None, hb_error_log ERROR_TASK_OVERFLOW s)
      | node # rest \<Rightarrow>
          let s = s\<lparr>free_node_head := rest\<rparr>;
              s = set_node node (\<lambda>_. new_node task (kt task)) s;
              s = s\<lparr>existing_node_head := hb_add_tree (rb_lib env) (tm_key s) node (existing_node_head s)\<rparr>
          in (Some node, s))"

definition hb_reset_task_manager :: "mon_env \<Rightarrow> monitor \<Rightarrow> monitor" where
  "hb_reset_task_manager env s =
     s\<lparr>tm_pool := (\<lambda>_. zero_node), existing_node_head := Leaf, g_task_count := 0,
       free_node_head := all_free (TASK_NODE_MAX env)\<rparr>"

text \<open>The loop stops when a task cannot be added.\<close>

fun hb_copy_task_list_to_task_manager ::
  "mon_env \<Rightarrow> (u64 \<Rightarrow> task_struct) \<Rightarrow> u64 list \<Rightarrow> monitor \<Rightarrow> monitor" where
  "hb_copy_task_list_to_task_manager env kt [] s = s"
| "hb_copy_task_list_to_task_manager env kt (iter # procs) s =
     (case hb_add_task_to_task_manager env kt iter s of
        (None, s) \<Rightarrow> s
      | (Some _, s) \<Rightarrow> hb_copy_task_list_to_task_manager env kt procs s)"

definition hb_init_monitor ::
  "mon_env \<Rightarrow> (u64 \<Rightarrow> task_struct) \<Rightarrow> u64 list \<Rightarrow> int \<Rightarrow> monitor \<Rightarrow> monitor" where
  "hb_init_monitor env kt procs reinitialize s =
     (if reinitialize = 0 then hb_copy_task_list_to_task_manager env kt procs s
      else hb_copy_task_list_to_task_manager env kt procs (hb_reset_task_manager env s))"

definition hb_del_task_from_task_manager :: "mon_env \<Rightarrow> u64 \<Rightarrow> monitor \<Rightarrow> int \<times> monitor" where
  "hb_del_task_from_task_manager env task s =
     (let s = s\<lparr>g_task_count := g_task_count s - 1\<rparr> in
      case hb_find_task s task of
        None \<Rightarrow> (-1, s)
      | Some found \<Rightarrow>
          (0, s\<lparr>existing_node_head := hb_del_tree (rb_lib env) (Some found) (existing_node_head s),
                free_node_head := found # free_node_head s\<rparr>))"

section \<open>Breakpoint callbacks\<close>

definition hb_set_exit_flag_in_list_with_lock :: "mon_env \<Rightarrow> int \<Rightarrow> monitor \<Rightarrow> monitor option" where
  "hb_set_exit_flag_in_list_with_lock env tgid s =
     rb_for_each (rb_lib env) existing_node_head
       (\<lambda>x s. if tn_tgid (tm_pool s x) = tgid then set_node x (\<lambda>n. n\<lparr>tn_need_exit := 1\<rparr>) s else s) s"

definition TASK_COMM_LEN :: nat where [hb_consts]: "TASK_COMM_LEN = 16"

definition g_hb_spawning_disabled_process :: "string list" where
  "g_hb_spawning_disabled_process = [''qemu-system-x86_64'']"

text \<open>\<open>strncmp (a, b, n) == 0\<close> on strings without their terminator.\<close>

definition strncmp_eq :: "string \<Rightarrow> string \<Rightarrow> nat \<Rightarrow> bool" where
  "strncmp_eq a b n \<longleftrightarrow> take n a = take n b"

definition spawn_comm :: "(u64 \<Rightarrow> task_struct) \<Rightarrow> u64 \<Rightarrow> string" where
  "spawn_comm kt current =
     (let c = kt current in
      if ts_pid c = ts_tgid c then ts_comm c
      else if ts_group_leader c \<noteq> 0 then ts_comm (kt (ts_group_leader c))
      else ts_comm c)"

definition hb_callback_add_task ::
  "mon_env \<Rightarrow> (u64 \<Rightarrow> task_struct) \<Rightarrow> u64 \<Rightarrow> u64 \<Rightarrow> monitor \<Rightarrow> monitor option" where
  "hb_callback_add_task env kt current task s =
     (let s = hb_sync_page task (sizeof_task_struct env) s;
          (added_task, s) = hb_add_task_to_task_manager env kt task s
      in case added_task of
           None \<Rightarrow> Some s
         | Some added \<Rightarrow>
        (case hb_find_task s current of
           None \<Rightarrow> Some s
         | Some found \<Rightarrow>
             let nr = tn_syscall_number (tm_pool s found) in
             if nr \<noteq> NR_fork \<and> nr \<noteq> NR_vfork \<and> nr \<noteq> NR_clone \<and> nr \<noteq> -1 then
               map_option (send_sigkill task)
                 (hb_set_exit_flag_in_list_with_lock env (ts_tgid (kt task)) s)
             else if ts_pid (kt task) = ts_tgid (kt task) \<and>
                     (\<exists>p \<in> set g_hb_spawning_disabled_process.
                        strncmp_eq (spawn_comm kt current) p (TASK_COMM_LEN - 1)) then
               Some (set_node added (\<lambda>n. n\<lparr>tn_need_trace := 1\<rparr>)
                      (set_node found (\<lambda>n. n\<lparr>tn_need_trace := 1\<rparr>) s))
             else Some s))"

definition hb_callback_del_task :: "mon_env \<Rightarrow> u64 \<Rightarrow> monitor \<Rightarrow> monitor" where
  "hb_callback_del_task env task s = snd (hb_del_task_from_task_manager env task s)"

section \<open>Hidden tasks\<close>

text \<open>The count stops one below the size of the pool. The page of the next task is made
  accessible before it is read.\<close>

fun count_tasks :: "mon_env \<Rightarrow> (u64 \<Rightarrow> task_struct) \<Rightarrow> u64 list \<Rightarrow> int \<Rightarrow> monitor \<Rightarrow> int \<times> monitor" where
  "count_tasks env kt [] c s = (c, s)"
| "count_tasks env kt (iter # procs) c s =
     (if c + 1 \<ge> int (TASK_NODE_MAX env) - 1 then (c + 1, s)
      else count_tasks env kt procs (c + 1)
        (hb_sync_page (ts_tasks_next (kt iter)) (sizeof_task_struct env) s))"

definition hb_get_task_count ::
  "mon_env \<Rightarrow> (u64 \<Rightarrow> task_struct) \<Rightarrow> u64 list \<Rightarrow> monitor \<Rightarrow> int \<times> monitor" where
  "hb_get_task_count env kt procs s =
     count_tasks env kt procs 0 (hb_sync_page (init_tasks_next env) (sizeof_task_struct env) s)"

text \<open>The comparison of the identifiers compares the task with itself.\<close>

fun find_in_list :: "mon_env \<Rightarrow> (u64 \<Rightarrow> task_struct) \<Rightarrow> u64 \<Rightarrow> u64 list \<Rightarrow> monitor \<Rightarrow> bool \<times> monitor" where
  "find_in_list env kt task [] s = (False, s)"
| "find_in_list env kt task (iter # procs) s =
     (if iter = task \<and> ts_pid (kt task) = ts_pid (kt iter) \<and> ts_tgid (kt task) = ts_tgid (kt iter)
      then (True, s)
      else find_in_list env kt task procs
        (hb_sync_page (ts_tasks_next (kt iter)) (sizeof_task_struct env) s))"

definition hb_is_in_task_list ::
  "mon_env \<Rightarrow> (u64 \<Rightarrow> task_struct) \<Rightarrow> u64 list \<Rightarrow> u64 \<Rightarrow> monitor \<Rightarrow> bool \<times> monitor" where
  "hb_is_in_task_list env kt procs task s =
     find_in_list env kt task procs (hb_sync_page (init_tasks_next env) (sizeof_task_struct env) s)"

definition check_task_node ::
  "mon_env \<Rightarrow> (u64 \<Rightarrow> task_struct) \<Rightarrow> u64 list \<Rightarrow> nat \<Rightarrow> monitor \<Rightarrow> monitor" where
  "check_task_node env kt procs x s =
     (let task = tn_task (tm_pool s x);
          (is_in, s) = hb_is_in_task_list env kt procs task s
      in if is_in then s
         else snd (hb_del_task_from_task_manager env task (send_sigkill task s)))"

definition hb_check_task_list ::
  "mon_env \<Rightarrow> (u64 \<Rightarrow> task_struct) \<Rightarrow> u64 list \<Rightarrow> monitor \<Rightarrow> (int \<times> monitor) option" where
  "hb_check_task_list env kt procs s =
     (let (cur_count, s) = hb_get_task_count env kt procs s in
      if sint (g_task_count s) > cur_count then
        map_option (\<lambda>s. (-1, hb_error_log ERROR_KERNEL_MODIFICATION s))
          (rb_for_each (rb_lib env) existing_node_head (check_task_node env kt procs) s)
      else Some (0, s))"

definition hb_callback_task_switch ::
  "mon_env \<Rightarrow> (u64 \<Rightarrow> task_struct) \<Rightarrow> u64 list \<Rightarrow> monitor \<Rightarrow> monitor option" where
  "hb_callback_task_switch env kt procs s = map_option snd (hb_check_task_list env kt procs s)"

section \<open>Invariant and abstraction\<close>

text \<open>The tree is an index by task pointer, and the nodes in the tree and on the free list are
  disjoint parts of the pool.\<close>

definition tm_wf :: "mon_env \<Rightarrow> monitor \<Rightarrow> bool" where
  "tm_wf env s \<longleftrightarrow> tree_invar (rb_lib env) (tm_key s) (existing_node_head s) \<and>
     distinct (free_node_head s) \<and> set (free_node_head s) \<inter> tree_nodes (existing_node_head s) = {} \<and>
     set (free_node_head s) \<union> tree_nodes (existing_node_head s) \<subseteq> {..<TASK_NODE_MAX env}"

text \<open>No node is lost: each is in the tree or on the free list.\<close>

definition tm_no_leak :: "mon_env \<Rightarrow> monitor \<Rightarrow> bool" where
  "tm_no_leak env s \<longleftrightarrow>
     set (free_node_head s) \<union> tree_nodes (existing_node_head s) = {..<TASK_NODE_MAX env}"

text \<open>The abstract view: which task pointers are tracked, with the data kept for each.\<close>

definition tracked :: "monitor \<Rightarrow> u64 \<Rightarrow> hb_task_node option" where
  "tracked s = (\<lambda>k. map_option (tm_pool s) (hb_find_task s k))"

definition sync_pages :: "u64 \<Rightarrow> u64 \<Rightarrow> u64 list" where
  "sync_pages addr sz = map (\<lambda>i. addr + VAL_4KB * of_nat i) [0..<unat (sync_page_count addr sz)]"

lemma hb_sync_page_eq: "hb_sync_page a n s = s\<lparr>m_synced := m_synced s @ sync_pages a n\<rparr>"
proof -
  have "fold (\<lambda>i s. s\<lparr>m_synced := m_synced s @ [g i]\<rparr>) xs s = s\<lparr>m_synced := m_synced s @ map g xs\<rparr>"
    for g and xs :: "nat list" and s :: monitor
    by (induction xs arbitrary: s) simp_all
  then show ?thesis by (simp add: hb_sync_page_def sync_pages_def)
qed

lemma sync_select [simp]:
  "tm_pool (hb_sync_page a n s) = tm_pool s" "free_node_head (hb_sync_page a n s) = free_node_head s"
  "existing_node_head (hb_sync_page a n s) = existing_node_head s" "g_task_count (hb_sync_page a n s) = g_task_count s"
  "m_signals (hb_sync_page a n s) = m_signals s" "m_errors (hb_sync_page a n s) = m_errors s"
  by (simp_all add: hb_sync_page_eq)

lemma find_cong:
  assumes "tm_pool s' = tm_pool s" "existing_node_head s' = existing_node_head s"
  shows "hb_find_task s' = hb_find_task s" "tracked s' = tracked s" "tm_key s' = tm_key s"
  using assms by (simp_all add: hb_find_task_def [abs_def] tracked_def tm_key_def)

lemma tm_wf_cong:
  assumes "tm_pool s' = tm_pool s" "existing_node_head s' = existing_node_head s" "free_node_head s' = free_node_head s"
  shows "tm_wf env s' = tm_wf env s" "tm_no_leak env s' = tm_no_leak env s"
  using assms by (simp_all add: tm_wf_def tm_no_leak_def tm_key_def)

lemma set_node_simps [simp]:
  "free_node_head (set_node i f s) = free_node_head s"
  "existing_node_head (set_node i f s) = existing_node_head s"
  "g_task_count (set_node i f s) = g_task_count s" "m_signals (set_node i f s) = m_signals s"
  "tm_pool (set_node i f s) = (tm_pool s)(i := f (tm_pool s i))"
  by (simp_all add: set_node_def)

text \<open>Changing a node without its task pointer keeps the index.\<close>

lemma set_node_key:
  assumes "\<And>n. tn_task (f n) = tn_task n"
  shows "tm_key (set_node i f s) = tm_key s" "hb_find_task (set_node i f s) = hb_find_task s"
    "tm_wf env (set_node i f s) = tm_wf env s" "tm_no_leak env (set_node i f s) = tm_no_leak env s"
proof -
  show k: "tm_key (set_node i f s) = tm_key s" using assms by (auto simp: tm_key_def)
  show "hb_find_task (set_node i f s) = hb_find_task s" by (simp add: hb_find_task_def k fun_eq_iff)
  show "tm_wf env (set_node i f s) = tm_wf env s" "tm_no_leak env (set_node i f s) = tm_no_leak env s"
    by (simp_all add: tm_wf_def tm_no_leak_def k)
qed

section \<open>Adding and removing tasks\<close>

lemma find_iff:
  "tm_wf env s \<Longrightarrow> hb_find_task s k = Some x \<longleftrightarrow> x \<in> tree_nodes (existing_node_head s) \<and> tn_task (tm_pool s x) = k"
  using tree.find_iff [of "rb_lib env" "tm_key s" "existing_node_head s" k x]
  by (simp add: tm_wf_def hb_find_task_def tm_key_def)

text \<open>The state in which \<open>hb_add_tree\<close> is called: the new node has its contents and is off the free
  list.\<close>

lemma add_task_eq:
  assumes "free_node_head s = node # rest"
  shows "hb_add_task_to_task_manager env kt task s =
    (let s' = set_node node (\<lambda>_. new_node task (kt task)) (s\<lparr>g_task_count := g_task_count s + 1, free_node_head := rest\<rparr>)
     in (Some node, s'\<lparr>existing_node_head := hb_add_tree (rb_lib env) (tm_key s') node (existing_node_head s)\<rparr>))"
  using assms by (simp add: hb_add_task_to_task_manager_def Let_def)

lemma add_task_invar:
  assumes wf: "tm_wf env s" and free: "free_node_head s = node # rest"
    and s': "s' = set_node node (\<lambda>_. new_node task (kt task)) (s\<lparr>g_task_count := g_task_count s + 1, free_node_head := rest\<rparr>)"
  shows "tree_invar (rb_lib env) (tm_key s') (existing_node_head s)" "tm_key s' node = task"
    "node \<notin> tree_nodes (existing_node_head s)"
    "hb_search_tree (tm_key s') (existing_node_head s) k = hb_find_task s k"
proof -
  show node: "node \<notin> tree_nodes (existing_node_head s)" using wf free by (auto simp: tm_wf_def)
  have keys: "\<forall>x \<in> tree_nodes (existing_node_head s). tm_key s' x = tm_key s x"
    using node by (auto simp: s' tm_key_def)
  have inv: "tree_invar (rb_lib env) (tm_key s) (existing_node_head s)" using wf by (simp add: tm_wf_def)
  then show inv': "tree_invar (rb_lib env) (tm_key s') (existing_node_head s)" using tree.invar_cong [OF keys] by simp
  show "tm_key s' node = task" by (simp add: s' tm_key_def new_node_def)
  have "hb_search_tree (tm_key s') (existing_node_head s) k = Some x \<longleftrightarrow> hb_find_task s k = Some x" for x
    using tree.find_iff [OF inv', of k x] tree.find_iff [OF inv, of k x] keys by (auto simp: hb_find_task_def)
  then show "hb_search_tree (tm_key s') (existing_node_head s) k = hb_find_task s k" by (metis not_Some_eq)
qed

lemma add_task_new:
  assumes wf: "tm_wf env s" and free: "free_node_head s = node # rest" and fresh: "hb_find_task s task = None"
    and res: "hb_add_task_to_task_manager env kt task s = (r, t)"
  shows "r = Some node" "tm_wf env t" "tracked t = (tracked s)(task \<mapsto> new_node task (kt task))"
    "tm_no_leak env s \<Longrightarrow> tm_no_leak env t" "free_node_head t = rest" "hb_find_task t task = Some node"
    "tree_nodes (existing_node_head t) = insert node (tree_nodes (existing_node_head s))"
proof -
  define s' where "s' = set_node node (\<lambda>_. new_node task (kt task))
    (s\<lparr>g_task_count := g_task_count s + 1, free_node_head := rest\<rparr>)"
  note inv = add_task_invar [where kt = kt and task = task, OF wf free s'_def]
  have t: "t = s'\<lparr>existing_node_head := hb_add_tree (rb_lib env) (tm_key s') node (existing_node_head s)\<rparr>"
    and r: "r = Some node" using res add_task_eq [OF free] by (simp_all add: s'_def Let_def)
  have key: "tm_key t = tm_key s'" by (simp add: t tm_key_def)
  have pool: "tm_pool t = (tm_pool s)(node := new_node task (kt task))" by (simp add: t s'_def)
  have none: "hb_search_tree (tm_key s') (existing_node_head s) (tm_key s' node) = None"
    using inv(2,4) fresh by simp
  have nodes: "tree_nodes (existing_node_head t) = insert node (tree_nodes (existing_node_head s))"
  proof -
    have "task \<notin> tm_key s' ` tree_nodes (existing_node_head s)"
      using tree.find_iff [OF inv(1), of task] none inv(2) by force
    then show ?thesis using tree.add_nodes [OF inv(1), of node] inv(2) by (simp add: t)
  qed
  have fnd: "hb_find_task t k = (if k = task then Some node else hb_find_task s k)" for k
    using tree.find_add_new [OF inv(1) none, of k] inv(2) inv(4) [of k] unfolding hb_find_task_def key by (simp add: t)
  show "r = Some node" by (rule r)
  show "free_node_head t = rest" by (simp add: t s'_def)
  show "hb_find_task t task = Some node" using fnd by simp
  show "tree_nodes (existing_node_head t) = insert node (tree_nodes (existing_node_head s))" by (rule nodes)
  show "tm_wf env t"
    using wf free tree.add_invar [OF inv(1), of node] inv(3) nodes
    by (auto simp: tm_wf_def key) (auto simp: t s'_def)
  show "tm_no_leak env s \<Longrightarrow> tm_no_leak env t" using free nodes by (auto simp: tm_no_leak_def t s'_def)
  have "hb_find_task s k \<noteq> Some node" for k using find_iff [OF wf, of k node] inv(3) by simp
  then show "tracked t = (tracked s)(task \<mapsto> new_node task (kt task))"
    by (auto simp: tracked_def fnd pool fun_eq_iff map_option_case split: option.splits)
qed


text \<open>A task that is already tracked: the node is taken from the free list but not entered.\<close>

lemma add_task_present:
  assumes wf: "tm_wf env s" and free: "free_node_head s = node # rest" and old: "hb_find_task s task = Some x"
    and res: "hb_add_task_to_task_manager env kt task s = (r, t)"
  shows "r = Some node" "tm_wf env t" "tracked t = tracked s" "free_node_head t = rest"
    "tree_nodes (existing_node_head t) = tree_nodes (existing_node_head s)" "node \<notin> tree_nodes (existing_node_head s)"
proof -
  define s' where "s' = set_node node (\<lambda>_. new_node task (kt task))
    (s\<lparr>g_task_count := g_task_count s + 1, free_node_head := rest\<rparr>)"
  note inv = add_task_invar [where kt = kt and task = task, OF wf free s'_def]
  have t: "t = s'\<lparr>existing_node_head := hb_add_tree (rb_lib env) (tm_key s') node (existing_node_head s)\<rparr>"
    and r: "r = Some node" using res add_task_eq [OF free] by (simp_all add: s'_def Let_def)
  have key: "tm_key t = tm_key s'" by (simp add: t tm_key_def)
  have pool: "tm_pool t = (tm_pool s)(node := new_node task (kt task))" by (simp add: t s'_def)
  have old': "hb_search_tree (tm_key s') (existing_node_head s) (tm_key s' node) = Some x"
    using inv(2,4) old by simp
  have nodes: "tree_nodes (existing_node_head t) = tree_nodes (existing_node_head s)"
    using tree.find_add_present(1) [OF inv(1) old'] by (simp add: t)
  have fnd: "hb_find_task t k = hb_find_task s k" for k
    using tree.find_add_present(2) [OF inv(1) old', of k] inv(4) [of k] unfolding hb_find_task_def key by (simp add: t)
  show "r = Some node" "node \<notin> tree_nodes (existing_node_head s)" by (rule r, rule inv(3))
  show "tree_nodes (existing_node_head t) = tree_nodes (existing_node_head s)" by (rule nodes)
  show "free_node_head t = rest" by (simp add: t s'_def)
  show "tm_wf env t"
    using wf free tree.add_invar [OF inv(1), of node] nodes
    by (auto simp: tm_wf_def key) (auto simp: t s'_def)
  have "hb_find_task s k \<noteq> Some node" for k using find_iff [OF wf, of k node] inv(3) by simp
  then show "tracked t = tracked s"
    by (auto simp: tracked_def fnd pool fun_eq_iff map_option_case split: option.splits)
qed

lemma add_task_count:
  "hb_add_task_to_task_manager env kt task s = (r, t) \<Longrightarrow> g_task_count t = g_task_count s + 1"
  by (auto simp: hb_add_task_to_task_manager_def hb_error_log_def Let_def split: list.splits)

lemma del_task_count:
  "hb_del_task_from_task_manager env task s = (r, t) \<Longrightarrow> g_task_count t = g_task_count s - 1"
  by (auto simp: hb_del_task_from_task_manager_def Let_def split: option.splits)

lemma add_task_full:
  assumes "free_node_head s = []" "hb_add_task_to_task_manager env kt task s = (r, t)"
  shows "r = None" "tracked t = tracked s" "tm_wf env t = tm_wf env s" "tm_no_leak env t = tm_no_leak env s"
    "free_node_head t = []"
proof -
  have r: "r = None" and t: "t = hb_error_log ERROR_TASK_OVERFLOW (s\<lparr>g_task_count := g_task_count s + 1\<rparr>)"
    using assms by (simp_all add: hb_add_task_to_task_manager_def)
  have same: "tm_pool t = tm_pool s" "existing_node_head t = existing_node_head s" "free_node_head t = free_node_head s"
    by (simp_all add: t hb_error_log_def)
  show "r = None" "tracked t = tracked s" "tm_wf env t = tm_wf env s" "tm_no_leak env t = tm_no_leak env s"
    "free_node_head t = []"
    using r find_cong(2) [OF same(1,2)] tm_wf_cong [OF same] same assms(1) by simp_all
qed

lemma del_task_found:
  assumes wf: "tm_wf env s" and found: "hb_find_task s task = Some x"
    and res: "hb_del_task_from_task_manager env task s = (r, t)"
  shows "r = 0" "tm_wf env t" "tracked t = (tracked s)(task := None)" "free_node_head t = x # free_node_head s"
    "tm_no_leak env s \<Longrightarrow> tm_no_leak env t" "tree_nodes (existing_node_head t) = tree_nodes (existing_node_head s) - {x}"
proof -
  let ?t = "hb_del_tree (rb_lib env) (Some x) (existing_node_head s)"
  have c: "hb_find_task (s\<lparr>g_task_count := g_task_count s - 1\<rparr>) = hb_find_task s" by (rule find_cong) simp_all
  have t: "t = s\<lparr>g_task_count := g_task_count s - 1, existing_node_head := ?t, free_node_head := x # free_node_head s\<rparr>"
    and r: "r = 0" using res found by (auto simp: hb_del_task_from_task_manager_def c)
  have key: "tm_key t = tm_key s" by (simp add: t tm_key_def)
  have inv: "tree_invar (rb_lib env) (tm_key s) (existing_node_head s)" using wf by (simp add: tm_wf_def)
  have x: "x \<in> tree_nodes (existing_node_head s)" using find_iff [OF wf] found by blast
  note nodes = tree.del_nodes [OF inv x] and inv' = tree.del_invar [OF inv x]
  have fnd: "hb_find_task t k = (if k = task then None else hb_find_task s k)" for k
    using tree.find_del [OF inv found [unfolded hb_find_task_def], of k] unfolding hb_find_task_def key by (simp add: t)
  show "r = 0" by (rule r)
  show "free_node_head t = x # free_node_head s" by (simp add: t)
  show "tree_nodes (existing_node_head t) = tree_nodes (existing_node_head s) - {x}" using nodes by (simp add: t)
  show "tm_wf env t" using wf x inv' nodes by (auto simp: tm_wf_def key) (auto simp: t)
  show "tm_no_leak env s \<Longrightarrow> tm_no_leak env t" using x nodes by (auto simp: tm_no_leak_def t)
  have pool: "tm_pool t = tm_pool s" by (simp add: t)
  show "tracked t = (tracked s)(task := None)" by (rule ext) (simp add: tracked_def fnd pool)
qed

lemma del_task_missing:
  assumes "hb_find_task s task = None" "hb_del_task_from_task_manager env task s = (r, t)"
  shows "r = -1" "t = s\<lparr>g_task_count := g_task_count s - 1\<rparr>"
proof -
  have c: "hb_find_task (s\<lparr>g_task_count := g_task_count s - 1\<rparr>) = hb_find_task s" by (rule find_cong) simp_all
  show "r = -1" "t = s\<lparr>g_task_count := g_task_count s - 1\<rparr>"
    using assms by (auto simp: hb_del_task_from_task_manager_def c)
qed

section \<open>Initialisation\<close>

lemma all_free_eq: "all_free n = rev [0..<n]"
proof -
  have "fold (\<lambda>i xs. i # xs) ys zs = rev ys @ zs" for ys zs :: "nat list"
    by (induction ys arbitrary: zs) simp_all
  then show ?thesis by (simp add: all_free_def)
qed

lemma reset_wf:
  assumes "rb_ok (rb_lib env)"
  shows "tm_wf env (hb_reset_task_manager env s)" "tm_no_leak env (hb_reset_task_manager env s)"
    "tracked (hb_reset_task_manager env s) = Map.empty"
  using assms by (auto simp: hb_reset_task_manager_def tm_wf_def tm_no_leak_def tree_invar_def tree_nodes_def
      ordered_def all_free_eq tracked_def hb_find_task_def)

lemma copy_tasks:
  assumes "tm_wf env s" "tm_no_leak env s" "distinct procs" "length procs \<le> length (free_node_head s)"
    and "\<forall>p \<in> set procs. hb_find_task s p = None"
  shows "tm_wf env (hb_copy_task_list_to_task_manager env kt procs s) \<and>
    tm_no_leak env (hb_copy_task_list_to_task_manager env kt procs s) \<and>
    tracked (hb_copy_task_list_to_task_manager env kt procs s) =
      (\<lambda>p. if p \<in> set procs then Some (new_node p (kt p)) else tracked s p)"
  using assms
proof (induction procs arbitrary: s)
  case (Cons p procs)
  obtain node rest where free: "free_node_head s = node # rest" using Cons.prems(4) by (cases "free_node_head s") auto
  obtain r t where res: "hb_add_task_to_task_manager env kt p s = (r, t)" by fastforce
  have fresh: "hb_find_task s p = None" using Cons.prems(5) by simp
  note new = add_task_new [OF Cons.prems(1) free fresh res]
  have t: "tracked t = (tracked s)(p \<mapsto> new_node p (kt p))" by (rule new(3))
  have none: "\<forall>q \<in> set procs. hb_find_task t q = None"
  proof
    fix q assume "q \<in> set procs"
    then have "tracked t q = None" using Cons.prems(3,5) t by (auto simp: tracked_def)
    then show "hb_find_task t q = None" by (simp add: tracked_def)
  qed
  have len: "length procs \<le> length (free_node_head t)" using Cons.prems(4) free new(5) by simp
  from Cons.IH [OF new(2) new(4) [OF Cons.prems(2)] _ len none] Cons.prems(3)
  show ?case using res new(1) t by (auto simp: fun_eq_iff)
qed auto

section \<open>Exit flags\<close>

text \<open>The loop body, and its effect on the pool.\<close>

definition flag_node :: "int \<Rightarrow> hb_task_node \<Rightarrow> hb_task_node" where
  "flag_node g n = (if tn_tgid n = g then n\<lparr>tn_need_exit := 1\<rparr> else n)"

lemma flag_body:
  "(if tn_tgid (tm_pool s x) = g then set_node x (\<lambda>n. n\<lparr>tn_need_exit := 1\<rparr>) s else s) =
     set_node x (flag_node g) s"
  by (simp add: flag_node_def set_node_def)

lemma exit_flag_fold:
  "distinct xs \<Longrightarrow> fold (\<lambda>x. set_node x (flag_node g)) xs s =
     s\<lparr>tm_pool := (\<lambda>x. if x \<in> set xs then flag_node g (tm_pool s x) else tm_pool s x)\<rparr>"
proof (induction xs arbitrary: s)
  case (Cons x xs)
  then have "fold (\<lambda>x. set_node x (flag_node g)) (x # xs) s = (set_node x (flag_node g) s)
      \<lparr>tm_pool := (\<lambda>y. if y \<in> set xs then flag_node g (tm_pool (set_node x (flag_node g) s) y)
        else tm_pool (set_node x (flag_node g) s) y)\<rparr>" by simp
  also have "\<dots> = s\<lparr>tm_pool := (\<lambda>y. if y \<in> set xs then flag_node g (tm_pool (set_node x (flag_node g) s) y)
        else tm_pool (set_node x (flag_node g) s) y)\<rparr>" by (simp add: set_node_def)
  also have "(\<lambda>y. if y \<in> set xs then flag_node g (tm_pool (set_node x (flag_node g) s) y)
        else tm_pool (set_node x (flag_node g) s) y) =
      (\<lambda>y. if y \<in> set (x # xs) then flag_node g (tm_pool s y) else tm_pool s y)"
    using Cons.prems by (auto simp: fun_eq_iff)
  finally show ?case .
qed simp

lemma exit_flag_eq:
  assumes "tm_wf env s"
  shows "hb_set_exit_flag_in_list_with_lock env g s =
    Some (s\<lparr>tm_pool := (\<lambda>x. if x \<in> tree_nodes (existing_node_head s)
        then flag_node g (tm_pool s x) else tm_pool s x)\<rparr>)"
proof -
  have ok: "rb_ok (rb_lib env)" "distinct (inorder (existing_node_head s))"
    using assms ordered_distinct by (auto simp: tm_wf_def tree_invar_def)
  have "hb_set_exit_flag_in_list_with_lock env g s =
      Some (fold (\<lambda>x. set_node x (flag_node g)) (inorder (existing_node_head s)) s)"
    unfolding hb_set_exit_flag_in_list_with_lock_def flag_body by (rule rb_for_each_fold) (use ok in simp_all)
  then show ?thesis by (simp add: exit_flag_fold [OF ok(2)] tree_nodes_def)
qed

text \<open>The flag does not touch the index.\<close>

definition flagged :: "int \<Rightarrow> hb_task_node option \<Rightarrow> hb_task_node option" where
  "flagged g = map_option (flag_node g)"

lemma exit_flag_spec:
  assumes "tm_wf env s"
  shows "\<exists>t. hb_set_exit_flag_in_list_with_lock env g s = Some t \<and> tm_wf env t \<and>
    tm_no_leak env t = tm_no_leak env s \<and> hb_find_task t = hb_find_task s \<and>
    (\<forall>k. tracked t k = flagged g (tracked s k)) \<and> m_signals t = m_signals s \<and>
    free_node_head t = free_node_head s \<and> existing_node_head t = existing_node_head s"
proof -
  let ?p = "\<lambda>x. if x \<in> tree_nodes (existing_node_head s) then flag_node g (tm_pool s x) else tm_pool s x"
  have key: "tm_key (s\<lparr>tm_pool := ?p\<rparr>) = tm_key s" by (auto simp: tm_key_def flag_node_def)
  have f: "hb_find_task (s\<lparr>tm_pool := ?p\<rparr>) = hb_find_task s" by (simp add: hb_find_task_def [abs_def] key)
  have "tracked (s\<lparr>tm_pool := ?p\<rparr>) k = flagged g (tracked s k)" for k
    using find_iff [OF assms, of k] by (cases "hb_find_task s k") (auto simp: tracked_def f flagged_def)
  then show ?thesis
    using exit_flag_eq [OF assms, of g] assms f by (auto simp: tm_wf_def tm_no_leak_def key)
qed

section \<open>Visible tasks\<close>

lemma find_in_list_iff: "fst (find_in_list env kt task procs s) \<longleftrightarrow> task \<in> set procs"
  by (induction procs arbitrary: s) auto

lemma sync_self: "\<exists>ys. (s :: monitor) = s\<lparr>m_synced := ys\<rparr>"
  by (rule exI [of _ "m_synced s"]) simp

lemma find_in_list_state: "\<exists>ys. snd (find_in_list env kt task procs s) = s\<lparr>m_synced := ys\<rparr>"
proof (induction procs arbitrary: s)
  case (Cons p procs)
  show ?case
    using Cons [of "hb_sync_page (ts_tasks_next (kt p)) (sizeof_task_struct env) s"]
    by (auto simp: hb_sync_page_eq intro: sync_self)
qed (auto intro: sync_self)

lemma count_tasks_state: "\<exists>ys. snd (count_tasks env kt procs c s) = s\<lparr>m_synced := ys\<rparr>"
proof (induction procs arbitrary: c s)
  case (Cons p procs)
  show ?case
    using Cons [of "c + 1" "hb_sync_page (ts_tasks_next (kt p)) (sizeof_task_struct env) s"]
    by (auto simp: hb_sync_page_eq intro: sync_self)
qed (auto intro: sync_self)

lemma count_tasks_count:
  assumes "c + int (length procs) < int (TASK_NODE_MAX env) - 1"
  shows "fst (count_tasks env kt procs c s) = c + int (length procs)"
  using assms by (induction procs arbitrary: c s) auto

lemma check_node_visible:
  assumes "tn_task (tm_pool s x) \<in> set procs"
  shows "\<exists>ys. check_task_node env kt procs x s = s\<lparr>m_synced := ys\<rparr>"
proof -
  let ?t = "hb_sync_page (init_tasks_next env) (sizeof_task_struct env) s"
  obtain ys where "snd (find_in_list env kt (tn_task (tm_pool s x)) procs ?t) = ?t\<lparr>m_synced := ys\<rparr>"
    using find_in_list_state by blast
  moreover have "fst (find_in_list env kt (tn_task (tm_pool s x)) procs ?t)" using find_in_list_iff assms by blast
  ultimately show ?thesis
    by (auto simp: check_task_node_def hb_is_in_task_list_def Let_def split_beta hb_sync_page_eq)
qed

lemma rb_loop_visible:
  assumes ok: "rb_ok lib" and d: "distinct (inorder (existing_node_head s))"
    and vis: "\<forall>x \<in> set (inorder (existing_node_head s)). tn_task (tm_pool s x) \<in> set procs"
    and split: "inorder (existing_node_head s) = xs @ ys"
  shows "\<exists>zs. rb_loop lib existing_node_head (check_task_node env kt procs)
      (case ys of [] \<Rightarrow> None | y # _ \<Rightarrow> Some y) s = Some (s\<lparr>m_synced := zs\<rparr>)"
  using d vis split
proof (induction ys arbitrary: xs s)
  case Nil
  then show ?case using sync_self [of s] by (auto simp: rb_loop.simps)
next
  case (Cons y ys)
  obtain zs where step: "check_task_node env kt procs y s = s\<lparr>m_synced := zs\<rparr>"
    using check_node_visible [of s y procs env kt] Cons.prems by auto
  have nxt: "rb_next lib (existing_node_head s) y = (case ys of [] \<Rightarrow> None | z # _ \<Rightarrow> Some z)"
    using ok Cons.prems next_of_append [of xs y ys] by (simp add: rb_ok_def)
  obtain zs' where "rb_loop lib existing_node_head (check_task_node env kt procs)
      (case ys of [] \<Rightarrow> None | z # _ \<Rightarrow> Some z) (s\<lparr>m_synced := zs\<rparr>) = Some (s\<lparr>m_synced := zs, m_synced := zs'\<rparr>)"
    using Cons.IH [of "s\<lparr>m_synced := zs\<rparr>" "xs @ [y]"] Cons.prems by auto
  then show ?case by (subst rb_loop.simps) (auto simp: step nxt Let_def)
qed

section \<open>Properties\<close>

text \<open>C24: adding a task keeps the invariant of the task manager and refines the map from task pointers
  to their data: a new task is entered with exactly the data of its \<open>task_struct\<close>, a task that is tracked
  already keeps the data recorded first, and with no free node left nothing changes and null is returned.\<close>

theorem add_task_refines:
  assumes "tm_wf env s" "hb_add_task_to_task_manager env kt task s = (r, t)"
  shows "tm_wf env t \<and> (r = None \<longleftrightarrow> free_node_head s = []) \<and> g_task_count t = g_task_count s + 1 \<and>
    tracked t = (if free_node_head s = [] \<or> task \<in> dom (tracked s) then tracked s
      else (tracked s)(task \<mapsto> new_node task (kt task)))"
proof -
  have dom: "task \<in> dom (tracked s) \<longleftrightarrow> hb_find_task s task \<noteq> None" by (auto simp: tracked_def)
  note cnt = add_task_count [OF assms(2)]
  show ?thesis
  proof (cases "free_node_head s")
    case Nil
    with add_task_full [OF Nil assms(2)] assms(1) cnt show ?thesis by simp
  next
    case (Cons node rest)
    show ?thesis
    proof (cases "hb_find_task s task")
      case None
      with add_task_new [OF assms(1) Cons None assms(2)] dom cnt Cons show ?thesis by simp
    next
      case (Some x)
      with add_task_present [OF assms(1) Cons Some assms(2)] dom cnt Cons show ?thesis by simp
    qed
  qed
qed

text \<open>A small pool with the library without rebalancing, and three tasks.\<close>

definition sample_mon_env :: mon_env where
  "sample_mon_env = \<lparr>rb_lib = plain_lib, TASK_NODE_MAX = 4, sizeof_task_struct = 0x1A40, init_tasks_next = 0x7000\<rparr>"

definition sample_cred :: "u32 \<Rightarrow> cred" where
  "sample_cred i = \<lparr>uid = i, gid = i, suid = i, sgid = i, euid = i, egid = i, fsuid = i, fsgid = i\<rparr>"

definition sample_task :: "u64 \<Rightarrow> task_struct" where
  "sample_task p = \<lparr>ts_pid = int (unat p), ts_tgid = int (unat p), ts_comm = ''bash'', ts_cred = sample_cred 1000,
     ts_seccomp_mode = 0, ts_mm = p + 1, ts_group_leader = p, ts_tasks_next = p + 0x10, ts_exe_dentries = [''bash'', ''bin'']\<rparr>"

definition sample_monitor :: monitor where
  "sample_monitor = hb_reset_task_manager sample_mon_env
     \<lparr>tm_pool = (\<lambda>_. zero_node), free_node_head = [], existing_node_head = Leaf, g_task_count = 0, m_signals = [],
      m_errors = [], m_synced = [], g_last_task_check_jiffies = 0, g_last_dkom_check_jiffies = 0,
      g_vfs_object_attack_detected = 0, g_net_object_attack_detected = 0\<rparr>"

lemma sample_monitor_wf: "tm_wf sample_mon_env sample_monitor" "tm_no_leak sample_mon_env sample_monitor"
    "tracked sample_monitor = Map.empty" "free_node_head sample_monitor = [3, 2, 1, 0]"
    "g_task_count sample_monitor = 0" "existing_node_head sample_monitor = Leaf" "m_signals sample_monitor = []"
proof -
  have "rb_ok (rb_lib sample_mon_env)" by (simp add: sample_mon_env_def plain_lib_ok)
  then show "tm_wf sample_mon_env sample_monitor" "tm_no_leak sample_mon_env sample_monitor"
    "tracked sample_monitor = Map.empty" by (simp_all add: sample_monitor_def reset_wf)
  show "free_node_head sample_monitor = [3, 2, 1, 0]" "g_task_count sample_monitor = 0"
    "existing_node_head sample_monitor = Leaf" "m_signals sample_monitor = []"
    by (simp_all add: sample_monitor_def hb_reset_task_manager_def sample_mon_env_def all_free_def upt_rec)
qed

theorem add_task_refines_witness:
  "tracked (snd (hb_add_task_to_task_manager sample_mon_env sample_task 0x5000 sample_monitor)) 0x5000 =
     Some (new_node 0x5000 (sample_task 0x5000))"
  using add_task_refines [OF sample_monitor_wf(1) surjective_pairing] sample_monitor_wf by simp

text \<open>C25: deleting a task removes exactly its entry, returns its node to the free list, keeps the invariant,
  and reports -1 where the task is not tracked; no node is ever lost by it.\<close>

theorem del_task_refines:
  assumes "tm_wf env s" "hb_del_task_from_task_manager env task s = (r, t)"
  shows "tm_wf env t \<and> tracked t = (tracked s)(task := None) \<and>
    (r = 0 \<longleftrightarrow> task \<in> dom (tracked s)) \<and> (r = 0 \<or> r = -1) \<and>
    (tm_no_leak env s \<longrightarrow> tm_no_leak env t) \<and>
    length (free_node_head t) = length (free_node_head s) + (if task \<in> dom (tracked s) then 1 else 0)"
proof (cases "hb_find_task s task")
  case None
  note d = del_task_missing [OF None assms(2)]
  have same: "tm_pool t = tm_pool s" "existing_node_head t = existing_node_head s" "free_node_head t = free_node_head s"
    by (simp_all add: d(2))
  have "tracked s task = None" by (simp add: tracked_def None)
  then show ?thesis
    using d(1) assms(1) find_cong(2) [OF same(1,2)] tm_wf_cong [OF same] same(3) by (auto simp: fun_upd_idem)
next
  case (Some x)
  then have "task \<in> dom (tracked s)" by (auto simp: tracked_def)
  with del_task_found [OF assms(1) Some assms(2)] show ?thesis by simp
qed

theorem del_task_refines_witness:
  "fst (hb_del_task_from_task_manager sample_mon_env 0x5000 sample_monitor) = -1"
  using del_task_refines [OF sample_monitor_wf(1) surjective_pairing, of "0x5000"] sample_monitor_wf(3) by auto

text \<open>Creation followed by exit of a task leaves the task manager as it was: the same tasks are tracked,
  the same nodes are free in the same order, and the counter has its old value.\<close>

theorem add_del_task_roundtrip:
  assumes "tm_wf env s" "free_node_head s \<noteq> []" "task \<notin> dom (tracked s)"
  shows "\<exists>t. hb_del_task_from_task_manager env task (snd (hb_add_task_to_task_manager env kt task s)) = (0, t) \<and>
    tm_wf env t \<and> tracked t = tracked s \<and> free_node_head t = free_node_head s \<and> g_task_count t = g_task_count s"
proof -
  obtain node rest where free: "free_node_head s = node # rest" using assms(2) by (cases "free_node_head s") auto
  obtain r a where add: "hb_add_task_to_task_manager env kt task s = (r, a)" by fastforce
  obtain c t where del: "hb_del_task_from_task_manager env task a = (c, t)" by fastforce
  have none: "hb_find_task s task = None" using assms(3) by (auto simp: tracked_def)
  note n = add_task_new [OF assms(1) free none add]
  note d = del_task_found [OF n(2) n(6) del]
  have "tracked t = tracked s" using d(3) n(3) assms(3) by (auto simp: fun_eq_iff)
  moreover have "g_task_count t = g_task_count s" using add_task_count [OF add] del_task_count [OF del] by simp
  ultimately show ?thesis using d add del n(5) free by simp
qed


theorem add_del_task_roundtrip_witness:
  "fst (hb_del_task_from_task_manager sample_mon_env 0x5000
     (snd (hb_add_task_to_task_manager sample_mon_env sample_task 0x5000 sample_monitor))) = 0"
  using add_del_task_roundtrip [OF sample_monitor_wf(1), of "0x5000" sample_task] sample_monitor_wf by auto

text \<open>When the kernel reports a task that is tracked already, the node taken from the free list for it
  is neither entered in the tree nor given back: it is lost for good, although the operation returns it.\<close>

theorem duplicate_task_leaks_node:
  assumes "tm_wf env s" "free_node_head s = node # rest" "task \<in> dom (tracked s)"
    and "hb_add_task_to_task_manager env kt task s = (r, t)"
  shows "r = Some node \<and> node \<notin> tree_nodes (existing_node_head t) \<and> node \<notin> set (free_node_head t) \<and>
    \<not> tm_no_leak env t \<and> tracked t = tracked s"
proof -
  obtain x where x: "hb_find_task s task = Some x" using assms(3) by (auto simp: tracked_def)
  note p = add_task_present [OF assms(1,2) x assms(4)]
  have "node \<notin> set rest" "node < TASK_NODE_MAX env" using assms(1,2) by (auto simp: tm_wf_def)
  then show ?thesis using p by (auto simp: tm_no_leak_def)
qed

theorem duplicate_task_leaks_node_witness:
  "let t = snd (hb_add_task_to_task_manager sample_mon_env sample_task 0x5000 sample_monitor)
   in \<not> tm_no_leak sample_mon_env (snd (hb_add_task_to_task_manager sample_mon_env sample_task 0x5000 t))"
proof -
  obtain r t where add: "hb_add_task_to_task_manager sample_mon_env sample_task 0x5000 sample_monitor = (r, t)" by fastforce
  have "hb_find_task sample_monitor 0x5000 = None" using sample_monitor_wf(3) by (metis option.map_disc_iff tracked_def)
  note n = add_task_new [OF sample_monitor_wf(1,4) this add]
  have "0x5000 \<in> dom (tracked t)" using n(3) by simp
  from duplicate_task_leaks_node [OF n(2,5) this surjective_pairing] show ?thesis by (simp add: add)
qed

text \<open>C32: \<open>hb_init_monitor\<close> at a restart forgets the old tasks and tracks exactly the tasks of the kernel's
  list, each with its current data; no node is lost.\<close>

theorem init_monitor_tracks_all:
  assumes "rb_ok (rb_lib env)" "distinct procs" "length procs \<le> TASK_NODE_MAX env"
  shows "tm_wf env (hb_init_monitor env kt procs 1 s) \<and> tm_no_leak env (hb_init_monitor env kt procs 1 s) \<and>
    tracked (hb_init_monitor env kt procs 1 s) = (\<lambda>p. if p \<in> set procs then Some (new_node p (kt p)) else None)"
proof -
  let ?s = "hb_reset_task_manager env s"
  have "length (free_node_head ?s) = TASK_NODE_MAX env" by (simp add: hb_reset_task_manager_def all_free_eq)
  moreover have "hb_find_task ?s p = None" for p
    using reset_wf(3) [OF assms(1), of s] by (metis option.map_disc_iff tracked_def)
  ultimately show ?thesis
    using copy_tasks [OF reset_wf(1,2) [OF assms(1)] assms(2), of s kt] assms(3) reset_wf(3) [OF assms(1), of s]
    by (simp add: hb_init_monitor_def cong: if_cong)
qed

theorem init_monitor_tracks_all_witness:
  "dom (tracked (hb_init_monitor sample_mon_env sample_task [0x5000, 0x3000, 0x9000] 1 sample_monitor)) =
     {0x5000, 0x3000, 0x9000}"
proof -
  have "rb_ok (rb_lib sample_mon_env)" "TASK_NODE_MAX sample_mon_env = 4" by (simp_all add: sample_mon_env_def plain_lib_ok)
  then show ?thesis
    using init_monitor_tracks_all [of sample_mon_env "[0x5000, 0x3000, 0x9000]" sample_task sample_monitor]
    by (auto simp: dom_def)
qed


text \<open>A tracked task at 0x3000 that is inside of the system call 1.\<close>

lemma sample_parent:
  "\<exists>s parent. tm_wf sample_mon_env s \<and> free_node_head s = [2, 1, 0] \<and> tracked s 0x3000 = Some parent \<and>
     dom (tracked s) = {0x3000} \<and> parent = (new_node 0x3000 (sample_task 0x3000))\<lparr>tn_syscall_number := 1\<rparr> \<and>
     m_signals s = []"
proof -
  obtain r t where add: "hb_add_task_to_task_manager sample_mon_env sample_task 0x3000 sample_monitor = (r, t)" by fastforce
  have "hb_find_task sample_monitor 0x3000 = None" using sample_monitor_wf(3) by (metis option.map_disc_iff tracked_def)
  note n = add_task_new [OF sample_monitor_wf(1,4) this add]
  let ?f = "\<lambda>n. n\<lparr>tn_syscall_number := 1\<rparr>"
  have k: "tn_task (?f n) = tn_task n" for n by simp
  note key = set_node_key [where f = ?f and s = t, OF k]
  have sig: "m_signals t = []"
    using add sample_monitor_wf(7) by (auto simp: hb_add_task_to_task_manager_def hb_error_log_def Let_def split: list.splits)
  have "dom (tracked (set_node 3 ?f t)) = dom (tracked t)" by (auto simp: tracked_def key dom_def)
  moreover have "tracked (set_node 3 ?f t) 0x3000 = Some (?f (tm_pool t 3))" by (simp add: tracked_def key n(6))
  moreover have "tm_pool t 3 = new_node 0x3000 (sample_task 0x3000)" 
    using fun_cong [OF n(3), of "0x3000"] n(6) by (simp add: tracked_def)
  ultimately show ?thesis
    using n(2,3,5) sample_monitor_wf(3) sig key(3)
    by (intro exI [of _ "set_node 3 ?f t"] exI [of _ "?f (tm_pool t 3)"]) simp
qed


lemma check_tasks_visible:
  assumes "tm_wf env s" "dom (tracked s) \<subseteq> set procs" "int (length procs) < int (TASK_NODE_MAX env) - 1"
  shows "\<exists>zs es. hb_check_task_list env kt procs s =
    Some (if sint (g_task_count s) > int (length procs) then -1 else 0, s\<lparr>m_synced := zs, m_errors := es\<rparr>)"
proof -
  let ?s = "hb_sync_page (init_tasks_next env) (sizeof_task_struct env) s"
  obtain ys where "snd (count_tasks env kt procs 0 ?s) = ?s\<lparr>m_synced := ys\<rparr>" using count_tasks_state by blast
  then have count: "hb_get_task_count env kt procs s = (int (length procs), s\<lparr>m_synced := ys\<rparr>)"
    using count_tasks_count [of 0 procs env kt ?s] assms(3)
    by (simp add: hb_get_task_count_def prod_eq_iff hb_sync_page_eq)
  have ok: "rb_ok (rb_lib env)" "distinct (inorder (existing_node_head s))"
    using assms(1) ordered_distinct by (auto simp: tm_wf_def tree_invar_def)
  have vis: "\<forall>x \<in> set (inorder (existing_node_head s)). tn_task (tm_pool s x) \<in> set procs"
  proof
    fix x assume "x \<in> set (inorder (existing_node_head s))"
    then have "hb_find_task s (tn_task (tm_pool s x)) = Some x" using find_iff [OF assms(1)] by (simp add: tree_nodes_def)
    then have "tn_task (tm_pool s x) \<in> dom (tracked s)" by (auto simp: tracked_def)
    with assms(2) show "tn_task (tm_pool s x) \<in> set procs" by blast
  qed
  obtain zs where loop: "rb_for_each (rb_lib env) existing_node_head (check_task_node env kt procs) (s\<lparr>m_synced := ys\<rparr>) =
      Some (s\<lparr>m_synced := zs\<rparr>)"
    using rb_loop_visible [of "rb_lib env" "s\<lparr>m_synced := ys\<rparr>" procs "[]" _ env kt] ok vis
    by (auto simp: rb_for_each_def rb_ok_def)
  show ?thesis
  proof (cases "sint (g_task_count s) > int (length procs)")
    case True
    then show ?thesis
      using count loop
      by (auto simp: hb_check_task_list_def hb_error_log_def intro!: exI [of _ zs] exI [of _ "m_errors s @ [ERROR_KERNEL_MODIFICATION]"])
  next
    case False
    then show ?thesis
      using count by (auto simp: hb_check_task_list_def intro!: exI [of _ ys] exI [of _ "m_errors s"])
  qed
qed

lemma log_fields_same:
  assumes "tm_wf env s"
  shows "tracked (s\<lparr>m_synced := zs, m_errors := es\<rparr>) = tracked s" "tm_wf env (s\<lparr>m_synced := zs, m_errors := es\<rparr>)"
  using assms find_cong(2) [of "s\<lparr>m_synced := zs, m_errors := es\<rparr>" s]
    tm_wf_cong(1) [of "s\<lparr>m_synced := zs, m_errors := es\<rparr>" s env] by simp_all

text \<open>If all tracked tasks are in the kernel's list, the check for hidden tasks returns, kills nobody and
  tracks the same tasks afterwards; it reports an error exactly when its counter exceeds the number of tasks it can
  see.\<close>

theorem visible_tasks_not_killed:
  assumes "tm_wf env s" "dom (tracked s) \<subseteq> set procs" "int (length procs) < int (TASK_NODE_MAX env) - 1"
  shows "\<exists>r t. hb_check_task_list env kt procs s = Some (r, t) \<and> m_signals t = m_signals s \<and>
    tracked t = tracked s \<and> tm_wf env t \<and> r = (if sint (g_task_count s) > int (length procs) then -1 else 0)"
  using check_tasks_visible [OF assms, of kt] log_fields_same [OF assms(1)] by auto

theorem visible_tasks_not_killed_witness:
  "\<exists>t. hb_check_task_list sample_mon_env sample_task [0x5000] sample_monitor = Some (0, t) \<and> m_signals t = []"
  using visible_tasks_not_killed [OF sample_monitor_wf(1), of "[0x5000]" sample_task] sample_monitor_wf
  by (auto simp: sample_mon_env_def)

text \<open>\<open>hb_sync_page\<close> hands to \<open>hb_sync_page_table\<close> an address of every page that an object of
  \<open>sz\<close> bytes at \<open>addr\<close> touches, and of no other page.\<close>

theorem sync_page_covers_object:
  assumes "unat addr + unat sz + 8192 \<le> 2 ^ 64" "0 < sz"
  shows "\<exists>ps. m_synced (hb_sync_page addr sz s) = m_synced s @ ps \<and>
    page_of ` set ps = {page_of addr .. page_of (addr + sz - 1)}"
proof (intro exI conjI)
  let ?m = "unat addr mod 4096" and ?n = "unat (sync_page_count addr sz)"
  have sz: "0 < unat sz" using assms(2) by (simp add: word_less_nat_alt)
  have m: "unat (addr mod VAL_4KB) = ?m" by (simp add: unat_mod hb_consts)
  have small: "?m < 4096" by simp
  have "unat (addr mod VAL_4KB + sz) = ?m + unat sz" using assms(1) m small by (subst unat_word_ariths) simp
  then have "unat (addr mod VAL_4KB + sz + VAL_4KB) = ?m + unat sz + 4096"
    using assms(1) small by (subst unat_word_ariths) (simp add: hb_consts)
  then have "unat (addr mod VAL_4KB + sz + VAL_4KB - 1) = ?m + unat sz + 4095"
    by (subst unat_sub) (simp_all add: word_le_nat_alt)
  then have n: "?n = Suc ((?m + unat sz - 1) div 4096)"
    using sz by (simp add: sync_page_count_def unat_div hb_consts)
  have e: "unat (addr + sz - 1) = unat addr + unat sz - 1"
    using assms(1) sz by (subst unat_sub) (simp_all add: word_le_nat_alt unat_word_ariths)
  have "(unat addr + unat sz - 1) div 4096 = unat addr div 4096 + (?m + unat sz - 1) div 4096"
    using sz div_plus_div_distrib_dvd_left [of 4096 "unat addr div 4096 * 4096" "?m + unat sz - 1"]
    by (simp add: algebra_simps)
  then have last: "page_of (addr + sz - 1) = page_of addr + (?n - 1)" using e n by (simp add: page_of_def)
  show "m_synced (hb_sync_page addr sz s) = m_synced s @ sync_pages addr sz" by (simp add: hb_sync_page_eq)
  have page: "page_of (addr + VAL_4KB * of_nat i) = page_of addr + i" if "i < ?n" for i
  proof -
    have "4096 * i \<le> ?m + unat sz - 1" using that n by (simp add: less_Suc_eq_le less_eq_div_iff_mult_less_eq mult.commute)
    then have "unat addr + 4096 * i < 2 ^ 64" using assms(1) small by simp
    then have "unat (addr + VAL_4KB * of_nat i) = unat addr + 4096 * i"
      by (simp add: unat_word_ariths hb_consts unat_of_nat take_bit_eq_mod)
    then show ?thesis by (simp add: page_of_def)
  qed
  then have "page_of ` set (sync_pages addr sz) = (\<lambda>i. page_of addr + i) ` {0..<?n}"
    by (auto simp: sync_pages_def image_image intro!: image_cong)
  also have "\<dots> = {page_of addr .. page_of addr + (?n - 1)}" using n by (auto simp: image_iff intro!: bexI [of _ "_ - page_of addr"])
  finally show "page_of ` set (sync_pages addr sz) = {page_of addr .. page_of (addr + sz - 1)}" by (simp only: last)
qed

theorem sync_page_covers_object_witness:
  "\<exists>ps. m_synced (hb_sync_page 0x5F00 0x1A40 sample_monitor) = m_synced sample_monitor @ ps \<and> page_of ` set ps = {5 .. 7}"
  using sync_page_covers_object [of "0x5F00" "0x1A40" sample_monitor] by (simp add: page_of_def)

end
