(* ===== verification/Cred_Monitor.thy ===== *)
theory Cred_Monitor
  imports Task_Manager
begin

text \<open>
  The credential checks of the monitor (monitor.c): the comparison of credentials, the callback on
  credential updates, the check at every system call, and the construction of the path of an executable
  that the check uses for its exceptions.
\<close>

section \<open>Credentials\<close>

text \<open>The result is 0 for equal and -1 for different credentials.\<close>

definition hb_is_cred_same :: "cred \<Rightarrow> cred \<Rightarrow> int" where
  "hb_is_cred_same new old =
     (if (uid old XOR uid new XOR gid old XOR gid new XOR
          suid old XOR suid new XOR sgid old XOR sgid new XOR
          euid old XOR euid new XOR egid old XOR egid new XOR
          fsuid old XOR fsuid new XOR fsgid old XOR fsgid new) \<noteq> 0 then -1 else 0)"

text \<open>The system calls of the x86-64 ABI that may change credentials: execve, setuid, setgid,
  setreuid, setregid, setresuid, setresgid, setfsuid, setfsgid, setgroups, capset, prctl, unshare and keyctl;
  -1 stands for a task that has made no system call yet.\<close>

definition cred_syscalls :: "int list" where
  "cred_syscalls = [NR_execve, 105, 106, 113, 114, 117, 119, 122, 123, 116, 126, 157, 272, 250, -1]"

definition hb_check_systemcall_for_cred :: "int \<Rightarrow> int" where
  "hb_check_systemcall_for_cred syscall_number = (if syscall_number \<notin> set cred_syscalls then -1 else 0)"

text \<open>The new credentials are an object of the guest; the callback returns what it leaves in it.\<close>

definition hb_callback_update_cred ::
  "mon_env \<Rightarrow> (u64 \<Rightarrow> task_struct) \<Rightarrow> u64 \<Rightarrow> u64 \<Rightarrow> cred \<Rightarrow> monitor \<Rightarrow> (cred \<times> monitor) option" where
  "hb_callback_update_cred env kt current task new s =
     (case hb_find_task s task of
        None \<Rightarrow> Some (new, s)
      | Some found \<Rightarrow>
          let n = tm_pool s found in
          if hb_check_systemcall_for_cred (tn_syscall_number n) \<noteq> 0 \<and> hb_is_cred_same (tn_cred n) new \<noteq> 0 then do {
            s \<leftarrow> hb_set_exit_flag_in_list_with_lock env (ts_tgid (kt task)) s;
            let s = send_sigkill task s;
            Some (tn_cred (tm_pool s found), s)
          }
          else
            let s = (if tn_syscall_number n = NR_execve \<and> uid new < 1000
                     then set_node found (\<lambda>n. n\<lparr>tn_comm := ts_comm (kt current)\<rparr>) s else s)
            in Some (new, set_node found (\<lambda>n. n\<lparr>tn_cred := new\<rparr>) s))"

section \<open>The path of an executable\<close>

text \<open>The buffer is written from its end towards its start: its bytes, the position \<open>end\<close> and the
  remaining length.\<close>

record path_buf =
  pb_bytes :: string
  pb_end :: int
  pb_len :: int

definition ENAMETOOLONG :: int where [hb_consts]: "ENAMETOOLONG = 36"

definition NUL :: char where "NUL = CHR 0x00"

definition write_at :: "nat \<Rightarrow> string \<Rightarrow> string \<Rightarrow> string" where
  "write_at p str xs = take p xs @ str @ drop (p + length str) xs"

definition prepend :: "string \<Rightarrow> path_buf \<Rightarrow> int \<times> path_buf" where
  "prepend str b =
     (let b = b\<lparr>pb_len := pb_len b - int (length str)\<rparr> in
      if pb_len b < 0 then (- ENAMETOOLONG, b)
      else let e = pb_end b - int (length str)
           in (0, b\<lparr>pb_end := e, pb_bytes := write_at (nat e) str (pb_bytes b)\<rparr>))"

text \<open>The copy of a name stops at a null byte.\<close>

definition prepend_name :: "string \<Rightarrow> path_buf \<Rightarrow> int \<times> path_buf" where
  "prepend_name name b =
     (let dlen = int (length name);
          b = b\<lparr>pb_len := pb_len b - (dlen + 1)\<rparr> in
      if pb_len b < 0 then (- ENAMETOOLONG, b)
      else let e = pb_end b - (dlen + 1)
           in (0, b\<lparr>pb_end := e,
                    pb_bytes := write_at (nat e) (CHR 0x2F # takeWhile (\<lambda>c. c \<noteq> NUL) name) (pb_bytes b)\<rparr>))"

text \<open>The names of the dentries, from the file up to the root, which has none. The second component is
  \<open>retval\<close>.\<close>

fun exe_path_loop :: "string list \<Rightarrow> path_buf \<Rightarrow> int \<Rightarrow> path_buf \<times> int" where
  "exe_path_loop [] b retval = (b, retval)"
| "exe_path_loop (d_name # parents) b retval =
     (let (error, b) = prepend_name d_name b in
      if error \<noteq> 0 then (b, retval) else exe_path_loop parents b (pb_end b))"

text \<open>The string that the returned pointer denotes.\<close>

definition hb_get_exe_path :: "string list \<Rightarrow> nat \<Rightarrow> string" where
  "hb_get_exe_path dentries sz =
     (let b = \<lparr>pb_bytes = replicate sz NUL, pb_end = int sz, pb_len = int sz\<rparr>;
          (_, b) = prepend [NUL] b;
          retval = pb_end b - 1;
          b = b\<lparr>pb_bytes := write_at (nat retval) [CHR 0x2F] (pb_bytes b)\<rparr>;
          (b, retval) = exe_path_loop dentries b retval
      in takeWhile (\<lambda>c. c \<noteq> NUL) (drop (nat retval) (pb_bytes b)))"

section \<open>The check at a system call\<close>

definition PATH_MAX :: nat where [hb_consts]: "PATH_MAX = 4096"

definition g_hb_workaround_process_path :: "(string \<times> string) list" where
  "g_hb_workaround_process_path = [(''modprobe'', ''/usr/bin/kmod'')]"

text \<open>The path is read through \<open>task->mm\<close>; \<open>None\<close> is the access through a null pointer.\<close>

fun find_workaround :: "task_struct \<Rightarrow> (string \<times> string) list \<Rightarrow> bool option" where
  "find_workaround t [] = Some False"
| "find_workaround t ((comm, path) # rest) =
     (if ts_comm t = comm then
        (if ts_mm t = 0 then None
         else if hb_get_exe_path (ts_exe_dentries t) PATH_MAX = path then Some True
         else find_workaround t rest)
      else find_workaround t rest)"

text \<open>The checks of the executable, on the first part of the function.\<close>

definition check_exe ::
  "mon_env \<Rightarrow> task_struct \<Rightarrow> nat \<Rightarrow> monitor \<Rightarrow> (int \<times> monitor) option" where
  "check_exe env t found s =
     (let n = tm_pool s found in
      if tn_syscall_number n = NR_execve \<or> tn_syscall_number n = NR_execveat then
        (if tn_need_trace n = 0 then Some (0, set_node found (\<lambda>n. n\<lparr>tn_mm := ts_mm t, tn_comm := ts_comm t\<rparr>) s)
         else do {
           s \<leftarrow> hb_set_exit_flag_in_list_with_lock env (tn_tgid n) s;
           Some (-1, s)
         })
      else if tn_mm n \<noteq> ts_mm t then do {
        workaround \<leftarrow> find_workaround t g_hb_workaround_process_path;
        if workaround then Some (0, set_node found (\<lambda>n. n\<lparr>tn_mm := ts_mm t\<rparr>) s)
        else do {
          s \<leftarrow> hb_set_exit_flag_in_list_with_lock env (tn_tgid n) s;
          Some (-1, s)
        }
      }
      else Some (0, s))"

definition check_cred ::
  "mon_env \<Rightarrow> task_struct \<Rightarrow> nat \<Rightarrow> int \<Rightarrow> monitor \<Rightarrow> (int \<times> monitor) option" where
  "check_cred env t found ret s =
     (let n = tm_pool s found in
      if hb_is_cred_same (tn_cred n) (ts_cred t) \<noteq> 0 then do {
        s \<leftarrow> hb_set_exit_flag_in_list_with_lock env (tn_tgid n) s;
        Some (-1, s)
      }
      else if tn_need_exit n = 1 then Some (-1, s)
      else Some (ret, s))"

definition hb_callback_check_cred_update_syscall ::
  "mon_env \<Rightarrow> (u64 \<Rightarrow> task_struct) \<Rightarrow> u64 \<Rightarrow> int \<Rightarrow> monitor \<Rightarrow> (int \<times> monitor) option" where
  "hb_callback_check_cred_update_syscall env kt task syscall_number s =
     (case hb_find_task s task of
        None \<Rightarrow> Some (0, s)
      | Some found \<Rightarrow> do {
          (ret, s) \<leftarrow> check_exe env (kt task) found s;
          let s = set_node found (\<lambda>n. n\<lparr>tn_syscall_number := syscall_number\<rparr>) s;
          (ret, s) \<leftarrow> check_cred env (kt task) found ret s;
          Some (ret, if ret = -1 then send_sigkill task s else s)
        })"

section \<open>Comparison of credentials\<close>

definition cred_ids :: "cred \<Rightarrow> u32 list" where
  "cred_ids c = [uid c, gid c, suid c, sgid c, euid c, egid c, fsuid c, fsgid c]"

text \<open>The exclusive or of the eight identifiers.\<close>

definition cred_sum :: "cred \<Rightarrow> u32" where
  "cred_sum c = foldr (XOR) (cred_ids c) 0"

lemma xor_twice: "a XOR (a XOR b) = (b :: u32)"
  by (simp add: xor.assoc [symmetric])

lemma xor_eq_0_iff: "a XOR b = 0 \<longleftrightarrow> a = (b :: u32)"
proof
  assume "a XOR b = 0"
  then have "a XOR (a XOR b) = a" by simp
  then show "a = b" unfolding xor_twice by simp
qed simp

lemma cred_same_sum: "hb_is_cred_same new old = (if cred_sum new = cred_sum old then 0 else -1)"
proof -
  have "uid old XOR uid new XOR gid old XOR gid new XOR suid old XOR suid new XOR sgid old XOR sgid new XOR
      euid old XOR euid new XOR egid old XOR egid new XOR fsuid old XOR fsuid new XOR fsgid old XOR fsgid new =
      cred_sum new XOR cred_sum old"
    by (simp only: cred_sum_def cred_ids_def foldr_Cons foldr_Nil comp_apply id_apply xor.right_neutral xor.left_neutral
        xor.assoc xor.commute xor.left_commute)
  then show ?thesis by (simp add: hb_is_cred_same_def xor_eq_0_iff)
qed

lemma xor_list_update:
  "i < length xs \<Longrightarrow> foldr (XOR) (xs[i := v]) 0 = foldr (XOR) xs 0 XOR (xs ! i) XOR (v :: u32)"
proof (induction xs arbitrary: i)
  case (Cons x xs)
  then show ?case by (cases i) (auto simp: ac_simps)
qed simp

lemma xor_one_change:
  assumes "i < length xs" "v \<noteq> xs ! i"
  shows "foldr (XOR) (xs[i := v]) 0 \<noteq> foldr (XOR) xs (0 :: u32)"
proof
  assume "foldr (XOR) (xs[i := v]) 0 = foldr (XOR) xs 0"
  then have "foldr (XOR) xs 0 XOR (xs ! i XOR v) = foldr (XOR) xs 0"
    using xor_list_update [OF assms(1), of v] by simp
  then have "xs ! i XOR v = 0" using xor_twice [of "foldr (XOR) xs 0" "xs ! i XOR v"] by simp
  with assms(2) show False by (simp add: xor_eq_0_iff)
qed

section \<open>Paths\<close>

text \<open>The invariant of the loop: the position and the remaining length agree, and the bytes from the
  position on are the path built so far with its terminator.\<close>

definition path_inv :: "nat \<Rightarrow> string \<Rightarrow> path_buf \<Rightarrow> bool" where
  "path_inv sz p b \<longleftrightarrow> length (pb_bytes b) = sz \<and> pb_end b = pb_len b \<and> 0 \<le> pb_end b \<and>
     nat (pb_end b) + length p + 1 = sz \<and> drop (nat (pb_end b)) (pb_bytes b) = p @ [NUL]"

definition path_of :: "string list \<Rightarrow> string" where
  "path_of names = concat (map (\<lambda>n. CHR 0x2F # n) (rev names))"

lemma drop_write_at:
  "p + length str \<le> length xs \<Longrightarrow> drop p (write_at p str xs) = str @ drop (p + length str) xs"
  "p + length str \<le> length xs \<Longrightarrow> length (write_at p str xs) = length xs"
  by (simp_all add: write_at_def)

lemma nat_1_plus_int: "nat (1 + int k) = Suc k"
  by simp

lemma prepend_name_inv:
  assumes inv: "path_inv sz p b" and nul: "NUL \<notin> set name" and fits: "length name + 1 + length p + 1 \<le> sz"
  shows "fst (prepend_name name b) = 0" "path_inv sz (CHR 0x2F # name @ p) (snd (prepend_name name b))"
proof -
  define e where "e = nat (pb_end b)"
  have "pb_end b = int e" using inv unfolding path_inv_def e_def by simp
  moreover from this have "pb_len b = int e" using inv unfolding path_inv_def by simp
  moreover have "e + length p + 1 = sz" "length (pb_bytes b) = sz" "drop e (pb_bytes b) = p @ [NUL]"
    using inv unfolding path_inv_def e_def by blast+
  ultimately have e: "pb_end b = int e" "pb_len b = int e" "e + length p + 1 = sz" "length (pb_bytes b) = sz"
      "drop e (pb_bytes b) = p @ [NUL]" by blast+
  define k where "k = e - (length name + 1)"
  have k: "e = k + (length name + 1)" using fits e(3) by (simp add: k_def)
  have tw: "takeWhile (\<lambda>c. c \<noteq> NUL) name = name" using nul by (induction name) auto
  have d: "drop k (write_at k (CHR 0x2F # name) (pb_bytes b)) = CHR 0x2F # name @ p @ [NUL]"
    using drop_write_at(1) [of k "CHR 0x2F # name" "pb_bytes b"] e(3,4,5) k by simp
  have l: "length (write_at k (CHR 0x2F # name) (pb_bytes b)) = sz"
    using drop_write_at(2) [of k "CHR 0x2F # name" "pb_bytes b"] e(3,4) k by simp
  have eq: "prepend_name name b = (0, b\<lparr>pb_len := int k, pb_end := int k,
      pb_bytes := write_at k (CHR 0x2F # name) (pb_bytes b)\<rparr>)"
    using e(1,2) k by (simp add: prepend_name_def Let_def tw)
  show "fst (prepend_name name b) = 0" by (simp add: eq)
  show "path_inv sz (CHR 0x2F # name @ p) (snd (prepend_name name b))"
    using d l e(3) k by (simp add: eq path_inv_def)
qed

lemma exe_path_loop_inv:
  assumes "path_inv sz p b" "\<forall>n \<in> set names. NUL \<notin> set n" "length (path_of names) + length p + 1 \<le> sz" "names \<noteq> []"
  shows "\<exists>b'. exe_path_loop names b r = (b', pb_end b') \<and> path_inv sz (path_of names @ p) b'"
  using assms
proof (induction names arbitrary: p b r)
  case (Cons n names)
  have len: "length (path_of (n # names)) = length (path_of names) + length n + 1" by (simp add: path_of_def)
  have fits: "length n + 1 + length p + 1 \<le> sz" and nul: "NUL \<notin> set n" using Cons.prems(2,3) len by simp_all
  obtain b1 where b1: "prepend_name n b = (0, b1)" "path_inv sz (CHR 0x2F # n @ p) b1"
    using prepend_name_inv [OF Cons.prems(1) nul fits] by (metis prod.collapse)
  show ?case
  proof (cases "names = []")
    case True
    then show ?thesis using b1 by (simp add: path_of_def)
  next
    case False
    have "length (path_of names) + length (CHR 0x2F # n @ p) + 1 \<le> sz" using Cons.prems(3) len by simp
    from Cons.IH [OF b1(2) _ this False] Cons.prems(2) b1(1) show ?thesis
      by (simp add: path_of_def)
  qed
qed simp

lemma takeWhile_no_nul: "NUL \<notin> set xs \<Longrightarrow> takeWhile (\<lambda>c. c \<noteq> NUL) (xs @ NUL # ys) = xs"
  by (induction xs) auto

lemma path_of_no_nul: "\<forall>n \<in> set names. NUL \<notin> set n \<Longrightarrow> NUL \<notin> set (path_of names)"
  by (auto simp: path_of_def NUL_def)

section \<open>The parts of the check\<close>

text \<open>What the checks of an executable leave alone: the index, the identity and the credentials of all
  nodes, and the signals.\<close>

definition keeps :: "mon_env \<Rightarrow> monitor \<Rightarrow> monitor \<Rightarrow> bool" where
  "keeps env s t \<longleftrightarrow> tm_wf env t \<and> hb_find_task t = hb_find_task s \<and> m_signals t = m_signals s \<and>
     (\<forall>x. tn_task (tm_pool t x) = tn_task (tm_pool s x) \<and> tn_cred (tm_pool t x) = tn_cred (tm_pool s x) \<and>
       tn_tgid (tm_pool t x) = tn_tgid (tm_pool s x))"

lemma keeps_refl: "tm_wf env s \<Longrightarrow> keeps env s s"
  by (simp add: keeps_def)

lemma keeps_trans: "keeps env s t \<Longrightarrow> keeps env t u \<Longrightarrow> keeps env s u"
  by (simp add: keeps_def)

lemma keeps_set_node:
  assumes "tm_wf env s" "\<And>n. tn_task (f n) = tn_task n" "\<And>n. tn_cred (f n) = tn_cred n" "\<And>n. tn_tgid (f n) = tn_tgid n"
  shows "keeps env s (set_node i f s)"
  using assms set_node_key [where f = f and s = s and i = i] by (simp add: keeps_def)

lemma keeps_exit_flag:
  assumes "tm_wf env s"
  shows "\<exists>t. hb_set_exit_flag_in_list_with_lock env g s = Some t \<and> keeps env s t \<and>
    (\<forall>x. tm_pool t x = (if x \<in> tree_nodes (existing_node_head s) then flag_node g (tm_pool s x) else tm_pool s x))"
proof -
  obtain t where t: "hb_set_exit_flag_in_list_with_lock env g s = Some t" "tm_wf env t" "hb_find_task t = hb_find_task s"
      "m_signals t = m_signals s"
    using exit_flag_spec [OF assms, of g] by blast
  have "tm_pool t x = (if x \<in> tree_nodes (existing_node_head s) then flag_node g (tm_pool s x) else tm_pool s x)" for x
    using t(1) exit_flag_eq [OF assms, of g] by auto
  with t show ?thesis by (auto simp: keeps_def flag_node_def)
qed

text \<open>A change that is confined to the nodes of one thread group.\<close>

definition only_group :: "int \<Rightarrow> monitor \<Rightarrow> monitor \<Rightarrow> bool" where
  "only_group g s t \<longleftrightarrow> (\<forall>x. tn_tgid (tm_pool s x) \<noteq> g \<longrightarrow> tm_pool t x = tm_pool s x)"

lemma only_group_trans: "only_group g s t \<Longrightarrow> only_group g t u \<Longrightarrow> only_group g s u"
  by (auto simp: only_group_def)

lemma only_group_set_node: "tn_tgid (tm_pool s x) = g \<Longrightarrow> only_group g s (set_node x f s)"
  by (auto simp: only_group_def set_node_def)

lemma only_group_exit_flag:
  "tm_wf env s \<Longrightarrow> hb_set_exit_flag_in_list_with_lock env g s = Some t \<Longrightarrow> only_group g s t"
  using exit_flag_eq [of env s g] by (auto simp: only_group_def flag_node_def)

lemma find_workaround_total:
  "ts_comm t = ''modprobe'' \<longrightarrow> ts_mm t \<noteq> 0 \<Longrightarrow> \<exists>b. find_workaround t g_hb_workaround_process_path = Some b"
  by (auto simp: g_hb_workaround_process_path_def)

lemma check_exe_keeps:
  assumes "tm_wf env s" "ts_comm t = ''modprobe'' \<longrightarrow> ts_mm t \<noteq> 0"
  shows "\<exists>ret s'. check_exe env t found s = Some (ret, s') \<and> keeps env s s' \<and> only_group (tn_tgid (tm_pool s found)) s s'"
proof -
  obtain b where b: "find_workaround t g_hb_workaround_process_path = Some b" using find_workaround_total [OF assms(2)] by blast
  obtain s' where s': "hb_set_exit_flag_in_list_with_lock env (tn_tgid (tm_pool s found)) s = Some s'" "keeps env s s'"
    using keeps_exit_flag [OF assms(1)] by blast
  have "keeps env s (set_node found (\<lambda>n. n\<lparr>tn_mm := ts_mm t, tn_comm := ts_comm t\<rparr>) s)"
      "keeps env s (set_node found (\<lambda>n. n\<lparr>tn_mm := ts_mm t\<rparr>) s)"
    using assms(1) by (auto intro!: keeps_set_node)
  moreover have "only_group (tn_tgid (tm_pool s found)) s (set_node found f s)" for f by (rule only_group_set_node) simp
  moreover have "only_group (tn_tgid (tm_pool s found)) s s'" "only_group (tn_tgid (tm_pool s found)) s s"
    using only_group_exit_flag [OF assms(1) s'(1)] by (simp_all add: only_group_def)
  ultimately show ?thesis using b s' keeps_refl [OF assms(1)] by (cases b) (auto simp: check_exe_def Let_def)
qed

section \<open>Properties\<close>

text \<open>The comparison of credentials reports a difference whenever exactly one of the eight
  identifiers has changed.\<close>

theorem cred_single_change_detected:
  assumes "i < 8" "cred_ids new = (cred_ids old)[i := v]" "v \<noteq> cred_ids old ! i"
  shows "hb_is_cred_same new old = -1"
proof -
  have "i < length (cred_ids old)" using assms(1) by (simp add: cred_ids_def)
  from xor_one_change [OF this assms(3)] show ?thesis by (simp add: cred_same_sum cred_sum_def assms(2))
qed

theorem cred_single_change_detected_witness:
  "hb_is_cred_same ((sample_cred 1000)\<lparr>euid := 0\<rparr>) (sample_cred 1000) = -1"
  by (rule cred_single_change_detected [of "Suc (Suc (Suc (Suc 0)))" _ _ 0]) (simp_all add: cred_ids_def sample_cred_def)

text \<open>the comparison is blind to changes that cancel out: credentials whose eight identifiers are all
  equal are taken to be the same as any other such credentials, so a user becoming root in all identifiers at once is
  not noticed.\<close>

theorem cred_uniform_change_missed: "hb_is_cred_same (sample_cred v) (sample_cred w) = 0"
  by (simp add: hb_is_cred_same_def sample_cred_def) (simp add: ac_simps)

text \<open>C31: the path built for an executable is the concatenation of the names of its dentries from the
  root down, each with a leading slash, and \<open>/\<close> for the root itself, provided that it fits in the buffer with its
  terminator.\<close>

theorem exe_path_correct:
  assumes "\<forall>n \<in> set names. NUL \<notin> set n" "length (path_of names) + 1 \<le> sz" "2 \<le> sz"
  shows "hb_get_exe_path names sz = (if names = [] then ''/'' else path_of names)"
proof -
  obtain k where k: "sz = Suc (Suc k)" using assms(3) that [of "sz - 2"] by simp
  let ?w = "write_at (Suc k) [NUL] (replicate sz NUL)"
  let ?b = "\<lparr>pb_bytes = write_at k [CHR 0x2F] ?w, pb_end = int (Suc k), pb_len = int (Suc k)\<rparr>"
  have start: "hb_get_exe_path names sz = (let (b, retval) = exe_path_loop names ?b (int k)
      in takeWhile (\<lambda>c. c \<noteq> NUL) (drop (nat retval) (pb_bytes b)))"
    by (simp add: hb_get_exe_path_def prepend_def Let_def k nat_1_plus_int)
  have w: "length ?w = sz" "drop (Suc k) ?w = [NUL]"
    using drop_write_at [of "Suc k" "[NUL]" "replicate sz NUL"] by (simp_all add: k)
  have d2: "drop k (pb_bytes ?b) = CHR 0x2F # [NUL]" "length (pb_bytes ?b) = sz"
    using drop_write_at [of k "[CHR 0x2F]" ?w] w by (simp_all add: k)
  have "drop (Suc k) (pb_bytes ?b) = drop 1 (drop k (pb_bytes ?b))" by simp
  with d2 have inv: "path_inv sz [] ?b" by (simp add: path_inv_def k nat_1_plus_int)
  show ?thesis
  proof (cases "names = []")
    case True
    then show ?thesis unfolding start using d2(1) by (simp add: NUL_def)
  next
    case False
    obtain b' where b': "exe_path_loop names ?b (int k) = (b', pb_end b')" "path_inv sz (path_of names @ []) b'"
      using exe_path_loop_inv [OF inv assms(1) _ False] assms(2) by auto
    have "takeWhile (\<lambda>c. c \<noteq> NUL) (path_of names @ [NUL]) = path_of names"
      by (rule takeWhile_no_nul) (rule path_of_no_nul [OF assms(1)])
    moreover have "drop (nat (pb_end b')) (pb_bytes b') = path_of names @ [NUL]"
      using b'(2) unfolding path_inv_def append_Nil2 by blast
    ultimately show ?thesis unfolding start b'(1) using False by simp
  qed
qed

theorem exe_path_correct_witness: "hb_get_exe_path [''kmod'', ''bin'', ''usr''] PATH_MAX = ''/usr/bin/kmod''"
  using exe_path_correct [of "[''kmod'', ''bin'', ''usr'']" PATH_MAX] by (simp add: path_of_def NUL_def PATH_MAX_def)


lemma cred_change_reported:
  assumes wf: "tm_wf env s" and n: "tracked s task = Some n"
    and diff: "cred_sum (tn_cred n) \<noteq> cred_sum (ts_cred (kt task))"
    and mm: "ts_comm (kt task) = ''modprobe'' \<longrightarrow> ts_mm (kt task) \<noteq> 0"
  shows "\<exists>t. hb_callback_check_cred_update_syscall env kt task nr s = Some (-1, t) \<and> tm_wf env t \<and>
    m_signals t = m_signals s @ [task] \<and> map_option tn_syscall_number (tracked t task) = Some nr \<and>
    (\<forall>p q. tracked s p = Some q \<longrightarrow> (if tn_tgid q = tn_tgid n
       then \<exists>q'. tracked t p = Some q' \<and> tn_need_exit q' = 1 \<and> tn_cred q' = tn_cred q else tracked t p = Some q))"
proof -
  obtain found where found: "hb_find_task s task = Some found" "tm_pool s found = n" using n by (auto simp: tracked_def)
  obtain ret s1 where s1: "check_exe env (kt task) found s = Some (ret, s1)" "keeps env s s1" "only_group (tn_tgid n) s s1"
    using check_exe_keeps [OF wf mm, of found] found(2) by blast
  let ?f = "\<lambda>n. n\<lparr>tn_syscall_number := nr\<rparr>"
  let ?s2 = "set_node found ?f s1"
  have "keeps env s1 ?s2" using s1(2) by (intro keeps_set_node) (auto simp: keeps_def)
  note k2 = keeps_trans [OF s1(2) this]
  then have wf2: "tm_wf env ?s2" and find2: "hb_find_task ?s2 = hb_find_task s" by (simp_all add: keeps_def)
  have tg1: "tn_tgid (tm_pool s1 found) = tn_tgid n" using s1(2) found by (simp add: keeps_def)
  have n2: "tn_cred (tm_pool ?s2 found) = tn_cred n" "tn_tgid (tm_pool ?s2 found) = tn_tgid n"
    using s1(2) found by (simp_all add: keeps_def)
  have other: "only_group (tn_tgid n) s ?s2" using only_group_trans [OF s1(3)] only_group_set_node [OF tg1] by blast
  obtain s3 where s3: "hb_set_exit_flag_in_list_with_lock env (tn_tgid n) ?s2 = Some s3" "keeps env ?s2 s3"
      "\<And>x. tm_pool s3 x = (if x \<in> tree_nodes (existing_node_head ?s2) then flag_node (tn_tgid n) (tm_pool ?s2 x) else tm_pool ?s2 x)"
    using keeps_exit_flag [OF wf2] by meson
  let ?t = "send_sigkill task s3"
  have t: "tracked ?t p = map_option (tm_pool s3) (hb_find_task s p)" "tm_wf env ?t" "m_signals ?t = m_signals s @ [task]" for p
    using s3(2) k2 tm_wf_cong(1) [of ?t s3 env] find_cong(1) [of ?t s3] by (simp_all add: tracked_def keeps_def send_sigkill_def)
  have node: "tm_pool s3 x = flag_node (tn_tgid n) (tm_pool ?s2 x)" if "hb_find_task s p = Some x" for p x
    using find_iff [OF wf2, of p x] that find2 s3(3) [of x] by simp
  have "if tn_tgid q = tn_tgid n then \<exists>q'. tracked ?t p = Some q' \<and> tn_need_exit q' = 1 \<and> tn_cred q' = tn_cred q
      else tracked ?t p = Some q" if q: "tracked s p = Some q" for p q
  proof -
    obtain x where x: "hb_find_task s p = Some x" "tm_pool s x = q" using q by (auto simp: tracked_def)
    have "tn_tgid (tm_pool ?s2 x) = tn_tgid q" "tn_cred (tm_pool ?s2 x) = tn_cred q" using k2 x(2) by (auto simp: keeps_def)
    moreover have "tn_tgid q \<noteq> tn_tgid n \<Longrightarrow> tm_pool ?s2 x = q" using other x(2) unfolding only_group_def by auto
    ultimately show ?thesis using node [OF x(1)] x(1) by (simp add: t(1) flag_node_def)
  qed
  moreover have "map_option tn_syscall_number (tracked ?t task) = Some nr"
    using node [OF found(1)] found(1) by (simp add: t(1) flag_node_def)
  moreover have "hb_callback_check_cred_update_syscall env kt task nr s = Some (-1, ?t)"
    using found(1) s1(1) s3(1) n2 diff by (simp add: hb_callback_check_cred_update_syscall_def check_cred_def Let_def cred_same_sum)
  ultimately show ?thesis using t(2,3) by blast
qed

lemma tracked_set_node:
  assumes "tm_wf env s" "hb_find_task s task = Some x" "\<And>n. tn_task (f n) = tn_task n"
  shows "tracked (set_node x f s) = (tracked s)(task \<mapsto> f (tm_pool s x))"
proof (rule ext)
  fix p
  note key = set_node_key [where f = f and s = s and i = x, OF assms(3)]
  have "hb_find_task s p = Some x \<Longrightarrow> p = task" using find_iff [OF assms(1)] assms(2) by metis
  then show "tracked (set_node x f s) p = ((tracked s)(task \<mapsto> f (tm_pool s x))) p"
    using assms(2) by (cases "hb_find_task s p") (auto simp: tracked_def key)
qed

text \<open>A task whose identifiers have the recorded exclusive or and that keeps its memory map, is not inside of an exec and is not marked
  passes the check: 0 is returned, no signal is sent, and only the recorded system call changes.\<close>

lemma same_sum_passes:
  assumes wf: "tm_wf env s" and n: "tracked s task = Some n"
    and same: "cred_sum (tn_cred n) = cred_sum (ts_cred (kt task))" "tn_mm n = ts_mm (kt task)" "tn_need_exit n \<noteq> 1"
    and nr: "tn_syscall_number n \<notin> {NR_execve, NR_execveat}"
  shows "\<exists>t. hb_callback_check_cred_update_syscall env kt task nr s = Some (0, t) \<and> tm_wf env t \<and>
    m_signals t = m_signals s \<and> tracked t = (tracked s)(task \<mapsto> n\<lparr>tn_syscall_number := nr\<rparr>)"
proof -
  obtain found where found: "hb_find_task s task = Some found" "tm_pool s found = n" using n by (auto simp: tracked_def)
  let ?f = "\<lambda>n. n\<lparr>tn_syscall_number := nr\<rparr>"
  have k: "tn_task (?f m) = tn_task m" for m by simp
  have "hb_callback_check_cred_update_syscall env kt task nr s = Some (0, set_node found ?f s)"
    using found same nr
    by (simp add: hb_callback_check_cred_update_syscall_def check_exe_def check_cred_def Let_def cred_same_sum)
  then show ?thesis using tracked_set_node [OF wf found(1), of ?f] set_node_key [where f = ?f and s = s and i = found, OF k] wf found(2) by simp
qed

lemma check_total:
  assumes wf: "tm_wf env s" and mm: "ts_comm (kt task) = ''modprobe'' \<longrightarrow> ts_mm (kt task) \<noteq> 0"
  shows "\<exists>r t. hb_callback_check_cred_update_syscall env kt task nr s = Some (r, t)"
proof (cases "hb_find_task s task")
  case (Some found)
  obtain ret s1 where s1: "check_exe env (kt task) found s = Some (ret, s1)" "keeps env s s1"
    using check_exe_keeps [OF wf mm] by blast
  let ?s2 = "set_node found (\<lambda>n. n\<lparr>tn_syscall_number := nr\<rparr>) s1"
  have "keeps env s1 ?s2" using s1(2) by (intro keeps_set_node) (auto simp: keeps_def)
  then obtain u where "hb_set_exit_flag_in_list_with_lock env (tn_tgid (tm_pool ?s2 found)) ?s2 = Some u"
    using keeps_exit_flag [of env ?s2] unfolding keeps_def by blast
  then have "\<exists>r t. check_cred env (kt task) found ret ?s2 = Some (r, t)" unfolding check_cred_def Let_def by simp
  with s1(1) Some show ?thesis by (auto simp: hb_callback_check_cred_update_syscall_def Let_def)
qed (simp add: hb_callback_check_cred_update_syscall_def)

text \<open>C26: the check at a system call decides by the exclusive or of the eight identifiers of the credentials. When it
  differs from that of the recorded credentials, as it does when exactly one identifier has changed, the call is recorded, -1 is returned, the task is sent
  SIGKILL, every tracked task of its thread group is marked to exit, with the recorded credentials kept, and the tasks of other groups are
  untouched. When it does not differ, a task with its memory map unchanged, outside of an exec and not marked, passes: 0 is returned, no signal is sent and
  only the call is recorded. Changes that cancel out are therefore not noticed: a change of all eight identifiers from
  one value to another, such as a user becoming root in all of them at once, passes.\<close>

theorem cred_change_killed:
  assumes wf: "tm_wf env s" and n: "tracked s task = Some n"
    and mm: "ts_comm (kt task) = ''modprobe'' \<longrightarrow> ts_mm (kt task) \<noteq> 0"
    and old: "old = foldr (XOR) (cred_ids (tn_cred n)) 0" and cur: "cur = foldr (XOR) (cred_ids (ts_cred (kt task))) 0"
  shows "\<exists>r t. hb_callback_check_cred_update_syscall env kt task nr s = Some (r, t) \<and>
    (old \<noteq> cur \<longrightarrow> r = -1 \<and> tm_wf env t \<and> m_signals t = m_signals s @ [task] \<and> map_option tn_syscall_number (tracked t task) = Some nr \<and>
      (\<forall>p q. tracked s p = Some q \<longrightarrow> (if tn_tgid q = tn_tgid n
         then \<exists>q'. tracked t p = Some q' \<and> tn_need_exit q' = 1 \<and> tn_cred q' = tn_cred q else tracked t p = Some q))) \<and>
    (old = cur \<and> tn_mm n = ts_mm (kt task) \<and> tn_need_exit n \<noteq> 1 \<and> tn_syscall_number n \<notin> {NR_execve, NR_execveat} \<longrightarrow>
      r = 0 \<and> tm_wf env t \<and> m_signals t = m_signals s \<and> tracked t = (tracked s)(task \<mapsto> n\<lparr>tn_syscall_number := nr\<rparr>))"
proof (cases "old = cur")
  case False
  then have "cred_sum (tn_cred n) \<noteq> cred_sum (ts_cred (kt task))" unfolding old cur cred_sum_def .
  from cred_change_reported [where kt = kt and task = task, OF wf n this mm, of nr] False show ?thesis by blast
next
  case True
  then have eq: "cred_sum (tn_cred n) = cred_sum (ts_cred (kt task))" unfolding old cur cred_sum_def .
  show ?thesis
  proof (cases "tn_mm n = ts_mm (kt task) \<and> tn_need_exit n \<noteq> 1 \<and> tn_syscall_number n \<notin> {NR_execve, NR_execveat}")
    case pass: True
    then show ?thesis using same_sum_passes [where kt = kt and task = task, OF wf n eq, of nr] True by auto
  next
    case False
    obtain r t where "hb_callback_check_cred_update_syscall env kt task nr s = Some (r, t)"
      using check_total [where kt = kt and task = task, OF wf mm] by blast
    then show ?thesis using False True by auto
  qed
qed

theorem cred_change_killed_witness:
  "\<exists>s t. hb_callback_check_cred_update_syscall sample_mon_env
     (\<lambda>p. (sample_task p)\<lparr>ts_cred := (sample_cred 1000)\<lparr>euid := 0\<rparr>\<rparr>) 0x3000 2 s = Some (-1, t) \<and> m_signals t = [0x3000]"
proof -
  obtain s n where s: "tm_wf sample_mon_env s" "tracked s 0x3000 = Some n"
      "n = (new_node 0x3000 (sample_task 0x3000))\<lparr>tn_syscall_number := 1\<rparr>" "m_signals s = []"
    using sample_parent by blast
  let ?kt = "\<lambda>p. (sample_task p)\<lparr>ts_cred := (sample_cred 1000)\<lparr>euid := 0\<rparr>\<rparr>"
  have "foldr (XOR) (cred_ids (tn_cred n)) 0 \<noteq> foldr (XOR) (cred_ids (ts_cred (?kt 0x3000))) 0"
    by (simp add: s(3) new_node_def sample_task_def cred_ids_def sample_cred_def)
  with cred_change_killed [OF s(1,2) _ refl refl, of ?kt 2] s(4) show ?thesis by (fastforce simp: sample_task_def)
qed

text \<open>C27: a credential update is let through or undone, by the last system call of the task and by the exclusive or of the
  eight identifiers. When the last call is none of execve (59), setuid (105), setgid (106), setreuid (113), setregid (114), setgroups (116), setresuid (117),
  setresgid (119), setfsuid (122), setfsgid (123), capset (126), prctl (157), keyctl (250), unshare (272) and -1 (no call yet), and the exclusive or differs
  from the recorded one, the new credentials are overwritten with the recorded ones, the task is sent SIGKILL and exactly the tasks of its thread group
  are marked to exit. In all other cases the update stays as it is and is recorded, with the name of the
  program for an execve below uid 1000, and nothing else changes; this includes an update that changes all identifiers alike, such as a user
  becoming root in all of them.\<close>

theorem update_cred_enforced:
  assumes wf: "tm_wf env s" and n: "tracked s task = Some n"
    and old: "old = foldr (XOR) (cred_ids (tn_cred n)) 0" and upd: "upd = foldr (XOR) (cred_ids new) 0"
    and comm: "comm = (if tn_syscall_number n = 59 \<and> uid new < 1000 then ts_comm (kt current) else tn_comm n)"
  shows "\<exists>c t. hb_callback_update_cred env kt current task new s = Some (c, t) \<and> tm_wf env t \<and>
    (if tn_syscall_number n \<notin> {59, 105, 106, 113, 114, 116, 117, 119, 122, 123, 126, 157, 250, 272, -1} \<and> old \<noteq> upd
     then c = tn_cred n \<and> m_signals t = m_signals s @ [task] \<and> (\<forall>p. tracked t p = flagged (ts_tgid (kt task)) (tracked s p))
     else c = new \<and> m_signals t = m_signals s \<and> tracked t = (tracked s)(task \<mapsto> n\<lparr>tn_comm := comm, tn_cred := new\<rparr>))"
proof -
  obtain found where found: "hb_find_task s task = Some found" "tm_pool s found = n" using n by (auto simp: tracked_def)
  let ?set = "{59, 105, 106, 113, 114, 116, 117, 119, 122, 123, 126, 157, 250, 272, -1 :: int}"
  have ex: "NR_execve = 59" by (simp add: NR_execve_def)
  have "set cred_syscalls = ?set" by (simp add: cred_syscalls_def ex insert_commute)
  then have cond: "(hb_check_systemcall_for_cred (tn_syscall_number n) \<noteq> 0 \<and> hb_is_cred_same (tn_cred n) new \<noteq> 0) \<longleftrightarrow>
      tn_syscall_number n \<notin> ?set \<and> old \<noteq> upd"
    unfolding hb_check_systemcall_for_cred_def cred_same_sum old upd cred_sum_def [symmetric] by simp
  show ?thesis
  proof (cases "tn_syscall_number n \<notin> ?set \<and> old \<noteq> upd")
    case True
    obtain s' where s': "hb_set_exit_flag_in_list_with_lock env (ts_tgid (kt task)) s = Some s'" "tm_wf env s'" "m_signals s' = m_signals s"
        "\<forall>p. tracked s' p = flagged (ts_tgid (kt task)) (tracked s p)" "hb_find_task s' = hb_find_task s"
      using exit_flag_spec [OF wf] by blast
    have "tracked s' task = flagged (ts_tgid (kt task)) (Some n)" using s'(4) n by simp
    then have c: "tn_cred (tm_pool s' found) = tn_cred n" using found(1) s'(5) by (auto simp: tracked_def flagged_def flag_node_def)
    have k: "tm_wf env (send_sigkill task s') = tm_wf env s'" "tracked (send_sigkill task s') = tracked s'"
      using tm_wf_cong(1) [of "send_sigkill task s'" s' env] find_cong [of "send_sigkill task s'" s'] by (simp_all add: send_sigkill_def)
    have "hb_callback_update_cred env kt current task new s = Some (tn_cred n, send_sigkill task s')"
      using found s'(1) c cond True by (simp add: hb_callback_update_cred_def send_sigkill_def)
    then show ?thesis unfolding if_P [OF True] using s'(2-4) k by (simp add: send_sigkill_def)
  next
    case False
    let ?g = "\<lambda>m. m\<lparr>tn_cred := new\<rparr>" and ?h = "\<lambda>m. m\<lparr>tn_comm := ts_comm (kt current)\<rparr>"
    let ?s = "if tn_syscall_number n = NR_execve \<and> uid new < 1000 then set_node found ?h s else s"
    have k: "tn_task (?g m) = tn_task m" "tn_task (?h m) = tn_task m" for m by simp_all
    note hk = set_node_key [where f = ?h and s = s and i = found, OF k(2)]
    have s1: "tm_wf env ?s" "hb_find_task ?s task = Some found" "m_signals ?s = m_signals s" "tm_pool ?s found = n\<lparr>tn_comm := comm\<rparr>"
        "tracked ?s = (tracked s)(task \<mapsto> n\<lparr>tn_comm := comm\<rparr>)"
      using hk wf found tracked_set_node [OF wf found(1), of ?h] n by (auto simp: comm ex)
    note gk = set_node_key [where f = ?g and s = ?s and i = found, OF k(1)]
    have "hb_callback_update_cred env kt current task new s = Some (new, set_node found ?g ?s)"
      unfolding hb_callback_update_cred_def found Let_def option.case if_not_P [OF False [folded cond]] ..
    moreover have "tracked (set_node found ?g ?s) = (tracked s)(task \<mapsto> n\<lparr>tn_comm := comm, tn_cred := new\<rparr>)"
      using tracked_set_node [OF s1(1,2), of ?g] unfolding s1(4,5) by simp
    moreover have "tm_wf env (set_node found ?g ?s)" "m_signals (set_node found ?g ?s) = m_signals s" using gk s1(1,3) by simp_all
    ultimately show ?thesis unfolding if_not_P [OF False] by blast
  qed
qed

theorem update_cred_enforced_witness:
  "\<exists>s t. hb_callback_update_cred sample_mon_env sample_task 0x3000 0x3000 ((sample_cred 1000)\<lparr>euid := 0\<rparr>) s =
     Some (sample_cred 1000, t) \<and> m_signals t = [0x3000]"
proof -
  obtain s n where s: "tm_wf sample_mon_env s" "tracked s 0x3000 = Some n"
      "n = (new_node 0x3000 (sample_task 0x3000))\<lparr>tn_syscall_number := 1\<rparr>" "m_signals s = []"
    using sample_parent by blast
  let ?new = "(sample_cred 1000)\<lparr>euid := 0\<rparr>"
  have c: "tn_syscall_number n \<notin> {59, 105, 106, 113, 114, 116, 117, 119, 122, 123, 126, 157, 250, 272, -1} \<and>
      foldr (XOR) (cred_ids (tn_cred n)) 0 \<noteq> foldr (XOR) (cred_ids ?new) 0" "tn_cred n = sample_cred 1000"
    by (simp_all add: s(3) new_node_def sample_task_def cred_ids_def sample_cred_def)
  from update_cred_enforced [OF s(1,2) refl refl refl, of sample_task "0x3000" ?new, unfolded if_P [OF c(1)]]
  obtain t where "hb_callback_update_cred sample_mon_env sample_task 0x3000 0x3000 ?new s = Some (tn_cred n, t)"
      "m_signals t = m_signals s @ [0x3000]" by blast
  then show ?thesis using c(2) s(4) by auto
qed

end
