(* ===== verification/Ept_Walk.thy ===== *)
theory Ept_Walk
  imports Ept
begin

text \<open>
  The meaning of the EPT tables: the page walk of the processor as a specification, the
  invariant \<open>ept_wf\<close> of the tables, and the lemma that under it the walk is the identity
  with the permissions of the last-level entry.
\<close>

section \<open>Address translation by the processor\<close>

text \<open>What the processor does with the tables (Intel SDM volume 3, chapter on EPT), as a
  specification independent of the code: \<open>ept_walk env mem eptp gpa\<close> translates a
  guest-physical address. The result is the host-physical address with the permission bits
  (read 1, write 2, execute 4) granted by all levels, or \<open>None\<close> where an entry grants
  none of them and every access is an EPT violation. Physical memory is read through the direct
  mapping, where the code wrote the tables.\<close>

definition ept_frame :: "u64 \<Rightarrow> u64" where
  "ept_frame e = take_bit 52 (e AND NOT (mask 12))"

definition ept_perm :: "u64 \<Rightarrow> u64" where
  "ept_perm e = e AND mask 3"

definition ept_leaf :: "u64 \<Rightarrow> nat \<Rightarrow> u64 \<Rightarrow> u64" where
  "ept_leaf e k gpa = (ept_frame e AND NOT (mask k)) OR (gpa AND mask k)"

definition ept_index :: "nat \<Rightarrow> u64 \<Rightarrow> nat" where
  "ept_index k gpa = unat gpa div 2 ^ k mod 512"

definition ept_walk ::
  "kernel_env \<Rightarrow> (u64 \<Rightarrow> nat \<Rightarrow> u64) \<Rightarrow> u64 \<Rightarrow> u64 \<Rightarrow> (u64 \<times> u64) option" where
  "ept_walk env mem eptp gpa =
     (let e4 = mem (phys_to_virt env (ept_frame eptp)) (ept_index 39 gpa) in
      if ept_perm e4 = 0 then None else
      let e3 = mem (phys_to_virt env (ept_frame e4)) (ept_index 30 gpa) in
      if ept_perm e3 = 0 then None
      else if bit e3 7 then Some (ept_leaf e3 30 gpa, ept_perm e4 AND ept_perm e3) else
      let e2 = mem (phys_to_virt env (ept_frame e3)) (ept_index 21 gpa) in
      if ept_perm e2 = 0 then None
      else if bit e2 7 then
        Some (ept_leaf e2 21 gpa, ept_perm e4 AND ept_perm e3 AND ept_perm e2) else
      let e1 = mem (phys_to_virt env (ept_frame e2)) (ept_index 12 gpa) in
      if ept_perm e1 = 0 then None
      else Some (ept_leaf e1 12 gpa, ept_perm e4 AND ept_perm e3 AND ept_perm e2 AND ept_perm e1))"

text \<open>The pointer Hyper-box gives to the processor (\<open>hb_setup_vm_control_register\<close>): the
  physical address of the top table with a walk length of four levels and write-back type.\<close>

definition VM_BIT_EPT_PAGE_WALK_LENGTH_BITMAP :: u64 where
  [hb_consts]: "VM_BIT_EPT_PAGE_WALK_LENGTH_BITMAP = push_bit 3 3"

definition VM_BIT_EPT_MEM_TYPE_WB :: u64 where
  [hb_consts]: "VM_BIT_EPT_MEM_TYPE_WB = push_bit 0 6"

definition hb_ept_ptr :: "kernel_env \<Rightarrow> ept_state \<Rightarrow> u64" where
  "hb_ept_ptr env st =
     virt_to_phys env (snd (pml4_page_addr_array (g_ept_info st)) ! 0)
       OR VM_BIT_EPT_PAGE_WALK_LENGTH_BITMAP OR VM_BIT_EPT_MEM_TYPE_WB"

definition guest_translate :: "kernel_env \<Rightarrow> ept_state \<Rightarrow> u64 \<Rightarrow> (u64 \<times> u64) option" where
  "guest_translate env st gpa = ept_walk env (ept_mem st) (hb_ept_ptr env st) gpa"

section \<open>The invariant of the tables\<close>

abbreviation a4 :: "ept_state \<Rightarrow> u64 list" where
  "a4 st \<equiv> snd (pml4_page_addr_array (g_ept_info st))"

abbreviation a3 :: "ept_state \<Rightarrow> u64 list" where
  "a3 st \<equiv> snd (pdpte_pd_page_addr_array (g_ept_info st))"

abbreviation a2 :: "ept_state \<Rightarrow> u64 list" where
  "a2 st \<equiv> snd (pdept_page_addr_array (g_ept_info st))"

abbreviation a1 :: "ept_state \<Rightarrow> u64 list" where
  "a1 st \<equiv> snd (pte_page_addr_array (g_ept_info st))"

text \<open>The numbers of page directories and of page tables.\<close>

definition ept_np :: "ept_state \<Rightarrow> nat" where
  "ept_np st = unat (pdpte_pd_ent_count (g_ept_info st))"

definition ept_nd :: "ept_state \<Rightarrow> nat" where
  "ept_nd st = unat (pdept_ent_count (g_ept_info st))"

definition ept_pages_ok :: "kernel_env \<Rightarrow> ept_state \<Rightarrow> bool" where
  "ept_pages_ok env st \<longleftrightarrow>
     fst (pml4_page_addr_array (g_ept_info st)) \<noteq> 0 \<and>
     fst (pdpte_pd_page_addr_array (g_ept_info st)) \<noteq> 0 \<and>
     fst (pdept_page_addr_array (g_ept_info st)) \<noteq> 0 \<and>
     fst (pte_page_addr_array (g_ept_info st)) \<noteq> 0 \<and>
     length (a4 st) = 1 \<and> length (a3 st) = 512 \<and>
     length (a2 st) = ept_np st \<and> length (a1 st) = ept_nd st \<and>
     unat (pdpte_pd_page_count (g_ept_info st)) = 512 \<and>
     unat (pdept_page_count (g_ept_info st)) = ept_np st \<and>
     unat (pte_page_count (g_ept_info st)) = ept_nd st \<and>
     ept_np st \<le> 2 ^ 18 \<and> ept_nd st \<le> ept_np st * 512 \<and> ept_np st * 512 < ept_nd st + 512 \<and>
     distinct (a4 st @ a3 st @ a2 st @ a1 st) \<and>
     (\<forall>p \<in> set (a4 st @ a3 st @ a2 st @ a1 st). direct_mapped env p)"

definition ept_pml4_ok :: "kernel_env \<Rightarrow> ept_state \<Rightarrow> bool" where
  "ept_pml4_ok env st \<longleftrightarrow>
     (\<forall>i < 512. ept_mem st (a4 st ! 0) i = virt_to_phys env (a3 st ! i) OR EPT_ALL_ACCESS)"

definition ept_pdpt_ok :: "kernel_env \<Rightarrow> ept_state \<Rightarrow> nat \<Rightarrow> bool" where
  "ept_pdpt_ok env st n \<longleftrightarrow>
     (\<forall>k < n. ept_mem st (a3 st ! (k div 512)) (k mod 512) =
        (if k < ept_np st then virt_to_phys env (a2 st ! k) OR EPT_ALL_ACCESS
         else leaf_entry (of_nat k * VAL_1GB)))"

definition ept_pd_ok :: "kernel_env \<Rightarrow> ept_state \<Rightarrow> nat \<Rightarrow> bool" where
  "ept_pd_ok env st n \<longleftrightarrow>
     (\<forall>m < n. ept_mem st (a2 st ! (m div 512)) (m mod 512) =
        (if m < ept_nd st then virt_to_phys env (a1 st ! m) OR EPT_ALL_ACCESS
         else leaf_entry (of_nat m * VAL_2MB)))"

text \<open>The last-level entry of guest page \<open>n\<close>, and what every such entry satisfies: its address
  field is the page itself.\<close>

definition pte :: "ept_state \<Rightarrow> nat \<Rightarrow> u64" where
  "pte st n = ept_mem st (a1 st ! (n div 512)) (n mod 512)"

definition ept_pt_ok :: "ept_state \<Rightarrow> nat \<Rightarrow> bool" where
  "ept_pt_ok st n \<longleftrightarrow> (\<forall>k < n. pte st k AND MASK_PAGEADDR = of_nat k * 4096)"

definition ept_wf :: "kernel_env \<Rightarrow> ept_state \<Rightarrow> bool" where
  "ept_wf env st \<longleftrightarrow> ept_pages_ok env st \<and> ept_pml4_ok env st \<and> ept_pdpt_ok env st (2 ^ 18) \<and>
     ept_pd_ok env st (ept_np st * 512) \<and> ept_pt_ok st (ept_nd st * 512)"

text \<open>The guest pages that have a last-level entry of their own.\<close>

definition ept_covered :: "ept_state \<Rightarrow> u64 \<Rightarrow> bool" where
  "ept_covered st gpa \<longleftrightarrow> page_of gpa < ept_nd st * 512"

section \<open>Entries\<close>

lemma MASK_PAGEADDR_mask: "MASK_PAGEADDR = NOT (mask 12)"
  by (simp add: MASK_PAGEADDR_def mask_eq_exp_minus_1)

lemma flags_bit: "bit (183 :: u64) n \<longleftrightarrow> n \<in> {0,1,2,4,5,7}"
proof
  assume b: "bit (183 :: u64) n"
  have "n < 8" by (rule bit_small [OF _ b]) simp
  with b show "n \<in> {0,1,2,4,5,7}"
    by (auto simp: less_Suc_eq numeral_eq_Suc)
qed auto
lemma leaf_entry_eq: "leaf_entry b = b OR 183"
  by (simp add: leaf_entry_def hb_consts or.assoc)

lemma table_entry:
  assumes "direct_mapped env q"
  shows "ept_frame (virt_to_phys env q OR EPT_ALL_ACCESS) = virt_to_phys env q"
    and "ept_perm (virt_to_phys env q OR EPT_ALL_ACCESS) = mask 3"
    and "\<not> bit (virt_to_phys env q OR EPT_ALL_ACCESS) 7"
proof -
  let ?a = "virt_to_phys env q"
  have seven: "EPT_ALL_ACCESS = mask 3" by (simp add: hb_consts mask_eq_exp_minus_1)
  have lo: "bit ?a n \<Longrightarrow> 12 \<le> n \<and> n < 52" for n
    using assms by (auto simp: direct_mapped_def intro: aligned_bit bit_small [where k = 52])
  show "ept_frame (?a OR EPT_ALL_ACCESS) = ?a"
  proof (rule bit_word_eqI)
    fix n assume "n < LENGTH(64)"
    then show "bit (ept_frame (?a OR EPT_ALL_ACCESS)) n = bit ?a n"
      using lo [of n] by (auto simp: seven ept_frame_def bit_simps)
  qed
  show "ept_perm (?a OR EPT_ALL_ACCESS) = mask 3"
    by (auto simp: seven ept_perm_def bit_eq_iff bit_simps)
  show "\<not> bit (?a OR EPT_ALL_ACCESS) 7"
    using lo [of 7] by (auto simp: seven bit_simps)
qed

lemma leaf_walk:
  assumes "unat gpa < 2 ^ 48" "12 \<le> k" "k \<le> 48"
  defines "e \<equiv> leaf_entry (of_nat (unat gpa div 2 ^ k) * 2 ^ k)"
  shows "ept_perm e = mask 3" "bit e 7" "ept_leaf e k gpa = gpa"
proof -
  have e: "e = (gpa AND NOT (mask k)) OR 183"
    using assms by (simp add: leaf_entry_eq shift_base)
  have hi: "bit gpa n \<Longrightarrow> n < 48" for n using assms(1) by (rule bit_small)
  have b: "bit e n \<longleftrightarrow> (k \<le> n \<and> bit gpa n) \<or> n \<in> {0,1,2,4,5,7}" if "n < 64" for n
    using that unfolding e bit_or_iff flags_bit by (auto simp: bit_simps)
  show "bit e 7" using b [of 7] by simp
  have "bit (ept_perm e) n = bit (mask 3 :: u64) n" if "n < 64" for n
    using assms(2) b [OF that] by (auto simp: ept_perm_def bit_simps)
  then show "ept_perm e = mask 3" by (auto intro: bit_word_eqI)
  have "bit (ept_leaf e k gpa) n = bit gpa n" if "n < 64" for n
    using assms(2,3) hi [of n] b [OF that] that
    by (cases "k \<le> n") (auto simp: ept_leaf_def ept_frame_def bit_simps)
  then show "ept_leaf e k gpa = gpa" by (auto intro: bit_word_eqI)
qed

lemma pte_walk:
  assumes "unat gpa < 2 ^ 48" "e AND MASK_PAGEADDR = of_nat (page_of gpa) * 4096"
  shows "ept_leaf e 12 gpa = gpa"
proof -
  have hi: "bit gpa n \<Longrightarrow> n < 48" for n using assms(1) by (rule bit_small)
  have "e AND NOT (mask 12) = gpa AND NOT (mask 12)"
    using assms(2) shift_base [of 12 gpa] by (simp add: MASK_PAGEADDR_mask page_of_def)
  then have *: "12 \<le> n \<Longrightarrow> n < 64 \<Longrightarrow> bit e n = bit gpa n" for n
    by (auto simp: bit_eq_iff bit_simps)
  have "bit (ept_leaf e 12 gpa) n = bit gpa n" if "n < 64" for n
    using * [of n] hi [of n] that
    by (cases "12 \<le> n") (auto simp: ept_leaf_def ept_frame_def bit_simps)
  then show ?thesis by (auto intro: bit_word_eqI)
qed

lemma hb_ept_ptr_frame:
  assumes "ept_pages_ok env st"
  shows "phys_to_virt env (ept_frame (hb_ept_ptr env st)) = a4 st ! 0"
proof -
  have dm: "direct_mapped env (a4 st ! 0)"
    using assms by (auto simp: ept_pages_ok_def)
  let ?a = "virt_to_phys env (a4 st ! 0)"
  have lo: "bit ?a n \<Longrightarrow> 12 \<le> n \<and> n < 52" for n
    using dm by (auto simp: direct_mapped_def intro: aligned_bit bit_small [where k = 52])
  have flags: "bit (30 :: u64) n \<Longrightarrow> n < 12" for n
    using bit_small [of 30 5 n] by simp
  have "hb_ept_ptr env st = ?a OR 30"
    by (simp add: hb_ept_ptr_def hb_consts or.assoc)
  then have "ept_frame (hb_ept_ptr env st) = ?a"
    using lo flags
    by (intro bit_word_eqI) (force simp: ept_frame_def bit_or_iff bit_and_iff bit_not_iff
        bit_mask_iff bit_take_bit_iff)
  with dm show ?thesis by (simp add: direct_mapped_def)
qed

section \<open>The walk under the invariant\<close>

text \<open>The indices of an address, the entries that the invariant puts there, and the large pages.\<close>

lemma gpa_indices:
  assumes "unat gpa < 2 ^ 48"
  shows "ept_index 39 gpa = unat gpa div 2 ^ 39" "ept_index 30 gpa = unat gpa div 2 ^ 30 mod 512"
    and "ept_index 21 gpa = unat gpa div 2 ^ 21 mod 512" "ept_index 12 gpa = page_of gpa mod 512"
    and "unat gpa div 2 ^ 39 < 512" "unat gpa div 2 ^ 30 < 2 ^ 18" "unat gpa div 2 ^ 30 div 512 = unat gpa div 2 ^ 39"
    and "unat gpa div 2 ^ 21 div 512 = unat gpa div 2 ^ 30" "page_of gpa div 512 = unat gpa div 2 ^ 21"
  using assms by (auto simp: ept_index_def page_of_def div_mult2_eq [symmetric])

lemma large_leaves:
  assumes "unat gpa < 2 ^ 48" "k = unat gpa div 2 ^ 30" "m = unat gpa div 2 ^ 21"
  shows "ept_perm (leaf_entry (of_nat k * VAL_1GB)) = mask 3" "bit (leaf_entry (of_nat k * VAL_1GB)) 7"
    and "ept_leaf (leaf_entry (of_nat k * VAL_1GB)) 30 gpa = gpa"
    and "ept_perm (leaf_entry (of_nat m * VAL_2MB)) = mask 3" "bit (leaf_entry (of_nat m * VAL_2MB)) 7"
    and "ept_leaf (leaf_entry (of_nat m * VAL_2MB)) 21 gpa = gpa"
  using leaf_walk [OF assms(1), of 30] leaf_walk [OF assms(1), of 21] by (simp_all add: assms(2,3) VAL_1GB_def VAL_2MB_def)

lemma wf_entries:
  assumes wf: "ept_wf env st"
  shows "i < 512 \<Longrightarrow> ept_mem st (a4 st ! 0) i = virt_to_phys env (a3 st ! i) OR EPT_ALL_ACCESS"
    and "k < 2 ^ 18 \<Longrightarrow> ept_mem st (a3 st ! (k div 512)) (k mod 512) =
      (if k < ept_np st then virt_to_phys env (a2 st ! k) OR EPT_ALL_ACCESS else leaf_entry (of_nat k * VAL_1GB))"
    and "m div 512 < ept_np st \<Longrightarrow> ept_mem st (a2 st ! (m div 512)) (m mod 512) =
      (if m < ept_nd st then virt_to_phys env (a1 st ! m) OR EPT_ALL_ACCESS else leaf_entry (of_nat m * VAL_2MB))"
    and "i < 512 \<Longrightarrow> direct_mapped env (a3 st ! i)" "k < ept_np st \<Longrightarrow> direct_mapped env (a2 st ! k)"
    and "m < ept_nd st \<Longrightarrow> direct_mapped env (a1 st ! m)"
proof -
  have pages: "ept_pages_ok env st" using wf by (simp add: ept_wf_def)
  have dm: "p \<in> set (a3 st) \<or> p \<in> set (a2 st) \<or> p \<in> set (a1 st) \<Longrightarrow> direct_mapped env p" for p
    using pages by (auto simp: ept_pages_ok_def)
  have len: "length (a3 st) = 512" "length (a2 st) = ept_np st" "length (a1 st) = ept_nd st"
    using pages by (auto simp: ept_pages_ok_def)
  show "i < 512 \<Longrightarrow> direct_mapped env (a3 st ! i)" "k < ept_np st \<Longrightarrow> direct_mapped env (a2 st ! k)"
    "m < ept_nd st \<Longrightarrow> direct_mapped env (a1 st ! m)" by (simp_all add: dm len)
  show "i < 512 \<Longrightarrow> ept_mem st (a4 st ! 0) i = virt_to_phys env (a3 st ! i) OR EPT_ALL_ACCESS"
    using wf by (simp add: ept_wf_def ept_pml4_ok_def)
  show "k < 2 ^ 18 \<Longrightarrow> ept_mem st (a3 st ! (k div 512)) (k mod 512) =
      (if k < ept_np st then virt_to_phys env (a2 st ! k) OR EPT_ALL_ACCESS else leaf_entry (of_nat k * VAL_1GB))"
    using wf by (auto simp: ept_wf_def ept_pdpt_ok_def)
  show "ept_mem st (a2 st ! (m div 512)) (m mod 512) =
      (if m < ept_nd st then virt_to_phys env (a1 st ! m) OR EPT_ALL_ACCESS else leaf_entry (of_nat m * VAL_2MB))"
    if "m div 512 < ept_np st"
  proof -
    have "m < ept_np st * 512" using that by (simp add: div_less_iff_less_mult)
    then show ?thesis using wf by (auto simp: ept_wf_def ept_pd_ok_def)
  qed
qed

theorem guest_translate_wf:
  assumes wf: "ept_wf env st" and gpa: "unat gpa < 2 ^ 48"
  shows "guest_translate env st gpa =
    (if ept_covered st gpa
     then (if ept_perm (pte st (page_of gpa)) = 0 then None
           else Some (gpa, ept_perm (pte st (page_of gpa))))
     else Some (gpa, mask 3))"
proof -
  have pages: "ept_pages_ok env st" using wf by (simp add: ept_wf_def)
  have inv: "phys_to_virt env (virt_to_phys env p) = p" if "direct_mapped env p" for p
    using that by (simp add: direct_mapped_def)
  define i k m n where "i = unat gpa div 2 ^ 39" and k: "k = unat gpa div 2 ^ 30" and m: "m = unat gpa div 2 ^ 21" and n: "n = page_of gpa"
  note ix = gpa_indices [OF gpa, folded i_def k m n]
  note leaf = large_leaves [OF gpa k m]
  note e3 = wf_entries(2) [OF wf ix(6), unfolded ix(7)] and e2 = wf_entries(3) [OF wf, of m, unfolded ix(8)]
  have three: "mask 3 \<noteq> (0 :: u64)" by (simp add: mask_eq_exp_minus_1)
  note d3 = wf_entries(4) [OF wf ix(5)] and d2 = wf_entries(5) [OF wf, of k] and d1 = wf_entries(6) [OF wf, of m]
  note base = guest_translate_def ept_walk_def Let_def hb_ept_ptr_frame [OF pages] ix(1-4) wf_entries(1) [OF wf ix(5)]
    table_entry [OF d3] inv [OF d3] e3 three
  have cov: "ept_covered st gpa \<longleftrightarrow> m < ept_nd st" using ix(9) by (auto simp: ept_covered_def n [symmetric])
  show ?thesis
  proof (cases "k < ept_np st")
    case False
    have "ept_nd st \<le> ept_np st * 512" using pages by (simp add: ept_pages_ok_def)
    then have "\<not> m < ept_nd st" using False ix(8) by auto
    then show ?thesis using False leaf by (simp add: cov base)
  next
    case True
    note base2 = base True table_entry [OF d2 [OF True]] inv [OF d2 [OF True]] e2 [OF True]
    show ?thesis
    proof (cases "m < ept_nd st")
      case False
      then show ?thesis using leaf by (simp add: cov base2)
    next
      case True
      have "pte st n AND MASK_PAGEADDR = of_nat n * 4096"
        using wf True cov by (auto simp: ept_wf_def ept_pt_ok_def ept_covered_def n)
      note leaf1 = pte_walk [OF gpa this [unfolded n]]
      have "ept_mem st (a1 st ! m) (n mod 512) = pte st n" using ix(9) by (simp add: pte_def)
      moreover have "mask 3 AND ept_perm (pte st n) = ept_perm (pte st n)"
        by (simp add: ept_perm_def and.left_commute and.commute and.assoc [symmetric])
      ultimately show ?thesis
        using True cov leaf1 by (simp add: base2 table_entry [OF d1 [OF True]] inv [OF d1 [OF True]] n [symmetric])
    qed
  qed
qed

end
