(* ===== verification/Ept_Ops.thy ===== *)
theory Ept_Ops
  imports Ept_Walk
begin

text \<open>
  The operations that change the permissions of a page, and their loops over address ranges
  (\<open>hb_hide_range\<close>, \<open>hb_lock_range\<close> and \<open>hb_set_all_access_range\<close> of hypervisor.c). The locale
  \<open>page_protector\<close> states what one page operation promises; the range lemmas are proved once
  in it and hold for all four operations.
\<close>

section \<open>Updating one last-level entry\<close>

definition pte_upd :: "nat \<Rightarrow> u64 \<Rightarrow> ept_state \<Rightarrow> ept_state" where
  "pte_upd n v st =
     st\<lparr>ept_mem := (ept_mem st)(a1 st ! (n div 512) := (ept_mem st (a1 st ! (n div 512)))(n mod 512 := v))\<rparr>"

lemma pte_upd_info [simp]: "g_ept_info (pte_upd n v st) = g_ept_info st"
  by (simp add: pte_upd_def)

lemma ept_np_cong: "g_ept_info st' = g_ept_info st \<Longrightarrow> ept_np st' = ept_np st"
  by (simp add: ept_np_def)

lemma ept_nd_cong: "g_ept_info st' = g_ept_info st \<Longrightarrow> ept_nd st' = ept_nd st"
  by (simp add: ept_nd_def)

lemma pte_upd_counts [simp]: "ept_np (pte_upd n v st) = ept_np st" "ept_nd (pte_upd n v st) = ept_nd st"
  by (simp_all add: ept_np_def ept_nd_def)

lemma pte_pte_upd:
  assumes "ept_pages_ok env st" "n < ept_nd st * 512" "k < ept_nd st * 512"
  shows "pte (pte_upd n v st) k = (if k = n then v else pte st k)"
proof -
  have d: "distinct (a1 st)" "length (a1 st) = ept_nd st" using assms(1) by (auto simp: ept_pages_ok_def)
  have "n div 512 < ept_nd st" "k div 512 < ept_nd st" using assms(2,3) by auto
  with d have "a1 st ! (k div 512) = a1 st ! (n div 512) \<longleftrightarrow> k div 512 = n div 512"
    by (simp add: nth_eq_iff_index_eq)
  moreover have "k = n \<longleftrightarrow> k div 512 = n div 512 \<and> k mod 512 = n mod 512"
    by (metis div_mult_mod_eq)
  ultimately show ?thesis by (simp add: pte_def pte_upd_def)
qed

text \<open>The upper levels do not notice: their pages are different from the last-level ones.\<close>

lemma pte_upd_other:
  assumes "ept_pages_ok env st" "n < ept_nd st * 512" "p \<in> set (a4 st @ a3 st @ a2 st)"
  shows "ept_mem (pte_upd n v st) p = ept_mem st p"
proof -
  have "n div 512 < length (a1 st)" using assms(1,2) by (auto simp: ept_pages_ok_def)
  then have "a1 st ! (n div 512) \<in> set (a1 st)" by simp
  then have "p \<noteq> a1 st ! (n div 512)" using assms(1,3) by (auto simp: ept_pages_ok_def)
  then show ?thesis by (simp add: pte_upd_def)
qed

lemma pte_upd_pages_ok [simp]: "ept_pages_ok env (pte_upd n v st) = ept_pages_ok env st"
  by (simp add: ept_pages_ok_def)

lemma ept_wf_pte_upd:
  assumes wf: "ept_wf env st" and n: "n < ept_nd st * 512" and v: "v AND MASK_PAGEADDR = of_nat n * 4096"
  shows "ept_wf env (pte_upd n v st)"
proof -
  have pages: "ept_pages_ok env st" using wf by (simp add: ept_wf_def)
  have len: "length (a4 st) = 1" "length (a3 st) = 512" "length (a2 st) = ept_np st"
    using pages by (auto simp: ept_pages_ok_def)
  note other = pte_upd_other [OF pages n]
  have "ept_pml4_ok env (pte_upd n v st)"
    using wf len by (auto simp: ept_wf_def ept_pml4_ok_def other)
  moreover have "ept_pdpt_ok env (pte_upd n v st) (2 ^ 18)"
    using wf len by (auto simp: ept_wf_def ept_pdpt_ok_def other less_mult_imp_div_less)
  moreover have "ept_pd_ok env (pte_upd n v st) (ept_np st * 512)"
    using wf len by (auto simp: ept_wf_def ept_pd_ok_def other less_mult_imp_div_less)
  moreover have "ept_pt_ok (pte_upd n v st) (ept_nd st * 512)"
    using wf v by (auto simp: ept_wf_def ept_pt_ok_def pte_pte_upd [OF pages n])
  ultimately show ?thesis using pages by (simp add: ept_wf_def)
qed

section \<open>The page operations\<close>

lemma to_int_small:
  assumes "unat x < 2 ^ 31"
  shows "to_int x = int (unat x)"
proof -
  have lt: "uint x < 2 ^ 31"
  proof -
    have "int (unat x) < int (2 ^ 31)" using assms by (simp only: of_nat_less_iff)
    then show ?thesis by simp
  qed
  have "uint (ucast x :: u32) = take_bit 32 (uint x)" by (simp add: unsigned_ucast_eq)
  also have "\<dots> = uint x" using lt by (simp add: take_bit_int_eq_self)
  finally have u: "uint (ucast x :: u32) = uint x" .
  have "sint (ucast x :: u32) = signed_take_bit 31 (uint x)"
    unfolding sint_uint u by simp
  also have "\<dots> = uint x"
  proof (rule signed_take_bit_int_eq_self)
    have "- (2 ^ 31) \<le> (0 :: int)" by simp
    also have "0 \<le> uint x" by simp
    finally show "- (2 ^ 31) \<le> uint x" .
  qed (rule lt)
  finally show ?thesis by (simp add: to_int_def)
qed

lemma hb_get_pte_table:
  assumes "ept_pages_ok env st" "ept_covered st pa"
  shows "hb_get_pagetable_log_addr EPT_TYPE_PTE
      (to_int (pa div EPT_PAGE_SIZE div EPT_PAGE_ENT_COUNT)) st = Some (a1 st ! (page_of pa div 512))"
    and "a1 st ! (page_of pa div 512) \<noteq> 0"
    and "unat (pa div EPT_PAGE_SIZE mod EPT_PAGE_ENT_COUNT) = page_of pa mod 512"
proof -
  have n: "page_of pa div 512 < ept_nd st" using assms(2) by (auto simp: ept_covered_def)
  have nd: "ept_nd st \<le> 2 ^ 27" "length (a1 st) = ept_nd st" "fst (pte_page_addr_array (g_ept_info st)) \<noteq> 0"
    using assms(1) by (auto simp: ept_pages_ok_def)
  have u: "unat (pa div EPT_PAGE_SIZE div EPT_PAGE_ENT_COUNT) = page_of pa div 512"
    by (simp add: hb_consts unat_div page_of_def)
  have "to_int (pa div EPT_PAGE_SIZE div EPT_PAGE_ENT_COUNT) = int (page_of pa div 512)"
    using to_int_small [of "pa div EPT_PAGE_SIZE div EPT_PAGE_ENT_COUNT"] n nd(1) u by simp
  then show "hb_get_pagetable_log_addr EPT_TYPE_PTE
      (to_int (pa div EPT_PAGE_SIZE div EPT_PAGE_ENT_COUNT)) st = Some (a1 st ! (page_of pa div 512))"
    using n nd by (simp add: hb_get_pagetable_log_addr_def array_at_def EPT_TYPE_PML4_def
        EPT_TYPE_PDPTEPD_def EPT_TYPE_PDEPT_def EPT_TYPE_PTE_def)
  have "a1 st ! (page_of pa div 512) \<in> set (a1 st)" using n nd by simp
  then show "a1 st ! (page_of pa div 512) \<noteq> 0"
    using assms(1) by (auto simp: ept_pages_ok_def direct_mapped_def)
  show "unat (pa div EPT_PAGE_SIZE mod EPT_PAGE_ENT_COUNT) = page_of pa mod 512"
    by (simp add: hb_consts unat_div unat_mod page_of_def)
qed

lemma hb_set_ept_page_flags_eq:
  assumes "ept_pages_ok env st" "ept_covered st pa"
  shows "hb_set_ept_page_flags pa flags st =
    Some (pte_upd (page_of pa) ((pte st (page_of pa) AND MASK_PAGEADDR) OR ucast flags) st)"
  using hb_get_pte_table [OF assms]
  by (simp add: hb_set_ept_page_flags_def Let_def ept_load_def ept_store_def pte_upd_def pte_def)

lemma hb_set_ept_page_addr_eq:
  assumes "ept_pages_ok env st" "ept_covered st pa"
  shows "hb_set_ept_page_addr pa addr st =
    Some (pte_upd (page_of pa)
      ((addr AND MASK_PAGEADDR) OR (pte st (page_of pa) AND NOT MASK_PAGEADDR)) st)"
  using hb_get_pte_table [OF assms]
  by (simp add: hb_set_ept_page_addr_def Let_def ept_load_def ept_store_def pte_upd_def pte_def)

text \<open>Entries written by the operations: permission bits and address field.\<close>

lemma entry_flags:
  assumes "f AND NOT (mask 12) = 0"
  shows "((e AND MASK_PAGEADDR) OR f) AND MASK_PAGEADDR = e AND MASK_PAGEADDR"
    and "ept_perm ((e AND MASK_PAGEADDR) OR f) = ept_perm f"
    and "((e AND MASK_PAGEADDR) OR f) AND NOT MASK_PAGEADDR = f"
proof -
  have f: "bit f n \<Longrightarrow> n < 12" for n
  proof (rule ccontr)
    assume "bit f n" "\<not> n < 12"
    then have "bit (f AND NOT (mask 12)) n"
      using bit_imp_le_length [of f n] by (simp add: bit_simps)
    with assms show False by simp
  qed
  show "((e AND MASK_PAGEADDR) OR f) AND MASK_PAGEADDR = e AND MASK_PAGEADDR"
    by (rule bit_word_eqI) (use f in \<open>auto simp: MASK_PAGEADDR_mask bit_simps\<close>)
  show "ept_perm ((e AND MASK_PAGEADDR) OR f) = ept_perm f"
    by (rule bit_word_eqI) (auto simp: MASK_PAGEADDR_mask ept_perm_def bit_simps)
  show "((e AND MASK_PAGEADDR) OR f) AND NOT MASK_PAGEADDR = f"
    by (rule bit_word_eqI) (use f in \<open>auto simp: MASK_PAGEADDR_mask bit_simps\<close>)
qed

lemma own_address: "pa AND MASK_PAGEADDR = of_nat (page_of pa) * 4096"
  using shift_base [of 12 pa] by (simp add: MASK_PAGEADDR_mask page_of_def)

text \<open>Setting flags and then the page's own address, the common shape of three of the
  operations.\<close>

lemma set_flags_and_addr:
  assumes "ept_pages_ok env st" "ept_covered st pa" "ucast flags AND NOT (mask 12) = (0 :: u64)"
  shows "Option.bind (hb_set_ept_page_flags pa flags st) (hb_set_ept_page_addr pa pa) =
    Some (pte_upd (page_of pa) ((pa AND MASK_PAGEADDR) OR ucast flags) st)"
proof -
  let ?n = "page_of pa"
  let ?st = "pte_upd ?n ((pte st ?n AND MASK_PAGEADDR) OR ucast flags) st"
  have n: "?n < ept_nd st * 512" using assms(2) by (simp add: ept_covered_def)
  have "ept_pages_ok env ?st" "ept_covered ?st pa" using assms by (simp_all add: ept_covered_def)
  note addr = hb_set_ept_page_addr_eq [OF this, of pa]
  have "pte ?st ?n = (pte st ?n AND MASK_PAGEADDR) OR ucast flags"
    by (simp add: pte_pte_upd [OF assms(1) n n])
  moreover have "pte_upd ?n v ?st = pte_upd ?n v st" for v by (simp add: pte_upd_def)
  ultimately show ?thesis
    by (simp add: hb_set_ept_page_flags_eq [OF assms(1,2)] addr entry_flags(3) [OF assms(3)])
qed

section \<open>The contract of a page operation\<close>

text \<open>An operation that gives one covered guest page the permissions \<open>perm\<close>: it succeeds, keeps
  the invariant, and changes nothing else.\<close>

definition only_page_changed :: "ept_state \<Rightarrow> ept_state \<Rightarrow> nat set \<Rightarrow> bool" where
  "only_page_changed st st' ps \<longleftrightarrow> g_ept_info st' = g_ept_info st \<and>
     (\<forall>k < ept_nd st * 512. k \<notin> ps \<longrightarrow> pte st' k = pte st k)"

text \<open>What an access to a page with these permissions yields.\<close>

definition grant :: "u64 \<Rightarrow> u64 \<Rightarrow> (u64 \<times> u64) option" where
  "grant perm gpa = (if perm = 0 then None else Some (gpa, perm))"

lemma grant_simps [simp]:
  "grant 0 gpa = None" "grant 1 gpa = Some (gpa, 1)"
  "grant (numeral k) gpa = (if numeral k = (0 :: u64) then None else Some (gpa, numeral k))"
  by (simp_all add: grant_def)

locale page_protector =
  fixes env :: kernel_env
    and op :: "u64 \<Rightarrow> ept_state \<Rightarrow> ept_state option"
    and perm :: u64
  assumes op_page: "ept_wf env st \<Longrightarrow> ept_covered st pa \<Longrightarrow>
      \<exists>st'. op pa st = Some st' \<and> ept_wf env st' \<and> ept_perm (pte st' (page_of pa)) = perm \<and>
            only_page_changed st st' {page_of pa}"
begin

lemma op_pages:
  assumes "ept_wf env st" "\<forall>pa \<in> set pas. ept_covered st pa"
  shows "\<exists>st'. foldo op pas st = Some st' \<and> ept_wf env st' \<and>
    (\<forall>pa \<in> set pas. ept_perm (pte st' (page_of pa)) = perm) \<and>
    only_page_changed st st' (page_of ` set pas)"
proof (rule foldo_list_total [where P = "\<lambda>done st'. ept_wf env st' \<and>
      (\<forall>pa \<in> set done. ept_perm (pte st' (page_of pa)) = perm) \<and>
      only_page_changed st st' (page_of ` set done)"])
  show "ept_wf env st \<and> (\<forall>pa \<in> set []. ept_perm (pte st (page_of pa)) = perm) \<and>
      only_page_changed st st (page_of ` set [])"
    using assms(1) by (simp add: only_page_changed_def)
next
  fix ys x zs s
  assume pas: "pas = ys @ x # zs" and inv: "ept_wf env s \<and>
      (\<forall>pa \<in> set ys. ept_perm (pte s (page_of pa)) = perm) \<and> only_page_changed st s (page_of ` set ys)"
  have nd: "ept_nd s = ept_nd st" using inv by (simp add: only_page_changed_def ept_nd_def)
  have cov: "ept_covered s pa" if "pa \<in> set pas" for pa
    using assms(2) that nd by (simp add: ept_covered_def)
  then have "ept_covered s x" using pas by simp
  from op_page [OF conjunct1 [OF inv] this] obtain s' where
    s': "op x s = Some s'" "ept_wf env s'" "ept_perm (pte s' (page_of x)) = perm"
      "only_page_changed s s' {page_of x}" by blast
  have "ept_perm (pte s' (page_of pa)) = perm" if "pa \<in> set ys" for pa
    using that inv s' cov pas by (cases "page_of pa = page_of x")
      (auto simp: only_page_changed_def ept_covered_def)
  moreover have "only_page_changed st s' (page_of ` set (ys @ [x]))"
    using inv s'(4) nd by (auto simp: only_page_changed_def)
  ultimately show "\<exists>s'. op x s = Some s' \<and> ept_wf env s' \<and>
      (\<forall>pa \<in> set (ys @ [x]). ept_perm (pte s' (page_of pa)) = perm) \<and>
      only_page_changed st s' (page_of ` set (ys @ [x]))"
    using s' by auto
qed

lemma op_pages_translate:
  assumes "ept_wf env st" "\<forall>pa \<in> set pas. ept_covered st pa"
  shows "\<exists>st'. foldo op pas st = Some st' \<and> ept_wf env st' \<and> g_ept_info st' = g_ept_info st \<and>
    (\<forall>gpa. unat gpa < 2 ^ 48 \<longrightarrow> guest_translate env st' gpa =
      (if page_of gpa \<in> page_of ` set pas then grant perm gpa
       else guest_translate env st gpa))"
proof -
  obtain st' where st': "foldo op pas st = Some st'" "ept_wf env st'"
      "\<forall>pa \<in> set pas. ept_perm (pte st' (page_of pa)) = perm"
      "only_page_changed st st' (page_of ` set pas)"
    using op_pages [OF assms] by blast
  have "guest_translate env st' gpa =
      (if page_of gpa \<in> page_of ` set pas then grant perm gpa
       else guest_translate env st gpa)" if "unat gpa < 2 ^ 48" for gpa
  proof -
    have "ept_covered st' gpa = ept_covered st gpa"
      using st'(4) by (simp add: only_page_changed_def ept_covered_def ept_nd_def)
    then show ?thesis
      using assms(2) st'(3,4) by (auto simp: guest_translate_wf [OF assms(1) that]
        guest_translate_wf [OF st'(2) that] only_page_changed_def ept_covered_def grant_def)
  qed
  with st' show ?thesis by (auto simp: only_page_changed_def)
qed

lemma op_translate:
  assumes "ept_wf env st" "ept_covered st pa"
  shows "\<exists>st'. op pa st = Some st' \<and> ept_wf env st' \<and>
    (\<forall>gpa. unat gpa < 2 ^ 48 \<longrightarrow> guest_translate env st' gpa =
      (if page_of gpa = page_of pa then grant perm gpa
       else guest_translate env st gpa))"
proof -
  have "foldo op [pa] st = op pa st" by (cases "op pa st") auto
  then show ?thesis using op_pages_translate [of st "[pa]"] assms by auto
qed

end

lemma protector_by_upd:
  assumes wf: "ept_wf env st" and cov: "ept_covered st pa"
    and v: "v AND MASK_PAGEADDR = of_nat (page_of pa) * 4096" "ept_perm v = perm"
  shows "ept_wf env (pte_upd (page_of pa) v st) \<and>
    ept_perm (pte (pte_upd (page_of pa) v st) (page_of pa)) = perm \<and>
    only_page_changed st (pte_upd (page_of pa) v st) {page_of pa}"
proof -
  have n: "page_of pa < ept_nd st * 512" using cov by (simp add: ept_covered_def)
  have pages: "ept_pages_ok env st" using wf by (simp add: ept_wf_def)
  show ?thesis
    using ept_wf_pte_upd [OF wf n v(1)] v(2) pte_pte_upd [OF pages n]
    by (auto simp: only_page_changed_def n)
qed

interpretation hide: page_protector env hb_set_ept_hide_page 0 for env
proof
  fix st pa assume wf: "ept_wf env st" and cov: "ept_covered st pa"
  let ?f = "ucast (ucast EPT_BIT_MEM_TYPE_WB :: u32) :: u64"
  let ?v = "(pte st (page_of pa) AND MASK_PAGEADDR) OR ?f"
  have f: "?f AND NOT (mask 12) = 0" "ept_perm ?f = 0"
    by (simp_all add: hb_consts mask_eq_exp_minus_1 ept_perm_def)
  have "pte st (page_of pa) AND MASK_PAGEADDR = of_nat (page_of pa) * 4096"
    using wf cov by (simp add: ept_wf_def ept_pt_ok_def ept_covered_def)
  then have v: "?v AND MASK_PAGEADDR = of_nat (page_of pa) * 4096" "ept_perm ?v = 0"
    using entry_flags(1,2) [OF f(1), of "pte st (page_of pa)"] f(2) by metis+
  have "ept_pages_ok env st" using wf by (simp add: ept_wf_def)
  from hb_set_ept_page_flags_eq [OF this cov] protector_by_upd [OF wf cov v]
  show "\<exists>st'. hb_set_ept_hide_page pa st = Some st' \<and> ept_wf env st' \<and>
      ept_perm (pte st' (page_of pa)) = 0 \<and> only_page_changed st st' {page_of pa}"
    by (simp add: hb_set_ept_hide_page_def)
qed

lemma protector_flags_addr:
  assumes wf: "ept_wf env st" and cov: "ept_covered st pa"
    and f: "ucast flags AND NOT (mask 12) = (0 :: u64)" "ept_perm (ucast flags) = perm"
  shows "\<exists>st'. Option.bind (hb_set_ept_page_flags pa flags st) (hb_set_ept_page_addr pa pa) = Some st' \<and>
    ept_wf env st' \<and> ept_perm (pte st' (page_of pa)) = perm \<and> only_page_changed st st' {page_of pa}"
proof -
  have pages: "ept_pages_ok env st" using wf by (simp add: ept_wf_def)
  let ?v = "(pa AND MASK_PAGEADDR) OR ucast flags"
  have v: "?v AND MASK_PAGEADDR = of_nat (page_of pa) * 4096" "ept_perm ?v = perm"
    using entry_flags(1,2) [OF f(1), of pa] f(2) own_address [of pa] by metis+
  show ?thesis
    using set_flags_and_addr [OF pages cov f(1)] protector_by_upd [OF wf cov v] by blast
qed

interpretation read_only: page_protector env hb_set_ept_read_only_page 1 for env
proof
  fix st pa assume "ept_wf env st" "ept_covered st pa"
  then show "\<exists>st'. hb_set_ept_read_only_page pa st = Some st' \<and> ept_wf env st' \<and>
      ept_perm (pte st' (page_of pa)) = 1 \<and> only_page_changed st st' {page_of pa}"
    unfolding hb_set_ept_read_only_page_def
    by (rule protector_flags_addr) (simp_all add: hb_consts mask_eq_exp_minus_1 ept_perm_def)
qed

interpretation lock: page_protector env hb_set_ept_lock_page 5 for env
proof
  fix st pa assume "ept_wf env st" "ept_covered st pa"
  then show "\<exists>st'. hb_set_ept_lock_page pa st = Some st' \<and> ept_wf env st' \<and>
      ept_perm (pte st' (page_of pa)) = 5 \<and> only_page_changed st st' {page_of pa}"
    unfolding hb_set_ept_lock_page_def
    by (rule protector_flags_addr) (simp_all add: hb_consts mask_eq_exp_minus_1 ept_perm_def)
qed

interpretation all_access: page_protector env hb_set_ept_all_access_page 7 for env
proof
  fix st pa assume "ept_wf env st" "ept_covered st pa"
  then show "\<exists>st'. hb_set_ept_all_access_page pa st = Some st' \<and> ept_wf env st' \<and>
      ept_perm (pte st' (page_of pa)) = 7 \<and> only_page_changed st st' {page_of pa}"
    unfolding hb_set_ept_all_access_page_def
    by (rule protector_flags_addr) (simp_all add: hb_consts mask_eq_exp_minus_1 ept_perm_def)
qed

end
