(* ===== verification/Ept_Setup.thy ===== *)
theory Ept_Setup
  imports Ept_Ops
begin

text \<open>
  Construction and release of the EPT tables (mmu.c): \<open>hb_alloc_ept_pages\<close> gives arrays of
  distinct pages with the right numbers of entries, \<open>hb_setup_ept_pagetable_4KB\<close> on them
  returns with the invariant \<open>ept_wf\<close> and an identity mapping with full access, and
  \<open>hb_free_ept_pages\<close> returns every page that was taken exactly once.
\<close>

section \<open>Filling table pages\<close>

definition page_set :: "u64 \<Rightarrow> (nat \<Rightarrow> u64) \<Rightarrow> ept_state \<Rightarrow> ept_state" where
  "page_set p v st = st\<lparr>ept_mem := (ept_mem st)(p := v)\<rparr>"

lemma page_set_simps [simp]:
  "g_ept_info (page_set p v st) = g_ept_info st"
  "ept_mem (page_set p v st) = (ept_mem st)(p := v)"
  "page_set p v (page_set p w st) = page_set p v st"
  by (simp_all add: page_set_def)

lemma ept_clear_page_eq: "p \<noteq> 0 \<Longrightarrow> ept_clear_page p st = Some (page_set p (\<lambda>_. 0) st)"
  by (simp add: ept_clear_page_def page_set_def)

lemma ept_store_eq:
  "p \<noteq> 0 \<Longrightarrow> ept_store p i v st = Some (page_set p ((ept_mem st p)(i := v)) st)"
  by (simp add: ept_store_def page_set_def)

text \<open>\<open>page_upto n v\<close>: the page after \<open>n\<close> iterations of a loop that stores \<open>v i\<close> at \<open>i\<close>.\<close>

definition page_upto :: "nat \<Rightarrow> (nat \<Rightarrow> u64) \<Rightarrow> nat \<Rightarrow> u64" where
  "page_upto n v = (\<lambda>i. if i < n then v i else 0)"

lemma page_upto_0 [simp]: "page_upto 0 v = (\<lambda>_. 0)"
  by (simp add: page_upto_def)

lemma page_upto_Suc: "(page_upto n v)(n := v n) = page_upto (Suc n) v"
  by (auto simp: page_upto_def)

text \<open>The state of a loop is \<open>mk i st\<close> after \<open>i\<close> iterations: the table store, with a running
  address where the loop has one.\<close>

lemma page_fill:
  assumes "\<And>i st'. i < n \<Longrightarrow> g_ept_info st' = g_ept_info st \<Longrightarrow>
      f i (mk i st') = Some (mk (Suc i) (page_set p ((ept_mem st' p)(i := v i)) st'))"
  shows "foldo f [0..<n] (mk 0 (page_set p (\<lambda>_. 0) st)) = Some (mk n (page_set p (page_upto n v) st))"
  using assms
proof (induction n)
  case (Suc n)
  have "f n (mk n (page_set p (page_upto n v) st)) = Some (mk (Suc n) (page_set p (page_upto (Suc n) v) st))"
    by (subst Suc.prems) (simp_all add: page_upto_Suc)
  with Suc show ?case by (simp add: foldo_append)
qed simp

text \<open>A loop over a whole array of table pages.\<close>

lemma tables_fill:
  assumes "distinct arr" "n \<le> length arr"
    and step: "\<And>j st'. j < n \<Longrightarrow> g_ept_info st' = g_ept_info st \<Longrightarrow>
      f j (mk j st') = Some (mk (Suc j) (page_set (arr ! j) (v j) st'))"
  shows "\<exists>st'. foldo f [0..<n] (mk 0 st) = Some (mk n st') \<and> g_ept_info st' = g_ept_info st \<and>
    (\<forall>j < n. ept_mem st' (arr ! j) = v j) \<and> (\<forall>q. q \<notin> set arr \<longrightarrow> ept_mem st' q = ept_mem st q)"
  using assms(2) step
proof (induction n)
  case (Suc n)
  then obtain st' where st': "foldo f [0..<n] (mk 0 st) = Some (mk n st')" "g_ept_info st' = g_ept_info st"
      "\<forall>j < n. ept_mem st' (arr ! j) = v j" "\<forall>q. q \<notin> set arr \<longrightarrow> ept_mem st' q = ept_mem st q"
    by (metis Suc_leD less_SucI)
  let ?st = "page_set (arr ! n) (v n) st'"
  have "f n (mk n st') = Some (mk (Suc n) ?st)" using Suc.prems(2) st'(2) by blast
  moreover have "\<forall>j < Suc n. ept_mem ?st (arr ! j) = v j"
    using st'(3) assms(1) Suc.prems(1) by (auto simp: nth_eq_iff_index_eq less_Suc_eq)
  ultimately show ?case
    using st' Suc.prems(1) by (auto simp: foldo_append intro!: exI [of _ ?st])
qed auto

section \<open>Looking up table pages\<close>

lemma log_addr:
  assumes "ept_pages_ok env st0" "g_ept_info st = g_ept_info st0"
  shows "hb_get_pagetable_log_addr EPT_TYPE_PML4 0 st = Some (a4 st0 ! 0)"
    and "j < 512 \<Longrightarrow> hb_get_pagetable_log_addr EPT_TYPE_PDPTEPD (int j) st = Some (a3 st0 ! j)"
    and "j < ept_np st0 \<Longrightarrow> hb_get_pagetable_log_addr EPT_TYPE_PDEPT (int j) st = Some (a2 st0 ! j)"
    and "j < ept_nd st0 \<Longrightarrow> hb_get_pagetable_log_addr EPT_TYPE_PTE (int j) st = Some (a1 st0 ! j)"
  using assms by (auto simp: ept_pages_ok_def hb_get_pagetable_log_addr_def array_at_def Let_def
      EPT_TYPE_PML4_def EPT_TYPE_PDPTEPD_def EPT_TYPE_PDEPT_def EPT_TYPE_PTE_def)

lemma pages_nonzero:
  assumes "ept_pages_ok env st"
  shows "a4 st ! 0 \<noteq> 0" "j < 512 \<Longrightarrow> a3 st ! j \<noteq> 0"
    "j < ept_np st \<Longrightarrow> a2 st ! j \<noteq> 0" "j < ept_nd st \<Longrightarrow> a1 st ! j \<noteq> 0"
  using assms by (auto simp: ept_pages_ok_def direct_mapped_def)

lemma unat_of_nat_small: "n < 2 ^ 64 \<Longrightarrow> unat (of_nat n :: u64) = n"
  by (simp add: unat_of_nat take_bit_eq_mod)

lemma to_int_of_nat: "n < 2 ^ 31 \<Longrightarrow> to_int (of_nat n) = int n"
  using to_int_small [of "of_nat n"] unat_of_nat_small [of n] by simp

lemma entry_index: "of_nat j * EPT_PAGE_ENT_COUNT + of_nat i = (of_nat (j * 512 + i) :: u64)"
  by (simp add: EPT_PAGE_ENT_COUNT_def)

lemma ent_count [simp]: "unat EPT_PAGE_ENT_COUNT = 512"
  by (simp add: EPT_PAGE_ENT_COUNT_def)

text \<open>The bound \<open>loop_cnt\<close> of the two middle stages.\<close>

lemma loop_cnt:
  assumes "j * 512 \<le> unat cnt" "j < 2 ^ 40" "i < 512"
  shows "of_nat i < (if cnt - of_nat j * EPT_PAGE_ENT_COUNT > EPT_PAGE_ENT_COUNT then EPT_PAGE_ENT_COUNT
      else cnt - of_nat j * EPT_PAGE_ENT_COUNT) \<longleftrightarrow> j * 512 + i < unat cnt"
proof -
  have j: "of_nat j * EPT_PAGE_ENT_COUNT = (of_nat (j * 512) :: u64)"
    by (simp add: EPT_PAGE_ENT_COUNT_def)
  have u: "unat (of_nat (j * 512) :: u64) = j * 512" "unat (of_nat i :: u64) = i"
    using assms(2,3) unat_of_nat_small [of "j * 512"] unat_of_nat_small [of i] by simp_all
  then have "unat (cnt - of_nat (j * 512)) = unat cnt - j * 512"
    using assms(1) by (simp add: unat_sub word_le_nat_alt del: of_nat_mult)
  then show ?thesis
    using assms(3) u by (auto simp: j word_less_nat_alt simp del: of_nat_mult)
qed

section \<open>The four stages\<close>

lemma setup_pml4_eq:
  assumes ok: "ept_pages_ok env st"
  shows "setup_pml4 env st =
    Some (page_set (a4 st ! 0) (page_upto 512 (\<lambda>i. virt_to_phys env (a3 st ! i) OR EPT_ALL_ACCESS)) st)"
proof -
  note look = log_addr [OF ok] pages_nonzero [OF ok]
  let ?f = "\<lambda>i st'. Option.bind (hb_get_pagetable_phy_addr env EPT_TYPE_PDPTEPD (int i) st')
      (\<lambda>a. ept_store (a4 st ! 0) i (a OR EPT_ALL_ACCESS) st')"
  have "foldo ?f [0..<512] (page_set (a4 st ! 0) (\<lambda>_. 0) st) =
      Some (page_set (a4 st ! 0) (page_upto 512 (\<lambda>i. virt_to_phys env (a3 st ! i) OR EPT_ALL_ACCESS)) st)"
    by (rule page_fill [where mk = "\<lambda>_ st. st"])
      (simp add: hb_get_pagetable_phy_addr_def look ept_store_eq)
  then show ?thesis
    by (simp add: setup_pml4_def look ept_clear_page_eq)
qed

definition pdpt_entry :: "kernel_env \<Rightarrow> ept_state \<Rightarrow> nat \<Rightarrow> u64" where
  "pdpt_entry env st k =
     (if k < ept_np st then virt_to_phys env (a2 st ! k) OR EPT_ALL_ACCESS
      else leaf_entry (of_nat k * VAL_1GB))"

lemma setup_pdpte_pd_page_eq:
  assumes ok: "ept_pages_ok env st0" and st: "g_ept_info st = g_ept_info st0" and j: "j < 512"
  shows "setup_pdpte_pd_page env j (of_nat (j * 512) * VAL_1GB, st) =
    Some (of_nat (Suc j * 512) * VAL_1GB,
      page_set (a3 st0 ! j) (page_upto 512 (\<lambda>i. pdpt_entry env st0 (j * 512 + i))) st)"
proof -
  let ?p = "a3 st0 ! j" and ?v = "\<lambda>i. pdpt_entry env st0 (j * 512 + i)"
  let ?cnt = "pdpte_pd_ent_count (g_ept_info st0)"
  let ?mk = "\<lambda>i st. (of_nat (j * 512 + i) * VAL_1GB, st)"
  have np: "unat ?cnt = ept_np st0" "ept_np st0 \<le> 2 ^ 18" using ok by (simp_all add: ept_np_def ept_pages_ok_def)
  have uj: "unat (of_nat j * EPT_PAGE_ENT_COUNT) = j * 512"
    using j unat_of_nat_small [of "j * 512"] by (simp add: EPT_PAGE_ENT_COUNT_def)
  have fill: "foldo f [0..<512] (of_nat (j * 512) * VAL_1GB, page_set ?p (\<lambda>_. 0) st) =
        Some (of_nat (512 + j * 512) * VAL_1GB, page_set ?p (page_upto 512 ?v) st)"
    if "\<And>i st'. i < 512 \<Longrightarrow> g_ept_info st' = g_ept_info st \<Longrightarrow>
      f i (?mk i st') = Some (?mk (Suc i) (page_set ?p ((ept_mem st' ?p)(i := ?v i)) st'))" for f
    using page_fill [of 512 st f ?mk ?p ?v, OF that] by (simp add: add.commute)
  have next_base: "of_nat (j * 512 + i) * VAL_1GB + VAL_1GB = of_nat (j * 512 + Suc i) * VAL_1GB" for i
    by (simp add: algebra_simps)
  show ?thesis
  proof (cases "of_nat j * EPT_PAGE_ENT_COUNT > ?cnt")
    case True
    then have "ept_np st0 < j * 512" using np uj by (simp add: word_less_nat_alt)
    then have v: "?v i = leaf_entry (of_nat (j * 512 + i) * VAL_1GB)" for i
      by (simp add: pdpt_entry_def)
    show ?thesis
      using True j st
      by (simp add: setup_pdpte_pd_page_def to_int_of_nat log_addr [OF ok] pages_nonzero [OF ok] ept_clear_page_eq
          del: of_nat_mult of_nat_add)
        (rule fill, simp add: v ept_store_eq pages_nonzero [OF ok] next_base del: of_nat_mult of_nat_add)
  next
    case False
    then have le: "j * 512 \<le> unat ?cnt" using uj by (simp add: word_less_nat_alt)
    show ?thesis
      using False j st
      by (simp add: setup_pdpte_pd_page_def to_int_of_nat log_addr [OF ok] pages_nonzero [OF ok] ept_clear_page_eq
          Let_def del: of_nat_mult of_nat_add split del: if_split)
        (rule fill, use j np in \<open>simp add: loop_cnt [OF le] np pdpt_entry_def ept_store_eq pages_nonzero [OF ok] next_base
            entry_index to_int_of_nat hb_get_pagetable_phy_addr_def log_addr [OF ok] del: of_nat_mult of_nat_add\<close>)
  qed
qed


lemma setup_pdpte_pd_ok:
  assumes ok: "ept_pages_ok env st"
  shows "\<exists>st'. setup_pdpte_pd env st = Some st' \<and> g_ept_info st' = g_ept_info st \<and>
    ept_pdpt_ok env st' (2 ^ 18) \<and> (\<forall>q. q \<notin> set (a3 st) \<longrightarrow> ept_mem st' q = ept_mem st q)"
proof -
  have arr: "distinct (a3 st)" "512 \<le> length (a3 st)"
    and cnt: "unat (pdpte_pd_page_count (g_ept_info st)) = 512"
    using ok by (simp_all add: ept_pages_ok_def)
  obtain st' where st': "foldo (setup_pdpte_pd_page env) [0..<512] (of_nat (0 * 512) * VAL_1GB, st) =
        Some (of_nat (512 * 512) * VAL_1GB, st')" "g_ept_info st' = g_ept_info st"
      "\<forall>j < 512. ept_mem st' (a3 st ! j) = page_upto 512 (\<lambda>i. pdpt_entry env st (j * 512 + i))"
      "\<forall>q. q \<notin> set (a3 st) \<longrightarrow> ept_mem st' q = ept_mem st q"
    using tables_fill [OF arr, where mk = "\<lambda>j st. (of_nat (j * 512) * VAL_1GB, st)"
      and f = "setup_pdpte_pd_page env", OF setup_pdpte_pd_page_eq [OF ok]] by blast
  have "ept_mem st' (a3 st' ! (k div 512)) (k mod 512) = pdpt_entry env st' k" if "k < 2 ^ 18" for k
  proof -
    have "pdpt_entry env st' k = pdpt_entry env st k" using st'(2) by (simp add: pdpt_entry_def ept_np_def)
    then show ?thesis using st'(2,3) that by (simp add: page_upto_def less_mult_imp_div_less)
  qed
  then have "ept_pdpt_ok env st' (2 ^ 18)" by (simp only: ept_pdpt_ok_def pdpt_entry_def) blast
  with st' cnt show ?thesis by (auto simp: setup_pdpte_pd_def)
qed

definition pd_entry :: "kernel_env \<Rightarrow> ept_state \<Rightarrow> nat \<Rightarrow> u64" where
  "pd_entry env st m =
     (if m < ept_nd st then virt_to_phys env (a1 st ! m) OR EPT_ALL_ACCESS
      else leaf_entry (of_nat m * VAL_2MB))"

lemma setup_pdept_page_eq:
  assumes ok: "ept_pages_ok env st0" and j: "j < ept_np st0" and st: "g_ept_info st = g_ept_info st0"
  shows "setup_pdept_page env j (of_nat (j * 512) * VAL_2MB, st) =
    Some (of_nat (Suc j * 512) * VAL_2MB,
      page_set (a2 st0 ! j) (page_upto 512 (\<lambda>i. pd_entry env st0 (j * 512 + i))) st)"
proof -
  let ?p = "a2 st0 ! j" and ?v = "\<lambda>i. pd_entry env st0 (j * 512 + i)"
  let ?cnt = "pdept_ent_count (g_ept_info st0)"
  let ?mk = "\<lambda>i st. (of_nat (j * 512 + i) * VAL_2MB, st)"
  have nd: "unat ?cnt = ept_nd st0" by (simp add: ept_nd_def)
  have b: "j < 2 ^ 18" "ept_nd st0 \<le> 2 ^ 27" "j * 512 \<le> unat ?cnt"
    using ok j unfolding nd by (auto simp: ept_pages_ok_def)
  have "j < 2 ^ 40" using b(1) by simp
  note lc = loop_cnt [OF b(3) this]
  have fill: "foldo f [0..<512] (of_nat (j * 512) * VAL_2MB, page_set ?p (\<lambda>_. 0) st) =
        Some (of_nat (512 + j * 512) * VAL_2MB, page_set ?p (page_upto 512 ?v) st)"
    if "\<And>i st'. i < 512 \<Longrightarrow> g_ept_info st' = g_ept_info st \<Longrightarrow>
      f i (?mk i st') = Some (?mk (Suc i) (page_set ?p ((ept_mem st' ?p)(i := ?v i)) st'))" for f
    using page_fill [of 512 st f ?mk ?p ?v, OF that] by (simp add: add.commute)
  have next_base: "of_nat (j * 512 + i) * VAL_2MB + VAL_2MB = of_nat (j * 512 + Suc i) * VAL_2MB" for i
    by (simp add: algebra_simps)
  show ?thesis
    using j st b
    by (simp add: setup_pdept_page_def to_int_of_nat log_addr [OF ok] pages_nonzero [OF ok] ept_clear_page_eq
        Let_def del: of_nat_mult of_nat_add split del: if_split cong: if_cong)
      (rule fill, use j b in \<open>simp add: lc nd pd_entry_def ept_store_eq pages_nonzero [OF ok]
          next_base entry_index to_int_of_nat hb_get_pagetable_phy_addr_def log_addr [OF ok]
          del: of_nat_mult of_nat_add\<close>)
qed

lemma setup_pdept_ok:
  assumes ok: "ept_pages_ok env st"
  shows "\<exists>st'. setup_pdept env st = Some st' \<and> g_ept_info st' = g_ept_info st \<and>
    ept_pd_ok env st' (ept_np st * 512) \<and> (\<forall>q. q \<notin> set (a2 st) \<longrightarrow> ept_mem st' q = ept_mem st q)"
proof -
  have arr: "distinct (a2 st)" "ept_np st \<le> length (a2 st)"
    and cnt: "unat (pdept_page_count (g_ept_info st)) = ept_np st"
    using ok by (simp_all add: ept_pages_ok_def)
  obtain st' where st': "foldo (setup_pdept_page env) [0..<ept_np st] (of_nat (0 * 512) * VAL_2MB, st) =
        Some (of_nat (ept_np st * 512) * VAL_2MB, st')" "g_ept_info st' = g_ept_info st"
      "\<forall>j < ept_np st. ept_mem st' (a2 st ! j) = page_upto 512 (\<lambda>i. pd_entry env st (j * 512 + i))"
      "\<forall>q. q \<notin> set (a2 st) \<longrightarrow> ept_mem st' q = ept_mem st q"
    using tables_fill [OF arr, where mk = "\<lambda>j st. (of_nat (j * 512) * VAL_2MB, st)"
      and f = "setup_pdept_page env", OF setup_pdept_page_eq [OF ok]] by blast
  have "ept_mem st' (a2 st' ! (m div 512)) (m mod 512) = pd_entry env st' m" if "m < ept_np st * 512" for m
  proof -
    have "pd_entry env st' m = pd_entry env st m" using st'(2) by (simp add: pd_entry_def ept_nd_def)
    then show ?thesis using st'(2,3) that by (simp add: page_upto_def less_mult_imp_div_less)
  qed
  then have "ept_pd_ok env st' (ept_np st * 512)" by (simp only: ept_pd_ok_def pd_entry_def) blast
  with st' cnt show ?thesis by (auto simp: setup_pdept_def)
qed

definition pt_entry :: "nat \<Rightarrow> u64" where
  "pt_entry n = (of_nat n * 4096) OR EPT_ALL_ACCESS OR EPT_BIT_MEM_TYPE_WB"

lemma setup_pte_page_eq:
  assumes ok: "ept_pages_ok env st0" and j: "j < ept_nd st0" and st: "g_ept_info st = g_ept_info st0"
  shows "setup_pte_page j st = Some (page_set (a1 st0 ! j) (page_upto 512 (\<lambda>i. pt_entry (j * 512 + i))) st)"
proof -
  have "j < 2 ^ 31" using ok j by (auto simp: ept_pages_ok_def)
  then show ?thesis
    using j st
    by (simp add: setup_pte_page_def to_int_of_nat log_addr [OF ok] pages_nonzero [OF ok] ept_clear_page_eq
        del: of_nat_mult of_nat_add)
      (rule page_fill [where mk = "\<lambda>_ st. st"], simp add: pt_entry_def ept_store_eq pages_nonzero [OF ok]
        entry_index EPT_PAGE_SIZE_def del: of_nat_mult of_nat_add)
qed

lemma setup_pte_ok:
  assumes ok: "ept_pages_ok env st"
  shows "\<exists>st'. setup_pte st = Some st' \<and> g_ept_info st' = g_ept_info st \<and>
    (\<forall>n < ept_nd st * 512. pte st' n = pt_entry n) \<and> (\<forall>q. q \<notin> set (a1 st) \<longrightarrow> ept_mem st' q = ept_mem st q)"
proof -
  have arr: "distinct (a1 st)" "ept_nd st \<le> length (a1 st)"
    and cnt: "unat (pte_page_count (g_ept_info st)) = ept_nd st"
    using ok by (simp_all add: ept_pages_ok_def)
  obtain st' where st': "foldo setup_pte_page [0..<ept_nd st] st = Some st'" "g_ept_info st' = g_ept_info st"
      "\<forall>j < ept_nd st. ept_mem st' (a1 st ! j) = page_upto 512 (\<lambda>i. pt_entry (j * 512 + i))"
      "\<forall>q. q \<notin> set (a1 st) \<longrightarrow> ept_mem st' q = ept_mem st q"
    using tables_fill [OF arr, where mk = "\<lambda>_ st. st" and f = setup_pte_page,
        OF setup_pte_page_eq [OF ok]] by blast
  then have "\<forall>n < ept_nd st * 512. pte st' n = pt_entry n"
    by (simp add: pte_def page_upto_def less_mult_imp_div_less)
  with st' cnt show ?thesis by (auto simp: setup_pte_def)
qed

section \<open>The complete construction\<close>

text \<open>The write-back type that the last step gives to the pages of the System RAM is already set.\<close>

lemma pt_entry_wb: "pt_entry n OR EPT_BIT_MEM_TYPE_WB = pt_entry n"
  by (simp add: pt_entry_def or.assoc)

lemma pt_entry_perm: "ept_perm (pt_entry n) = 7"
proof -
  have "pt_entry n = (of_nat n * 4096) OR 55" by (simp add: pt_entry_def hb_consts or.assoc)
  moreover have "ept_perm ((of_nat n * 4096) OR 55) = ept_perm (of_nat n * 4096) OR 7"
    by (simp add: ept_perm_def bit.conj_disj_distrib2 mask_eq_exp_minus_1)
  moreover have "of_nat n * 4096 AND mask 3 = (0 :: u64)"
  proof (rule bit_word_eqI)
    fix k assume "k < LENGTH(64)"
    have "of_nat n * 4096 = push_bit 12 (of_nat n :: u64)" by (simp add: push_bit_eq_mult)
    then show "bit (of_nat n * 4096 AND mask 3 :: u64) k = bit 0 k" by (auto simp: bit_simps)
  qed
  ultimately show ?thesis by (simp add: ept_perm_def)
qed

lemma pt_entry_addr: "pt_entry n AND MASK_PAGEADDR = of_nat n * 4096"
proof -
  have base: "of_nat n * 4096 = push_bit 12 (of_nat n :: u64)" by (simp add: push_bit_eq_mult)
  have "pt_entry n = push_bit 12 (of_nat n) OR 55"
    by (simp add: pt_entry_def base hb_consts or.assoc)
  moreover have "(push_bit 12 (of_nat n) OR 55) AND NOT (mask 12) = push_bit 12 (of_nat n :: u64) AND NOT (mask 12)"
    by (simp add: bit.conj_disj_distrib2 mask_eq_exp_minus_1)
  moreover have "push_bit 12 (of_nat n) AND NOT (mask 12) = (push_bit 12 (of_nat n) :: u64)"
    by (auto simp: bit_eq_iff bit_simps)
  ultimately show ?thesis by (simp add: MASK_PAGEADDR_mask base)
qed

lemma set_write_back_same:
  assumes ok: "ept_pages_ok env st" and full: "\<forall>n < ept_nd st * 512. pte st n = pt_entry n"
    and rng: "unat start + unat sz \<le> ept_nd st * 512"
  shows "hb_callback_set_write_back_to_ram (start, sz) st = Some st"
proof -
  have nd: "ept_nd st * 512 \<le> 2 ^ 36" using ok by (auto simp: ept_pages_ok_def)
  let ?f = "\<lambda>i st. do {
         ept_info \<leftarrow> hb_get_pagetable_log_addr EPT_TYPE_PTE (to_int (of_nat i div EPT_PAGE_ENT_COUNT)) st;
         old \<leftarrow> ept_load ept_info (unat (of_nat i mod EPT_PAGE_ENT_COUNT)) st;
         ept_store ept_info (unat (of_nat i mod EPT_PAGE_ENT_COUNT)) (old OR EPT_BIT_MEM_TYPE_WB) st }"
  have step: "?f i st = Some st" if i: "i < ept_nd st * 512" for i
  proof -
    let ?p = "a1 st ! (i div 512)"
    have u: "unat (of_nat i :: u64) = i" using i nd by (intro unat_of_nat_small) simp
    have ix: "unat (of_nat i mod EPT_PAGE_ENT_COUNT :: u64) = i mod 512"
        "unat (of_nat i div EPT_PAGE_ENT_COUNT :: u64) = i div 512"
      using u by (simp_all add: unat_mod unat_div)
    have lt: "i div 512 < ept_nd st" "i div 512 < 2 ^ 31" using i nd by auto
    have "to_int (of_nat i div EPT_PAGE_ENT_COUNT) = int (i div 512)"
      using to_int_small [of "of_nat i div EPT_PAGE_ENT_COUNT"] lt(2) ix(2) by simp
    moreover have "hb_get_pagetable_log_addr EPT_TYPE_PTE (int (i div 512)) st = Some ?p"
      using log_addr(4) [OF ok refl lt(1)] .
    moreover have "ept_mem st ?p (i mod 512) OR EPT_BIT_MEM_TYPE_WB = ept_mem st ?p (i mod 512)"
      using full i pt_entry_wb [of i] by (simp add: pte_def)
    ultimately show ?thesis
      using pages_nonzero(4) [OF ok lt(1)] ix by (simp add: ept_load_def ept_store_def)
  qed
  have "unat (start + sz) = unat start + unat sz"
    using rng nd by (simp add: unat_word_ariths)
  then have "foldo ?f [unat start..<unat (start + sz)] st = Some st"
  proof -
    have "foldo ?f xs st = Some st" if "\<forall>i \<in> set xs. i < ept_nd st * 512" for xs
      using that by (induction xs) (simp_all add: step)
    then show ?thesis using rng \<open>unat (start + sz) = _\<close> by simp
  qed
  then show ?thesis by (simp add: hb_callback_set_write_back_to_ram_def)
qed

lemma setup_ram_same:
  assumes "ept_pages_ok env st" "\<forall>n < ept_nd st * 512. pte st n = pt_entry n"
    and "ram_ranges_clipped env" "unat max_ram div 4096 \<le> ept_nd st * 512"
  shows "hb_setup_ept_system_ram_range env max_ram st = Some st"
proof -
  let ?rs = "system_ram env 0 (max_ram div PAGE_SIZE)"
  have "foldo hb_callback_set_write_back_to_ram xs st = Some st" if "set xs \<subseteq> set ?rs" for xs
    using that
  proof (induction xs)
    case (Cons x xs)
    obtain start sz where x: "x = (start, sz)" by (cases x)
    then have "(start, sz) \<in> set ?rs" using Cons.prems by simp
    with assms(3) have "unat start + unat sz \<le> unat (0 :: u64) + unat (max_ram div PAGE_SIZE)"
      unfolding ram_ranges_clipped_def by blast
    then have "unat start + unat sz \<le> ept_nd st * 512"
      using assms(4) by (simp add: unat_div PAGE_SIZE_def)
    with Cons x show ?case by (simp add: set_write_back_same [OF assms(1,2)])
  qed simp
  moreover have "kallsyms env ''walk_system_ram_range'' \<noteq> 0" using assms(3) unfolding ram_ranges_clipped_def by blast
  ultimately show ?thesis by (simp add: hb_setup_ept_system_ram_range_def hb_get_symbol_address_def)
qed

lemma setup_wf:
  assumes ok: "ept_pages_ok env st" and ram: "ram_ranges_clipped env" "unat max_ram div 4096 \<le> ept_nd st * 512"
  shows "\<exists>st'. hb_setup_ept_pagetable_4KB env max_ram st = Some st' \<and> g_ept_info st' = g_ept_info st \<and>
    ept_wf env st' \<and> (\<forall>n < ept_nd st * 512. pte st' n = pt_entry n)"
proof -
  have disj: "set (a4 st) \<inter> set (a3 st) = {}" "set (a4 st) \<inter> set (a2 st) = {}" "set (a4 st) \<inter> set (a1 st) = {}"
      "set (a3 st) \<inter> set (a2 st) = {}" "set (a3 st) \<inter> set (a1 st) = {}" "set (a2 st) \<inter> set (a1 st) = {}"
    and len: "length (a4 st) = 1" "length (a3 st) = 512" "length (a2 st) = ept_np st"
    using ok by (simp_all add: ept_pages_ok_def Int_Un_distrib)
  have cong: "ept_pages_ok env st'" if "g_ept_info st' = g_ept_info st" for st'
    using ok that by (simp add: ept_pages_ok_def ept_np_def ept_nd_def)
  obtain s1 where s1: "setup_pml4 env st = Some s1" "g_ept_info s1 = g_ept_info st" "ept_pml4_ok env s1"
    using setup_pml4_eq [OF ok] by (auto simp: ept_pml4_ok_def page_upto_def)
  obtain s2 where s2: "setup_pdpte_pd env s1 = Some s2" "g_ept_info s2 = g_ept_info st"
      "ept_pdpt_ok env s2 (2 ^ 18)" "\<forall>q. q \<notin> set (a3 st) \<longrightarrow> ept_mem s2 q = ept_mem s1 q"
    using setup_pdpte_pd_ok [OF cong [OF s1(2)]] s1(2) by metis
  obtain s3 where s3: "setup_pdept env s2 = Some s3" "g_ept_info s3 = g_ept_info st"
      "ept_pd_ok env s3 (ept_np st * 512)" "\<forall>q. q \<notin> set (a2 st) \<longrightarrow> ept_mem s3 q = ept_mem s2 q"
    using setup_pdept_ok [OF cong [OF s2(2)]] s2(2) ept_np_cong [OF s2(2)] by metis
  obtain s4 where s4: "setup_pte s3 = Some s4" "g_ept_info s4 = g_ept_info st"
      "\<forall>n < ept_nd st * 512. pte s4 n = pt_entry n" "\<forall>q. q \<notin> set (a1 st) \<longrightarrow> ept_mem s4 q = ept_mem s3 q"
    using setup_pte_ok [OF cong [OF s3(2)]] s3(2) ept_nd_cong [OF s3(2)] by metis
  note info = s1(2) s2(2) s3(2) s4(2)
  have n4: "ept_np s4 = ept_np st" "ept_nd s4 = ept_nd st"
    using ept_np_cong [OF s4(2)] ept_nd_cong [OF s4(2)] .
  have "a4 st ! 0 \<in> set (a4 st)" using len by simp
  then have "ept_mem s4 (a4 st ! 0) = ept_mem s1 (a4 st ! 0)"
    using s2(4) s3(4) s4(4) disj by (metis disjoint_iff)
  then have "ept_pml4_ok env s4" using s1(3) by (simp add: ept_pml4_ok_def info)
  moreover have "ept_mem s4 (a3 st ! j) = ept_mem s2 (a3 st ! j)" if "j < 512" for j
    using that len s3(4) s4(4) disj by (metis disjoint_iff nth_mem)
  then have "ept_pdpt_ok env s4 (2 ^ 18)"
    using s2(3) by (simp add: ept_pdpt_ok_def info ept_np_def less_mult_imp_div_less)
  moreover have "ept_mem s4 (a2 st ! j) = ept_mem s3 (a2 st ! j)" if "j < ept_np st" for j
    using that len s4(4) disj by (metis disjoint_iff nth_mem)
  then have "ept_pd_ok env s4 (ept_np st * 512)"
    using s3(3) by (simp add: ept_pd_ok_def info ept_nd_def less_mult_imp_div_less)
  moreover have "ept_pt_ok s4 (ept_nd st * 512)"
    using s4(3) by (simp add: ept_pt_ok_def pt_entry_addr)
  ultimately have "ept_wf env s4" using cong [OF s4(2)] by (simp add: ept_wf_def n4)
  moreover have "hb_setup_ept_system_ram_range env max_ram s4 = Some s4"
    by (rule setup_ram_same) (use cong [OF s4(2)] s4(3) ram n4 in simp_all)
  ultimately show ?thesis
    using s1 s2 s3 s4 by (simp add: hb_setup_ept_pagetable_4KB_def)
qed

section \<open>Numbers of entries and pages\<close>

definition ceil_div :: "nat \<Rightarrow> nat \<Rightarrow> nat" where
  "ceil_div x a = (x + a - 1) div a"

lemma ceil_div_pos: "0 < x \<Longrightarrow> 0 < a \<Longrightarrow> ceil_div x a = Suc ((x - 1) div a)"
proof -
  assume "0 < x" "0 < a"
  then have "x + a - 1 = (x - 1) + a" by simp
  moreover have "((x - 1) + a) div a = (x - 1) div a + 1" using \<open>0 < a\<close> by (intro div_add_self2) simp
  ultimately show ?thesis by (simp only: ceil_div_def Suc_eq_plus1)
qed

lemma ceil_div_ceil_div:
  "0 < x \<Longrightarrow> 0 < a \<Longrightarrow> 0 < b \<Longrightarrow> ceil_div (ceil_div x a) b = ceil_div x (a * b)"
  by (simp add: ceil_div_pos div_mult2_eq)

lemma unat_CEIL:
  assumes "unat x + unat y < 2 ^ 64" "0 < unat y"
  shows "unat (CEIL x y) = ceil_div (unat x) (unat y)"
proof -
  have "unat (x + y) = unat x + unat y" using assms(1) by (simp add: unat_word_ariths)
  moreover from this have "unat (x + y - 1) = unat (x + y) - 1"
    using assms(2) by (subst unat_sub) (simp_all add: word_le_nat_alt)
  ultimately show ?thesis by (simp add: CEIL_def unat_div ceil_div_def)
qed

lemma ceil_div_le: "0 < a \<Longrightarrow> x \<le> b * a \<Longrightarrow> ceil_div x a \<le> b"
proof (cases "x = 0")
  case False
  assume "0 < a" "x \<le> b * a"
  then have "(x - 1) div a < b" using False by (intro less_mult_imp_div_less) simp
  with False \<open>0 < a\<close> show ?thesis by (simp add: ceil_div_pos Suc_le_eq)
qed (simp add: ceil_div_def)

lemma ceil_div_ge: "0 < a \<Longrightarrow> x \<le> ceil_div x a * a"
  by (cases "x = 0") (simp, simp add: ceil_div_pos,
      metis Suc_pred add.commute div_mult_mod_eq less_eq_Suc_le mod_less_divisor nat_add_left_cancel_less)

lemma ept_counts_unat:
  fixes info :: hb_ept_info
  assumes "0 < unat max_ram" "unat max_ram \<le> 2 ^ 48"
  defines "info' \<equiv> ept_counts max_ram info"
  shows "unat (pdpte_pd_ent_count info') = ceil_div (unat max_ram) (2 ^ 30)"
    and "unat (pdept_ent_count info') = ceil_div (unat max_ram) (2 ^ 21)"
    and "unat (pml4_page_count info') = 1" "unat (pdpte_pd_page_count info') = 512"
    and "unat (pdept_page_count info') = ceil_div (unat max_ram) (2 ^ 30)"
    and "unat (pte_page_count info') = ceil_div (unat max_ram) (2 ^ 21)"
proof -
  have v: "unat VAL_1GB = 2 ^ 30" "unat VAL_2MB = 2 ^ 21" "unat VAL_4KB = 2 ^ 12"
    by (simp_all add: hb_consts)
  have c: "unat (CEIL max_ram VAL_1GB) = ceil_div (unat max_ram) (2 ^ 30)"
      "unat (CEIL max_ram VAL_2MB) = ceil_div (unat max_ram) (2 ^ 21)"
      "unat (CEIL max_ram VAL_4KB) = ceil_div (unat max_ram) (2 ^ 12)"
    using assms(2) v unat_CEIL [of max_ram VAL_1GB] unat_CEIL [of max_ram VAL_2MB] unat_CEIL [of max_ram VAL_4KB]
    by simp_all
  have le: "ceil_div (unat max_ram) (2 ^ 21) \<le> 2 ^ 27" "ceil_div (unat max_ram) (2 ^ 12) \<le> 2 ^ 36"
    using assms(2) by (simp_all add: ceil_div_le)
  have "unat (CEIL (CEIL max_ram VAL_2MB) EPT_PAGE_ENT_COUNT) = ceil_div (ceil_div (unat max_ram) (2 ^ 21)) 512"
      "unat (CEIL (CEIL max_ram VAL_4KB) EPT_PAGE_ENT_COUNT) = ceil_div (ceil_div (unat max_ram) (2 ^ 12)) 512"
    using le by (simp_all add: unat_CEIL c)
  then have cc: "unat (CEIL (CEIL max_ram VAL_2MB) EPT_PAGE_ENT_COUNT) = ceil_div (unat max_ram) (2 ^ 30)"
      "unat (CEIL (CEIL max_ram VAL_4KB) EPT_PAGE_ENT_COUNT) = ceil_div (unat max_ram) (2 ^ 21)"
    using assms(1) by (simp_all add: ceil_div_ceil_div)
  show "unat (pdpte_pd_ent_count info') = ceil_div (unat max_ram) (2 ^ 30)"
    "unat (pdept_ent_count info') = ceil_div (unat max_ram) (2 ^ 21)"
    "unat (pml4_page_count info') = 1" "unat (pdpte_pd_page_count info') = 512"
    "unat (pdept_page_count info') = ceil_div (unat max_ram) (2 ^ 30)"
    "unat (pte_page_count info') = ceil_div (unat max_ram) (2 ^ 21)"
    using c cc by (simp_all add: info'_def ept_counts_def Let_def PML4_PAGE_COUNT_def)
qed

lemma page_counts_small:
  fixes info :: hb_ept_info
  assumes "0 < unat max_ram" "unat max_ram \<le> 2 ^ 48"
  defines "info' \<equiv> ept_counts max_ram info"
  shows "unat (pml4_page_count info') < 2 ^ 31" "unat (pdpte_pd_page_count info') < 2 ^ 31"
    "unat (pdept_page_count info') < 2 ^ 31" "unat (pte_page_count info') < 2 ^ 31"
proof -
  have "ceil_div (unat max_ram) (2 ^ 30) \<le> 2 ^ 18" "ceil_div (unat max_ram) (2 ^ 21) \<le> 2 ^ 27"
    using assms(2) by (simp_all add: ceil_div_le)
  then show "unat (pml4_page_count info') < 2 ^ 31" "unat (pdpte_pd_page_count info') < 2 ^ 31"
    "unat (pdept_page_count info') < 2 ^ 31" "unat (pte_page_count info') < 2 ^ 31"
    using ept_counts_unat [OF assms(1,2), of info] by (simp_all add: info'_def)
qed

section \<open>Allocation\<close>

abbreviation pages_from :: "kernel_env \<Rightarrow> nat \<Rightarrow> nat \<Rightarrow> u64 list" where
  "pages_from env c n \<equiv> map (get_free_page env) [c..<c + n]"

lemma alloc_pages_loop_ok:
  assumes "alloc_pages_loop env i n arr h = (r, arr', h')" "i + n \<le> length arr"
  shows "length arr' = length arr" "r = 0 \<or> r = -1"
    and "\<exists>m \<le> n. h' = h\<lparr>kh_page_calls := kh_page_calls h + m\<rparr> \<and>
      arr' = take i arr @ pages_from env (kh_page_calls h) m @ drop (i + m) arr \<and>
      (r = 0 \<longrightarrow> m = n \<and> 0 \<notin> set (pages_from env (kh_page_calls h) n)) \<and>
      (r \<noteq> 0 \<longrightarrow> 0 \<in> set (pages_from env (kh_page_calls h) m))"
proof -
  have "length arr' = length arr \<and> (r = 0 \<or> r = -1) \<and>
    (\<exists>m \<le> n. h' = h\<lparr>kh_page_calls := kh_page_calls h + m\<rparr> \<and>
      arr' = take i arr @ pages_from env (kh_page_calls h) m @ drop (i + m) arr \<and>
      (r = 0 \<longrightarrow> m = n \<and> 0 \<notin> set (pages_from env (kh_page_calls h) n)) \<and>
      (r \<noteq> 0 \<longrightarrow> 0 \<in> set (pages_from env (kh_page_calls h) m)))"
    using assms
  proof (induction n arbitrary: i arr h)
    case (Suc n)
    let ?c = "kh_page_calls h" and ?p = "get_free_page env (kh_page_calls h)"
    have up: "take (Suc i) (arr[i := ?p]) = take i arr @ [?p]" "drop (Suc i + m) (arr[i := ?p]) = drop (Suc i + m) arr" for m
      using Suc.prems(2) by (simp_all add: take_Suc_conv_app_nth)
    show ?case
    proof (cases "?p = 0")
      case True
      then show ?thesis
        using Suc.prems up(1) up(2) [of 0]
        by (auto simp: kh_get_free_page_def upd_conv_take_nth_drop intro!: exI [of _ 1])
    next
      case False
      let ?h = "h\<lparr>kh_page_calls := Suc ?c\<rparr>"
      have "alloc_pages_loop env (Suc i) n (arr[i := ?p]) ?h = (r, arr', h')"
        using Suc.prems(1) False by (simp add: kh_get_free_page_def)
      moreover have "Suc i + n \<le> length (arr[i := ?p])" "kh_page_calls ?h = Suc ?c" using Suc.prems(2) by simp_all
      ultimately obtain m where m: "length arr' = length arr" "r = 0 \<or> r = -1"
          "m \<le> n" "h' = ?h\<lparr>kh_page_calls := Suc ?c + m\<rparr>"
          "arr' = (take i arr @ [?p]) @ pages_from env (Suc ?c) m @ drop (Suc i + m) arr"
          "r = 0 \<longrightarrow> m = n \<and> 0 \<notin> set (pages_from env (Suc ?c) n)"
          "r \<noteq> 0 \<longrightarrow> 0 \<in> set (pages_from env (Suc ?c) m)"
        using Suc.IH [of "Suc i" "arr[i := ?p]" ?h] unfolding up length_list_update by metis
      moreover have "pages_from env ?c (Suc k) = ?p # pages_from env (Suc ?c) k" for k
        by (simp add: upt_conv_Cons del: upt_Suc)
      ultimately show ?thesis using False by (intro conjI exI [of _ "Suc m"]) auto
    qed
  qed auto
  then show "length arr' = length arr" "r = 0 \<or> r = -1"
    and "\<exists>m \<le> n. h' = h\<lparr>kh_page_calls := kh_page_calls h + m\<rparr> \<and>
      arr' = take i arr @ pages_from env (kh_page_calls h) m @ drop (i + m) arr \<and>
      (r = 0 \<longrightarrow> m = n \<and> 0 \<notin> set (pages_from env (kh_page_calls h) n)) \<and>
      (r \<noteq> 0 \<longrightarrow> 0 \<in> set (pages_from env (kh_page_calls h) m))" by blast+
qed

text \<open>What one array holds after \<open>fill_array\<close>, whether or not it succeeded, where the page
  allocator was called from the \<open>c\<close>-th to the \<open>c'\<close>-th time.\<close>

definition filled :: "kernel_env \<Rightarrow> int \<Rightarrow> u64 list \<Rightarrow> nat \<Rightarrow> nat \<Rightarrow> nat \<Rightarrow> bool" where
  "filled env r xs n c c' \<longleftrightarrow> length xs = n \<and> c \<le> c' \<and> c' \<le> c + n \<and>
     filter (\<lambda>p. p \<noteq> 0) xs = filter (\<lambda>p. p \<noteq> 0) (map (get_free_page env) [c..<c']) \<and>
     (r = 0 \<longrightarrow> c' = c + n \<and> xs = pages_from env c n \<and> 0 \<notin> set xs) \<and>
     (r \<noteq> 0 \<longrightarrow> 0 \<in> set (map (get_free_page env) [c..<c']))"

lemma fill_array_filled:
  assumes "fill_array env (p, replicate (unat n) 0) n h = (r, a, h')" "unat n < 2 ^ 31"
  shows "fst a = p" "filled env r (snd a) (unat n) (kh_page_calls h) (kh_page_calls h')"
    "\<exists>c. h' = h\<lparr>kh_page_calls := c\<rparr>"
proof -
  have n: "nat (to_int n) = unat n" using to_int_small [OF assms(2)] by simp
  have loop: "alloc_pages_loop env 0 (unat n) (replicate (unat n) 0) h = (r, snd a, h')" and "fst a = p"
    using assms(1) n by (auto simp: fill_array_def hb_alloc_ept_pages_internal_def split: prod.splits)
  obtain m where m: "m \<le> unat n" "h' = h\<lparr>kh_page_calls := kh_page_calls h + m\<rparr>"
      "snd a = pages_from env (kh_page_calls h) m @ replicate (unat n - m) 0"
      "r = 0 \<longrightarrow> m = unat n \<and> 0 \<notin> set (pages_from env (kh_page_calls h) (unat n))"
      "r \<noteq> 0 \<longrightarrow> 0 \<in> set (pages_from env (kh_page_calls h) m)"
    using alloc_pages_loop_ok(3) [OF loop] by auto
  show "fst a = p" by fact
  show "\<exists>c. h' = h\<lparr>kh_page_calls := c\<rparr>" using m(2) by blast
  show "filled env r (snd a) (unat n) (kh_page_calls h) (kh_page_calls h')"
    using m by (auto simp: filled_def)
qed

text \<open>Everything \<open>hb_alloc_ept_pages\<close> took from the page allocator is in the arrays.\<close>

definition ept_arrays :: "hb_ept_info \<Rightarrow> u64 list" where
  "ept_arrays info = snd (pml4_page_addr_array info) @ snd (pdpte_pd_page_addr_array info) @
     snd (pdept_page_addr_array info) @ snd (pte_page_addr_array info)"

definition array_ptrs :: "hb_ept_info \<Rightarrow> u64 list" where
  "array_ptrs info = [fst (pml4_page_addr_array info), fst (pdpte_pd_page_addr_array info),
     fst (pdept_page_addr_array info), fst (pte_page_addr_array info)]"

definition arrays_sized :: "hb_ept_info \<Rightarrow> bool" where
  "arrays_sized info \<longleftrightarrow>
     (\<forall>(a, n) \<in> {(pml4_page_addr_array info, pml4_page_count info),
         (pdpte_pd_page_addr_array info, pdpte_pd_page_count info),
         (pdept_page_addr_array info, pdept_page_count info),
         (pte_page_addr_array info, pte_page_count info)}.
       unat n < 2 ^ 31 \<and> length (snd a) = (if fst a = 0 then 0 else unat n))"

lemma new_array_cases:
  "new_array env n h =
     ((vzalloc env (kh_vmalloc_calls h), if vzalloc env (kh_vmalloc_calls h) = 0 then [] else replicate (unat n) 0),
      h\<lparr>kh_vmalloc_calls := Suc (kh_vmalloc_calls h)\<rparr>)"
  by (simp add: new_array_def kh_vzalloc_def)

lemma filter_nonzero_replicate [simp]: "filter (\<lambda>p. p \<noteq> 0) (replicate n 0) = []"
  by simp

lemma filled_append:
  assumes x: "filled env 0 xs n c c'" and y: "filled env r ys m c' c''"
  shows "filled env r (xs @ ys) (n + m) c c''"
proof -
  have le: "c \<le> c'" "c' \<le> c''" and c': "c' = c + n" and xs: "xs = pages_from env c n" "0 \<notin> set xs" "length xs = n"
    using x y unfolding filled_def by blast+
  have split: "[c..<c''] = [c..<c'] @ [c'..<c'']" using le by (metis le_Suc_ex upt_add_eq_append)
  have "filter (\<lambda>p. p \<noteq> 0) (xs @ ys) = filter (\<lambda>p. p \<noteq> 0) (map (get_free_page env) [c..<c''])"
    using x y unfolding split filled_def by simp
  moreover have "c'' = c + (n + m) \<and> xs @ ys = pages_from env c (n + m) \<and> 0 \<notin> set (xs @ ys)" if "r = 0"
  proof -
    have c'': "c'' = c + (n + m)" and ys: "ys = pages_from env (c + n) m" "0 \<notin> set ys"
      using y that unfolding filled_def c' add.assoc by blast+
    have "pages_from env c (n + m) = map (get_free_page env) [c..<c'']" by (simp only: c'')
    also have "\<dots> = map (get_free_page env) [c..<c'] @ map (get_free_page env) [c'..<c'']"
      by (simp only: split map_append)
    also have "\<dots> = xs @ ys" by (simp only: xs(1) ys(1) c' c'' add.assoc)
    finally show ?thesis using c'' xs(2) ys(2) by (metis Un_iff set_append)
  qed
  moreover have "0 \<in> set (map (get_free_page env) [c..<c''])" if "r \<noteq> 0"
    using y that unfolding split filled_def by (metis Un_iff map_append set_append)
  moreover have "length (xs @ ys) = n + m" "c \<le> c''" "c'' \<le> c + (n + m)"
    using y le xs(3) c' by (simp_all add: filled_def)
  ultimately show ?thesis unfolding filled_def by blast
qed

lemma filled_stop: "filled env r xs n c c' \<Longrightarrow> r \<noteq> 0 \<Longrightarrow> filled env (-1) (xs @ replicate m 0) (n + m) c c'"
  by (auto simp: filled_def)


text \<open>The result of \<open>hb_alloc_ept_pages\<close>, for both outcomes.\<close>

definition ept_allocated ::
  "kernel_env \<Rightarrow> u64 \<Rightarrow> hb_ept_info \<Rightarrow> kheap \<Rightarrow> int \<Rightarrow> hb_ept_info \<Rightarrow> kheap \<Rightarrow> bool" where
  "ept_allocated env max_ram info h r info' h' \<longleftrightarrow>
     array_ptrs info' = map (vzalloc env) [kh_vmalloc_calls h..<kh_vmalloc_calls h + 4] \<and>
     h' = h\<lparr>kh_page_calls := kh_page_calls h', kh_vmalloc_calls := kh_vmalloc_calls h + 4\<rparr> \<and>
     filter (\<lambda>p. p \<noteq> 0) (ept_arrays info') =
       filter (\<lambda>p. p \<noteq> 0) (map (get_free_page env) [kh_page_calls h..<kh_page_calls h']) \<and>
     ept_counts max_ram info' = info' \<and> arrays_sized info' \<and>
     (r = 0 \<longrightarrow> 0 \<notin> set (array_ptrs info') \<and> 0 \<notin> set (ept_arrays info') \<and>
       ept_arrays info' = pages_from env (kh_page_calls h) (length (ept_arrays info'))) \<and>
     kh_page_calls h \<le> kh_page_calls h' \<and> kh_page_calls h' \<le> kh_page_calls h + length (ept_arrays info') \<and>
     (r \<noteq> 0 \<longrightarrow> 0 \<in> set (array_ptrs info') \<or>
       0 \<in> set (map (get_free_page env) [kh_page_calls h..<kh_page_calls h']))"

lemma ept_allocated_null:
  assumes h: "h' = h\<lparr>kh_vmalloc_calls := kh_vmalloc_calls h + 4\<rparr>"
    and info: "info' = (ept_counts max_ram info)\<lparr>pml4_page_addr_array := b4,
      pdpte_pd_page_addr_array := b3, pdept_page_addr_array := b2, pte_page_addr_array := b1\<rparr>"
    and b: "[fst b4, fst b3, fst b2, fst b1] = map (vzalloc env) [kh_vmalloc_calls h..<kh_vmalloc_calls h + 4]"
    and null: "0 \<in> set [fst b4, fst b3, fst b2, fst b1]"
    and xs: "\<forall>x \<in> set (snd b4 @ snd b3 @ snd b2 @ snd b1). x = 0"
    and sized: "arrays_sized info'"
  shows "ept_allocated env max_ram info h (-1) info' h'"
proof -
  have "array_ptrs info' = [fst b4, fst b3, fst b2, fst b1]"
      "ept_arrays info' = snd b4 @ snd b3 @ snd b2 @ snd b1" "ept_counts max_ram info' = info'"
    by (simp_all add: info array_ptrs_def ept_arrays_def ept_counts_def Let_def)
  moreover have "filter (\<lambda>p. p \<noteq> 0) (snd b4 @ snd b3 @ snd b2 @ snd b1) = []"
    using xs by (simp only: filter_empty_conv) blast
  ultimately show ?thesis
    using h b sized null unfolding ept_allocated_def by simp
qed

lemma ept_allocated_filled:
  assumes h: "h' = h\<lparr>kh_page_calls := kh_page_calls h', kh_vmalloc_calls := kh_vmalloc_calls h + 4\<rparr>"
    and info: "info' = (ept_counts max_ram info)\<lparr>pml4_page_addr_array := b4,
      pdpte_pd_page_addr_array := b3, pdept_page_addr_array := b2, pte_page_addr_array := b1\<rparr>"
    and b: "[fst b4, fst b3, fst b2, fst b1] = map (vzalloc env) [kh_vmalloc_calls h..<kh_vmalloc_calls h + 4]"
      "0 \<notin> set [fst b4, fst b3, fst b2, fst b1]"
    and xs: "filled env r (snd b4 @ snd b3 @ snd b2 @ snd b1) n (kh_page_calls h) (kh_page_calls h')"
    and len: "length (snd b4) = unat (pml4_page_count (ept_counts max_ram info))"
      "length (snd b3) = unat (pdpte_pd_page_count (ept_counts max_ram info))"
      "length (snd b2) = unat (pdept_page_count (ept_counts max_ram info))"
      "length (snd b1) = unat (pte_page_count (ept_counts max_ram info))"
    and max_ram: "0 < unat max_ram" "unat max_ram \<le> 2 ^ 48"
  shows "ept_allocated env max_ram info h r info' h'"
proof -
  have sized: "arrays_sized info'"
    using b(2) len page_counts_small [OF max_ram, of info] by (simp add: info arrays_sized_def)
  have "array_ptrs info' = [fst b4, fst b3, fst b2, fst b1]"
      "ept_arrays info' = snd b4 @ snd b3 @ snd b2 @ snd b1" "ept_counts max_ram info' = info'"
    by (simp_all add: info array_ptrs_def ept_arrays_def ept_counts_def Let_def)
  with sized show ?thesis
    using h b xs unfolding ept_allocated_def filled_def by metis
qed


text \<open>The array that \<open>vzalloc\<close> delivers at call \<open>v\<close>, and the calls of \<open>hb_alloc_ept_pages\<close> in order.\<close>

definition zero_array :: "kernel_env \<Rightarrow> nat \<Rightarrow> u64 \<Rightarrow> ptr_array" where
  "zero_array env v n = (vzalloc env v, if vzalloc env v = 0 then [] else replicate (unat n) 0)"

definition with_arrays :: "hb_ept_info \<Rightarrow> ptr_array \<Rightarrow> ptr_array \<Rightarrow> ptr_array \<Rightarrow> ptr_array \<Rightarrow> hb_ept_info" where
  "with_arrays i b4 b3 b2 b1 = i\<lparr>pml4_page_addr_array := b4, pdpte_pd_page_addr_array := b3,
     pdept_page_addr_array := b2, pte_page_addr_array := b1\<rparr>"

lemma alloc_ept_run:
  assumes "i = ept_counts max_ram info" "v = kh_vmalloc_calls h" "g = h\<lparr>kh_vmalloc_calls := v + 4\<rparr>"
    and "z4 = zero_array env v (pml4_page_count i)" "z3 = zero_array env (v + 1) (pdpte_pd_page_count i)"
    and "z2 = zero_array env (v + 2) (pdept_page_count i)" "z1 = zero_array env (v + 3) (pte_page_count i)"
    and "fill_array env z4 (pml4_page_count i) g = (r4, b4, h4)" "fill_array env z3 (pdpte_pd_page_count i) h4 = (r3, b3, h3)"
    and "fill_array env z2 (pdept_page_count i) h3 = (r2, b2, h2)" "fill_array env z1 (pte_page_count i) h2 = (r1, b1, h1)"
  shows "hb_alloc_ept_pages env max_ram info h =
    (if 0 \<in> set [fst z4, fst z3, fst z2, fst z1] then (-1, with_arrays i z4 z3 z2 z1, g)
     else if r4 \<noteq> 0 then (-1, with_arrays i b4 z3 z2 z1, h4)
     else if r3 \<noteq> 0 then (-1, with_arrays i b4 b3 z2 z1, h3)
     else if r2 \<noteq> 0 then (-1, with_arrays i b4 b3 b2 z1, h2)
     else (if r1 \<noteq> 0 then -1 else 0, with_arrays i b4 b3 b2 b1, h1))"
  using assms by (simp add: hb_alloc_ept_pages_def new_array_cases Let_def zero_array_def with_arrays_def numeral_eq_Suc cong: if_cong)

text \<open>The chain of \<open>fill_array\<close> calls up to the first that fails.\<close>

lemma filled_chain:
  assumes f: "filled env r4 x4 n4 c c4" "filled env r3 x3 n3 c4 c3" "filled env r2 x2 n2 c3 c2" "filled env r1 x1 n1 c2 c1"
  shows "r4 \<noteq> 0 \<Longrightarrow> filled env (-1) (x4 @ replicate n3 0 @ replicate n2 0 @ replicate n1 0) (n4 + (n3 + (n2 + n1))) c c4"
    and "r4 = 0 \<Longrightarrow> r3 \<noteq> 0 \<Longrightarrow> filled env (-1) (x4 @ x3 @ replicate n2 0 @ replicate n1 0) (n4 + (n3 + (n2 + n1))) c c3"
    and "r4 = 0 \<Longrightarrow> r3 = 0 \<Longrightarrow> r2 \<noteq> 0 \<Longrightarrow> filled env (-1) (x4 @ x3 @ x2 @ replicate n1 0) (n4 + (n3 + (n2 + n1))) c c2"
    and "r4 = 0 \<Longrightarrow> r3 = 0 \<Longrightarrow> r2 = 0 \<Longrightarrow>
      filled env (if r1 \<noteq> 0 then -1 else 0) (x4 @ x3 @ x2 @ x1) (n4 + (n3 + (n2 + n1))) c c1"
proof -
  have e: "filled env (if r1 \<noteq> 0 then -1 else 0) x1 n1 c2 c1" using f(4) filled_stop [OF f(4), of 0] by auto
  show "r4 \<noteq> 0 \<Longrightarrow> filled env (-1) (x4 @ replicate n3 0 @ replicate n2 0 @ replicate n1 0) (n4 + (n3 + (n2 + n1))) c c4"
    using filled_stop [OF f(1), of "n3 + (n2 + n1)"] by (simp add: replicate_add)
  show "r4 = 0 \<Longrightarrow> r3 \<noteq> 0 \<Longrightarrow> filled env (-1) (x4 @ x3 @ replicate n2 0 @ replicate n1 0) (n4 + (n3 + (n2 + n1))) c c3"
    using filled_append [OF _ filled_stop [OF f(2), of "n2 + n1"]] f(1) by (simp add: replicate_add)
  show "r4 = 0 \<Longrightarrow> r3 = 0 \<Longrightarrow> r2 \<noteq> 0 \<Longrightarrow> filled env (-1) (x4 @ x3 @ x2 @ replicate n1 0) (n4 + (n3 + (n2 + n1))) c c2"
    using filled_append [OF _ filled_append [OF _ filled_stop [OF f(3), of n1]]] f(1,2) by simp
  show "r4 = 0 \<Longrightarrow> r3 = 0 \<Longrightarrow> r2 = 0 \<Longrightarrow>
      filled env (if r1 \<noteq> 0 then -1 else 0) (x4 @ x3 @ x2 @ x1) (n4 + (n3 + (n2 + n1))) c c1"
    using filled_append [OF _ filled_append [OF _ filled_append [OF _ e]]] f(1-3) by simp
qed

lemma hb_alloc_ept_pages_allocated:
  assumes alloc: "hb_alloc_ept_pages env max_ram info h = (r, info', h')"
    and max_ram: "0 < unat max_ram" "unat max_ram \<le> 2 ^ 48"
  shows "ept_allocated env max_ram info h r info' h'"
proof -
  define i v where i: "i = ept_counts max_ram info" and v: "v = kh_vmalloc_calls h"
  define g where g: "g = h\<lparr>kh_vmalloc_calls := v + 4\<rparr>"
  define z4 z3 z2 z1 where z: "z4 = zero_array env v (pml4_page_count i)" "z3 = zero_array env (v + 1) (pdpte_pd_page_count i)"
    "z2 = zero_array env (v + 2) (pdept_page_count i)" "z1 = zero_array env (v + 3) (pte_page_count i)"
  have ptrs: "[fst z4, fst z3, fst z2, fst z1] = map (vzalloc env) [v..<v + 4]"
    by (simp add: upt_conv_Cons z zero_array_def numeral_eq_Suc)
  note small = page_counts_small [OF max_ram, of info, folded i]
  obtain r4 b4 h4 r3 b3 h3 r2 b2 h2 r1 b1 h1 where
    fills: "fill_array env z4 (pml4_page_count i) g = (r4, b4, h4)" "fill_array env z3 (pdpte_pd_page_count i) h4 = (r3, b3, h3)"
      "fill_array env z2 (pdept_page_count i) h3 = (r2, b2, h2)" "fill_array env z1 (pte_page_count i) h2 = (r1, b1, h1)"
    by (metis prod_cases3)
  note run = alloc_ept_run [OF i v g z fills, unfolded alloc]
  show ?thesis
  proof (cases "0 \<in> set [fst z4, fst z3, fst z2, fst z1]")
    case True
    then have res: "r = -1" "info' = with_arrays i z4 z3 z2 z1" "h' = g" using run by simp_all
    have "arrays_sized info'" using small by (simp add: arrays_sized_def res(2) with_arrays_def z zero_array_def i ept_counts_def Let_def)
    then show ?thesis unfolding res(1)
      by (intro ept_allocated_null [OF _ res(2) [unfolded with_arrays_def i]])
        (use True ptrs in \<open>auto simp: res(3) g v z zero_array_def\<close>)
  next
    case False
    then obtain p4 p3 p2 p1 where nz: "z4 = (p4, replicate (unat (pml4_page_count i)) 0)"
        "z3 = (p3, replicate (unat (pdpte_pd_page_count i)) 0)" "z2 = (p2, replicate (unat (pdept_page_count i)) 0)"
        "z1 = (p1, replicate (unat (pte_page_count i)) 0)"
      by (auto simp: z zero_array_def)
    note f = fill_array_filled [OF fills(1) [unfolded nz(1)] small(1)] fill_array_filled [OF fills(2) [unfolded nz(2)] small(2)]
      fill_array_filled [OF fills(3) [unfolded nz(3)] small(3)] fill_array_filled [OF fills(4) [unfolded nz(4)] small(4)]
    obtain c4 c3 c2 c1 where heaps: "h4 = g\<lparr>kh_page_calls := c4\<rparr>" "h3 = g\<lparr>kh_page_calls := c3\<rparr>"
        "h2 = g\<lparr>kh_page_calls := c2\<rparr>" "h1 = g\<lparr>kh_page_calls := c1\<rparr>" using f(3,6,9,12) by auto
    note fl = filled_chain [OF f(2,5,8,11), unfolded heaps g, simplified]
    have fin: ?thesis
      if "info' = with_arrays i x4 x3 x2 x1" "h' = g\<lparr>kh_page_calls := c\<rparr>"
        "filled env r (snd x4 @ snd x3 @ snd x2 @ snd x1) n (kh_page_calls h) c"
        "map fst [x4, x3, x2, x1] = map fst [z4, z3, z2, z1]"
        "map (length \<circ> snd) [x4, x3, x2, x1] = map (length \<circ> snd) [z4, z3, z2, z1]" for x4 x3 x2 x1 c n
      by (rule ept_allocated_filled [OF _ that(1) [unfolded with_arrays_def i]])
        (use that False False [unfolded ptrs] ptrs max_ram nz in \<open>simp_all add: g v i\<close>)
    have len: "length (snd b4) = unat (pml4_page_count i)" "length (snd b3) = unat (pdpte_pd_page_count i)"
        "length (snd b2) = unat (pdept_page_count i)" "length (snd b1) = unat (pte_page_count i)" using f by (simp_all add: filled_def)
    consider "r4 \<noteq> 0" | "r4 = 0" "r3 \<noteq> 0" | "r4 = 0" "r3 = 0" "r2 \<noteq> 0" | "r4 = 0" "r3 = 0" "r2 = 0" by blast
    then show ?thesis
    proof cases
      case 1
      show ?thesis using run 1 False fl(1) [OF 1] f len by (intro fin [of b4 z3 z2 z1 c4]) (simp_all add: nz heaps)
    next
      case 2
      show ?thesis using run 2 False fl(2) [OF 2] f len by (intro fin [of b4 b3 z2 z1 c3]) (simp_all add: nz heaps)
    next
      case 3
      show ?thesis using run 3 False fl(3) [OF 3] f len by (intro fin [of b4 b3 b2 z1 c2]) (simp_all add: nz heaps)
    next
      case 4
      show ?thesis using run 4 False fl(4) [OF 4] f len by (intro fin [of b4 b3 b2 b1 c1]) (simp_all add: nz heaps)
    qed
  qed
qed

text \<open>A successful allocation gives the pages the construction needs.\<close>

lemma fresh_distinct:
  assumes "fresh_pages env" "0 \<notin> set (pages_from env c n)"
  shows "distinct (pages_from env c n)" "\<forall>p \<in> set (pages_from env c n). direct_mapped env p"
proof -
  have "inj_on (get_free_page env) {c..<c + n}"
  proof (rule inj_onI)
    fix a b assume ab: "a \<in> {c..<c + n}" "get_free_page env a = get_free_page env b"
    then have "get_free_page env a \<noteq> 0" using assms(2) by force
    then show "a = b" using assms(1) ab(2) unfolding fresh_pages_def by metis
  qed
  then show "distinct (pages_from env c n)" by (simp add: distinct_map)
  show "\<forall>p \<in> set (pages_from env c n). direct_mapped env p"
    using assms unfolding fresh_pages_def by (metis (mono_tags, lifting) imageE list.set_map)
qed

lemma alloc_pages_ok:
  assumes "ept_allocated env max_ram info h 0 info' h'" "fresh_pages env"
    and max_ram: "0 < unat max_ram" "unat max_ram \<le> 2 ^ 48" and st: "g_ept_info st = info'"
  shows "ept_pages_ok env st" "unat max_ram div 4096 \<le> ept_nd st * 512"
proof -
  let ?np = "ceil_div (unat max_ram) (2 ^ 30)" and ?nd = "ceil_div (unat max_ram) (2 ^ 21)"
  have cnt: "ept_counts max_ram info' = info'" and sized: "arrays_sized info'"
    and nz: "0 \<notin> set (array_ptrs info')" "0 \<notin> set (ept_arrays info')"
    and arr: "ept_arrays info' = pages_from env (kh_page_calls h) (length (ept_arrays info'))"
    using assms(1) unfolding ept_allocated_def by blast+
  note c = ept_counts_unat [OF max_ram, of info', unfolded cnt]
  have n: "ept_np st = ?np" "ept_nd st = ?nd" using c by (simp_all add: ept_np_def ept_nd_def st)
  have all: "a4 st @ a3 st @ a2 st @ a1 st = ept_arrays info'" by (simp add: st ept_arrays_def)
  have d: "distinct (ept_arrays info')" "\<forall>p \<in> set (ept_arrays info'). direct_mapped env p"
    using fresh_distinct [OF assms(2), of "kh_page_calls h" "length (ept_arrays info')"] nz(2) arr by simp_all
  have "?np \<le> 2 ^ 18" using max_ram(2) by (simp add: ceil_div_le)
  moreover have "ceil_div ?nd 512 = ?np" using max_ram(1) by (simp add: ceil_div_ceil_div)
  then have "?nd \<le> ?np * 512" "?np * 512 < ?nd + 512"
    using ceil_div_ge [of 512 ?nd] div_times_less_eq_dividend [of "?nd + 511" 512] by (auto simp: ceil_div_def)
  ultimately show "ept_pages_ok env st"
    unfolding ept_pages_ok_def all n
    using d nz(1) sized c by (auto simp: st arrays_sized_def array_ptrs_def split: if_splits)
  have "unat max_ram \<le> ?nd * 2 ^ 21" by (rule ceil_div_ge) simp
  then have "unat max_ram div 4096 \<le> ?nd * 2 ^ 21 div 4096" by (rule div_le_mono)
  then show "unat max_ram div 4096 \<le> ept_nd st * 512" by (simp add: n)
qed

section \<open>Release\<close>

lemma free_internal_eq:
  "n \<le> length xs \<Longrightarrow> fold (\<lambda>i h. if xs ! i \<noteq> 0 then kh_free_page (xs ! i) h else h) [0..<n] h =
     h\<lparr>kh_freed := kh_freed h @ filter (\<lambda>p. p \<noteq> 0) (take n xs)\<rparr>"
  by (induction n) (auto simp: take_Suc_conv_app_nth kh_free_page_def)

lemma free_array_eq:
  assumes "unat n < 2 ^ 31" "length (snd a) = (if fst a = 0 then 0 else unat n)"
  shows "free_array a n h = ((0, []), h\<lparr>kh_freed := kh_freed h @ filter (\<lambda>p. p \<noteq> 0) (snd a),
      kh_vfreed := kh_vfreed h @ filter (\<lambda>p. p \<noteq> 0) [fst a]\<rparr>)"
  using assms
  by (cases a) (auto simp: free_internal_eq free_array_def hb_free_ept_pages_internal_def to_int_small kh_vfree_def)

lemma hb_free_ept_pages_eq:
  assumes "arrays_sized info"
  shows "hb_free_ept_pages info h =
    (info\<lparr>pml4_page_addr_array := (0, []), pdpte_pd_page_addr_array := (0, []),
       pdept_page_addr_array := (0, []), pte_page_addr_array := (0, [])\<rparr>,
     h\<lparr>kh_freed := kh_freed h @ filter (\<lambda>p. p \<noteq> 0) (ept_arrays info),
       kh_vfreed := kh_vfreed h @ filter (\<lambda>p. p \<noteq> 0) (array_ptrs info)\<rparr>)"
  using assms [unfolded arrays_sized_def]
  by (simp add: hb_free_ept_pages_def ept_arrays_def array_ptrs_def free_array_eq)

section \<open>Properties\<close>

text \<open>C16: after a successful \<open>hb_alloc_ept_pages\<close>, \<open>hb_setup_ept_pagetable_4KB\<close> terminates
  without an invalid access and the processor's page walk through the resulting tables maps every
  guest-physical address below \<open>2 ^ 48\<close> to itself with read, write and execute permission: the RAM
  through 4KB pages and the rest, for IOMEM, through 2MB and 1GB pages.\<close>

theorem ept_identity_map:
  assumes "fresh_pages env" "ram_ranges_clipped env" "0 < unat max_ram" "unat max_ram \<le> 2 ^ 48"
    and "hb_alloc_ept_pages env max_ram info h = (0, info', h')"
  shows "\<exists>st. hb_setup_ept_pagetable_4KB env max_ram \<lparr>g_ept_info = info', ept_mem = mem\<rparr> = Some st \<and>
    ept_wf env st \<and> (\<forall>gpa. unat gpa < 2 ^ 48 \<longrightarrow> guest_translate env st gpa = Some (gpa, EPT_ALL_ACCESS))"
proof -
  let ?st = "\<lparr>g_ept_info = info', ept_mem = mem\<rparr>"
  note al = hb_alloc_ept_pages_allocated [OF assms(5,3,4)]
  have ok: "ept_pages_ok env ?st" "unat max_ram div 4096 \<le> ept_nd ?st * 512"
    using alloc_pages_ok [OF al assms(1,3,4)] by simp_all
  obtain st where st: "hb_setup_ept_pagetable_4KB env max_ram ?st = Some st" "g_ept_info st = g_ept_info ?st"
      "ept_wf env st" "\<forall>n < ept_nd ?st * 512. pte st n = pt_entry n"
    using setup_wf [OF ok(1) assms(2) ok(2)] by blast
  have seven: "EPT_ALL_ACCESS = 7" "mask 3 = (7 :: u64)" by (simp_all add: hb_consts mask_eq_exp_minus_1)
  have "guest_translate env st gpa = Some (gpa, EPT_ALL_ACCESS)" if "unat gpa < 2 ^ 48" for gpa
    using st(4) pt_entry_perm ept_nd_cong [OF st(2)]
    by (simp add: guest_translate_wf [OF st(3) that] ept_covered_def seven)
  with st show ?thesis by blast
qed

lemma alloc_ok_if_pages:
  assumes max_ram: "0 < unat max_ram" "unat max_ram \<le> 2 ^ 48"
    and v: "0 \<notin> set (map (vzalloc env) [kh_vmalloc_calls h..<kh_vmalloc_calls h + 4])"
    and g: "0 \<notin> set (pages_from env (kh_page_calls h)
      (513 + ceil_div (unat max_ram) (2 ^ 30) + ceil_div (unat max_ram) (2 ^ 21)))"
  shows "fst (hb_alloc_ept_pages env max_ram info h) = 0"
proof -
  obtain r info' h' where res: "hb_alloc_ept_pages env max_ram info h = (r, info', h')"
    by (metis prod_cases3)
  note al = hb_alloc_ept_pages_allocated [OF res max_ram, unfolded ept_allocated_def]
  have cnt: "ept_counts max_ram info' = info'" and sized: "arrays_sized info'"
    and nz: "0 \<notin> set (array_ptrs info')" using al v by metis+
  note c = ept_counts_unat [OF max_ram, of info', unfolded cnt]
  have "length (ept_arrays info') = 513 + ceil_div (unat max_ram) (2 ^ 30) + ceil_div (unat max_ram) (2 ^ 21)"
    using sized nz c by (auto simp: arrays_sized_def array_ptrs_def ept_arrays_def split: if_splits)
  then have "kh_page_calls h' \<le> kh_page_calls h +
      (513 + ceil_div (unat max_ram) (2 ^ 30) + ceil_div (unat max_ram) (2 ^ 21))" using al by metis
  then have "0 \<notin> set (map (get_free_page env) [kh_page_calls h..<kh_page_calls h'])"
    using g by (auto simp: image_iff)
  then have "r = 0" using al nz by metis
  with res show ?thesis by simp
qed

lemma sample_alloc_ok: "fst (hb_alloc_ept_pages sample_env 0x140000000 info kh_init) = 0"
proof (rule alloc_ok_if_pages)
  have "vzalloc sample_env n \<noteq> 0" if "n < 4" for n
  proof -
    have "n \<in> {0, 1, 2, 3}" using that by auto
    then show ?thesis by (auto simp: sample_env_def)
  qed
  then show "0 \<notin> set (map (vzalloc sample_env) [kh_vmalloc_calls kh_init..<kh_vmalloc_calls kh_init + 4])"
    by fastforce
  have "get_free_page sample_env n \<noteq> 0" if "n < 2 ^ 30" for n
    using sample_page [OF that] by (metis add_is_0 mult_is_0 nat_1_add_1 one_neq_zero unat_0 zero_neq_numeral)
  then show "0 \<notin> set (pages_from sample_env (kh_page_calls kh_init)
      (513 + ceil_div (unat (0x140000000 :: u64)) (2 ^ 30) + ceil_div (unat (0x140000000 :: u64)) (2 ^ 21)))"
    by (fastforce simp: ceil_div_def)
qed simp_all

definition null_ept_info :: hb_ept_info where
  "null_ept_info = \<lparr>pml4_ent_count = 0, pdpte_pd_ent_count = 0, pdept_ent_count = 0, pte_ent_count = 0,
     pml4_page_count = 0, pdpte_pd_page_count = 0, pdept_page_count = 0, pte_page_count = 0,
     pml4_page_addr_array = (0, []), pdpte_pd_page_addr_array = (0, []),
     pdept_page_addr_array = (0, []), pte_page_addr_array = (0, [])\<rparr>"

theorem ept_identity_map_witness:
  "case hb_alloc_ept_pages sample_env 0x140000000 null_ept_info kh_init of (r, info', h') \<Rightarrow>
    r = 0 \<and> (\<exists>st. hb_setup_ept_pagetable_4KB sample_env 0x140000000
      \<lparr>g_ept_info = info', ept_mem = \<lambda>_ _. 0\<rparr> = Some st \<and>
    guest_translate sample_env st 0xFEE00000 = Some (0xFEE00000, EPT_ALL_ACCESS))"
proof -
  obtain info' h' where res:
    "hb_alloc_ept_pages sample_env 0x140000000 null_ept_info kh_init = (0, info', h')"
    using sample_alloc_ok [of null_ept_info] by (metis fst_conv prod_cases3)
  have "unat (0xFEE00000 :: u64) < 2 ^ 48" by simp
  then show ?thesis
    using ept_identity_map [OF sample_fresh_pages sample_ram_clipped _ _ res, of "\<lambda>_ _. 0"]
    by (auto simp: res)
qed

text \<open>C21: \<open>hb_free_ept_pages\<close> after \<open>hb_alloc_ept_pages\<close>, whether that succeeded or failed half
  way, gives back every page the page allocator handed out and every array, each exactly once and
  in order, and leaves null pointers.\<close>

theorem ept_free_releases_all:
  assumes "0 < unat max_ram" "unat max_ram \<le> 2 ^ 48"
    and "hb_alloc_ept_pages env max_ram info h = (r, info', h')"
    and "hb_free_ept_pages info' h' = (info'', h'')"
  shows "kh_freed h'' = kh_freed h @
      filter (\<lambda>p. p \<noteq> 0) (map (get_free_page env) [kh_page_calls h..<kh_page_calls h'']) \<and>
    kh_vfreed h'' = kh_vfreed h @
      filter (\<lambda>p. p \<noteq> 0) (map (vzalloc env) [kh_vmalloc_calls h..<kh_vmalloc_calls h'']) \<and>
    array_ptrs info'' = [0, 0, 0, 0]"
proof -
  note al = hb_alloc_ept_pages_allocated [OF assms(3,1,2), unfolded ept_allocated_def]
  obtain c where "h' = h\<lparr>kh_page_calls := c, kh_vmalloc_calls := kh_vmalloc_calls h + 4\<rparr>" using al by blast
  then have h': "kh_freed h' = kh_freed h" "kh_vfreed h' = kh_vfreed h"
      "kh_vmalloc_calls h' = kh_vmalloc_calls h + 4" by simp_all
  have "arrays_sized info'" using al by blast
  note eq = hb_free_ept_pages_eq [OF this, of h', unfolded assms(4), unfolded prod.inject]
  then have "array_ptrs info'' = [0, 0, 0, 0]" by (simp add: array_ptrs_def)
  moreover have "kh_page_calls h'' = kh_page_calls h'" "kh_vmalloc_calls h'' = kh_vmalloc_calls h'" using eq by simp_all
  moreover have "kh_freed h'' = kh_freed h' @ filter (\<lambda>p. p \<noteq> 0) (ept_arrays info')"
      "kh_vfreed h'' = kh_vfreed h' @ filter (\<lambda>p. p \<noteq> 0) (array_ptrs info')" using eq by simp_all
  ultimately show ?thesis using al h' by metis
qed

text \<open>The page allocator fails at its third call.\<close>

definition failing_env :: kernel_env where
  "failing_env = sample_env\<lparr>get_free_page := (\<lambda>n. if n = 2 then 0 else get_free_page sample_env n)\<rparr>"

theorem ept_free_releases_all_witness:
  "case hb_alloc_ept_pages failing_env 0x140000000 null_ept_info kh_init of (r, info', h') \<Rightarrow>
    case hb_free_ept_pages info' h' of (info'', h'') \<Rightarrow> array_ptrs info'' = [0, 0, 0, 0] \<and>
      kh_freed h'' = filter (\<lambda>p. p \<noteq> 0) (map (get_free_page failing_env) [0..<kh_page_calls h''])"
proof -
  obtain r info' h' where res: "hb_alloc_ept_pages failing_env 0x140000000 null_ept_info kh_init = (r, info', h')"
    by (metis prod_cases3)
  obtain info'' h'' where fr: "hb_free_ept_pages info' h' = (info'', h'')" by (metis surj_pair)
  show ?thesis
    using ept_free_releases_all [OF _ _ res fr] by (simp add: res fr)
qed

text \<open>C22: \<open>hb_alloc_ept_pages\<close> reports success if and only if none of its allocations returned null;
  otherwise it returns -1.\<close>

theorem ept_alloc_success_iff:
  assumes "0 < unat max_ram" "unat max_ram \<le> 2 ^ 48"
    and "hb_alloc_ept_pages env max_ram info h = (r, info', h')"
  shows "(r = 0 \<longleftrightarrow> 0 \<notin> set (map (vzalloc env) [kh_vmalloc_calls h..<kh_vmalloc_calls h']) \<and>
      0 \<notin> set (map (get_free_page env) [kh_page_calls h..<kh_page_calls h'])) \<and> (r = 0 \<or> r = -1)"
proof -
  note al = hb_alloc_ept_pages_allocated [OF assms(3,1,2), unfolded ept_allocated_def]
  obtain c where h': "h' = h\<lparr>kh_page_calls := c, kh_vmalloc_calls := kh_vmalloc_calls h + 4\<rparr>" using al by blast
  have r: "r = 0 \<or> r = -1"
    using assms(3) by (auto simp: hb_alloc_ept_pages_def Let_def split: prod.splits if_splits)
  have "0 \<notin> set (map (get_free_page env) [kh_page_calls h..<kh_page_calls h'])" if "r = 0"
  proof -
    have "set (map (get_free_page env) [kh_page_calls h..<kh_page_calls h']) \<subseteq> set (ept_arrays info')"
      using al that by (metis (no_types, lifting) add_le_cancel_left image_mono ivl_subset le_refl list.set_map set_upt)
    with al that show ?thesis by blast
  qed
  then show ?thesis using al r h' by (auto simp del: set_map set_upt)
qed

theorem ept_alloc_success_iff_witness:
  "fst (hb_alloc_ept_pages sample_env 0x140000000 null_ept_info kh_init) = 0 \<and>
   0 \<notin> set (map (get_free_page sample_env)
     [0..<kh_page_calls (snd (snd (hb_alloc_ept_pages sample_env 0x140000000 null_ept_info kh_init)))])"
proof -
  obtain r info' h' where res: "hb_alloc_ept_pages sample_env 0x140000000 null_ept_info kh_init = (r, info', h')"
    by (metis prod_cases3)
  show ?thesis
    using ept_alloc_success_iff [OF _ _ res] sample_alloc_ok [of null_ept_info] by (simp add: res)
qed

text \<open>C23: the size \<open>hyper_box_init\<close> gives to the EPT is a multiple of 1GB, at least 5GB, and at least
  1GB above the end of the RAM, so the 4KB tables cover all of the RAM and one more gigabyte.\<close>

theorem adjust_max_ram_size_bounds:
  assumes "unat ram \<le> 2 ^ 47"
  shows "unat (adjust_max_ram_size ram) mod 2 ^ 30 = 0 \<and> 5 * 2 ^ 30 \<le> unat (adjust_max_ram_size ram) \<and>
    unat ram + 2 ^ 30 \<le> unat (adjust_max_ram_size ram) \<and>
    unat (adjust_max_ram_size ram) < max (unat ram) (2 ^ 32) + 2 * 2 ^ 30"
proof (cases "ram < VAL_4GB")
  case True
  then have "unat ram < 4294967296" by (simp add: hb_consts word_less_nat_alt)
  with True show ?thesis by (simp add: adjust_max_ram_size_def hb_consts)
next
  case False
  define n where "n = ceil_div (unat ram) (2 ^ 30)"
  have ge: "4294967296 \<le> unat ram" using False by (simp add: hb_consts word_less_nat_alt)
  have v: "unat VAL_1GB = 2 ^ 30" by (simp add: hb_consts)
  have u: "unat (CEIL ram VAL_1GB) = n" using unat_CEIL [of ram VAL_1GB] assms v by (simp add: n_def)
  have n: "n \<le> 2 ^ 17" unfolding n_def using assms by (simp add: ceil_div_le)
  have "unat (CEIL ram VAL_1GB * VAL_1GB + VAL_1GB) = (n + 1) * 2 ^ 30"
    using n u v by (simp add: unat_word_ariths)
  moreover have "unat ram \<le> n * 2 ^ 30" unfolding n_def by (rule ceil_div_ge) simp
  moreover have "n * 2 ^ 30 < unat ram + 2 ^ 30"
    using div_times_less_eq_dividend [of "unat ram + (2 ^ 30 - 1)" "2 ^ 30"] by (simp add: n_def ceil_div_def)
  ultimately show ?thesis using False ge by (simp add: adjust_max_ram_size_def)
qed

theorem adjust_max_ram_size_bounds_witness:
  "unat (0x1F0000000 :: u64) \<le> 2 ^ 47 \<and> unat (0x1F0000000 :: u64) + 2 ^ 30 \<le> unat (adjust_max_ram_size 0x1F0000000)"
  using adjust_max_ram_size_bounds [of "0x1F0000000"] by simp


end
