(* ===== verification/Ro_Area.thy ===== *)
theory Ro_Area
  imports Prelude "HOL-Library.Multiset"
begin

text \<open>
  The registry of read-only areas, \<open>g_ro_array\<close> with \<open>g_ro_array_count\<close>
  (hypervisor.c, workaround.h): \<open>hb_add_ro_area\<close>, \<open>hb_delete_ro_area\<close>,
  \<open>hb_is_addr_in_ro_area\<close> and \<open>hb_is_addr_in_kernel_ro_area\<close>. The integrity checks of the
  monitor and the EPT violation handler decide by it what kernel text and read-only data are.

  The array is a list of \<open>MAX_RO_ARRAY_COUNT\<close> slots. A deleted slot has start and end 0 and
  is reused by the next addition. The abstract view is the multiset of live areas; the locale
  \<open>area_registry\<close> states the contract the clients rely on.
\<close>

section \<open>Data and operations\<close>

definition MAX_RO_ARRAY_COUNT :: nat where
  [hb_consts]: "MAX_RO_ARRAY_COUNT = 4096"

definition RO_MODULE :: u64 where
  [hb_consts]: "RO_MODULE = 0"

definition RO_KERNEL :: u64 where
  [hb_consts]: "RO_KERNEL = 1"

record ro_addr_struct =
  ro_start :: u64
  ro_end :: u64
  ro_type :: u64

record ro_registry =
  g_ro_array_count :: nat
  g_ro_array :: "ro_addr_struct list"

text \<open>The search for a free slot: the first index below the count whose slot is empty, and
  the count itself when the loop runs to its end.\<close>

fun ro_free_slot :: "ro_addr_struct list \<Rightarrow> nat \<Rightarrow> nat \<Rightarrow> nat" where
  "ro_free_slot arr i 0 = i"
| "ro_free_slot arr i (Suc n) =
     (if ro_start (arr ! i) = 0 \<and> ro_end (arr ! i) = 0 then i else ro_free_slot arr (Suc i) n)"

definition hb_add_ro_area :: "u64 \<Rightarrow> u64 \<Rightarrow> u64 \<Rightarrow> ro_registry \<Rightarrow> ro_registry" where
  "hb_add_ro_area start end ro_t st =
     (if g_ro_array_count st \<ge> MAX_RO_ARRAY_COUNT then st
      else
        let i = ro_free_slot (g_ro_array st) 0 (g_ro_array_count st);
            arr = (g_ro_array st)[i := \<lparr>ro_start = start, ro_end = end, ro_type = ro_t\<rparr>]
        in \<lparr>g_ro_array_count =
              (if i = g_ro_array_count st then Suc (g_ro_array_count st) else g_ro_array_count st),
            g_ro_array = arr\<rparr>)"

text \<open>Deletion returns 0 and clears the first slot with exactly these bounds, or returns -1.\<close>

fun ro_find_slot :: "ro_addr_struct list \<Rightarrow> u64 \<Rightarrow> u64 \<Rightarrow> nat \<Rightarrow> nat \<Rightarrow> nat option" where
  "ro_find_slot arr start end i 0 = None"
| "ro_find_slot arr start end i (Suc n) =
     (if ro_start (arr ! i) = start \<and> ro_end (arr ! i) = end then Some i
      else ro_find_slot arr start end (Suc i) n)"

definition hb_delete_ro_area :: "u64 \<Rightarrow> u64 \<Rightarrow> ro_registry \<Rightarrow> int \<times> ro_registry" where
  "hb_delete_ro_area start end st =
     (case ro_find_slot (g_ro_array st) start end 0 (g_ro_array_count st) of
        Some i \<Rightarrow>
          (0, st\<lparr>g_ro_array := (g_ro_array st)[i := (g_ro_array st ! i)\<lparr>ro_start := 0, ro_end := 0\<rparr>]\<rparr>)
      | None \<Rightarrow> (-1, st))"

fun ro_scan :: "ro_addr_struct list \<Rightarrow> u64 \<Rightarrow> int" where
  "ro_scan [] addr = 0"
| "ro_scan (a # as) addr =
     (if ro_start a \<le> addr \<and> addr < ro_end a then 1 else ro_scan as addr)"

definition hb_is_addr_in_ro_area :: "u64 \<Rightarrow> ro_registry \<Rightarrow> int" where
  "hb_is_addr_in_ro_area addr st =
     (if addr = 0 then 1 else ro_scan (take (g_ro_array_count st) (g_ro_array st)) addr)"

fun ro_kernel_scan :: "ro_addr_struct list \<Rightarrow> u64 \<Rightarrow> int" where
  "ro_kernel_scan [] addr = 0"
| "ro_kernel_scan (a # as) addr =
     (if ro_start a \<le> addr \<and> addr < ro_end a \<and> ro_type a = RO_KERNEL then 1
      else if ro_type a = RO_MODULE then 0
      else ro_kernel_scan as addr)"

definition hb_is_addr_in_kernel_ro_area :: "u64 \<Rightarrow> ro_registry \<Rightarrow> int" where
  "hb_is_addr_in_kernel_ro_area addr st =
     (if addr = 0 then 1 else ro_kernel_scan (take (g_ro_array_count st) (g_ro_array st)) addr)"

text \<open>The registry of a freshly loaded module: a zeroed array, nothing registered.\<close>

definition ro_init :: ro_registry where
  "ro_init = \<lparr>g_ro_array_count = 0,
     g_ro_array = replicate MAX_RO_ARRAY_COUNT \<lparr>ro_start = 0, ro_end = 0, ro_type = 0\<rparr>\<rparr>"

section \<open>Invariant and abstraction\<close>

definition ro_wf :: "ro_registry \<Rightarrow> bool" where
  "ro_wf st \<longleftrightarrow> length (g_ro_array st) = MAX_RO_ARRAY_COUNT \<and>
     g_ro_array_count st \<le> MAX_RO_ARRAY_COUNT"

definition ro_live :: "ro_addr_struct \<Rightarrow> bool" where
  "ro_live a \<longleftrightarrow> \<not> (ro_start a = 0 \<and> ro_end a = 0)"

definition ro_slots :: "ro_registry \<Rightarrow> ro_addr_struct list" where
  "ro_slots st = take (g_ro_array_count st) (g_ro_array st)"

definition ro_areas :: "ro_registry \<Rightarrow> ro_addr_struct multiset" where
  "ro_areas st = mset (filter ro_live (ro_slots st))"

definition ro_full :: "ro_registry \<Rightarrow> bool" where
  "ro_full st \<longleftrightarrow> g_ro_array_count st \<ge> MAX_RO_ARRAY_COUNT"

definition in_area :: "u64 \<Rightarrow> ro_addr_struct \<Rightarrow> bool" where
  "in_area addr a \<longleftrightarrow> ro_start a \<le> addr \<and> addr < ro_end a"

section \<open>Slots\<close>

lemma ro_free_slot_spec:
  assumes "k = ro_free_slot arr i n"
  shows "i \<le> k \<and> k \<le> i + n \<and> (k < i + n \<longrightarrow> \<not> ro_live (arr ! k))"
  using assms
proof (induction n arbitrary: i)
  case 0
  then show ?case by simp
next
  case (Suc n)
  show ?case
  proof (cases "ro_live (arr ! i)")
    case True
    with Suc.prems have "k = ro_free_slot arr (Suc i) n" by (auto simp: ro_live_def)
    from Suc.IH [OF this] show ?thesis by auto
  next
    case False
    with Suc.prems have "k = i" by (auto simp: ro_live_def)
    with False show ?thesis by simp
  qed
qed

lemma ro_find_slot_Some:
  "ro_find_slot arr s e i n = Some k \<Longrightarrow>
     i \<le> k \<and> k < i + n \<and> ro_start (arr ! k) = s \<and> ro_end (arr ! k) = e"
  by (induction n arbitrary: i) (force split: if_splits)+

lemma ro_find_slot_None:
  "ro_find_slot arr s e i n = None \<longleftrightarrow>
     (\<forall>k. i \<le> k \<and> k < i + n \<longrightarrow> \<not> (ro_start (arr ! k) = s \<and> ro_end (arr ! k) = e))"
proof (induction n arbitrary: i)
  case 0
  then show ?case by auto
next
  case (Suc n)
  have "(i \<le> k \<and> k < i + Suc n) \<longleftrightarrow> k = i \<or> (Suc i \<le> k \<and> k < Suc i + n)" for k by auto
  then show ?case by (auto simp: Suc.IH)
qed

lemma ro_scan_iff: "ro_scan as addr = (if \<exists>a \<in> set as. in_area addr a then 1 else 0)"
  by (induction as) (auto simp: in_area_def)

text \<open>Dead slots cover nothing.\<close>

lemma in_area_live: "in_area addr a \<Longrightarrow> ro_live a"
  by (auto simp: in_area_def ro_live_def)

section \<open>Refinement to the multiset of live areas\<close>

text \<open>Replacing one slot of the array replaces its contribution to the multiset.\<close>

lemma filter_mset_update:
  assumes "i < length xs"
  shows "mset (filter P (xs[i := x])) =
    (mset (filter P xs) - (if P (xs ! i) then {#xs ! i#} else {#})) + (if P x then {#x#} else {#})"
proof -
  have "mset (xs[i := x]) = mset xs - {#xs ! i#} + {#x#}"
    using assms by (simp add: mset_update)
  then show ?thesis
    using assms by (simp add: mset_filter filter_mset_add_mset nth_mem_mset)
qed

lemma hb_add_ro_area_slots:
  fixes s e t :: u64
  assumes "ro_wf st" "\<not> ro_full st"
  defines "new \<equiv> \<lparr>ro_start = s, ro_end = e, ro_type = t\<rparr>"
  shows "(ro_slots (hb_add_ro_area s e t st) = ro_slots st @ [new]) \<or>
     (\<exists>i < length (ro_slots st). \<not> ro_live (ro_slots st ! i) \<and>
        ro_slots (hb_add_ro_area s e t st) = (ro_slots st)[i := new])"
proof -
  let ?n = "g_ro_array_count st" and ?arr = "g_ro_array st"
  define k where "k = ro_free_slot ?arr 0 ?n"
  have k: "k \<le> ?n" "k < ?n \<Longrightarrow> \<not> ro_live (?arr ! k)"
    using ro_free_slot_spec [OF k_def] by auto
  have n: "?n < length ?arr" using assms by (auto simp: ro_wf_def ro_full_def)
  show ?thesis
  proof (cases "k = ?n")
    case True
    with assms n have "ro_slots (hb_add_ro_area s e t st) = ro_slots st @ [new]"
      by (simp add: hb_add_ro_area_def ro_slots_def ro_full_def k_def [symmetric]
          take_Suc_conv_app_nth new_def Let_def)
    then show ?thesis by blast
  next
    case False
    with k n have "k < length (ro_slots st) \<and> \<not> ro_live (ro_slots st ! k) \<and>
        ro_slots (hb_add_ro_area s e t st) = (ro_slots st)[k := new]"
      using assms by (auto simp: hb_add_ro_area_def ro_slots_def ro_full_def k_def [symmetric]
          take_update_swap new_def Let_def)
    then show ?thesis by blast
  qed
qed

lemma hb_add_ro_area_wf: "ro_wf st \<Longrightarrow> ro_wf (hb_add_ro_area s e t st)"
  by (auto simp: ro_wf_def hb_add_ro_area_def Let_def)

lemma hb_add_ro_area_areas:
  assumes "ro_wf st" "\<not> ro_full st" "\<not> (s = 0 \<and> e = 0)"
  shows "ro_areas (hb_add_ro_area s e t st) =
    add_mset \<lparr>ro_start = s, ro_end = e, ro_type = t\<rparr> (ro_areas st)"
  using hb_add_ro_area_slots [OF assms(1,2), of s e t] assms(3)
  by (auto simp: ro_areas_def ro_live_def filter_mset_update simp del: mset_filter)

lemma hb_delete_ro_area_wf: "ro_wf st \<Longrightarrow> ro_wf (snd (hb_delete_ro_area s e st))"
  by (auto simp: ro_wf_def hb_delete_ro_area_def split: option.splits)

lemma hb_delete_ro_area_areas:
  assumes "ro_wf st" "\<not> (s = 0 \<and> e = 0)" "hb_delete_ro_area s e st = (r, st')"
  shows "(r = 0 \<and> (\<exists>t. \<lparr>ro_start = s, ro_end = e, ro_type = t\<rparr> \<in># ro_areas st \<and>
            ro_areas st' = ro_areas st - {#\<lparr>ro_start = s, ro_end = e, ro_type = t\<rparr>#}))
       \<or> (r = -1 \<and> st' = st \<and> (\<forall>a \<in># ro_areas st. \<not> (ro_start a = s \<and> ro_end a = e)))"
proof (cases "ro_find_slot (g_ro_array st) s e 0 (g_ro_array_count st)")
  case None
  then have "\<forall>a \<in> set (ro_slots st). \<not> (ro_start a = s \<and> ro_end a = e)"
    by (auto simp: ro_find_slot_None ro_slots_def set_conv_nth)
  with None assms show ?thesis by (auto simp: hb_delete_ro_area_def ro_areas_def)
next
  case (Some k)
  let ?a = "g_ro_array st ! k"
  from ro_find_slot_Some [OF Some] have k: "k < g_ro_array_count st" "ro_start ?a = s" "ro_end ?a = e"
    by auto
  with assms(1) have len: "k < length (ro_slots st)" and nth: "ro_slots st ! k = ?a"
    by (auto simp: ro_slots_def ro_wf_def)
  have a: "?a = \<lparr>ro_start = s, ro_end = e, ro_type = ro_type ?a\<rparr>"
    using k by simp
  have live: "ro_live ?a" using k assms(2) by (auto simp: ro_live_def)
  have "?a \<in># ro_areas st"
    using len nth live by (auto simp: ro_areas_def in_set_conv_nth)
  moreover have "r = 0" and st': "ro_slots st' = (ro_slots st)[k := ?a\<lparr>ro_start := 0, ro_end := 0\<rparr>]"
    using Some assms(3) by (auto simp: hb_delete_ro_area_def ro_slots_def take_update_swap)
  moreover have "ro_areas st' = ro_areas st - {#?a#}"
    using len nth live unfolding ro_areas_def st'
    by (subst filter_mset_update) (auto simp: ro_live_def)
  ultimately show ?thesis using a by metis
qed

lemma hb_is_addr_in_ro_area_iff:
  "hb_is_addr_in_ro_area addr st = (if addr = 0 \<or> (\<exists>a \<in># ro_areas st. in_area addr a) then 1 else 0)"
proof -
  have "(\<exists>a \<in> set (ro_slots st). in_area addr a) \<longleftrightarrow> (\<exists>a \<in># ro_areas st. in_area addr a)"
    using in_area_live by (auto simp: ro_areas_def)
  then show ?thesis
    by (auto simp: hb_is_addr_in_ro_area_def ro_scan_iff ro_slots_def)
qed

section \<open>The contract of a registry\<close>

text \<open>Clients register areas, drop them by their bounds and ask whether an address is
  covered. The laws are stated on the multiset of areas.\<close>

locale area_registry =
  fixes add :: "u64 \<Rightarrow> u64 \<Rightarrow> u64 \<Rightarrow> 'r \<Rightarrow> 'r"
    and del :: "u64 \<Rightarrow> u64 \<Rightarrow> 'r \<Rightarrow> int \<times> 'r"
    and covers :: "u64 \<Rightarrow> 'r \<Rightarrow> int"
    and areas :: "'r \<Rightarrow> ro_addr_struct multiset"
    and full :: "'r \<Rightarrow> bool"
    and invar :: "'r \<Rightarrow> bool"
  assumes add_areas: "invar r \<Longrightarrow> \<not> full r \<Longrightarrow> \<not> (s = 0 \<and> e = 0) \<Longrightarrow>
      areas (add s e t r) = add_mset \<lparr>ro_start = s, ro_end = e, ro_type = t\<rparr> (areas r)"
    and add_full: "full r \<Longrightarrow> add s e t r = r"
    and add_invar: "invar r \<Longrightarrow> invar (add s e t r)"
    and del_areas: "invar r \<Longrightarrow> \<not> (s = 0 \<and> e = 0) \<Longrightarrow> del s e r = (c, r') \<Longrightarrow>
      (c = 0 \<and> (\<exists>t. \<lparr>ro_start = s, ro_end = e, ro_type = t\<rparr> \<in># areas r \<and>
            areas r' = areas r - {#\<lparr>ro_start = s, ro_end = e, ro_type = t\<rparr>#}))
       \<or> (c = -1 \<and> r' = r \<and> (\<forall>a \<in># areas r. \<not> (ro_start a = s \<and> ro_end a = e)))"
    and del_invar: "invar r \<Longrightarrow> invar (snd (del s e r))"
    and covers_iff: "covers a r = (if a = 0 \<or> (\<exists>x \<in># areas r. in_area a x) then 1 else 0)"
begin

lemma covers_add:
  assumes "invar r" "\<not> full r" "\<not> (s = 0 \<and> e = 0)"
  shows "covers a (add s e t r) = (if s \<le> a \<and> a < e then 1 else covers a r)"
  using add_areas [OF assms] by (auto simp: covers_iff in_area_def)

lemma covers_add_mono:
  assumes "invar r" "\<not> (s = 0 \<and> e = 0)" "covers a r = 1"
  shows "covers a (add s e t r) = 1"
  using assms add_full [of r s e t] by (cases "full r") (auto simp: covers_add)

lemma del_add:
  assumes "invar r" "\<not> full r" "\<not> (s = 0 \<and> e = 0)"
    and fresh: "\<forall>x \<in># areas r. \<not> (ro_start x = s \<and> ro_end x = e)"
  shows "fst (del s e (add s e t r)) = 0 \<and> areas (snd (del s e (add s e t r))) = areas r"
proof -
  obtain c r' where d: "del s e (add s e t r) = (c, r')" by fastforce
  note a = add_areas [OF assms(1-3), of t]
  from del_areas [OF add_invar [OF assms(1)] assms(3) d] fresh a
  show ?thesis by (auto simp: d)
qed

lemma covers_del_add:
  assumes "invar r" "\<not> full r" "\<not> (s = 0 \<and> e = 0)"
    and "\<forall>x \<in># areas r. \<not> (ro_start x = s \<and> ro_end x = e)"
  shows "covers a (snd (del s e (add s e t r))) = covers a r"
  using del_add [OF assms] by (simp add: covers_iff)

end

interpretation ro: area_registry hb_add_ro_area hb_delete_ro_area hb_is_addr_in_ro_area
  ro_areas ro_full ro_wf
proof unfold_locales
  fix st and s e t :: u64
  show "ro_full st \<Longrightarrow> hb_add_ro_area s e t st = st"
    by (simp add: ro_full_def hb_add_ro_area_def)
qed (fact hb_add_ro_area_areas hb_add_ro_area_wf hb_delete_ro_area_areas hb_delete_ro_area_wf
    hb_is_addr_in_ro_area_iff)+

section \<open>Kernel areas\<close>

text \<open>The shape the registry has after \<open>hb_protect_kernel_ro_area\<close>: kernel areas first, all
  of them in use, then module slots.\<close>

definition kernel_prefix :: "ro_registry \<Rightarrow> nat \<Rightarrow> bool" where
  "kernel_prefix st k \<longleftrightarrow> k \<le> length (ro_slots st) \<and>
     (\<forall>i < length (ro_slots st). ro_type (ro_slots st ! i) = (if i < k then RO_KERNEL else RO_MODULE)) \<and>
     (\<forall>i < k. ro_live (ro_slots st ! i))"

lemma ro_kernel_scan_split:
  assumes "\<forall>a \<in> set ks. ro_type a = RO_KERNEL" "\<forall>a \<in> set ms. ro_type a = RO_MODULE"
  shows "ro_kernel_scan (ks @ ms) addr = (if \<exists>a \<in> set ks. in_area addr a then 1 else 0)"
  using assms(1)
proof (induction ks)
  case Nil
  with assms(2) show ?case by (cases ms) (auto simp: hb_consts)
next
  case (Cons a ks)
  then show ?case by (auto simp: in_area_def hb_consts)
qed

lemma kernel_prefix_split:
  assumes "kernel_prefix st k"
  shows "(\<forall>a \<in> set (take k (ro_slots st)). ro_type a = RO_KERNEL) \<and>
    (\<forall>a \<in> set (drop k (ro_slots st)). ro_type a = RO_MODULE)"
proof -
  have "ro_type (drop k (ro_slots st) ! i) = RO_MODULE" if "i < length (drop k (ro_slots st))" for i
    using assms that by (auto simp: kernel_prefix_def)
  then have "\<forall>a \<in> set (drop k (ro_slots st)). ro_type a = RO_MODULE"
    by (metis in_set_conv_nth)
  with assms show ?thesis by (auto simp: kernel_prefix_def in_set_conv_nth)
qed

lemma kernel_prefix_add_module:
  assumes "ro_wf st" "kernel_prefix st k"
  shows "kernel_prefix (hb_add_ro_area s e RO_MODULE st) k"
proof (cases "ro_full st")
  case True
  with assms(2) show ?thesis by (simp add: ro.add_full)
next
  case False
  from hb_add_ro_area_slots [OF assms(1) False, of s e RO_MODULE] assms(2)
  show ?thesis
    by (elim disjE exE conjE) (auto simp: kernel_prefix_def nth_append nth_list_update)
qed

lemma kernel_prefix_delete:
  assumes "ro_wf st" "kernel_prefix st k"
    and "\<forall>a \<in> set (take k (ro_slots st)). \<not> (ro_start a = s \<and> ro_end a = e)"
  shows "kernel_prefix (snd (hb_delete_ro_area s e st)) k"
proof (cases "ro_find_slot (g_ro_array st) s e 0 (g_ro_array_count st)")
  case None
  with assms(2) show ?thesis by (simp add: hb_delete_ro_area_def)
next
  case (Some i)
  let ?a = "g_ro_array st ! i"
  from ro_find_slot_Some [OF Some] have i: "i < g_ro_array_count st" "ro_start ?a = s" "ro_end ?a = e"
    by auto
  with assms(1) have len: "i < length (ro_slots st)" and nth: "ro_slots st ! i = ?a"
    by (auto simp: ro_slots_def ro_wf_def)
  have "\<not> i < k"
    using assms(3) len nth i by (metis in_set_conv_nth length_take min_less_iff_conj nth_take)
  moreover have "ro_slots (snd (hb_delete_ro_area s e st)) =
      (ro_slots st)[i := ?a\<lparr>ro_start := 0, ro_end := 0\<rparr>]"
    using Some by (auto simp: hb_delete_ro_area_def ro_slots_def take_update_swap)
  ultimately show ?thesis
    using assms(2) len nth by (auto simp: kernel_prefix_def nth_list_update)
qed

text \<open>Loading and unloading of modules: what happens to the registry after start-up, in any order.
  A module is never unloaded at the bounds of a kernel area.\<close>

inductive module_events :: "ro_registry \<Rightarrow> ro_registry \<Rightarrow> bool" where
  none: "module_events st st"
| load: "module_events st st' \<Longrightarrow> module_events st (hb_add_ro_area s e RO_MODULE st')"
| unload: "module_events st st' \<Longrightarrow>
    \<forall>a \<in># ro_areas st. ro_type a = RO_KERNEL \<longrightarrow> \<not> (ro_start a = s \<and> ro_end a = e) \<Longrightarrow>
    module_events st (snd (hb_delete_ro_area s e st'))"

lemma kernel_slots:
  assumes "kernel_prefix st k"
  shows "a \<in> set (take k (ro_slots st)) \<longleftrightarrow> a \<in># ro_areas st \<and> ro_type a = RO_KERNEL"
proof -
  note sp = kernel_prefix_split [OF assms]
  have "\<forall>a \<in> set (take k (ro_slots st)). ro_live a"
    using assms by (auto simp: kernel_prefix_def in_set_conv_nth)
  moreover have "set (ro_slots st) = set (take k (ro_slots st)) \<union> set (drop k (ro_slots st))"
    by (metis append_take_drop_id set_append)
  moreover have "RO_KERNEL \<noteq> RO_MODULE" by (simp add: hb_consts)
  moreover have "a \<in># ro_areas st \<longleftrightarrow> a \<in> set (ro_slots st) \<and> ro_live a" by (auto simp: ro_areas_def)
  ultimately show ?thesis using sp by (metis UnE UnI1)
qed

lemma kernel_query:
  assumes "kernel_prefix st k"
  shows "hb_is_addr_in_kernel_ro_area addr st =
    (if addr = 0 \<or> (\<exists>a \<in> set (take k (ro_slots st)). in_area addr a) then 1 else 0)"
  using ro_kernel_scan_split [of "take k (ro_slots st)" "drop k (ro_slots st)" addr] kernel_prefix_split [OF assms]
  unfolding hb_is_addr_in_kernel_ro_area_def ro_slots_def [symmetric] append_take_drop_id by simp

lemma kernel_slots_add:
  assumes "ro_wf st" "kernel_prefix st k"
  shows "take k (ro_slots (hb_add_ro_area s e t st)) = take k (ro_slots st)"
proof (cases "ro_full st")
  case False
  from hb_add_ro_area_slots [OF assms(1) False, of s e t] assms(2) show ?thesis
    by (elim disjE exE conjE) (auto simp: kernel_prefix_def list_eq_iff_nth_eq nth_list_update nth_append)
qed (simp add: ro.add_full)

lemma kernel_slots_delete:
  assumes "ro_wf st" "\<forall>a \<in> set (take k (ro_slots st)). \<not> (ro_start a = s \<and> ro_end a = e)"
  shows "take k (ro_slots (snd (hb_delete_ro_area s e st))) = take k (ro_slots st)"
proof (cases "ro_find_slot (g_ro_array st) s e 0 (g_ro_array_count st)")
  case (Some i)
  from ro_find_slot_Some [OF Some] assms(1)
  have i: "i < length (ro_slots st)" "ro_start (ro_slots st ! i) = s" "ro_end (ro_slots st ! i) = e"
    by (auto simp: ro_slots_def ro_wf_def)
  then have "\<not> i < k" using assms(2) by (metis in_set_conv_nth length_take min_less_iff_conj nth_take)
  with Some show ?thesis
    by (auto simp: hb_delete_ro_area_def ro_slots_def take_update_swap list_update_beyond)
qed (simp add: hb_delete_ro_area_def)

lemma module_events_inv:
  assumes "module_events st st'" "ro_wf st" "kernel_prefix st k"
  shows "ro_wf st' \<and> kernel_prefix st' k \<and> take k (ro_slots st') = take k (ro_slots st)"
  using assms
proof (induction rule: module_events.induct)
  case (load st st' s e)
  then show ?case by (simp add: kernel_slots_add kernel_prefix_add_module hb_add_ro_area_wf)
next
  case (unload st st' s e)
  then have keep: "\<forall>a \<in> set (take k (ro_slots st')). \<not> (ro_start a = s \<and> ro_end a = e)"
    using kernel_slots [of st k] by auto
  with unload show ?case
    by (simp add: kernel_slots_delete kernel_prefix_delete hb_delete_ro_area_wf)
qed simp

section \<open>Properties\<close>

text \<open>C20: the kernel query, which stops at the first module slot it meets, still answers for every
  kernel area after any sequence of module loads and unloads, and for nothing else: its answer is
  the search through the kernel areas that were registered at start-up.\<close>

theorem kernel_query_stable:
  assumes "ro_wf st" "kernel_prefix st k" "module_events st st'"
  shows "hb_is_addr_in_kernel_ro_area addr st' =
    (if addr = 0 \<or> (\<exists>a \<in># ro_areas st. ro_type a = RO_KERNEL \<and> in_area addr a) then 1 else 0)"
proof -
  have "kernel_prefix st' k" "take k (ro_slots st') = take k (ro_slots st)"
    using module_events_inv [OF assms(3,1,2)] by simp_all
  then show ?thesis using kernel_slots [OF assms(2)] by (auto simp: kernel_query)
qed

text \<open>A registry with one kernel area, kept small by leaving the other slots empty.\<close>

definition one_kernel :: ro_registry where
  "one_kernel = hb_add_ro_area 0x1000 0x3000 RO_KERNEL ro_init"

lemma one_kernel_slots: "ro_slots one_kernel = [\<lparr>ro_start = 0x1000, ro_end = 0x3000, ro_type = RO_KERNEL\<rparr>]"
  by (simp add: one_kernel_def hb_add_ro_area_def ro_slots_def ro_init_def MAX_RO_ARRAY_COUNT_def numeral_eq_Suc)

theorem kernel_query_stable_witness:
  "hb_is_addr_in_kernel_ro_area 0x2000
     (snd (hb_delete_ro_area 0x5000 0x6000 (hb_add_ro_area 0x5000 0x6000 RO_MODULE one_kernel))) = 1"
proof -
  have wf: "ro_wf one_kernel"
    unfolding one_kernel_def by (rule hb_add_ro_area_wf) (simp add: ro_wf_def ro_init_def)
  have pre: "kernel_prefix one_kernel 1" by (simp add: kernel_prefix_def one_kernel_slots ro_live_def)
  have areas: "ro_areas one_kernel = {#\<lparr>ro_start = 0x1000, ro_end = 0x3000, ro_type = RO_KERNEL\<rparr>#}"
    by (simp add: ro_areas_def one_kernel_slots ro_live_def)
  have ev: "module_events one_kernel
      (snd (hb_delete_ro_area 0x5000 0x6000 (hb_add_ro_area 0x5000 0x6000 RO_MODULE one_kernel)))"
    by (rule module_events.unload [OF module_events.load [OF module_events.none]]) (simp add: areas)
  show ?thesis
    using kernel_query_stable [OF wf pre ev, of "0x2000"] by (simp add: areas in_area_def)
qed

text \<open>Registering an area and deleting it again by its bounds succeeds and leaves exactly the
  areas that were registered before, so every query answers as before.\<close>

theorem ro_add_delete_roundtrip:
  assumes "ro_wf st" "\<not> ro_full st" "\<not> (s = 0 \<and> e = 0)"
    and "\<forall>a \<in># ro_areas st. \<not> (ro_start a = s \<and> ro_end a = e)"
  shows "fst (hb_delete_ro_area s e (hb_add_ro_area s e t st)) = 0 \<and>
    ro_areas (snd (hb_delete_ro_area s e (hb_add_ro_area s e t st))) = ro_areas st \<and>
    hb_is_addr_in_ro_area addr (snd (hb_delete_ro_area s e (hb_add_ro_area s e t st))) =
      hb_is_addr_in_ro_area addr st"
  using ro.del_add [OF assms] ro.covers_del_add [OF assms] by simp

theorem ro_add_delete_roundtrip_witness:
  "fst (hb_delete_ro_area 0x5000 0x6000 (hb_add_ro_area 0x5000 0x6000 RO_MODULE one_kernel)) = 0"
proof -
  have "ro_wf one_kernel"
    unfolding one_kernel_def by (rule hb_add_ro_area_wf) (simp add: ro_wf_def ro_init_def)
  moreover have "\<not> ro_full one_kernel"
    by (simp add: ro_full_def one_kernel_def hb_add_ro_area_def ro_init_def MAX_RO_ARRAY_COUNT_def)
  moreover have "\<forall>a \<in># ro_areas one_kernel. \<not> (ro_start a = 0x5000 \<and> ro_end a = 0x6000)"
    by (simp add: ro_areas_def one_kernel_slots ro_live_def)
  ultimately show ?thesis using ro_add_delete_roundtrip [of one_kernel "0x5000" "0x6000" RO_MODULE] by simp
qed

text \<open>An address is reported as read-only if and only if it lies in a registered area, with the
  null address counted as read-only; an addition extends the answer by exactly the new range, unless the
  array has been filled once, in which case the addition is dropped.\<close>

theorem ro_query_add:
  assumes "ro_wf st" "\<not> (s = 0 \<and> e = 0)"
  shows "hb_is_addr_in_ro_area addr st = (if addr = 0 \<or> (\<exists>a \<in># ro_areas st. in_area addr a) then 1 else 0) \<and>
    hb_is_addr_in_ro_area addr (hb_add_ro_area s e t st) =
      (if \<not> ro_full st \<and> s \<le> addr \<and> addr < e then 1 else hb_is_addr_in_ro_area addr st)"
proof (cases "ro_full st")
  case True
  then show ?thesis by (simp add: ro.add_full hb_is_addr_in_ro_area_iff)
next
  case False
  have "hb_is_addr_in_ro_area addr (hb_add_ro_area s e t st) =
      (if s \<le> addr \<and> addr < e then 1 else hb_is_addr_in_ro_area addr st)"
    by (rule ro.covers_add [OF assms(1) False assms(2)])
  with False show ?thesis by (intro conjI hb_is_addr_in_ro_area_iff) simp
qed

theorem ro_query_add_witness:
  "hb_is_addr_in_ro_area 0x5800 (hb_add_ro_area 0x5000 0x6000 RO_MODULE ro_init) = 1"
proof -
  have "ro_wf ro_init" "\<not> ro_full ro_init"
    by (simp_all add: ro_wf_def ro_init_def ro_full_def MAX_RO_ARRAY_COUNT_def)
  then show ?thesis using ro_query_add [of ro_init "0x5000" "0x6000" "0x5800" RO_MODULE] by simp
qed

end
