(* ===== verification/Ranges.thy ===== *)
theory Ranges
  imports Ept_Setup Ro_Area
begin

text \<open>
  Protection of address ranges (hypervisor.c, mmu.c): the loops that hide, lock or release the
  pages of a range of kernel addresses, and the functions that apply them to the kernel text,
  to modules, to the EPT tables, to the VMX data and to the descriptor tables.
\<close>

section \<open>Range operations\<close>

definition ALLOC_KMALLOC :: int where [hb_consts]: "ALLOC_KMALLOC = 0"
definition ALLOC_VMALLOC :: int where [hb_consts]: "ALLOC_VMALLOC = 1"

text \<open>The physical address of the page at \<open>i\<close>: \<open>virt_to_phys\<close> for the direct mapping,
  \<open>PFN_PHYS (vmalloc_to_pfn (i))\<close> otherwise.\<close>

definition page_phys :: "kernel_env \<Rightarrow> int \<Rightarrow> u64 \<Rightarrow> u64" where
  "page_phys env alloc_type i =
     (if alloc_type = ALLOC_KMALLOC then virt_to_phys env i
      else push_bit 12 (vmalloc_to_pfn env i))"

definition align_end :: "u64 \<Rightarrow> u64" where
  "align_end end_addr = (end_addr + PAGE_SIZE - 1) AND MASK_PAGEADDR"

definition hb_lock_range :: "kernel_env \<Rightarrow> u64 \<Rightarrow> u64 \<Rightarrow> int \<Rightarrow> ept_state \<Rightarrow> ept_state option" where
  "hb_lock_range env start_addr end_addr alloc_type st =
     page_loop (\<lambda>i st. hb_set_ept_lock_page (page_phys env alloc_type i) st)
       (start_addr AND MASK_PAGEADDR) (align_end end_addr) st"

definition hb_set_all_access_range ::
  "kernel_env \<Rightarrow> u64 \<Rightarrow> u64 \<Rightarrow> int \<Rightarrow> ept_state \<Rightarrow> ept_state option" where
  "hb_set_all_access_range env start_addr end_addr alloc_type st =
     page_loop (\<lambda>i st. hb_set_ept_all_access_page (page_phys env alloc_type i) st)
       (start_addr AND MASK_PAGEADDR) (align_end end_addr) st"

definition hb_hide_range :: "kernel_env \<Rightarrow> u64 \<Rightarrow> u64 \<Rightarrow> int \<Rightarrow> ept_state \<Rightarrow> ept_state option" where
  "hb_hide_range env start_addr end_addr alloc_type st =
     page_loop (\<lambda>i st. hb_set_ept_hide_page (page_phys env alloc_type i) st)
       (start_addr AND MASK_PAGEADDR) (align_end end_addr) st"

section \<open>Protected objects\<close>

record prot_state =
  ept :: ept_state
  ro :: ro_registry

text \<open>Lifting an EPT operation to the state with the registry.\<close>

definition on_ept :: "(ept_state \<Rightarrow> ept_state option) \<Rightarrow> prot_state \<Rightarrow> prot_state option" where
  "on_ept f s = map_option (\<lambda>e. s\<lparr>ept := e\<rparr>) (f (ept s))"

definition kernel_ro_symbols :: "(string \<times> string) list" where
  "kernel_ro_symbols =
     [(''_text'', ''_etext''),
      (''__start___ex_table'', ''__stop___ex_table''),
      (''__start_rodata'', ''__end_rodata'')]"

definition hb_protect_kernel_ro_area :: "kernel_env \<Rightarrow> prot_state \<Rightarrow> prot_state option" where
  "hb_protect_kernel_ro_area env s =
     foldo (\<lambda>(first, last) s. do {
         start_log_addr \<leftarrow> hb_get_symbol_address env first;
         end_log_addr \<leftarrow> hb_get_symbol_address env last;
         s \<leftarrow> on_ept (hb_lock_range env start_log_addr end_log_addr ALLOC_KMALLOC) s;
         Some (s\<lparr>ro := hb_add_ro_area start_log_addr end_log_addr RO_KERNEL (ro s)\<rparr>)
       }) kernel_ro_symbols s"

text \<open>The parts of \<open>struct module\<close> the code reads (kernel 3.19 and later), with the address of
  the structure itself. The accessors \<open>hb_get_module_core_base\<close> and so on are the selectors.\<close>

record hb_module =
  mod_addr :: u64
  mod_name :: string
  hb_get_module_core_base :: u64
  hb_get_module_core_size :: u64
  hb_get_module_core_ro_size :: u64

definition hb_add_and_protect_module_ro ::
  "kernel_env \<Rightarrow> hb_module \<Rightarrow> prot_state \<Rightarrow> prot_state option" where
  "hb_add_and_protect_module_ro env md s =
     (let mod_core_base = hb_get_module_core_base md;
          mod_core_ro_size = hb_get_module_core_ro_size md
      in if mod_core_base \<noteq> 0 \<and> mod_core_ro_size \<noteq> 0 then do {
           s \<leftarrow> on_ept (hb_lock_range env mod_core_base (mod_core_base + mod_core_ro_size) ALLOC_VMALLOC) s;
           s \<leftarrow> on_ept (hb_set_all_access_range env (mod_addr md) (mod_addr md + sizeof_module env)
                 ALLOC_VMALLOC) s;
           Some (s\<lparr>ro := hb_add_ro_area mod_core_base (mod_core_base + mod_core_ro_size) RO_MODULE (ro s)\<rparr>)
         }
         else Some s)"

definition hb_delete_and_unprotect_module_ro ::
  "kernel_env \<Rightarrow> u64 \<Rightarrow> u64 \<Rightarrow> prot_state \<Rightarrow> prot_state option" where
  "hb_delete_and_unprotect_module_ro env mod_core_base mod_core_ro_size s =
     (if mod_core_base \<noteq> 0 \<and> mod_core_ro_size \<noteq> 0 then
        (let (result, r) = hb_delete_ro_area mod_core_base (mod_core_base + mod_core_ro_size) (ro s);
             s = s\<lparr>ro := r\<rparr>
         in if result = 0
            then on_ept (hb_set_all_access_range env mod_core_base (mod_core_base + mod_core_ro_size)
                   ALLOC_VMALLOC) s
            else Some s)
      else Some s)"

definition PROTECT_MODE_HIDE :: int where [hb_consts]: "PROTECT_MODE_HIDE = 0"
definition PROTECT_MODE_LOCK :: int where [hb_consts]: "PROTECT_MODE_LOCK = 1"

definition hb_protect_hyper_box_module ::
  "kernel_env \<Rightarrow> hb_module \<Rightarrow> int \<Rightarrow> ept_state \<Rightarrow> ept_state option" where
  "hb_protect_hyper_box_module env md protect_mode st =
     (let mod_core_base = hb_get_module_core_base md;
          mod_core_size = hb_get_module_core_size md;
          mod_core_ro_size = hb_get_module_core_ro_size md
      in do {
        st \<leftarrow>
          (if protect_mode = PROTECT_MODE_HIDE
           then hb_hide_range env mod_core_base (mod_core_base + mod_core_size) ALLOC_VMALLOC st
           else do {
             st \<leftarrow> hb_lock_range env mod_core_base (mod_core_base + mod_core_ro_size) ALLOC_VMALLOC st;
             hb_set_all_access_range env (mod_core_base + mod_core_ro_size)
               (mod_core_base + mod_core_size) ALLOC_VMALLOC st
           });
        hb_set_all_access_range env (mod_addr md) (mod_addr md + sizeof_module env) ALLOC_VMALLOC st
      })"

definition HELPER_MODULE_NAME :: string where
  [hb_consts]: "HELPER_MODULE_NAME = ''hyper_box_helper''"

text \<open>\<open>this\<close> is \<open>THIS_MODULE\<close> and \<open>others\<close> the modules that \<open>list_for_each\<close> visits from it up to
  the head of the kernel's list.\<close>

definition hb_protect_module_list_ro_area ::
  "kernel_env \<Rightarrow> hb_module \<Rightarrow> hb_module list \<Rightarrow> int \<Rightarrow> prot_state \<Rightarrow> prot_state option" where
  "hb_protect_module_list_ro_area env this others reinitialize s =
     (if reinitialize = 1 then on_ept (hb_protect_hyper_box_module env this PROTECT_MODE_LOCK) s
      else do {
        s \<leftarrow> hb_add_and_protect_module_ro env this s;
        _ \<leftarrow> hb_get_symbol_address env ''modules'';
        foldo (\<lambda>md s.
            if hb_get_module_core_size md = 0 then Some s
            else if mod_name md = HELPER_MODULE_NAME then hb_add_and_protect_module_ro env md s
            else Some s) others s
      })"

text \<open>The descriptor table registers: the limit field is 16 bits wide.\<close>

record desc_ptr =
  dt_size :: u16
  dt_address :: u64

text \<open>\<open>hb_protect_gdt\<close> locks the interrupt descriptor table of the core; the GDT register is
  only stored.\<close>

definition hb_protect_gdt :: "kernel_env \<Rightarrow> desc_ptr \<Rightarrow> ept_state \<Rightarrow> ept_state option" where
  "hb_protect_gdt env idtr st =
     (let size = (if dt_size idtr > 0xFFF then 0xFFF else dt_size idtr)
      in hb_lock_range env (dt_address idtr) ((dt_address idtr + ucast size) AND MASK_PAGEADDR)
           ALLOC_VMALLOC st)"

definition protect_array_pages :: "kernel_env \<Rightarrow> ptr_array \<Rightarrow> u64 \<Rightarrow> ept_state \<Rightarrow> ept_state option" where
  "protect_array_pages env a cnt st =
     foldo (\<lambda>i st. do {
         p \<leftarrow> array_at a (int i);
         hb_hide_range env p (p + EPT_PAGE_SIZE) ALLOC_KMALLOC st
       }) [0..<unat cnt] st"

text \<open>\<open>sizeof (u64* )\<close> is 8.\<close>

definition hb_protect_ept_pages_with :: "kernel_env \<Rightarrow> hb_ept_info \<Rightarrow> ept_state \<Rightarrow> ept_state option" where
  "hb_protect_ept_pages_with env info st = do {
     st \<leftarrow> hb_hide_range env (fst (pml4_page_addr_array info))
       (fst (pml4_page_addr_array info) + pml4_page_count info * 8) ALLOC_VMALLOC st;
     st \<leftarrow> hb_hide_range env (fst (pdpte_pd_page_addr_array info))
       (fst (pdpte_pd_page_addr_array info) + pdpte_pd_page_count info * 8) ALLOC_VMALLOC st;
     st \<leftarrow> hb_hide_range env (fst (pdept_page_addr_array info))
       (fst (pdept_page_addr_array info) + pdept_page_count info * 8) ALLOC_VMALLOC st;
     st \<leftarrow> hb_hide_range env (fst (pte_page_addr_array info))
       (fst (pte_page_addr_array info) + pte_page_count info * 8) ALLOC_VMALLOC st;
     st \<leftarrow> protect_array_pages env (pml4_page_addr_array info) (pml4_page_count info) st;
     st \<leftarrow> protect_array_pages env (pdpte_pd_page_addr_array info) (pdpte_pd_page_count info) st;
     st \<leftarrow> protect_array_pages env (pdept_page_addr_array info) (pdept_page_count info) st;
     protect_array_pages env (pte_page_addr_array info) (pte_page_count info) st
   }"

definition hb_protect_ept_pages :: "kernel_env \<Rightarrow> ept_state \<Rightarrow> ept_state option" where
  "hb_protect_ept_pages env st = hb_protect_ept_pages_with env (g_ept_info st) st"

section \<open>Ranges as lists of pages\<close>

definition range_pages :: "u64 \<Rightarrow> u64 \<Rightarrow> u64 list" where
  "range_pages start_addr end_addr =
     map (\<lambda>k. of_nat (k * 4096)) [page_of start_addr..<page_of (align_end end_addr)]"

lemma range_loop_foldo:
  "page_loop f (start_addr AND MASK_PAGEADDR) (align_end end_addr) st =
     foldo f (range_pages start_addr end_addr) st"
proof -
  have "start_addr AND MASK_PAGEADDR = page_base start_addr"
    by (simp add: page_base_def MASK_PAGEADDR_mask)
  moreover have "align_end end_addr = page_base (align_end end_addr)"
    by (simp add: page_base_def align_end_def MASK_PAGEADDR_mask and.assoc)
  ultimately show ?thesis
    using page_loop_pages [OF page_of_less page_of_less, of f start_addr "align_end end_addr" st]
    by (simp only: page_base_of_nat [symmetric] range_pages_def)
qed

lemma foldo_map: "foldo f (map g xs) s = foldo (\<lambda>x. f (g x)) xs s"
  by (induction xs arbitrary: s) (auto intro: arg_cong2 [where f = Option.bind])

definition range_phys :: "kernel_env \<Rightarrow> u64 \<Rightarrow> u64 \<Rightarrow> int \<Rightarrow> u64 list" where
  "range_phys env start_addr end_addr t = map (page_phys env t) (range_pages start_addr end_addr)"

lemma hb_hide_range_eq: "hb_hide_range env s e t = foldo hb_set_ept_hide_page (range_phys env s e t)"
  by (rule ext) (simp add: hb_hide_range_def range_loop_foldo range_phys_def foldo_map)

lemma hb_lock_range_eq: "hb_lock_range env s e t = foldo hb_set_ept_lock_page (range_phys env s e t)"
  by (rule ext) (simp add: hb_lock_range_def range_loop_foldo range_phys_def foldo_map)

lemma hb_set_all_access_range_eq:
  "hb_set_all_access_range env s e t = foldo hb_set_ept_all_access_page (range_phys env s e t)"
  by (rule ext) (simp add: hb_set_all_access_range_def range_loop_foldo range_phys_def foldo_map)

text \<open>Every byte of a range lies in one of its pages, unless the end address is so close to the
  top of the address space that rounding it up wraps around.\<close>

lemma page_base_in_range:
  assumes "s \<le> a" "a < e" "unat e + 4095 < 2 ^ 64"
  shows "page_base a \<in> set (range_pages s e)"
proof -
  have "e + PAGE_SIZE - 1 = e + 4095" by (simp add: PAGE_SIZE_def)
  then have "align_end e = page_base (e + 4095)"
    by (simp only: align_end_def page_base_def MASK_PAGEADDR_mask)
  moreover have "unat (e + 4095) = unat e + 4095"
    using assms(3) by (simp add: unat_word_ariths)
  ultimately have e: "page_of (align_end e) = (unat e + 4095) div 4096"
    by (simp add: page_of_def unat_page_base)
  have "unat s \<le> unat a" "unat a < unat e"
    using assms(1,2) by (simp_all add: word_le_nat_alt word_less_nat_alt)
  then have "page_of s \<le> page_of a" "page_of a < page_of (align_end e)"
    unfolding e by (simp_all add: page_of_def div_le_mono)
  then show ?thesis
    by (auto simp: range_pages_def page_base_of_nat simp del: of_nat_mult)
qed

lemma page_phys_in_range:
  assumes "s \<le> a" "a < e" "unat e + 4095 < 2 ^ 64"
  shows "page_phys env t (page_base a) \<in> set (range_phys env s e t)"
  using page_base_in_range [OF assms] by (simp add: range_phys_def)

text \<open>All pages of a range are under EPT control.\<close>

definition range_covered :: "kernel_env \<Rightarrow> ept_state \<Rightarrow> u64 \<Rightarrow> u64 \<Rightarrow> int \<Rightarrow> bool" where
  "range_covered env st s e t \<longleftrightarrow> (\<forall>pa \<in> set (range_phys env s e t). ept_covered st pa)"

lemma range_covered_cong:
  "g_ept_info st' = g_ept_info st \<Longrightarrow> range_covered env st' s e t = range_covered env st s e t"
  by (simp add: range_covered_def ept_covered_def ept_nd_def)

text \<open>The guest-physical pages behind a range of kernel addresses.\<close>

definition range_frames :: "kernel_env \<Rightarrow> u64 \<Rightarrow> u64 \<Rightarrow> int \<Rightarrow> nat set" where
  "range_frames env s e t = page_of ` set (range_phys env s e t)"

lemma page_phys_in_frames:
  assumes "s \<le> a" "a < e" "unat e + 4095 < 2 ^ 64"
  shows "page_of (page_phys env t (page_base a)) \<in> range_frames env s e t"
  using page_phys_in_range [OF assms] by (simp add: range_frames_def)

lemma hb_hide_range_translate:
  assumes "ept_wf env st" "range_covered env st s e t"
  shows "\<exists>st'. hb_hide_range env s e t st = Some st' \<and> ept_wf env st' \<and> g_ept_info st' = g_ept_info st \<and>
    (\<forall>gpa. unat gpa < 2 ^ 48 \<longrightarrow> guest_translate env st' gpa =
      (if page_of gpa \<in> range_frames env s e t then None else guest_translate env st gpa))"
  using hide.op_pages_translate [OF assms(1), of "range_phys env s e t"] assms(2)
  by (simp add: hb_hide_range_eq range_covered_def range_frames_def split del: if_split cong: if_cong)

lemma hb_lock_range_translate:
  assumes "ept_wf env st" "range_covered env st s e t"
  shows "\<exists>st'. hb_lock_range env s e t st = Some st' \<and> ept_wf env st' \<and> g_ept_info st' = g_ept_info st \<and>
    (\<forall>gpa. unat gpa < 2 ^ 48 \<longrightarrow> guest_translate env st' gpa =
      (if page_of gpa \<in> range_frames env s e t then Some (gpa, 5) else guest_translate env st gpa))"
  using lock.op_pages_translate [OF assms(1), of "range_phys env s e t"] assms(2)
  by (simp add: hb_lock_range_eq range_covered_def range_frames_def split del: if_split cong: if_cong)

lemma hb_set_all_access_range_translate:
  assumes "ept_wf env st" "range_covered env st s e t"
  shows "\<exists>st'. hb_set_all_access_range env s e t st = Some st' \<and> ept_wf env st' \<and>
    g_ept_info st' = g_ept_info st \<and>
    (\<forall>gpa. unat gpa < 2 ^ 48 \<longrightarrow> guest_translate env st' gpa =
      (if page_of gpa \<in> range_frames env s e t then Some (gpa, 7) else guest_translate env st gpa))"
  using all_access.op_pages_translate [OF assms(1), of "range_phys env s e t"] assms(2)
  by (simp add: hb_set_all_access_range_eq range_covered_def range_frames_def split del: if_split cong: if_cong)


section \<open>Sequences of hidden ranges\<close>

text \<open>\<open>hides env st st' F\<close>: the step from \<open>st\<close> to \<open>st'\<close> takes the frames \<open>F\<close> away from the guest
  and changes nothing else that the guest can see.\<close>

definition hides :: "kernel_env \<Rightarrow> ept_state \<Rightarrow> ept_state \<Rightarrow> nat set \<Rightarrow> bool" where
  "hides env st st' F \<longleftrightarrow> ept_wf env st' \<and> g_ept_info st' = g_ept_info st \<and>
     (\<forall>gpa. unat gpa < 2 ^ 48 \<longrightarrow> guest_translate env st' gpa =
        (if page_of gpa \<in> F then None else guest_translate env st gpa))"

lemma hides_refl: "ept_wf env st \<Longrightarrow> hides env st st {}"
  by (simp add: hides_def)

lemma hides_trans: "hides env st st' F \<Longrightarrow> hides env st' st'' G \<Longrightarrow> hides env st st'' (F \<union> G)"
  by (auto simp: hides_def)

lemma hide_range_hides:
  assumes "ept_wf env st" "range_covered env st s e t"
  shows "\<exists>st'. hb_hide_range env s e t st = Some st' \<and> hides env st st' (range_frames env s e t)"
  using hb_hide_range_translate [OF assms] by (auto simp: hides_def)

lemma range_pages_one:
  assumes "direct_mapped env p"
  shows "range_pages p (p + EPT_PAGE_SIZE) = [p]"
proof -
  have p: "unat p mod 4096 = 0" "unat p + 8192 \<le> 2 ^ 64"
    using assms by (simp_all add: direct_mapped_def page_aligned_iff)
  have "p + EPT_PAGE_SIZE + PAGE_SIZE - 1 = p + 8191" by (simp add: hb_consts)
  then have al: "align_end (p + EPT_PAGE_SIZE) = page_base (p + 8191)"
    by (simp only: align_end_def page_base_def MASK_PAGEADDR_mask)
  have "unat (p + 8191) = unat p + 8191" using p(2) by (simp add: unat_word_ariths)
  then have "page_of (align_end (p + EPT_PAGE_SIZE)) = (unat p + 8191) div 4096"
    unfolding al by (simp add: page_of_def unat_page_base)
  also have "unat p = page_of p * 4096" using p(1) by (simp add: page_of_def dvd_div_mult_self mod_0_imp_dvd)
  also have "(page_of p * 4096 + 8191) div 4096 = Suc (page_of p)" by simp
  finally have e: "page_of (align_end (p + EPT_PAGE_SIZE)) = Suc (page_of p)" .
  have "page_of p * 4096 = unat p" using p(1) by (simp add: page_of_def dvd_div_mult_self mod_0_imp_dvd)
  then have "of_nat (page_of p * 4096) = p" by (simp del: of_nat_mult)
  then show ?thesis unfolding range_pages_def e by (simp del: of_nat_mult)
qed

lemma range_frames_one:
  "direct_mapped env p \<Longrightarrow> range_frames env p (p + EPT_PAGE_SIZE) ALLOC_KMALLOC = {page_of (virt_to_phys env p)}"
  by (simp add: range_frames_def range_phys_def range_pages_one page_phys_def)

lemma range_covered_one:
  "direct_mapped env p \<Longrightarrow> range_covered env st p (p + EPT_PAGE_SIZE) ALLOC_KMALLOC \<longleftrightarrow>
     ept_covered st (virt_to_phys env p)"
  by (simp add: range_covered_def range_phys_def range_pages_one page_phys_def)

lemma protect_array_hides:
  assumes "ept_wf env st" "fst a \<noteq> 0" "length (snd a) = unat n"
    and "\<forall>p \<in> set (snd a). direct_mapped env p \<and> ept_covered st (virt_to_phys env p)"
  shows "\<exists>st'. protect_array_pages env a n st = Some st' \<and>
    hides env st st' ((\<lambda>p. page_of (virt_to_phys env p)) ` set (snd a))"
proof -
  let ?f = "\<lambda>i st. do { p \<leftarrow> array_at a (int i); hb_hide_range env p (p + EPT_PAGE_SIZE) ALLOC_KMALLOC st }"
  let ?F = "\<lambda>n. (\<lambda>p. page_of (virt_to_phys env p)) ` set (take n (snd a))"
  have "\<exists>st'. foldo ?f [0..<unat n] st = Some st' \<and> hides env st st' (?F (unat n))"
  proof (rule foldo_upt_total [where P = "\<lambda>n st'. hides env st st' (?F n)"])
    show "hides env st st (?F 0)" using assms(1) by (simp add: hides_refl)
    fix i s assume i: "i < unat n" and h: "hides env st s (?F i)"
    let ?p = "snd a ! i"
    have dm: "direct_mapped env ?p" "ept_covered st (virt_to_phys env ?p)" using assms(3,4) i by simp_all
    have "range_covered env s ?p (?p + EPT_PAGE_SIZE) ALLOC_KMALLOC" "ept_wf env s"
      using dm h range_covered_cong [of s st] by (auto simp: hides_def range_covered_one)
    from hide_range_hides [OF this(2,1)] obtain s' where
      s': "hb_hide_range env ?p (?p + EPT_PAGE_SIZE) ALLOC_KMALLOC s = Some s'"
        "hides env s s' {page_of (virt_to_phys env ?p)}" using range_frames_one [OF dm(1)] by auto
    moreover have "?F (Suc i) = ?F i \<union> {page_of (virt_to_phys env ?p)}"
      using i assms(3) by (auto simp: take_Suc_conv_app_nth)
    ultimately show "\<exists>s'. ?f i s = Some s' \<and> hides env st s' (?F (Suc i))"
      using hides_trans [OF h s'(2)] i assms(2,3) by (simp add: array_at_def)
  qed
  then show ?thesis using assms(3) by (simp add: protect_array_pages_def)
qed

text \<open>All that \<open>hb_protect_ept_pages\<close> hides: the pointer arrays and the table pages.\<close>

definition array_frames :: "kernel_env \<Rightarrow> ptr_array \<Rightarrow> u64 \<Rightarrow> nat set" where
  "array_frames env a n = range_frames env (fst a) (fst a + n * 8) ALLOC_VMALLOC"

definition table_frames :: "kernel_env \<Rightarrow> hb_ept_info \<Rightarrow> nat set" where
  "table_frames env info = (\<lambda>p. page_of (virt_to_phys env p)) ` set (ept_arrays info)"

definition ept_frames :: "kernel_env \<Rightarrow> hb_ept_info \<Rightarrow> nat set" where
  "ept_frames env info =
     array_frames env (pml4_page_addr_array info) (pml4_page_count info) \<union>
     array_frames env (pdpte_pd_page_addr_array info) (pdpte_pd_page_count info) \<union>
     array_frames env (pdept_page_addr_array info) (pdept_page_count info) \<union>
     array_frames env (pte_page_addr_array info) (pte_page_count info) \<union> table_frames env info"

definition ept_self_covered :: "kernel_env \<Rightarrow> ept_state \<Rightarrow> bool" where
  "ept_self_covered env st \<longleftrightarrow>
     (\<forall>(a, n) \<in> {(pml4_page_addr_array (g_ept_info st), pml4_page_count (g_ept_info st)),
         (pdpte_pd_page_addr_array (g_ept_info st), pdpte_pd_page_count (g_ept_info st)),
         (pdept_page_addr_array (g_ept_info st), pdept_page_count (g_ept_info st)),
         (pte_page_addr_array (g_ept_info st), pte_page_count (g_ept_info st))}.
       range_covered env st (fst a) (fst a + n * 8) ALLOC_VMALLOC \<and>
       (\<forall>p \<in> set (snd a). ept_covered st (virt_to_phys env p)))"

text \<open>An operation that hides frames, started in any state that the construction reaches from \<open>st\<close>.\<close>

definition hides_op :: "kernel_env \<Rightarrow> ept_state \<Rightarrow> (ept_state \<Rightarrow> ept_state option) \<Rightarrow> nat set \<Rightarrow> bool" where
  "hides_op env st f F \<longleftrightarrow>
     (\<forall>s G. hides env st s G \<longrightarrow> (\<exists>s'. f s = Some s' \<and> hides env st s' (G \<union> F)))"

lemma hides_op_bind:
  assumes "hides_op env st f F" "hides_op env st g G"
  shows "hides_op env st (\<lambda>s. Option.bind (f s) g) (F \<union> G)"
  unfolding hides_op_def
proof (intro allI impI)
  fix s H assume "hides env st s H"
  then obtain s1 where s1: "f s = Some s1" "hides env st s1 (H \<union> F)" using assms(1) unfolding hides_op_def by blast
  then obtain s2 where "g s1 = Some s2" "hides env st s2 (H \<union> F \<union> G)" using assms(2) unfolding hides_op_def by blast
  with s1 show "\<exists>s'. Option.bind (f s) g = Some s' \<and> hides env st s' (H \<union> (F \<union> G))" by (auto simp: Un_assoc)
qed

lemma hides_op_range:
  assumes "range_covered env st b e t"
  shows "hides_op env st (hb_hide_range env b e t) (range_frames env b e t)"
  unfolding hides_op_def
proof (intro allI impI)
  fix s G assume h: "hides env st s G"
  have "ept_wf env s" "range_covered env s b e t"
    using h assms range_covered_cong [of s st] by (auto simp: hides_def)
  from hide_range_hides [OF this] hides_trans [OF h]
  show "\<exists>s'. hb_hide_range env b e t s = Some s' \<and> hides env st s' (G \<union> range_frames env b e t)" by blast
qed

lemma hides_op_array:
  assumes a: "fst a \<noteq> 0" "length (snd a) = unat n"
    and p: "\<forall>p \<in> set (snd a). direct_mapped env p \<and> ept_covered st (virt_to_phys env p)"
  shows "hides_op env st (protect_array_pages env a n) ((\<lambda>p. page_of (virt_to_phys env p)) ` set (snd a))"
  unfolding hides_op_def
proof (intro allI impI)
  fix s G assume h: "hides env st s G"
  have "ept_wf env s" "\<forall>p \<in> set (snd a). direct_mapped env p \<and> ept_covered s (virt_to_phys env p)"
    using h p by (auto simp: hides_def ept_covered_def ept_nd_def)
  from protect_array_hides [OF this(1) a this(2)] hides_trans [OF h]
  show "\<exists>s'. protect_array_pages env a n s = Some s' \<and>
      hides env st s' (G \<union> (\<lambda>p. page_of (virt_to_phys env p)) ` set (snd a))" by blast
qed

lemma protect_ept_pages_hides:
  assumes wf: "ept_wf env st" and cov: "ept_self_covered env st" and n4: "unat (pml4_page_count (g_ept_info st)) = 1"
  shows "\<exists>st'. hb_protect_ept_pages env st = Some st' \<and> hides env st st' (ept_frames env (g_ept_info st))"
proof -
  let ?i = "g_ept_info st"
  have pages: "ept_pages_ok env st" using wf by (simp add: ept_wf_def)
  have nz: "fst (pml4_page_addr_array ?i) \<noteq> 0" "fst (pdpte_pd_page_addr_array ?i) \<noteq> 0"
      "fst (pdept_page_addr_array ?i) \<noteq> 0" "fst (pte_page_addr_array ?i) \<noteq> 0"
    and len: "length (a4 st) = unat (pml4_page_count ?i)" "length (a3 st) = unat (pdpte_pd_page_count ?i)"
      "length (a2 st) = unat (pdept_page_count ?i)" "length (a1 st) = unat (pte_page_count ?i)"
    using pages n4 by (simp_all add: ept_pages_ok_def)
  have dm: "\<forall>p \<in> set (a4 st). direct_mapped env p \<and> ept_covered st (virt_to_phys env p)"
      "\<forall>p \<in> set (a3 st). direct_mapped env p \<and> ept_covered st (virt_to_phys env p)"
      "\<forall>p \<in> set (a2 st). direct_mapped env p \<and> ept_covered st (virt_to_phys env p)"
      "\<forall>p \<in> set (a1 st). direct_mapped env p \<and> ept_covered st (virt_to_phys env p)"
    using pages cov by (simp_all add: ept_pages_ok_def ept_self_covered_def ball_Un)
  note c = cov [unfolded ept_self_covered_def, simplified]
  have r: "hides_op env st (hb_hide_range env (fst a) (fst a + n * 8) ALLOC_VMALLOC) (array_frames env a n)"
    if "range_covered env st (fst a) (fst a + n * 8) ALLOC_VMALLOC" for a :: ptr_array and n
    unfolding array_frames_def by (rule hides_op_range [OF that])
  note all = hides_op_bind [OF r hides_op_bind [OF r hides_op_bind [OF r hides_op_bind [OF r
    hides_op_bind [OF hides_op_array [OF nz(1) len(1) dm(1)] hides_op_bind [OF hides_op_array [OF nz(2) len(2) dm(2)]
    hides_op_bind [OF hides_op_array [OF nz(3) len(3) dm(3)] hides_op_array [OF nz(4) len(4) dm(4)]]]]]]]]
  have op: "hides_op env st (\<lambda>s. hb_protect_ept_pages_with env ?i s) (ept_frames env ?i)"
    unfolding hb_protect_ept_pages_with_def
    using all [of "pml4_page_addr_array ?i" "pml4_page_count ?i" "pdpte_pd_page_addr_array ?i"
        "pdpte_pd_page_count ?i" "pdept_page_addr_array ?i" "pdept_page_count ?i" "pte_page_addr_array ?i" "pte_page_count ?i"] c
    by (simp add: ept_frames_def table_frames_def ept_arrays_def image_Un Un_assoc)
  from op hides_refl [OF wf] have "\<exists>s'. hb_protect_ept_pages_with env ?i st = Some s' \<and>
      hides env st s' ({} \<union> ept_frames env ?i)" unfolding hides_op_def by blast
  then show ?thesis by (simp add: hb_protect_ept_pages_def)
qed

section \<open>A concrete state\<close>

lemma sample_state:
  "\<exists>st. ept_wf sample_env st \<and> ept_nd st = 2560 \<and> unat (pml4_page_count (g_ept_info st)) = 1 \<and>
     ept_arrays (g_ept_info st) = pages_from sample_env 0 (length (ept_arrays (g_ept_info st))) \<and>
     length (ept_arrays (g_ept_info st)) = 3078 \<and>
     (\<forall>gpa. unat gpa < 2 ^ 48 \<longrightarrow> guest_translate sample_env st gpa = Some (gpa, 7))"
proof -
  let ?m = "0x140000000 :: u64"
  have m: "0 < unat ?m" "unat ?m \<le> 2 ^ 48" by simp_all
  obtain info' h' where res: "hb_alloc_ept_pages sample_env ?m null_ept_info kh_init = (0, info', h')"
    using sample_alloc_ok [of null_ept_info] by (metis fst_conv prod_cases3)
  note al = hb_alloc_ept_pages_allocated [OF res m]
  let ?st = "\<lparr>g_ept_info = info', ept_mem = \<lambda>_ _. 0\<rparr>"
  have ok: "ept_pages_ok sample_env ?st" "unat ?m div 4096 \<le> ept_nd ?st * 512"
    using alloc_pages_ok [OF al sample_fresh_pages m] by simp_all
  obtain st where st: "g_ept_info st = info'" "ept_wf sample_env st" "\<forall>n < ept_nd ?st * 512. pte st n = pt_entry n"
    using setup_wf [OF ok(1) sample_ram_clipped ok(2)] by auto
  have cnt: "ept_counts ?m info' = info'"
    and arr: "ept_arrays info' = pages_from sample_env 0 (length (ept_arrays info'))"
    using al unfolding ept_allocated_def by simp_all
  note c = ept_counts_unat [OF m, of info', unfolded cnt]
  have nd: "ept_nd st = 2560" "unat (pml4_page_count info') = 1" using c by (simp_all add: ept_nd_def st ceil_div_def)
  have "length (ept_arrays info') = 3078"
    using ok(1) c by (simp add: ept_pages_ok_def ept_arrays_def ept_np_def ept_nd_def ceil_div_def)
  moreover have "guest_translate sample_env st gpa = Some (gpa, 7)" if "unat gpa < 2 ^ 48" for gpa
    using st(3) pt_entry_perm nd(1) st(1)
    by (simp add: guest_translate_wf [OF st(2) that] ept_covered_def ept_nd_def mask_eq_exp_minus_1)
  ultimately show ?thesis using st nd arr by blast
qed

lemma sample_vmalloc_covered: "ept_nd st = 2560 \<Longrightarrow> range_covered sample_env st s e ALLOC_VMALLOC"
proof -
  assume nd: "ept_nd st = 2560"
  have "page_of (push_bit 12 (take_bit 20 a)) < 2560 * 512" for a :: u64
  proof -
    have "unat (take_bit 20 a) < 2 ^ 20" by (simp add: take_bit_eq_mod unat_mod)
    then show ?thesis by (simp add: page_of_def push_bit_eq_mult unat_word_ariths)
  qed
  with nd show ?thesis
    by (auto simp: range_covered_def range_phys_def page_phys_def ALLOC_KMALLOC_def ALLOC_VMALLOC_def
        ept_covered_def sample_env_def)
qed

section \<open>Properties\<close>

text \<open>C18: \<open>hb_hide_range\<close> returns, every address of the range becomes inaccessible to the guest,
  the pages outside of the range keep their translation and permission, and the tables stay well formed.\<close>

theorem hide_range_exact:
  assumes "ept_wf env st" "range_covered env st s e t" "unat e + 4095 < 2 ^ 64"
  shows "\<exists>st'. hb_hide_range env s e t st = Some st' \<and> ept_wf env st' \<and>
    (\<forall>a. s \<le> a \<and> a < e \<longrightarrow> guest_translate env st' (page_phys env t (page_base a)) = None) \<and>
    (\<forall>gpa. unat gpa < 2 ^ 48 \<and> page_of gpa \<notin> range_frames env s e t \<longrightarrow>
       guest_translate env st' gpa = guest_translate env st gpa)"
proof -
  obtain st' where st': "hb_hide_range env s e t st = Some st'" "hides env st st' (range_frames env s e t)"
    using hide_range_hides [OF assms(1,2)] by blast
  have "guest_translate env st' (page_phys env t (page_base a)) = None" if "s \<le> a" "a < e" for a
  proof -
    let ?pa = "page_phys env t (page_base a)"
    have "ept_covered st ?pa"
      using page_phys_in_range [OF that assms(3)] assms(2) by (simp add: range_covered_def)
    moreover have "ept_nd st * 512 \<le> 2 ^ 36" using assms(1) by (auto simp: ept_wf_def ept_pages_ok_def)
    ultimately have "unat ?pa < 2 ^ 48" by (simp add: ept_covered_def page_of_def)
    then show ?thesis
      using st'(2) page_phys_in_frames [OF that assms(3)] by (simp add: hides_def)
  qed
  with st' show ?thesis by (auto simp: hides_def)
qed

theorem hide_range_exact_witness:
  "\<exists>st st'. hb_hide_range sample_env 0xFFFFC90000000000 0xFFFFC90000002000 ALLOC_VMALLOC st = Some st' \<and>
     guest_translate sample_env st' (page_phys sample_env ALLOC_VMALLOC (page_base 0xFFFFC90000001800)) = None"
proof -
  obtain st where "ept_wf sample_env st" "ept_nd st = 2560" using sample_state by blast
  moreover have "unat (0xFFFFC90000002000 :: u64) + 4095 < 2 ^ 64" by simp
  moreover have "(0xFFFFC90000000000 :: u64) \<le> 0xFFFFC90000001800" "(0xFFFFC90000001800 :: u64) < 0xFFFFC90000002000"
    by simp_all
  ultimately show ?thesis using hide_range_exact [OF _ sample_vmalloc_covered] by blast
qed

text \<open>C17: \<open>hb_protect_ept_pages\<close> returns, and afterwards the guest can no longer read, write or
  execute any page of the EPT tables, at any of the four levels, while pages that belong neither to the tables nor
  to the pointer arrays keep their translation.\<close>

theorem ept_tables_hidden:
  assumes "ept_wf env st" "ept_self_covered env st" "unat (pml4_page_count (g_ept_info st)) = 1"
  shows "\<exists>st'. hb_protect_ept_pages env st = Some st' \<and> ept_wf env st' \<and>
    (\<forall>p \<in> set (ept_arrays (g_ept_info st)). guest_translate env st' (virt_to_phys env p) = None) \<and>
    (\<forall>gpa. unat gpa < 2 ^ 48 \<and> page_of gpa \<notin> ept_frames env (g_ept_info st) \<longrightarrow>
       guest_translate env st' gpa = guest_translate env st gpa)"
proof -
  obtain st' where st': "hb_protect_ept_pages env st = Some st'" "hides env st st' (ept_frames env (g_ept_info st))"
    using protect_ept_pages_hides [OF assms] by blast
  have "guest_translate env st' (virt_to_phys env p) = None" if "p \<in> set (ept_arrays (g_ept_info st))" for p
  proof -
    have "ept_covered st (virt_to_phys env p)"
      using that assms(2) by (auto simp: ept_self_covered_def ept_arrays_def)
    moreover have "ept_nd st * 512 \<le> 2 ^ 36" using assms(1) by (auto simp: ept_wf_def ept_pages_ok_def)
    ultimately have "unat (virt_to_phys env p) < 2 ^ 48" by (simp add: ept_covered_def page_of_def)
    moreover have "page_of (virt_to_phys env p) \<in> ept_frames env (g_ept_info st)"
      using that by (simp add: ept_frames_def table_frames_def)
    ultimately show ?thesis using st'(2) by (simp add: hides_def)
  qed
  with st' show ?thesis by (auto simp: hides_def)
qed

lemma sample_self_covered:
  assumes nd: "ept_nd st = 2560"
    and arr: "ept_arrays (g_ept_info st) = pages_from sample_env 0 (length (ept_arrays (g_ept_info st)))"
      "length (ept_arrays (g_ept_info st)) = 3078"
  shows "ept_self_covered sample_env st"
proof -
  have "ept_covered st (virt_to_phys sample_env p)" if "p \<in> set (ept_arrays (g_ept_info st))" for p
  proof -
    have "p \<in> set (pages_from sample_env 0 3078)" using that arr by metis
    then obtain n where "n < 3078" "p = get_free_page sample_env n" by auto
    then have "unat p = (n + 1) * 4096" using sample_page [of n] by simp
    moreover have "virt_to_phys sample_env p = p" by (simp add: sample_env_def)
    ultimately show ?thesis using nd \<open>n < 3078\<close> by (simp add: ept_covered_def page_of_def)
  qed
  then show ?thesis
    using sample_vmalloc_covered [OF nd] by (auto simp: ept_self_covered_def ept_arrays_def)
qed

theorem ept_tables_hidden_witness:
  "\<exists>st st'. hb_protect_ept_pages sample_env st = Some st' \<and> ept_arrays (g_ept_info st) \<noteq> [] \<and>
     (\<forall>p \<in> set (ept_arrays (g_ept_info st)). guest_translate sample_env st' (virt_to_phys sample_env p) = None)"
proof -
  obtain st where st: "ept_wf sample_env st" "ept_nd st = 2560" "unat (pml4_page_count (g_ept_info st)) = 1"
      "ept_arrays (g_ept_info st) = pages_from sample_env 0 (length (ept_arrays (g_ept_info st)))"
      "length (ept_arrays (g_ept_info st)) = 3078" using sample_state by blast
  from ept_tables_hidden [OF st(1) sample_self_covered [OF st(2,4,5)] st(3)] st(5) show ?thesis by fastforce
qed

text \<open>The frames of the read-only part of a module and of its \<open>struct module\<close>.\<close>

definition module_ro_frames :: "kernel_env \<Rightarrow> hb_module \<Rightarrow> nat set" where
  "module_ro_frames env md = range_frames env (hb_get_module_core_base md)
     (hb_get_module_core_base md + hb_get_module_core_ro_size md) ALLOC_VMALLOC"

definition module_struct_frames :: "kernel_env \<Rightarrow> hb_module \<Rightarrow> nat set" where
  "module_struct_frames env md =
     range_frames env (mod_addr md) (mod_addr md + sizeof_module env) ALLOC_VMALLOC"

definition module_covered :: "kernel_env \<Rightarrow> ept_state \<Rightarrow> hb_module \<Rightarrow> bool" where
  "module_covered env st md \<longleftrightarrow>
     range_covered env st (hb_get_module_core_base md)
       (hb_get_module_core_base md + hb_get_module_core_ro_size md) ALLOC_VMALLOC \<and>
     range_covered env st (mod_addr md) (mod_addr md + sizeof_module env) ALLOC_VMALLOC"

lemma add_and_protect_module:
  assumes "ept_wf env (ept s)" "module_covered env (ept s) md"
    and "hb_get_module_core_base md \<noteq> 0" "hb_get_module_core_ro_size md \<noteq> 0"
  shows "\<exists>st. hb_add_and_protect_module_ro env md s =
      Some (s\<lparr>ept := st, ro := hb_add_ro_area (hb_get_module_core_base md)
        (hb_get_module_core_base md + hb_get_module_core_ro_size md) RO_MODULE (ro s)\<rparr>) \<and>
    ept_wf env st \<and> g_ept_info st = g_ept_info (ept s) \<and>
    (\<forall>gpa. unat gpa < 2 ^ 48 \<longrightarrow> guest_translate env st gpa =
      (if page_of gpa \<in> module_struct_frames env md then Some (gpa, 7)
       else if page_of gpa \<in> module_ro_frames env md then Some (gpa, 5)
       else guest_translate env (ept s) gpa))"
proof -
  let ?b = "hb_get_module_core_base md" and ?e = "hb_get_module_core_base md + hb_get_module_core_ro_size md"
  obtain st1 where st1: "hb_lock_range env ?b ?e ALLOC_VMALLOC (ept s) = Some st1" "ept_wf env st1"
      "g_ept_info st1 = g_ept_info (ept s)"
      "\<forall>gpa. unat gpa < 2 ^ 48 \<longrightarrow> guest_translate env st1 gpa =
        (if page_of gpa \<in> module_ro_frames env md then Some (gpa, 5) else guest_translate env (ept s) gpa)"
    using hb_lock_range_translate [OF assms(1), of ?b ?e ALLOC_VMALLOC] assms(2)
    unfolding module_covered_def module_ro_frames_def by blast
  have "range_covered env st1 (mod_addr md) (mod_addr md + sizeof_module env) ALLOC_VMALLOC"
    using assms(2) range_covered_cong [OF st1(3)] by (simp add: module_covered_def)
  from hb_set_all_access_range_translate [OF st1(2) this] obtain st2 where
    st2: "hb_set_all_access_range env (mod_addr md) (mod_addr md + sizeof_module env) ALLOC_VMALLOC st1 = Some st2"
      "ept_wf env st2" "g_ept_info st2 = g_ept_info st1"
      "\<forall>gpa. unat gpa < 2 ^ 48 \<longrightarrow> guest_translate env st2 gpa =
        (if page_of gpa \<in> module_struct_frames env md then Some (gpa, 7) else guest_translate env st1 gpa)"
    unfolding module_struct_frames_def by blast
  with st1 assms(3,4) show ?thesis
    by (intro exI [of _ st2]) (simp add: hb_add_and_protect_module_ro_def on_ept_def Let_def)
qed

text \<open>C19: loading a module locks its read-only part (the guest may read and execute it but not
  write it) and registers it, leaving the pages of \<open>struct module\<close> writable; unloading the module gives full
  access back and removes exactly that registration.\<close>

theorem module_load_unload:
  assumes "ept_wf env (ept s)" "module_covered env (ept s) md"
    and "hb_get_module_core_base md \<noteq> 0" "hb_get_module_core_ro_size md \<noteq> 0"
    and "ro_wf (ro s)" "\<not> ro_full (ro s)"
    and "\<forall>a \<in># ro_areas (ro s). \<not> (ro_start a = hb_get_module_core_base md \<and>
      ro_end a = hb_get_module_core_base md + hb_get_module_core_ro_size md)"
  shows "\<exists>s1 s2. hb_add_and_protect_module_ro env md s = Some s1 \<and>
    hb_delete_and_unprotect_module_ro env (hb_get_module_core_base md) (hb_get_module_core_ro_size md) s1 = Some s2 \<and>
    (\<forall>gpa. unat gpa < 2 ^ 48 \<longrightarrow>
      guest_translate env (ept s1) gpa =
        (if page_of gpa \<in> module_struct_frames env md then Some (gpa, EPT_ALL_ACCESS)
         else if page_of gpa \<in> module_ro_frames env md then Some (gpa, EPT_READ OR EPT_EXECUTE)
         else guest_translate env (ept s) gpa) \<and>
      guest_translate env (ept s2) gpa =
        (if page_of gpa \<in> module_struct_frames env md \<union> module_ro_frames env md
         then Some (gpa, EPT_ALL_ACCESS) else guest_translate env (ept s) gpa)) \<and>
    ro_areas (ro s2) = ro_areas (ro s)"
proof -
  let ?b = "hb_get_module_core_base md" and ?e = "hb_get_module_core_base md + hb_get_module_core_ro_size md"
  obtain st where st: "hb_add_and_protect_module_ro env md s =
      Some (s\<lparr>ept := st, ro := hb_add_ro_area ?b ?e RO_MODULE (ro s)\<rparr>)"
    "ept_wf env st" "g_ept_info st = g_ept_info (ept s)"
    "\<forall>gpa. unat gpa < 2 ^ 48 \<longrightarrow> guest_translate env st gpa =
      (if page_of gpa \<in> module_struct_frames env md then Some (gpa, 7)
       else if page_of gpa \<in> module_ro_frames env md then Some (gpa, 5)
       else guest_translate env (ept s) gpa)"
    using add_and_protect_module [OF assms(1-4)] by blast
  have "\<not> (?b = 0 \<and> ?e = 0)" using assms(3) by simp
  from ro.del_add [OF assms(5,6) this assms(7), of RO_MODULE] obtain r where
    r: "hb_delete_ro_area ?b ?e (hb_add_ro_area ?b ?e RO_MODULE (ro s)) = (0, r)" "ro_areas r = ro_areas (ro s)"
    by (metis fst_conv snd_conv surj_pair)
  have "range_covered env st ?b ?e ALLOC_VMALLOC"
    using assms(2) range_covered_cong [OF st(3)] by (simp add: module_covered_def)
  from hb_set_all_access_range_translate [OF st(2) this] obtain st2 where
    st2: "hb_set_all_access_range env ?b ?e ALLOC_VMALLOC st = Some st2"
      "\<forall>gpa. unat gpa < 2 ^ 48 \<longrightarrow> guest_translate env st2 gpa =
        (if page_of gpa \<in> module_ro_frames env md then Some (gpa, 7) else guest_translate env st gpa)"
    unfolding module_ro_frames_def by blast
  have "hb_delete_and_unprotect_module_ro env ?b (hb_get_module_core_ro_size md)
      (s\<lparr>ept := st, ro := hb_add_ro_area ?b ?e RO_MODULE (ro s)\<rparr>) = Some (s\<lparr>ept := st2, ro := r\<rparr>)"
    using assms(3,4) r(1) st2(1) by (simp add: hb_delete_and_unprotect_module_ro_def on_ept_def)
  moreover have "EPT_ALL_ACCESS = 7" "EPT_READ OR EPT_EXECUTE = 5" by (simp_all add: hb_consts)
  ultimately show ?thesis
    using st(1,4) st2(2) r(2)
    by (intro exI [of _ "s\<lparr>ept := st, ro := hb_add_ro_area ?b ?e RO_MODULE (ro s)\<rparr>"]
        exI [of _ "s\<lparr>ept := st2, ro := r\<rparr>"]) simp
qed

definition sample_module :: hb_module where
  "sample_module = \<lparr>mod_addr = 0xFFFFFFFFC0010000, mod_name = ''hyper_box_helper'',
     hb_get_module_core_base = 0xFFFFFFFFC0000000, hb_get_module_core_size = 0x5000,
     hb_get_module_core_ro_size = 0x2000\<rparr>"

theorem module_load_unload_witness:
  "\<exists>s s1. hb_add_and_protect_module_ro sample_env sample_module s = Some s1 \<and>
     guest_translate sample_env (ept s1) 0xC0001000 = Some (0xC0001000, EPT_READ OR EPT_EXECUTE)"
proof -
  obtain st where st: "ept_wf sample_env st" "ept_nd st = 2560" using sample_state by blast
  let ?s = "\<lparr>ept = st, ro = ro_init\<rparr>"
  have cov: "module_covered sample_env (ept ?s) sample_module"
    using sample_vmalloc_covered [OF st(2)] by (simp add: module_covered_def)
  have ro: "ro_wf ro_init" "\<not> ro_full ro_init" "ro_areas ro_init = {#}"
    by (simp_all add: ro_wf_def ro_init_def ro_full_def ro_areas_def ro_slots_def MAX_RO_ARRAY_COUNT_def)
  have pages: "range_pages 0xFFFFFFFFC0000000 0xFFFFFFFFC0002000 = [0xFFFFFFFFC0000000, 0xFFFFFFFFC0001000]"
      "range_pages 0xFFFFFFFFC0010000 0xFFFFFFFFC0010380 = [0xFFFFFFFFC0010000]"
    by (simp_all add: range_pages_def page_of_def align_end_def hb_consts upt_conv_Cons)
  have "page_of 0xC0001000 \<in> module_ro_frames sample_env sample_module"
      "page_of 0xC0001000 \<notin> module_struct_frames sample_env sample_module"
    by (simp_all add: module_ro_frames_def module_struct_frames_def sample_module_def sample_env_def pages
        range_frames_def range_phys_def page_phys_def page_of_def ALLOC_VMALLOC_def ALLOC_KMALLOC_def
        take_bit_eq_mod drop_bit_eq_div push_bit_eq_mult)
  moreover have "unat (0xC0001000 :: u64) < 2 ^ 48" by simp
  ultimately show ?thesis
    using module_load_unload [of sample_env ?s sample_module] st(1) cov ro
    by (fastforce simp: sample_module_def)
qed

text \<open>The end of a table of at most a page, rounded down, is its start, and a range from an aligned address to itself has no page.\<close>

lemma table_end_rounded:
  assumes "page_aligned a" "unat a + 8192 \<le> 2 ^ 64"
  shows "(a + ucast (if n > 0xFFF then 0xFFF else n :: u16)) AND MASK_PAGEADDR = a"
proof -
  define sz :: u64 where "sz = ucast (if n > 0xFFF then 0xFFF else n)"
  have sz: "unat sz < 4096"
  proof (cases "n > 0xFFF")
    case False
    then have "unat n \<le> 0xFFF" by (simp add: word_less_nat_alt not_less)
    then show ?thesis using False by (simp add: sz_def unsigned_ucast_eq take_bit_nat_eq_self)
  qed (simp add: sz_def)
  show ?thesis unfolding sz_def [symmetric]
    using page_base_within [OF assms(1) _ sz] assms(2) by (simp add: page_base_def MASK_PAGEADDR_mask)
qed

lemma empty_table_range:
  assumes "page_aligned a" "unat a + 8192 \<le> 2 ^ 64"
  shows "range_phys env a a t = []"
proof -
  have "unat (4095 :: u64) < 4096" by simp
  from page_base_within [OF assms(1) _ this] assms(2) have "page_base (a + 4095) = a" by simp
  moreover have "a + PAGE_SIZE - 1 = a + 4095" by (simp add: hb_consts)
  ultimately have "align_end a = a" by (simp only: align_end_def page_base_def MASK_PAGEADDR_mask)
  then show ?thesis by (simp add: range_phys_def range_pages_def)
qed

text \<open>For a page aligned interrupt descriptor table, which is what the kernel has, the range
  that \<open>hb_protect_gdt\<close> locks is empty: the end address is rounded down to the page the table starts
  at, and the table stays writable to the guest.\<close>

theorem protect_gdt_locks_nothing:
  assumes "page_aligned (dt_address idtr)" "unat (dt_address idtr) + 8192 \<le> 2 ^ 64"
  shows "hb_protect_gdt env idtr st = Some st"
  unfolding hb_protect_gdt_def Let_def table_end_rounded [OF assms] by (simp add: hb_lock_range_eq empty_table_range [OF assms])

theorem protect_gdt_locks_nothing_witness:
  "\<exists>st. guest_translate sample_env st 0xFE000000 = Some (0xFE000000, 7) \<and>
     hb_protect_gdt sample_env \<lparr>dt_size = 0xFFF, dt_address = 0xFFFFFE0000000000\<rparr> st = Some st"
proof -
  obtain st where st: "\<forall>gpa. unat gpa < 2 ^ 48 \<longrightarrow> guest_translate sample_env st gpa = Some (gpa, 7)"
    using sample_state by blast
  then have "guest_translate sample_env st 0xFE000000 = Some (0xFE000000, 7)" by simp
  moreover have "page_aligned (dt_address \<lparr>dt_size = 0xFFF, dt_address = 0xFFFFFE0000000000\<rparr>)"
    by (simp add: page_aligned_iff)
  ultimately show ?thesis
    using protect_gdt_locks_nothing [of "\<lparr>dt_size = 0xFFF, dt_address = 0xFFFFFE0000000000\<rparr>" sample_env st] by auto
qed

end
