(* ===== verification/Object_Monitor.thy ===== *)
theory Object_Monitor
  imports Cred_Monitor Ranges
begin

text \<open>
  The periodic checks of the monitor (monitor.c): the function pointers of the virtual file system and of the
  network objects must lie in read-only areas, and the timer that triggers these checks and the check for
  hidden tasks. The tables of function pointers are kernel objects: a record with the pointers that
  the code reads, in its order (kernel 4.20 and later, without the compat system calls).
\<close>

section \<open>Tables of function pointers\<close>

record inode_operations =
  i_lookup :: u64
  i_get_link :: u64
  i_permission :: u64
  i_get_acl :: u64
  i_readlink :: u64
  i_create :: u64
  i_link :: u64
  i_unlink :: u64
  i_symlink :: u64
  i_mkdir :: u64
  i_rmdir :: u64
  i_mknod :: u64
  i_rename :: u64
  i_setattr :: u64
  i_getattr :: u64
  i_listxattr :: u64
  i_fiemap :: u64
  i_update_time :: u64
  i_atomic_open :: u64
  i_tmpfile :: u64
  i_set_acl :: u64

record file_operations =
  f_llseek :: u64
  f_read :: u64
  f_write :: u64
  f_read_iter :: u64
  f_write_iter :: u64
  f_iterate :: u64
  f_iterate_shared :: u64
  f_poll :: u64
  f_unlocked_ioctl :: u64
  f_mmap :: u64
  f_open :: u64
  f_flush :: u64
  f_release :: u64
  f_fsync :: u64
  f_fasync :: u64
  f_lock :: u64
  f_sendpage :: u64
  f_get_unmapped_area :: u64
  f_check_flags :: u64
  f_flock :: u64
  f_splice_write :: u64
  f_splice_read :: u64
  f_setlease :: u64
  f_fallocate :: u64
  f_show_fdinfo :: u64
  f_copy_file_range :: u64
  f_remap_file_range :: u64

record seq_operations =
  s_start :: u64
  s_stop :: u64
  s_next :: u64
  s_show :: u64

record proto_ops =
  p_release :: u64
  p_bind :: u64
  p_connect :: u64
  p_socketpair :: u64
  p_accept :: u64
  p_getname :: u64
  p_poll :: u64
  p_ioctl :: u64
  p_listen :: u64
  p_shutdown :: u64
  p_setsockopt :: u64
  p_getsockopt :: u64
  p_sendmsg :: u64
  p_recvmsg :: u64
  p_mmap :: u64
  p_sendpage :: u64
  p_splice_read :: u64
  p_set_peek_off :: u64

text \<open>\<open>error |= !hb_is_addr_in_ro_area (p)\<close>, for one pointer after the other.\<close>

fun pointer_errors :: "ro_registry \<Rightarrow> u64 list \<Rightarrow> int \<Rightarrow> int" where
  "pointer_errors r [] error = error"
| "pointer_errors r (p # ps) error =
     pointer_errors r ps (error OR (if hb_is_addr_in_ro_area p r = 0 then 1 else 0))"

definition report_errors :: "int \<Rightarrow> monitor \<Rightarrow> int \<times> monitor" where
  "report_errors error s =
     (if error \<noteq> 0 then (-1, hb_error_log ERROR_KERNEL_MODIFICATION s) else (0, s))"

definition inode_op_pointers :: "inode_operations \<Rightarrow> u64 list" where
  "inode_op_pointers op =
     [i_lookup op, i_get_link op, i_permission op, i_get_acl op, i_readlink op, i_create op, i_link op,
      i_unlink op, i_symlink op, i_mkdir op, i_rmdir op, i_mknod op, i_rename op, i_setattr op, i_getattr op,
      i_listxattr op, i_fiemap op, i_update_time op, i_atomic_open op, i_tmpfile op, i_set_acl op]"

definition hb_check_inode_op_fields :: "ro_registry \<Rightarrow> inode_operations \<Rightarrow> monitor \<Rightarrow> int \<times> monitor" where
  "hb_check_inode_op_fields r op s = report_errors (pointer_errors r (inode_op_pointers op) 0) s"

definition file_op_pointers :: "file_operations \<Rightarrow> u64 list" where
  "file_op_pointers op =
     [f_llseek op, f_read op, f_write op, f_read_iter op, f_write_iter op, f_iterate op, f_iterate_shared op,
      f_poll op, f_unlocked_ioctl op, f_mmap op, f_open op, f_flush op, f_release op, f_fsync op, f_fasync op,
      f_lock op, f_sendpage op, f_get_unmapped_area op, f_check_flags op, f_flock op, f_splice_write op,
      f_splice_read op, f_setlease op, f_fallocate op, f_show_fdinfo op, f_copy_file_range op,
      f_remap_file_range op]"

definition hb_check_file_op_fields :: "ro_registry \<Rightarrow> file_operations \<Rightarrow> monitor \<Rightarrow> int \<times> monitor" where
  "hb_check_file_op_fields r op s = report_errors (pointer_errors r (file_op_pointers op) 0) s"

definition seq_op_pointers :: "seq_operations \<Rightarrow> u64 list" where
  "seq_op_pointers op = [s_start op, s_stop op, s_next op, s_show op]"

definition hb_check_net_seq_afinfo_fields ::
  "ro_registry \<Rightarrow> file_operations \<Rightarrow> seq_operations \<Rightarrow> monitor \<Rightarrow> int \<times> monitor" where
  "hb_check_net_seq_afinfo_fields r fops sops s =
     (let (e, s) = hb_check_file_op_fields r fops s in
      if e < 0 then (-1, s)
      else report_errors (pointer_errors r (seq_op_pointers sops) 0) s)"

definition proto_op_pointers :: "proto_ops \<Rightarrow> u64 list" where
  "proto_op_pointers op =
     [p_release op, p_bind op, p_connect op, p_socketpair op, p_accept op, p_getname op, p_poll op, p_ioctl op,
      p_listen op, p_shutdown op, p_setsockopt op, p_getsockopt op, p_sendmsg op, p_recvmsg op, p_mmap op,
      p_sendpage op, p_splice_read op, p_set_peek_off op]"

definition hb_check_proto_op_fields :: "ro_registry \<Rightarrow> proto_ops \<Rightarrow> monitor \<Rightarrow> int \<times> monitor" where
  "hb_check_proto_op_fields r op s = report_errors (pointer_errors r (proto_op_pointers op) 0) s"

section \<open>Objects\<close>

text \<open>The files and sockets that \<open>hb_get_function_pointers\<close> opened; \<open>None\<close> is a null pointer.\<close>

record kernel_objects =
  g_proc_file_ptr :: "(inode_operations \<times> file_operations) option"
  g_root_file_ptr :: "(inode_operations \<times> file_operations) option"
  g_tcp_file_ptr :: "(file_operations \<times> seq_operations) option"
  g_udp_file_ptr :: "(file_operations \<times> seq_operations) option"
  g_tcp6_file_ptr :: "(file_operations \<times> seq_operations) option"
  g_udp6_file_ptr :: "(file_operations \<times> seq_operations) option"
  g_tcp_sock :: "proto_ops option"
  g_udp_sock :: "proto_ops option"

text \<open>\<open>ret |= check (...)\<close> for an object that may be missing.\<close>

definition or_check :: "('a \<Rightarrow> monitor \<Rightarrow> int \<times> monitor) \<Rightarrow> 'a option \<Rightarrow> int \<times> monitor \<Rightarrow> int \<times> monitor" where
  "or_check check obj rs = (case obj of
      None \<Rightarrow> rs
    | Some x \<Rightarrow> (let (ret, s) = rs; (e, s) = check x s in (ret OR e, s)))"

definition check_file :: "ro_registry \<Rightarrow> (inode_operations \<times> file_operations) option \<Rightarrow> int \<times> monitor \<Rightarrow> int \<times> monitor" where
  "check_file r f rs =
     or_check (hb_check_file_op_fields r) (map_option snd f)
       (or_check (hb_check_inode_op_fields r) (map_option fst f) rs)"

definition hb_check_vfs_object :: "ro_registry \<Rightarrow> kernel_objects \<Rightarrow> monitor \<Rightarrow> int \<times> monitor" where
  "hb_check_vfs_object r objs s = check_file r (g_root_file_ptr objs) (check_file r (g_proc_file_ptr objs) (0, s))"

definition hb_check_net_object :: "ro_registry \<Rightarrow> kernel_objects \<Rightarrow> monitor \<Rightarrow> int \<times> monitor" where
  "hb_check_net_object r objs s =
     (let seq = (\<lambda>(fops, sops). hb_check_net_seq_afinfo_fields r fops sops);
          rs = or_check seq (g_tcp_file_ptr objs) (0, s);
          rs = or_check seq (g_udp_file_ptr objs) rs;
          rs = or_check seq (g_tcp6_file_ptr objs) rs;
          rs = or_check seq (g_udp6_file_ptr objs) rs;
          rs = or_check (hb_check_proto_op_fields r) (g_tcp_sock objs) rs
      in or_check (hb_check_proto_op_fields r) (g_udp_sock objs) rs)"

section \<open>The timer\<close>

definition TIMER_INTERVAL :: u32 where [hb_consts]: "TIMER_INTERVAL = 100000"

text \<open>The state of the kernel around a timer callback: the clock, its conversion to microseconds, and
  whether the two locks can be taken.\<close>

record clock =
  jiffies :: u64
  jiffies_to_usecs :: "u64 \<Rightarrow> u32"
  time_lock_free :: bool
  tasklist_lock_free :: bool

definition hb_check_timer_expired_and_update :: "clock \<Rightarrow> u64 \<Rightarrow> bool \<times> u64" where
  "hb_check_timer_expired_and_update c last_jiffies =
     (if time_lock_free c then
        let value = jiffies c - last_jiffies in
        if jiffies_to_usecs c value \<ge> TIMER_INTERVAL then (True, jiffies c) else (False, last_jiffies)
      else (False, last_jiffies))"

definition hb_check_task_periodic ::
  "mon_env \<Rightarrow> clock \<Rightarrow> (u64 \<Rightarrow> task_struct) \<Rightarrow> u64 list \<Rightarrow> monitor \<Rightarrow> monitor option" where
  "hb_check_task_periodic env c kt procs s =
     (let (expired, last) = hb_check_timer_expired_and_update c (g_last_task_check_jiffies s);
          s = s\<lparr>g_last_task_check_jiffies := last\<rparr>
      in if \<not> expired then Some s
         else if tasklist_lock_free c then map_option snd (hb_check_task_list env kt procs s)
         else Some (s\<lparr>g_last_task_check_jiffies := 0\<rparr>))"

definition hb_check_function_pointers_periodic ::
  "clock \<Rightarrow> ro_registry \<Rightarrow> kernel_objects \<Rightarrow> monitor \<Rightarrow> monitor" where
  "hb_check_function_pointers_periodic c r objs s =
     (let (expired, last) = hb_check_timer_expired_and_update c (g_last_dkom_check_jiffies s);
          s = s\<lparr>g_last_dkom_check_jiffies := last\<rparr>
      in if \<not> expired then s
         else
           let s = (if g_vfs_object_attack_detected s = 0 then
                      let (e, s) = hb_check_vfs_object r objs s
                      in if e < 0 then s\<lparr>g_vfs_object_attack_detected := 1\<rparr> else s
                    else s)
           in if g_net_object_attack_detected s = 0 then
                let (e, s) = hb_check_net_object r objs s
                in if e < 0 then s\<lparr>g_net_object_attack_detected := 1\<rparr> else s
              else s)"

definition hb_is_valid_vm_status :: "int \<Rightarrow> int" where
  "hb_is_valid_vm_status g_need_init_in_secure = (if g_need_init_in_secure = 0 then 1 else 0)"

definition hb_callback_vm_timer ::
  "mon_env \<Rightarrow> clock \<Rightarrow> (u64 \<Rightarrow> task_struct) \<Rightarrow> u64 list \<Rightarrow> ro_registry \<Rightarrow> kernel_objects \<Rightarrow> int \<Rightarrow> monitor \<Rightarrow> monitor option" where
  "hb_callback_vm_timer env c kt procs r objs g_need_init_in_secure s =
     (if hb_is_valid_vm_status g_need_init_in_secure = 1 then
        map_option (hb_check_function_pointers_periodic c r objs) (hb_check_task_periodic env c kt procs s)
      else Some s)"

text \<open>\<open>hb_protect_monitor_data\<close>: the pool is hidden from the guest. \<open>sizeof_node\<close> is the size of one
  node.\<close>

definition hb_protect_monitor_data :: "kernel_env \<Rightarrow> mon_env \<Rightarrow> u64 \<Rightarrow> u64 \<Rightarrow> ept_state \<Rightarrow> ept_state option" where
  "hb_protect_monitor_data kenv env sizeof_node pool st =
     hb_hide_range kenv pool (pool + sizeof_node * of_nat (TASK_NODE_MAX env)) ALLOC_VMALLOC st"

section \<open>What the checks decide\<close>

text \<open>A pointer is hooked when it is neither null nor in a registered read-only area.\<close>

definition hooked :: "ro_registry \<Rightarrow> u64 \<Rightarrow> bool" where
  "hooked r p \<longleftrightarrow> p \<noteq> 0 \<and> (\<forall>a \<in># ro_areas r. \<not> in_area p a)"

text \<open>The function pointers of each table, all members of the structure.\<close>

definition inode_table :: "inode_operations \<Rightarrow> u64 set" where
  "inode_table op =
     {i_lookup op, i_get_link op, i_permission op, i_get_acl op, i_readlink op, i_create op, i_link op, i_unlink op,
      i_symlink op, i_mkdir op, i_rmdir op, i_mknod op, i_rename op, i_setattr op, i_getattr op, i_listxattr op,
      i_fiemap op, i_update_time op, i_atomic_open op, i_tmpfile op, i_set_acl op}"

definition file_table :: "file_operations \<Rightarrow> u64 set" where
  "file_table op =
     {f_llseek op, f_read op, f_write op, f_read_iter op, f_write_iter op, f_iterate op, f_iterate_shared op, f_poll op,
      f_unlocked_ioctl op, f_mmap op, f_open op, f_flush op, f_release op, f_fsync op, f_fasync op, f_lock op,
      f_sendpage op, f_get_unmapped_area op, f_check_flags op, f_flock op, f_splice_write op, f_splice_read op,
      f_setlease op, f_fallocate op, f_show_fdinfo op, f_copy_file_range op, f_remap_file_range op}"

definition seq_table :: "seq_operations \<Rightarrow> u64 set" where
  "seq_table op =
     {s_start op, s_stop op, s_next op, s_show op}"

definition proto_table :: "proto_ops \<Rightarrow> u64 set" where
  "proto_table op =
     {p_release op, p_bind op, p_connect op, p_socketpair op, p_accept op, p_getname op, p_poll op, p_ioctl op, p_listen op,
      p_shutdown op, p_setsockopt op, p_getsockopt op, p_sendmsg op, p_recvmsg op, p_mmap op, p_sendpage op,
      p_splice_read op, p_set_peek_off op}"

text \<open>No member is missing: a table in which all of them are null is the null table.\<close>

lemma tables_complete:
  "inode_table i \<subseteq> {0} \<longleftrightarrow> i = \<lparr>i_lookup = 0, i_get_link = 0, i_permission = 0, i_get_acl = 0, i_readlink = 0, i_create = 0, i_link = 0, i_unlink = 0,
     i_symlink = 0, i_mkdir = 0, i_rmdir = 0, i_mknod = 0, i_rename = 0, i_setattr = 0, i_getattr = 0, i_listxattr = 0,
     i_fiemap = 0, i_update_time = 0, i_atomic_open = 0, i_tmpfile = 0, i_set_acl = 0\<rparr>"
  "file_table f \<subseteq> {0} \<longleftrightarrow> f = \<lparr>f_llseek = 0, f_read = 0, f_write = 0, f_read_iter = 0, f_write_iter = 0, f_iterate = 0, f_iterate_shared = 0,
     f_poll = 0, f_unlocked_ioctl = 0, f_mmap = 0, f_open = 0, f_flush = 0, f_release = 0, f_fsync = 0, f_fasync = 0,
     f_lock = 0, f_sendpage = 0, f_get_unmapped_area = 0, f_check_flags = 0, f_flock = 0, f_splice_write = 0,
     f_splice_read = 0, f_setlease = 0, f_fallocate = 0, f_show_fdinfo = 0, f_copy_file_range = 0, f_remap_file_range = 0\<rparr>"
  "seq_table q \<subseteq> {0} \<longleftrightarrow> q = \<lparr>s_start = 0, s_stop = 0, s_next = 0, s_show = 0\<rparr>"
  "proto_table p \<subseteq> {0} \<longleftrightarrow> p = \<lparr>p_release = 0, p_bind = 0, p_connect = 0, p_socketpair = 0, p_accept = 0, p_getname = 0, p_poll = 0, p_ioctl = 0,
     p_listen = 0, p_shutdown = 0, p_setsockopt = 0, p_getsockopt = 0, p_sendmsg = 0, p_recvmsg = 0, p_mmap = 0,
     p_sendpage = 0, p_splice_read = 0, p_set_peek_off = 0\<rparr>"
  by (auto simp: inode_table_def file_table_def seq_table_def proto_table_def)

text \<open>The checks read every pointer of a table.\<close>

lemma checked_pointers:
  "set (inode_op_pointers i) = inode_table i" "set (file_op_pointers f) = file_table f"
  "set (seq_op_pointers q) = seq_table q" "set (proto_op_pointers p) = proto_table p"
  by (auto simp: inode_op_pointers_def file_op_pointers_def seq_op_pointers_def proto_op_pointers_def
      inode_table_def file_table_def seq_table_def proto_table_def)

definition vfs_pointers :: "kernel_objects \<Rightarrow> u64 set" where
  "vfs_pointers objs = (\<Union>(i, f) \<in> set_option (g_proc_file_ptr objs) \<union> set_option (g_root_file_ptr objs).
     inode_table i \<union> file_table f)"

definition net_pointers :: "kernel_objects \<Rightarrow> u64 set" where
  "net_pointers objs =
     (\<Union>(f, q) \<in> set_option (g_tcp_file_ptr objs) \<union> set_option (g_udp_file_ptr objs) \<union>
        set_option (g_tcp6_file_ptr objs) \<union> set_option (g_udp6_file_ptr objs).
        file_table f \<union> seq_table q) \<union>
     (\<Union>p \<in> set_option (g_tcp_sock objs) \<union> set_option (g_udp_sock objs). proto_table p)"

text \<open>The contract of a check: it answers \<open>-1\<close> when \<open>P\<close> holds and \<open>0\<close> otherwise, and logs errors
  exactly in the first case.\<close>

definition logs :: "nat \<Rightarrow> monitor \<Rightarrow> monitor" where
  "logs k s = s\<lparr>m_errors := m_errors s @ replicate k ERROR_KERNEL_MODIFICATION\<rparr>"

definition answers :: "bool \<Rightarrow> monitor \<Rightarrow> int \<times> monitor \<Rightarrow> bool" where
  "answers P s rs \<longleftrightarrow> (\<exists>k. rs = (if P then -1 else 0, logs k s) \<and> (k > 0 \<longleftrightarrow> P))"

lemma logs_logs: "logs k (logs l s) = logs (l + k) s"
  by (simp add: logs_def replicate_add)

lemma logs_0: "logs 0 s = s"
  by (simp add: logs_def)

lemma pointer_errors_iff:
  "error \<in> {0, 1} \<Longrightarrow>
     pointer_errors r ps error = (if error = 1 \<or> (\<exists>p \<in> set ps. hooked r p) then 1 else 0)"
  by (induction ps arbitrary: error) (auto simp: hb_is_addr_in_ro_area_iff hooked_def)

lemma report_answers:
  "answers (\<exists>p \<in> set ps. hooked r p) s (report_errors (pointer_errors r ps 0) s)"
proof (cases "\<exists>p \<in> set ps. hooked r p")
  case True
  then show ?thesis
    by (auto simp: answers_def report_errors_def pointer_errors_iff hb_error_log_def logs_def intro!: exI [of _ 1])
next
  case False
  then show ?thesis
    by (auto simp: answers_def report_errors_def pointer_errors_iff logs_0 intro!: exI [of _ 0])
qed

lemma or_check_answers:
  assumes rs: "answers P s rs" and check: "\<And>x t. answers (Q x) t (check x t)"
  shows "answers (P \<or> (\<exists>x \<in> set_option obj. Q x)) s (or_check check obj rs)"
proof (cases obj)
  case None
  with rs show ?thesis by (simp add: or_check_def)
next
  case (Some x)
  obtain k where k: "rs = (if P then -1 else 0, logs k s)" "k > 0 \<longleftrightarrow> P"
    using rs by (auto simp: answers_def)
  obtain l where l: "check x (logs k s) = (if Q x then -1 else 0, logs l (logs k s))" "l > 0 \<longleftrightarrow> Q x"
    using check [of x "logs k s"] by (auto simp: answers_def)
  show ?thesis
    using Some k l by (auto simp: or_check_def answers_def logs_logs intro!: exI [of _ "k + l"])
qed

lemma file_answers: "answers (\<exists>p \<in> set (file_op_pointers f). hooked r p) s (hb_check_file_op_fields r f s)"
  unfolding hb_check_file_op_fields_def by (rule report_answers)

lemma inode_answers: "answers (\<exists>p \<in> set (inode_op_pointers f). hooked r p) s (hb_check_inode_op_fields r f s)"
  unfolding hb_check_inode_op_fields_def by (rule report_answers)

lemma proto_answers: "answers (\<exists>p \<in> set (proto_op_pointers f). hooked r p) s (hb_check_proto_op_fields r f s)"
  unfolding hb_check_proto_op_fields_def by (rule report_answers)

lemma seq_answers:
  "answers (\<exists>p \<in> set (file_op_pointers (fst x)) \<union> set (seq_op_pointers (snd x)). hooked r p) s
     ((\<lambda>(f, q). hb_check_net_seq_afinfo_fields r f q) x s)"
proof -
  obtain f q where x: "x = (f, q)" by (cases x)
  obtain k where k: "hb_check_file_op_fields r f s =
      (if \<exists>p \<in> set (file_op_pointers f). hooked r p then -1 else 0, logs k s)"
    "k > 0 \<longleftrightarrow> (\<exists>p \<in> set (file_op_pointers f). hooked r p)"
    using file_answers [of f r s] by (auto simp: answers_def)
  show ?thesis
  proof (cases "\<exists>p \<in> set (file_op_pointers f). hooked r p")
    case True
    with k show ?thesis by (auto simp: x hb_check_net_seq_afinfo_fields_def answers_def)
  next
    case False
    with k have "k = 0" by simp
    with False k(1) show ?thesis
      using report_answers [of "seq_op_pointers q" r s]
      by (auto simp: x hb_check_net_seq_afinfo_fields_def logs_0 bex_Un)
  qed
qed

lemma check_file_answers:
  assumes "answers P s rs"
  shows "answers (P \<or> (\<exists>x \<in> set_option f. \<exists>p \<in> set (inode_op_pointers (fst x)) \<union> set (file_op_pointers (snd x)). hooked r p)) s
    (check_file r f rs)"
  using or_check_answers [OF or_check_answers [OF assms inode_answers, where obj = "map_option fst f"]
      file_answers, where obj = "map_option snd f"]
  by (cases f) (auto simp: check_file_def bex_Un)

lemma answers_init: "answers False s (0, s)"
  by (auto simp: answers_def logs_0 intro!: exI [of _ 0])

lemma vfs_answers: "answers (\<exists>p \<in> vfs_pointers objs. hooked r p) s (hb_check_vfs_object r objs s)"
proof -
  have "(\<exists>p \<in> vfs_pointers objs. hooked r p) \<longleftrightarrow>
      (False \<or> (\<exists>x \<in> set_option (g_proc_file_ptr objs). \<exists>p \<in> set (inode_op_pointers (fst x)) \<union> set (file_op_pointers (snd x)). hooked r p))
      \<or> (\<exists>x \<in> set_option (g_root_file_ptr objs). \<exists>p \<in> set (inode_op_pointers (fst x)) \<union> set (file_op_pointers (snd x)). hooked r p)"
    by (force simp: vfs_pointers_def checked_pointers)
  then show ?thesis
    unfolding hb_check_vfs_object_def
    by (simp only:) (intro check_file_answers answers_init)
qed

lemma net_answers: "answers (\<exists>p \<in> net_pointers objs. hooked r p) s (hb_check_net_object r objs s)"
proof -
  let ?q = "\<lambda>x. \<exists>p \<in> set (file_op_pointers (fst x)) \<union> set (seq_op_pointers (snd x)). hooked r p"
  let ?p = "\<lambda>x. \<exists>p \<in> set (proto_op_pointers x). hooked r p"
  have "(\<exists>p \<in> net_pointers objs. hooked r p) \<longleftrightarrow>
      (((((False \<or> (\<exists>x \<in> set_option (g_tcp_file_ptr objs). ?q x)) \<or> (\<exists>x \<in> set_option (g_udp_file_ptr objs). ?q x))
        \<or> (\<exists>x \<in> set_option (g_tcp6_file_ptr objs). ?q x)) \<or> (\<exists>x \<in> set_option (g_udp6_file_ptr objs). ?q x))
        \<or> (\<exists>x \<in> set_option (g_tcp_sock objs). ?p x)) \<or> (\<exists>x \<in> set_option (g_udp_sock objs). ?p x)"
    by (force simp: net_pointers_def checked_pointers)
  then show ?thesis
    unfolding hb_check_net_object_def Let_def
    by (simp only:) (intro or_check_answers answers_init seq_answers proto_answers)
qed

lemma expired_iff:
  "fst (hb_check_timer_expired_and_update c l) \<longleftrightarrow>
     time_lock_free c \<and> TIMER_INTERVAL \<le> jiffies_to_usecs c (jiffies c - l)"
  by (simp add: hb_check_timer_expired_and_update_def Let_def)

lemma periodic_check_run:
  assumes "time_lock_free c" "TIMER_INTERVAL \<le> jiffies_to_usecs c (jiffies c - g_last_dkom_check_jiffies s)"
  shows "\<exists>k. hb_check_function_pointers_periodic c r objs s = s\<lparr>g_last_dkom_check_jiffies := jiffies c,
      m_errors := m_errors s @ replicate k ERROR_KERNEL_MODIFICATION,
      g_vfs_object_attack_detected := (if g_vfs_object_attack_detected s = 0 \<and> (\<exists>p \<in> vfs_pointers objs. hooked r p)
        then 1 else g_vfs_object_attack_detected s),
      g_net_object_attack_detected := (if g_net_object_attack_detected s = 0 \<and> (\<exists>p \<in> net_pointers objs. hooked r p)
        then 1 else g_net_object_attack_detected s)\<rparr> \<and>
    (k > 0 \<longleftrightarrow> g_vfs_object_attack_detected s = 0 \<and> (\<exists>p \<in> vfs_pointers objs. hooked r p)
        \<or> g_net_object_attack_detected s = 0 \<and> (\<exists>p \<in> net_pointers objs. hooked r p))"
proof -
  define u where "u = s\<lparr>g_last_dkom_check_jiffies := jiffies c\<rparr>"
  have exp: "hb_check_timer_expired_and_update c (g_last_dkom_check_jiffies s) = (True, jiffies c)"
    using assms by (simp add: hb_check_timer_expired_and_update_def)
  define V where "V \<longleftrightarrow> (\<exists>p \<in> vfs_pointers objs. hooked r p)"
  define N where "N \<longleftrightarrow> (\<exists>p \<in> net_pointers objs. hooked r p)"
  obtain k where k: "hb_check_vfs_object r objs u = (if V then -1 else 0, logs k u)" "k > 0 \<longleftrightarrow> V"
    using vfs_answers [of objs r u] by (auto simp: answers_def V_def)
  have net: "\<exists>l. hb_check_net_object r objs t = (if N then -1 else 0, logs l t) \<and> (l > 0 \<longleftrightarrow> N)" for t
    using net_answers [of objs r t] by (auto simp: answers_def N_def)
  define t where "t = (if g_vfs_object_attack_detected s = 0
    then (if V then (logs k u)\<lparr>g_vfs_object_attack_detected := 1\<rparr> else logs k u) else u)"
  obtain l where l: "hb_check_net_object r objs t = (if N then -1 else 0, logs l t)" "l > 0 \<longleftrightarrow> N"
    using net [of t] by blast
  have run: "hb_check_function_pointers_periodic c r objs s =
      (if g_net_object_attack_detected s = 0
       then (if N then (logs l t)\<lparr>g_net_object_attack_detected := 1\<rparr> else logs l t) else t)"
    using exp k(1) l(1)
    by (cases "g_vfs_object_attack_detected s = 0"; cases V; cases N)
      (simp_all add: hb_check_function_pointers_periodic_def Let_def t_def u_def logs_def)
  let ?a = "if g_vfs_object_attack_detected s = 0 then k else 0"
  let ?b = "if g_net_object_attack_detected s = 0 then l else 0"
  show ?thesis
    unfolding V_def [symmetric] N_def [symmetric] run using k(2) l(2)
    by (intro exI [of _ "?a + ?b"]) (auto simp: t_def u_def logs_def replicate_add)
qed

lemma periodic_check_state:
  "\<exists>j es a b. hb_check_function_pointers_periodic c r objs s =
     s\<lparr>g_last_dkom_check_jiffies := j, m_errors := es, g_vfs_object_attack_detected := a, g_net_object_attack_detected := b\<rparr> \<and>
     (g_vfs_object_attack_detected s \<noteq> 0 \<longrightarrow> a = g_vfs_object_attack_detected s) \<and>
     (g_net_object_attack_detected s \<noteq> 0 \<longrightarrow> b = g_net_object_attack_detected s)"
proof (cases "time_lock_free c \<and> TIMER_INTERVAL \<le> jiffies_to_usecs c (jiffies c - g_last_dkom_check_jiffies s)")
  case True
  then have "time_lock_free c" "TIMER_INTERVAL \<le> jiffies_to_usecs c (jiffies c - g_last_dkom_check_jiffies s)" by auto
  from periodic_check_run [OF this, of r objs] show ?thesis by (elim exE conjE) (intro exI conjI, assumption, auto)
next
  case False
  then have "hb_check_timer_expired_and_update c (g_last_dkom_check_jiffies s) = (False, g_last_dkom_check_jiffies s)"
    by (auto simp: hb_check_timer_expired_and_update_def Let_def)
  then have "hb_check_function_pointers_periodic c r objs s = s\<lparr>g_last_dkom_check_jiffies := g_last_dkom_check_jiffies s,
      m_errors := m_errors s, g_vfs_object_attack_detected := g_vfs_object_attack_detected s,
      g_net_object_attack_detected := g_net_object_attack_detected s\<rparr>"
    by (simp add: hb_check_function_pointers_periodic_def)
  then show ?thesis by blast
qed

lemma task_periodic_state:
  assumes "tm_wf env s" "dom (tracked s) \<subseteq> set procs" "int (length procs) < int (TASK_NODE_MAX env) - 1"
  shows "\<exists>j zs es. hb_check_task_periodic env c kt procs s =
    Some (s\<lparr>g_last_task_check_jiffies := j, m_synced := zs, m_errors := es\<rparr>)"
proof -
  obtain e j where e: "hb_check_timer_expired_and_update c (g_last_task_check_jiffies s) = (e, j)" by force
  let ?s = "s\<lparr>g_last_task_check_jiffies := j\<rparr>"
  have "tm_wf env ?s" "tracked ?s = tracked s"
    using assms(1) find_cong(2) [of ?s s] tm_wf_cong(1) [of ?s s env] by simp_all
  then obtain zs es where "map_option snd (hb_check_task_list env kt procs ?s) = Some (?s\<lparr>m_synced := zs, m_errors := es\<rparr>)"
    using check_tasks_visible [of env ?s procs kt] assms(2,3) by auto
  moreover have "\<exists>zs es. Some ?s = Some (?s\<lparr>m_synced := zs, m_errors := es\<rparr>)"
    by (intro exI [of _ "m_synced s"] exI [of _ "m_errors s"]) simp
  moreover have "\<exists>zs es. Some (?s\<lparr>g_last_task_check_jiffies := 0\<rparr>) = Some (s\<lparr>g_last_task_check_jiffies := 0, m_synced := zs, m_errors := es\<rparr>)"
    by (intro exI [of _ "m_synced s"] exI [of _ "m_errors s"]) simp
  ultimately show ?thesis
    unfolding hb_check_task_periodic_def e by (auto simp: Let_def)
qed

text \<open>C28: The periodic check of the function pointers, once its interval has elapsed: afterwards the flag of
  each group of objects is set exactly when it was set before or some function pointer of the group is hooked
  (not null and outside all registered read-only areas), where the pointers of the file system are all 21 inode operations and all 27 file
  operations of /proc and of the root, and those of the network all file operations and all 4 sequence operations of the tcp, udp, tcp6 and udp6 files of
  /proc/net and all 18 operations of a tcp and a udp socket; an error is logged exactly when a new hook was found, and the
  clock of the check restarts. Nothing else of the monitor changes.\<close>

theorem periodic_check_detects_hooks:
  assumes "time_lock_free c" "TIMER_INTERVAL \<le> jiffies_to_usecs c (jiffies c - g_last_dkom_check_jiffies s)"
  shows "\<exists>k. hb_check_function_pointers_periodic c r objs s = s\<lparr>g_last_dkom_check_jiffies := jiffies c,
      m_errors := m_errors s @ replicate k ERROR_KERNEL_MODIFICATION,
      g_vfs_object_attack_detected := (if g_vfs_object_attack_detected s = 0 \<and> (\<exists>p \<in> vfs_pointers objs. hooked r p)
        then 1 else g_vfs_object_attack_detected s),
      g_net_object_attack_detected := (if g_net_object_attack_detected s = 0 \<and> (\<exists>p \<in> net_pointers objs. hooked r p)
        then 1 else g_net_object_attack_detected s)\<rparr> \<and>
    (k > 0 \<longleftrightarrow> g_vfs_object_attack_detected s = 0 \<and> (\<exists>p \<in> vfs_pointers objs. hooked r p)
        \<or> g_net_object_attack_detected s = 0 \<and> (\<exists>p \<in> net_pointers objs. hooked r p))"
  using periodic_check_run [OF assms] .

definition sample_clock :: clock where
  "sample_clock = \<lparr>jiffies = 200, jiffies_to_usecs = (\<lambda>j. ucast j * 1000), time_lock_free = True,
     tasklist_lock_free = True\<rparr>"

definition sample_sock :: "u64 \<Rightarrow> proto_ops" where
  "sample_sock p = \<lparr>p_release = 0, p_bind = p, p_connect = 0, p_socketpair = 0, p_accept = 0, p_getname = 0,
     p_poll = 0, p_ioctl = 0, p_listen = 0, p_shutdown = 0, p_setsockopt = 0, p_getsockopt = 0, p_sendmsg = 0,
     p_recvmsg = 0, p_mmap = 0, p_sendpage = 0, p_splice_read = 0, p_set_peek_off = 0\<rparr>"

definition sample_objects :: kernel_objects where
  "sample_objects = \<lparr>g_proc_file_ptr = None, g_root_file_ptr = None, g_tcp_file_ptr = None, g_udp_file_ptr = None,
     g_tcp6_file_ptr = None, g_udp6_file_ptr = None, g_tcp_sock = Some (sample_sock 0x5000), g_udp_sock = None\<rparr>"

theorem periodic_check_detects_hooks_witness:
  "\<exists>s'. hb_check_function_pointers_periodic sample_clock ro_init sample_objects sample_monitor = s' \<and>
     g_net_object_attack_detected s' = 1 \<and> g_vfs_object_attack_detected s' = 0"
proof -
  have hook: "hooked ro_init 0x5000" "0x5000 \<in> net_pointers sample_objects" "vfs_pointers sample_objects = {}"
    by (simp_all add: hooked_def ro_areas_def ro_live_def ro_slots_def ro_init_def net_pointers_def vfs_pointers_def sample_objects_def
        proto_table_def sample_sock_def)
  have "g_net_object_attack_detected sample_monitor = 0" "g_vfs_object_attack_detected sample_monitor = 0"
      "g_last_dkom_check_jiffies sample_monitor = 0"
    by (simp_all add: sample_monitor_def hb_reset_task_manager_def)
  then show ?thesis
    using periodic_check_detects_hooks [of sample_clock sample_monitor ro_init sample_objects] hook
    by (force simp: sample_clock_def hb_consts)
qed

text \<open>C30: The timer callback of a guest in which every tracked task is visible returns, kills nobody, keeps the
  tracked tasks and the invariant of the task manager, and never clears a detection flag; before the monitor
  has been initialised it does nothing at all.\<close>

theorem vm_timer_safe:
  assumes "tm_wf env s" "dom (tracked s) \<subseteq> set procs" "int (length procs) < int (TASK_NODE_MAX env) - 1"
  shows "\<exists>t. hb_callback_vm_timer env c kt procs r objs need s = Some t \<and> m_signals t = m_signals s \<and>
    tracked t = tracked s \<and> tm_wf env t \<and>
    (g_vfs_object_attack_detected s \<noteq> 0 \<longrightarrow> g_vfs_object_attack_detected t = g_vfs_object_attack_detected s) \<and>
    (g_net_object_attack_detected s \<noteq> 0 \<longrightarrow> g_net_object_attack_detected t = g_net_object_attack_detected s) \<and>
    (need \<noteq> 0 \<longrightarrow> t = s)"
proof (cases "need = 0")
  case True
  obtain j zs es where p: "hb_check_task_periodic env c kt procs s =
      Some (s\<lparr>g_last_task_check_jiffies := j, m_synced := zs, m_errors := es\<rparr>)" (is "_ = Some ?u")
    using task_periodic_state [OF assms] by blast
  obtain l es' a b where q: "hb_check_function_pointers_periodic c r objs ?u =
      ?u\<lparr>g_last_dkom_check_jiffies := l, m_errors := es', g_vfs_object_attack_detected := a, g_net_object_attack_detected := b\<rparr>"
      "g_vfs_object_attack_detected s \<noteq> 0 \<longrightarrow> a = g_vfs_object_attack_detected s"
      "g_net_object_attack_detected s \<noteq> 0 \<longrightarrow> b = g_net_object_attack_detected s"
    using periodic_check_state [of c r objs ?u] by auto
  let ?t = "hb_check_function_pointers_periodic c r objs ?u"
  have "hb_callback_vm_timer env c kt procs r objs need s = Some ?t"
    using True p by (simp add: hb_callback_vm_timer_def hb_is_valid_vm_status_def)
  moreover have "tracked ?t = tracked s" "tm_wf env ?t"
    using assms(1) find_cong(2) [of ?t s] tm_wf_cong(1) [of ?t s env] by (simp_all add: q(1))
  ultimately show ?thesis using True q by simp
next
  case False
  with assms(1) show ?thesis by (simp add: hb_callback_vm_timer_def hb_is_valid_vm_status_def)
qed

theorem vm_timer_safe_witness:
  "\<exists>t. hb_callback_vm_timer sample_mon_env sample_clock sample_task [0x5000] ro_init sample_objects 0 sample_monitor = Some t \<and>
     m_signals t = [] \<and> tm_wf sample_mon_env t"
  using vm_timer_safe [OF sample_monitor_wf(1), of "[0x5000]" sample_clock sample_task ro_init sample_objects 0] sample_monitor_wf
  by (auto simp: sample_mon_env_def)

end
