(* ===== verification/Vmcs.thy ===== *)
theory Vmcs
  imports Vmcs_Fields Object_Monitor
begin

text \<open>
  The machine as a handler of a VM exit sees it: the VMX instructions of the processor (asm_helper.asm wraps each of
  them in a function), the guest's registers, the memory, and the global variables of the hypervisor.

  \<^item> The processor is a parameter, the record \<open>vm_env\<close>: which fields of a VMCS it can read and write, and
    for which addresses and revision words VMPTRLD and VMCLEAR succeed. What the code relies on is
    \<open>sdm_fields\<close>: the fields it names exist.
  \<^item> A VMCS is a function from field encodings to values; \<open>vs_revision\<close> is the first word of a VMCS region,
    whose bit 31 marks a shadow VMCS, and \<open>vs_launched\<close> its launch state. VMCLEAR makes the launch state clear, and
    leaves no current VMCS when it is applied to the current one.
  \<^item> A field has the width that its encoding gives: a write keeps the low bits only.
  \<^item> \<open>vs_mem\<close> is the memory at the linear addresses of the host, byte by byte. Instructions with no effect on
    the state of the model (INVEPT, XSETBV and so on) and requests to synchronise page tables are recorded in
    \<open>vs_events\<close>.
\<close>

section \<open>State\<close>

record hb_vm_exit_guest_register =
  vm_launch :: u64
  r15 :: u64
  r14 :: u64
  r13 :: u64
  r12 :: u64
  r11 :: u64
  r10 :: u64
  r9 :: u64
  r8 :: u64
  rsi :: u64
  rdi :: u64
  rdx :: u64
  rcx :: u64
  rbx :: u64
  rax :: u64
  rbp :: u64

record hb_nested_vmcs_struct =
  nv_vmcs_ptr :: u64
  nv_rip :: u64
  nv_rsp :: u64
  nv_cr3 :: u64

datatype vm_event =
    Sync_page u64 u64
  | Invept u64 u64
  | Invvpid u64 u64
  | Invpcid u64 u64
  | Invd
  | Xsetbv u64 u64

record vm =
  vs_current :: u64
  vs_vmcs :: "u64 \<Rightarrow> u64 \<Rightarrow> u64"
  vs_revision :: "u64 \<Rightarrow> u32"
  vs_launched :: "u64 \<Rightarrow> bool"
  vs_mem :: "u64 \<Rightarrow> u8"
  vs_dr :: "nat \<Rightarrow> u64"
  vs_msr :: "u32 \<Rightarrow> u64"
  vs_events :: "vm_event list"
  vs_ctx :: hb_vm_exit_guest_register
  g_vmx_root_mode :: "nat \<Rightarrow> int"
  g_nested_vmcs_ptr :: "nat \<Rightarrow> u64"
  g_nested_vmcs_array :: "hb_nested_vmcs_struct list"
  g_test_dr :: "nat \<Rightarrow> nat \<Rightarrow> u64"
  g_is_shutdown_trigger_set :: int
  g_shutdown_jiffies :: u64
  g_need_init_in_secure :: int
  g_allow_hyper_box_hide :: int
  vs_creds :: "u64 \<Rightarrow> cred"
  vs_prot :: prot_state
  vs_mon :: monitor

text \<open>The processor, the kernel around the handler, and the addresses fixed when the hypervisor was started.
  \<open>uninit\<close> is what an uninitialised local variable holds.\<close>

record vm_env =
  hw_readable :: "u64 \<Rightarrow> bool"
  hw_writable :: "u64 \<Rightarrow> bool"
  hw_vmptrld_ok :: "u64 \<Rightarrow> u32 \<Rightarrow> bool"
  hw_vmclear_ok :: "u64 \<Rightarrow> bool"
  hw_cpuid :: "u32 \<Rightarrow> u32 \<Rightarrow> u32 \<times> u32 \<times> u32 \<times> u32"
  hw_cr2 :: u64
  hw_cr8 :: u64
  uninit :: u64
  ve_kernel :: kernel_env
  ve_monitor :: mon_env
  ve_clock :: clock
  jiffies_to_msecs :: "u64 \<Rightarrow> u32"
  tsc_khz :: u32
  system_state :: int
  acpi_target_system_state :: int
  ve_tasks :: "u64 \<Rightarrow> task_struct"
  ve_procs :: "u64 list"
  ve_current_task :: u64
  ve_objects :: kernel_objects
  ve_this_module :: hb_module
  ve_pool :: u64
  ve_sizeof_node :: u64
  g_guest_vmcs_phy_addr :: "nat \<Rightarrow> u64"
  g_vm_exit_stack_addr :: "nat \<Rightarrow> u64"
  g_stack_size :: u64
  g_vm_host_phy_pml4 :: u64
  g_log_info :: u64
  g_support_vmcs_shadowing :: int
  g_init_in_secure_jiffies :: u64
  hb_vm_exit_callback_stub :: u64
  hb_system_sleep_notify :: u64

section \<open>VMX instructions\<close>

text \<open>The width of a field: bits 13 and 14 of its encoding.\<close>

definition field_width :: "u64 \<Rightarrow> nat" where
  "field_width f = (let w = drop_bit 13 f AND 3 in if w = 0 then 16 else if w = 2 then 32 else 64)"

text \<open>The pointer that stands for no current VMCS.\<close>

definition NO_VMCS :: u64 where "NO_VMCS = 0xFFFFFFFFFFFFFFFF"

text \<open>\<open>hb_read_vmcs (field, &v)\<close>: the new value of \<open>v\<close>, where \<open>old\<close> is its value before; a VMREAD
  that fails does not touch it. The result is tested nowhere.\<close>

definition hb_read_vmcs :: "vm_env \<Rightarrow> u64 \<Rightarrow> u64 \<Rightarrow> vm \<Rightarrow> u64" where
  "hb_read_vmcs env field old s = 
     (if hw_readable env field \<and> vs_current s \<noteq> NO_VMCS then vs_vmcs s (vs_current s) field else old)"

definition hb_write_vmcs :: "vm_env \<Rightarrow> u64 \<Rightarrow> u64 \<Rightarrow> vm \<Rightarrow> vm" where
  "hb_write_vmcs env field v s =
     (if hw_writable env field \<and> vs_current s \<noteq> NO_VMCS
      then s\<lparr>vs_vmcs := (vs_vmcs s)(vs_current s := (vs_vmcs s (vs_current s))(field := take_bit (field_width field) v))\<rparr>
      else s)"

definition hb_load_vmcs :: "vm_env \<Rightarrow> u64 \<Rightarrow> vm \<Rightarrow> int \<times> vm" where
  "hb_load_vmcs env addr s =
     (if hw_vmptrld_ok env addr (vs_revision s addr) then (0, s\<lparr>vs_current := addr\<rparr>) else (-1, s))"

definition hb_clear_vmcs :: "vm_env \<Rightarrow> u64 \<Rightarrow> vm \<Rightarrow> int \<times> vm" where
  "hb_clear_vmcs env addr s =
     (if hw_vmclear_ok env addr
      then (0, s\<lparr>vs_launched := (vs_launched s)(addr := False),
                 vs_current := (if vs_current s = addr then NO_VMCS else vs_current s)\<rparr>)
      else (-1, s))"

definition hb_store_vmcs :: "vm \<Rightarrow> u64" where
  "hb_store_vmcs s = vs_current s"

definition vm_event :: "vm_event \<Rightarrow> vm \<Rightarrow> vm" where
  "vm_event e s = s\<lparr>vs_events := vs_events s @ [e]\<rparr>"

definition hb_sync_page_table_event :: "u64 \<Rightarrow> u64 \<Rightarrow> vm \<Rightarrow> vm" where
  "hb_sync_page_table_event addr cr3 s = vm_event (Sync_page addr cr3) s"

definition hb_rdmsr :: "u64 \<Rightarrow> vm \<Rightarrow> u64" where
  "hb_rdmsr msr s = vs_msr s (ucast msr)"

definition hb_wrmsr :: "u64 \<Rightarrow> u64 \<Rightarrow> vm \<Rightarrow> vm" where
  "hb_wrmsr msr v s = s\<lparr>vs_msr := (vs_msr s)(ucast msr := v)\<rparr>"

definition set_debugreg :: "u64 \<Rightarrow> nat \<Rightarrow> vm \<Rightarrow> vm" where
  "set_debugreg v i s = s\<lparr>vs_dr := (vs_dr s)(i := v)\<rparr>"

definition hb_vm_error_log :: "int \<Rightarrow> vm \<Rightarrow> vm" where
  "hb_vm_error_log code s = s\<lparr>vs_mon := hb_error_log code (vs_mon s)\<rparr>"

definition set_ctx :: "(hb_vm_exit_guest_register \<Rightarrow> hb_vm_exit_guest_register) \<Rightarrow> vm \<Rightarrow> vm" where
  "set_ctx f s = s\<lparr>vs_ctx := f (vs_ctx s)\<rparr>"

text \<open>The processor supports the fields the hypervisor uses.\<close>

definition sdm_fields :: "vm_env \<Rightarrow> bool" where
  "sdm_fields env \<longleftrightarrow> (\<forall>f \<in> set (vmcs_state_fields @ vmcs_data_fields). hw_readable env f) \<and>
     (\<forall>f \<in> set vmcs_state_fields. hw_writable env f)"

section \<open>Helpers of the handlers\<close>

definition hb_clear_vmx_inst_flags :: "vm_env \<Rightarrow> vm \<Rightarrow> vm" where
  "hb_clear_vmx_inst_flags env s =
     (let temp = hb_read_vmcs env VM_GUEST_RFLAGS (uninit env) s
      in hb_write_vmcs env VM_GUEST_RFLAGS (temp AND NOT (RFLAGS_BIT_CF OR RFLAGS_BIT_ZF)) s)"

definition hb_advance_vm_guest_rip :: "vm_env \<Rightarrow> vm \<Rightarrow> vm" where
  "hb_advance_vm_guest_rip env s =
     (let inst_delta = hb_read_vmcs env VM_DATA_VM_EXIT_INST_LENGTH (uninit env) s;
          rip = hb_read_vmcs env VM_GUEST_RIP (uninit env) s
      in hb_write_vmcs env VM_GUEST_RIP (rip + inst_delta) s)"

definition hb_insert_ud_exception_to_vm :: "vm_env \<Rightarrow> vm \<Rightarrow> vm" where
  "hb_insert_ud_exception_to_vm env s =
     hb_write_vmcs env VM_CTRL_VM_ENTRY_EXCEPT_ERR_CODE 0
       (hb_write_vmcs env VM_CTRL_VM_ENTRY_INT_INFO_FIELD VM_ENTRY_INT_INFO_UD s)"

definition hb_insert_nmi_exception_to_vm :: "vm_env \<Rightarrow> vm \<Rightarrow> vm" where
  "hb_insert_nmi_exception_to_vm env s =
     hb_write_vmcs env VM_CTRL_VM_ENTRY_EXCEPT_ERR_CODE 0
       (hb_write_vmcs env VM_CTRL_VM_ENTRY_INT_INFO_FIELD VM_ENTRY_INT_INFO_NMI s)"

definition hb_remove_int_exception_from_vm :: "vm_env \<Rightarrow> u64 \<Rightarrow> vm \<Rightarrow> vm" where
  "hb_remove_int_exception_from_vm env vector s =
     (let info_field = hb_read_vmcs env VM_CTRL_VM_ENTRY_INT_INFO_FIELD (uninit env) s
      in hb_write_vmcs env VM_CTRL_VM_ENTRY_INT_INFO_FIELD (info_field AND NOT (push_bit (unat vector) 1)) s)"

text \<open>\<open>hb_is_system_shutdowning\<close>, with SYSTEM_RUNNING = 2 and ACPI_STATE_S3 = 3.\<close>

definition hb_is_system_shutdowning :: "vm_env \<Rightarrow> int" where
  "hb_is_system_shutdowning env = (if system_state env \<le> 2 \<and> acpi_target_system_state env < 3 then 0 else 1)"

definition hb_disable_desc_monitor :: "vm_env \<Rightarrow> vm \<Rightarrow> vm" where
  "hb_disable_desc_monitor env s =
     (let reg_value = hb_read_vmcs env VM_CTRL_SEC_PROC_BASED_EXE_CTRL (uninit env) s;
          reg_value = reg_value AND NOT VM_BIT_VM_SEC_PROC_CTRL_DESC_TABLE;
          reg_value = reg_value AND 0xFFFFFFFF
      in hb_write_vmcs env VM_CTRL_SEC_PROC_BASED_EXE_CTRL reg_value s)"

definition hb_trigger_shutdown_timer :: "vm_env \<Rightarrow> vm \<Rightarrow> vm" where
  "hb_trigger_shutdown_timer env s =
     (if hb_is_system_shutdowning env = 0 then s
      else if g_is_shutdown_trigger_set s = 0
        then s\<lparr>g_is_shutdown_trigger_set := 1, g_shutdown_jiffies := jiffies (ve_clock env)\<rparr>
      else s)"

definition SHUTDOWN_TIME_LIMIT_MS :: u32 where [hb_consts]: "SHUTDOWN_TIME_LIMIT_MS = 10 * 60 * 1000"
definition ERROR_SHUTDOWN_TIME_OUT :: int where [hb_consts]: "ERROR_SHUTDOWN_TIME_OUT = 6"

definition hb_is_shutdown_timer_expired :: "vm_env \<Rightarrow> vm \<Rightarrow> int \<times> vm" where
  "hb_is_shutdown_timer_expired env s =
     (if g_is_shutdown_trigger_set s = 0 then (0, s)
      else
        let value = jiffies (ve_clock env) - g_shutdown_jiffies s in
        if jiffies_to_msecs env value \<ge> SHUTDOWN_TIME_LIMIT_MS
        then (1, (hb_vm_error_log ERROR_SHUTDOWN_TIME_OUT s)\<lparr>g_shutdown_jiffies := jiffies (ve_clock env)\<rparr>)
        else (0, s))"

text \<open>The look-up of the saved host state of a nested VMCS: the first slot with the pointer or a free one.\<close>

definition hb_find_nested_vmcs_struct :: "u64 \<Rightarrow> vm \<Rightarrow> nat option" where
  "hb_find_nested_vmcs_struct ptr s =
     (let n = length (takeWhile (\<lambda>e. nv_vmcs_ptr e \<noteq> ptr \<and> nv_vmcs_ptr e \<noteq> 0) (g_nested_vmcs_array s))
      in if n < length (g_nested_vmcs_array s) then Some n else None)"

definition set_nested :: "nat \<Rightarrow> (hb_nested_vmcs_struct \<Rightarrow> hb_nested_vmcs_struct) \<Rightarrow> vm \<Rightarrow> vm" where
  "set_nested i f s = s\<lparr>g_nested_vmcs_array := (g_nested_vmcs_array s)[i := f (g_nested_vmcs_array s ! i)]\<rparr>"

section \<open>Registers and memory of the guest\<close>

definition hb_get_reg_value_from_index :: "vm_env \<Rightarrow> nat \<Rightarrow> vm \<Rightarrow> u64" where
  "hb_get_reg_value_from_index env index s =
     (let c = vs_ctx s in
      if index = REG_NUM_RAX then rax c
      else if index = REG_NUM_RCX then rcx c
      else if index = REG_NUM_RDX then rdx c
      else if index = REG_NUM_RBX then rbx c
      else if index = REG_NUM_RSP then hb_read_vmcs env VM_GUEST_RSP 0 s
      else if index = REG_NUM_RBP then rbp c
      else if index = REG_NUM_RSI then rsi c
      else if index = REG_NUM_RDI then rdi c
      else if index = REG_NUM_R8 then r8 c
      else if index = REG_NUM_R9 then r9 c
      else if index = REG_NUM_R10 then r10 c
      else if index = REG_NUM_R11 then r11 c
      else if index = REG_NUM_R12 then r12 c
      else if index = REG_NUM_R13 then r13 c
      else if index = REG_NUM_R14 then r14 c
      else if index = REG_NUM_R15 then r15 c
      else 0)"

definition hb_set_reg_value_from_index :: "vm_env \<Rightarrow> nat \<Rightarrow> u64 \<Rightarrow> vm \<Rightarrow> vm" where
  "hb_set_reg_value_from_index env index v s =
     (if index = REG_NUM_RAX then set_ctx (\<lambda>c. c\<lparr>rax := v\<rparr>) s
      else if index = REG_NUM_RCX then set_ctx (\<lambda>c. c\<lparr>rcx := v\<rparr>) s
      else if index = REG_NUM_RDX then set_ctx (\<lambda>c. c\<lparr>rdx := v\<rparr>) s
      else if index = REG_NUM_RBX then set_ctx (\<lambda>c. c\<lparr>rbx := v\<rparr>) s
      else if index = REG_NUM_RSP then hb_write_vmcs env VM_GUEST_RSP v s
      else if index = REG_NUM_RBP then set_ctx (\<lambda>c. c\<lparr>rbp := v\<rparr>) s
      else if index = REG_NUM_RSI then set_ctx (\<lambda>c. c\<lparr>rsi := v\<rparr>) s
      else if index = REG_NUM_RDI then set_ctx (\<lambda>c. c\<lparr>rdi := v\<rparr>) s
      else if index = REG_NUM_R8 then set_ctx (\<lambda>c. c\<lparr>r8 := v\<rparr>) s
      else if index = REG_NUM_R9 then set_ctx (\<lambda>c. c\<lparr>r9 := v\<rparr>) s
      else if index = REG_NUM_R10 then set_ctx (\<lambda>c. c\<lparr>r10 := v\<rparr>) s
      else if index = REG_NUM_R11 then set_ctx (\<lambda>c. c\<lparr>r11 := v\<rparr>) s
      else if index = REG_NUM_R12 then set_ctx (\<lambda>c. c\<lparr>r12 := v\<rparr>) s
      else if index = REG_NUM_R13 then set_ctx (\<lambda>c. c\<lparr>r13 := v\<rparr>) s
      else if index = REG_NUM_R14 then set_ctx (\<lambda>c. c\<lparr>r14 := v\<rparr>) s
      else if index = REG_NUM_R15 then set_ctx (\<lambda>c. c\<lparr>r15 := v\<rparr>) s
      else s)"

definition hb_calc_dest_mem_addr :: "vm_env \<Rightarrow> u64 \<Rightarrow> vm \<Rightarrow> u64" where
  "hb_calc_dest_mem_addr env inst_info s =
     (let dest_addr = 0;
          dest_addr = (if inst_info AND VM_INST_INFO_IDX_REG_INVALID = 0
            then push_bit (VM_INST_INFO_SCALE inst_info)
                   (dest_addr + hb_get_reg_value_from_index env (VM_INST_INFO_IDX_REG inst_info) s)
            else dest_addr)
      in if inst_info AND VM_INST_INFO_BASE_REG_INVALID = 0
         then dest_addr + hb_get_reg_value_from_index env (VM_INST_INFO_BASE_REG inst_info) s
         else dest_addr)"

text \<open>Little endian access to \<open>n\<close> bytes.\<close>

fun store_bytes :: "nat \<Rightarrow> u64 \<Rightarrow> u64 \<Rightarrow> (u64 \<Rightarrow> u8) \<Rightarrow> (u64 \<Rightarrow> u8)" where
  "store_bytes 0 a v m = m"
| "store_bytes (Suc n) a v m = store_bytes n (a + 1) (drop_bit 8 v) (m(a := ucast v))"

fun load_bytes :: "nat \<Rightarrow> u64 \<Rightarrow> (u64 \<Rightarrow> u8) \<Rightarrow> u64" where
  "load_bytes 0 a m = 0"
| "load_bytes (Suc n) a m = ucast (m a) OR push_bit 8 (load_bytes n (a + 1) m)"

definition mem_store :: "nat \<Rightarrow> u64 \<Rightarrow> u64 \<Rightarrow> vm \<Rightarrow> vm" where
  "mem_store n a v s = s\<lparr>vs_mem := store_bytes n a v (vs_mem s)\<rparr>"

definition mem_load :: "nat \<Rightarrow> u64 \<Rightarrow> vm \<Rightarrow> u64" where
  "mem_load n a s = load_bytes n a (vs_mem s)"

definition hb_set_value_to_memory :: "u64 \<Rightarrow> u64 \<Rightarrow> u64 \<Rightarrow> vm \<Rightarrow> vm" where
  "hb_set_value_to_memory inst_info addr v s =
     (let sz = VM_INST_INFO_ADDR_SIZE inst_info in
      if sz = VM_INST_INFO_ADDR_SIZE_16BIT then mem_store 2 addr v s
      else if sz = VM_INST_INFO_ADDR_SIZE_32BIT then mem_store 4 addr v s
      else if sz = VM_INST_INFO_ADDR_SIZE_64BIT then mem_store 8 addr v s
      else s)"

definition hb_get_value_from_memory :: "u64 \<Rightarrow> u64 \<Rightarrow> vm \<Rightarrow> u64" where
  "hb_get_value_from_memory inst_info addr s =
     (let sz = VM_INST_INFO_ADDR_SIZE inst_info in
      if sz = VM_INST_INFO_ADDR_SIZE_16BIT then mem_load 2 addr s
      else if sz = VM_INST_INFO_ADDR_SIZE_32BIT then mem_load 4 addr s
      else if sz = VM_INST_INFO_ADDR_SIZE_64BIT then mem_load 8 addr s
      else 0)"

section \<open>Shadow VMCS\<close>

text \<open>\<open>hb_backup_host_register\<close> and \<open>hb_copy_host_reg_to_guest\<close>: the part of the host state of the
  nested VMCS that the hypervisor of the guest expects after its exit.\<close>

definition hb_backup_host_register :: "vm_env \<Rightarrow> hb_nested_vmcs_struct \<Rightarrow> vm \<Rightarrow> u64 \<times> u64 \<times> u64" where
  "hb_backup_host_register env nested_vmcs s =
     (nv_cr3 nested_vmcs,
      hb_read_vmcs env VM_HOST_FS_BASE (uninit env) s,
      hb_read_vmcs env VM_HOST_GS_BASE (uninit env) s)"

definition hb_copy_host_reg_to_guest :: "vm_env \<Rightarrow> u64 \<times> u64 \<times> u64 \<Rightarrow> vm \<Rightarrow> vm" where
  "hb_copy_host_reg_to_guest env regs s =
     (let (cr3, fs_base_addr, gs_base_addr) = regs;
          s = hb_write_vmcs env VM_GUEST_CR3 cr3 s;
          s = hb_write_vmcs env VM_GUEST_FS_BASE fs_base_addr s
      in hb_write_vmcs env VM_GUEST_GS_BASE gs_base_addr s)"

definition hb_vm_set_vmcs_shadowing_to_current :: "vm_env \<Rightarrow> u64 \<Rightarrow> vm \<Rightarrow> vm" where
  "hb_vm_set_vmcs_shadowing_to_current env shadow_vmcs_phy_addr s =
     (if g_support_vmcs_shadowing env = 0 then s
      else
        let s = snd (hb_clear_vmcs env shadow_vmcs_phy_addr s);
            s = s\<lparr>vs_revision := (vs_revision s)(shadow_vmcs_phy_addr :=
                    vs_revision s shadow_vmcs_phy_addr OR VM_BIT_REVISION_SHADOW_VMCS)\<rparr>
        in hb_write_vmcs env VM_VMCS_LINK_PTR shadow_vmcs_phy_addr s)"

definition hb_vm_clear_vmcs_shadowing_to_current :: "vm_env \<Rightarrow> vm \<Rightarrow> vm" where
  "hb_vm_clear_vmcs_shadowing_to_current env s =
     (if g_support_vmcs_shadowing env = 0 then s
      else
        let shadow_vmcs_phy_addr = hb_read_vmcs env VM_VMCS_LINK_PTR (uninit env) s in
        if shadow_vmcs_phy_addr = 0xFFFFFFFFFFFFFFFF then s
        else
          let s = hb_write_vmcs env VM_VMCS_LINK_PTR 0xFFFFFFFFFFFFFFFF s;
              s = snd (hb_clear_vmcs env shadow_vmcs_phy_addr s)
          in s\<lparr>vs_revision := (vs_revision s)(shadow_vmcs_phy_addr :=
                 vs_revision s shadow_vmcs_phy_addr AND NOT VM_BIT_REVISION_SHADOW_VMCS)\<rparr>)"

section \<open>Reading and writing\<close>

text \<open>\<open>vm_field s f\<close> is the field \<open>f\<close> of the current VMCS.\<close>

definition vm_field :: "vm \<Rightarrow> u64 \<Rightarrow> u64" where
  "vm_field s f = vs_vmcs s (vs_current s) f"

definition vm_ok :: "vm_env \<Rightarrow> vm \<Rightarrow> bool" where
  "vm_ok env s \<longleftrightarrow> sdm_fields env \<and> vs_current s \<noteq> NO_VMCS"

lemmas vmcs_field_defs =
  VM_GUEST_CS_SELECTOR_def VM_GUEST_LDTR_SELECTOR_def VM_GUEST_TR_SELECTOR_def VM_VMCS_LINK_PTR_def
  VM_GUEST_GDTR_LIMIT_def VM_GUEST_IDTR_LIMIT_def VM_GUEST_VMX_PRE_TIMER_VALUE_def VM_GUEST_CR0_def
  VM_GUEST_CR3_def VM_GUEST_CR4_def VM_GUEST_FS_BASE_def VM_GUEST_GS_BASE_def VM_GUEST_GDTR_BASE_def
  VM_GUEST_IDTR_BASE_def VM_GUEST_RSP_def VM_GUEST_RIP_def VM_GUEST_RFLAGS_def VM_GUEST_ACTIVITY_STATE_def
  VM_HOST_CR3_def VM_HOST_FS_BASE_def VM_HOST_GS_BASE_def VM_HOST_RSP_def VM_HOST_RIP_def
  VM_CTRL_SEC_PROC_BASED_EXE_CTRL_def VM_CTRL_VM_ENTRY_INT_INFO_FIELD_def VM_CTRL_VM_ENTRY_EXCEPT_ERR_CODE_def
  VM_CTRL_VM_ENTRY_INST_LENGTH_def VM_DATA_GUEST_PHY_ADDR_def VM_DATA_EXIT_REASON_def
  VM_DATA_VM_EXIT_INT_INFO_def VM_DATA_VM_EXIT_INST_LENGTH_def VM_DATA_VM_EXIT_INST_INFO_def
  VM_DATA_EXIT_QUALIFICATION_def VM_DATA_GUEST_LINEAR_ADDR_def

lemma sdm_member:
  "sdm_fields env \<Longrightarrow> f \<in> set vmcs_state_fields \<union> set vmcs_data_fields \<Longrightarrow> hw_readable env f"
  "sdm_fields env \<Longrightarrow> f \<in> set vmcs_state_fields \<Longrightarrow> hw_writable env f"
  by (auto simp: sdm_fields_def)

lemma sdm_named [simp]:
  assumes "sdm_fields env"
  shows
  "hw_readable env VM_GUEST_CS_SELECTOR" "hw_readable env VM_GUEST_LDTR_SELECTOR"
  "hw_readable env VM_GUEST_TR_SELECTOR" "hw_readable env VM_VMCS_LINK_PTR"
  "hw_readable env VM_GUEST_GDTR_LIMIT" "hw_readable env VM_GUEST_IDTR_LIMIT"
  "hw_readable env VM_GUEST_VMX_PRE_TIMER_VALUE" "hw_readable env VM_GUEST_CR0" "hw_readable env VM_GUEST_CR3"
  "hw_readable env VM_GUEST_CR4" "hw_readable env VM_GUEST_FS_BASE" "hw_readable env VM_GUEST_GS_BASE"
  "hw_readable env VM_GUEST_GDTR_BASE" "hw_readable env VM_GUEST_IDTR_BASE" "hw_readable env VM_GUEST_RSP"
  "hw_readable env VM_GUEST_RIP" "hw_readable env VM_GUEST_RFLAGS" "hw_readable env VM_GUEST_ACTIVITY_STATE"
  "hw_readable env VM_HOST_CR3" "hw_readable env VM_HOST_FS_BASE" "hw_readable env VM_HOST_GS_BASE"
  "hw_readable env VM_HOST_RSP" "hw_readable env VM_HOST_RIP" "hw_readable env VM_CTRL_SEC_PROC_BASED_EXE_CTRL"
  "hw_readable env VM_CTRL_VM_ENTRY_INT_INFO_FIELD" "hw_readable env VM_CTRL_VM_ENTRY_EXCEPT_ERR_CODE"
  "hw_readable env VM_CTRL_VM_ENTRY_INST_LENGTH" "hw_readable env VM_DATA_GUEST_PHY_ADDR"
  "hw_readable env VM_DATA_EXIT_REASON" "hw_readable env VM_DATA_VM_EXIT_INT_INFO"
  "hw_readable env VM_DATA_VM_EXIT_INST_LENGTH" "hw_readable env VM_DATA_VM_EXIT_INST_INFO"
  "hw_readable env VM_DATA_EXIT_QUALIFICATION" "hw_readable env VM_DATA_GUEST_LINEAR_ADDR"
  "hw_writable env VM_GUEST_CS_SELECTOR" "hw_writable env VM_GUEST_LDTR_SELECTOR"
  "hw_writable env VM_GUEST_TR_SELECTOR" "hw_writable env VM_VMCS_LINK_PTR"
  "hw_writable env VM_GUEST_GDTR_LIMIT" "hw_writable env VM_GUEST_IDTR_LIMIT"
  "hw_writable env VM_GUEST_VMX_PRE_TIMER_VALUE" "hw_writable env VM_GUEST_CR0" "hw_writable env VM_GUEST_CR3"
  "hw_writable env VM_GUEST_CR4" "hw_writable env VM_GUEST_FS_BASE" "hw_writable env VM_GUEST_GS_BASE"
  "hw_writable env VM_GUEST_GDTR_BASE" "hw_writable env VM_GUEST_IDTR_BASE" "hw_writable env VM_GUEST_RSP"
  "hw_writable env VM_GUEST_RIP" "hw_writable env VM_GUEST_RFLAGS" "hw_writable env VM_GUEST_ACTIVITY_STATE"
  "hw_writable env VM_HOST_CR3" "hw_writable env VM_HOST_FS_BASE" "hw_writable env VM_HOST_GS_BASE"
  "hw_writable env VM_HOST_RSP" "hw_writable env VM_HOST_RIP" "hw_writable env VM_CTRL_SEC_PROC_BASED_EXE_CTRL"
  "hw_writable env VM_CTRL_VM_ENTRY_INT_INFO_FIELD" "hw_writable env VM_CTRL_VM_ENTRY_EXCEPT_ERR_CODE"
  "hw_writable env VM_CTRL_VM_ENTRY_INST_LENGTH"
  by (rule sdm_member [OF assms]; simp add: vmcs_state_fields_def vmcs_data_fields_def)+

lemma field_width_named [simp]:
  "field_width VM_GUEST_CS_SELECTOR = 16"
  "field_width VM_GUEST_LDTR_SELECTOR = 16"
  "field_width VM_GUEST_TR_SELECTOR = 16"
  "field_width VM_VMCS_LINK_PTR = 64"
  "field_width VM_GUEST_GDTR_LIMIT = 32"
  "field_width VM_GUEST_IDTR_LIMIT = 32"
  "field_width VM_GUEST_VMX_PRE_TIMER_VALUE = 32"
  "field_width VM_GUEST_CR0 = 64"
  "field_width VM_GUEST_CR3 = 64"
  "field_width VM_GUEST_CR4 = 64"
  "field_width VM_GUEST_FS_BASE = 64"
  "field_width VM_GUEST_GS_BASE = 64"
  "field_width VM_GUEST_GDTR_BASE = 64"
  "field_width VM_GUEST_IDTR_BASE = 64"
  "field_width VM_GUEST_RSP = 64"
  "field_width VM_GUEST_RIP = 64"
  "field_width VM_GUEST_RFLAGS = 64"
  "field_width VM_GUEST_ACTIVITY_STATE = 32"
  "field_width VM_HOST_CR3 = 64"
  "field_width VM_HOST_FS_BASE = 64"
  "field_width VM_HOST_GS_BASE = 64"
  "field_width VM_HOST_RSP = 64"
  "field_width VM_HOST_RIP = 64"
  "field_width VM_CTRL_SEC_PROC_BASED_EXE_CTRL = 32"
  "field_width VM_CTRL_VM_ENTRY_INT_INFO_FIELD = 32"
  "field_width VM_CTRL_VM_ENTRY_EXCEPT_ERR_CODE = 32"
  "field_width VM_CTRL_VM_ENTRY_INST_LENGTH = 32"
  by (simp_all add: field_width_def hb_consts)

text \<open>The same facts for the encodings, for proofs that unfold the macros to tell fields apart.\<close>

lemmas sdm_numeral [simp] = sdm_named [unfolded hb_consts]
lemmas field_width_numeral [simp] = field_width_named [unfolded hb_consts]

lemma read_field: "vm_ok env s \<Longrightarrow> hw_readable env f \<Longrightarrow> hb_read_vmcs env f old s = vm_field s f"
  by (simp add: hb_read_vmcs_def vm_ok_def vm_field_def)

lemma write_field:
  "vm_ok env s \<Longrightarrow> hw_writable env f \<Longrightarrow>
     vm_field (hb_write_vmcs env f v s) g = (if g = f then take_bit (field_width f) v else vm_field s g)"
  by (simp add: hb_write_vmcs_def vm_ok_def vm_field_def)

lemma write_field_other: "g \<noteq> f \<Longrightarrow> vm_field (hb_write_vmcs env f v s) g = vm_field s g"
  by (simp add: hb_write_vmcs_def vm_field_def)

lemma write_select [simp]:
  "vs_current (hb_write_vmcs env f v s) = vs_current s" "vs_revision (hb_write_vmcs env f v s) = vs_revision s"
  "vs_launched (hb_write_vmcs env f v s) = vs_launched s" "vs_mem (hb_write_vmcs env f v s) = vs_mem s"
  "vs_dr (hb_write_vmcs env f v s) = vs_dr s" "vs_msr (hb_write_vmcs env f v s) = vs_msr s"
  "vs_events (hb_write_vmcs env f v s) = vs_events s" "vs_ctx (hb_write_vmcs env f v s) = vs_ctx s"
  "g_vmx_root_mode (hb_write_vmcs env f v s) = g_vmx_root_mode s"
  "g_nested_vmcs_ptr (hb_write_vmcs env f v s) = g_nested_vmcs_ptr s"
  "g_nested_vmcs_array (hb_write_vmcs env f v s) = g_nested_vmcs_array s"
  "g_test_dr (hb_write_vmcs env f v s) = g_test_dr s" "vs_creds (hb_write_vmcs env f v s) = vs_creds s"
  "vs_prot (hb_write_vmcs env f v s) = vs_prot s" "vs_mon (hb_write_vmcs env f v s) = vs_mon s"
  "vm_ok env' (hb_write_vmcs env f v s) = vm_ok env' s"
  by (simp_all add: hb_write_vmcs_def vm_ok_def)

lemma vm_ok_fields: "vm_ok env s \<Longrightarrow> sdm_fields env"
  by (simp add: vm_ok_def)

text \<open>Rewriting of the accesses to named fields.\<close>

lemmas vmcs_rw = read_field write_field vm_ok_fields

section \<open>Bytes\<close>

lemma store_bytes_other:
  assumes "\<And>i. i < n \<Longrightarrow> a + of_nat i \<noteq> x"
  shows "store_bytes n a v m x = m x"
  using assms
proof (induction n arbitrary: a v m)
  case (Suc n)
  have "a + 1 + of_nat i \<noteq> x" if "i < n" for i
    using Suc.prems [of "Suc i"] that by (simp add: add.assoc)
  moreover have "a \<noteq> x" using Suc.prems [of 0] by simp
  ultimately show ?case using Suc.IH by simp
qed simp

lemma load_store_bytes:
  assumes "n \<le> 8"
  shows "load_bytes n a (store_bytes n a v m) = take_bit (8 * n) v"
  using assms
proof (induction n arbitrary: a v m)
  case (Suc n)
  have "a + 1 + of_nat i \<noteq> a" if "i < n" for i
  proof -
    have "of_nat (Suc i) \<noteq> (0 :: u64)"
      using that Suc.prems by (simp only: of_nat_eq_0_iff word_of_nat_eq_0_iff) (auto dest!: dvd_imp_le)
    then show ?thesis by (simp add: add.assoc)
  qed
  then have "store_bytes n (a + 1) (drop_bit 8 v) (m(a := ucast v)) a = ucast v"
    by (subst store_bytes_other) simp_all
  then have "load_bytes (Suc n) a (store_bytes (Suc n) a v m) =
      ucast (ucast v :: u8) OR push_bit 8 (take_bit (8 * n) (drop_bit 8 v))"
    using Suc by simp
  also have "\<dots> = take_bit (8 * Suc n) v"
    by (rule bit_word_eqI) (auto simp: bit_simps)
  finally show ?case .
qed simp

end
