(* ===== verification/Vm_Exit.thy ===== *)
theory Vm_Exit
  imports Vmcs
begin

text \<open>
  The handlers of VM exits (hypervisor.c, from \<open>hb_vm_exit_callback\<close> on). A handler maps the state of the machine to
  its next state; \<open>None\<close> stands for a handler that does not come back (an EPT access out of the tables, or the
  reset of the machine).
\<close>

section \<open>Exceptions\<close>

definition NR_exit :: u64 where [hb_consts]: "NR_exit = 60"

definition on_mon :: "(monitor \<Rightarrow> monitor option) \<Rightarrow> vm \<Rightarrow> vm option" where
  "on_mon f s = map_option (\<lambda>t. s\<lparr>vs_mon := t\<rparr>) (f (vs_mon s))"

definition on_prot :: "(prot_state \<Rightarrow> prot_state option) \<Rightarrow> vm \<Rightarrow> vm option" where
  "on_prot f s = map_option (\<lambda>t. s\<lparr>vs_prot := t\<rparr>) (f (vs_prot s))"

text \<open>The breakpoint registers 0 to 3 are set on the functions for new tasks, exiting tasks, system calls and
  credentials. The number of the system call is taken as an \<open>int\<close>; the credentials that \<open>commit_creds\<close> is about to
  install are the object at RDI.\<close>

definition hb_handle_systemcall_breakpoints :: "vm_env \<Rightarrow> u64 \<Rightarrow> vm \<Rightarrow> vm option" where
  "hb_handle_systemcall_breakpoints env dr6 s =
     (let kt = ve_tasks env; current = ve_current_task env; menv = ve_monitor env; c = vs_ctx s in
      if dr6 AND DR_BIT_SYSCALL_64 \<noteq> 0 then do {
        (ret, t) \<leftarrow> hb_callback_check_cred_update_syscall menv kt current (sint (ucast (rax c) :: u32)) (vs_mon s);
        let s = s\<lparr>vs_mon := t\<rparr>;
        Some (if ret \<noteq> 0 then set_ctx (\<lambda>c. c\<lparr>rax := NR_exit, rdx := -1\<rparr>) s else s)
      }
      else if dr6 AND DR_BIT_ADD_TASK \<noteq> 0 then
        on_mon (hb_callback_add_task menv kt current (rdi c)) s
      else if dr6 AND DR_BIT_DEL_TASK \<noteq> 0 then
        Some (s\<lparr>vs_mon := hb_callback_del_task menv (rdi c) (vs_mon s)\<rparr>)
      else if dr6 AND DR_BIT_COMMIT_CREDS \<noteq> 0 then do {
        (new, t) \<leftarrow> hb_callback_update_cred menv kt current current (vs_creds s (rdi c)) (vs_mon s);
        Some (s\<lparr>vs_mon := t, vs_creds := (vs_creds s)(rdi c := new)\<rparr>)
      }
      else Some s)"

definition hb_vm_exit_callback_int :: "vm_env \<Rightarrow> u64 \<Rightarrow> vm \<Rightarrow> vm option" where
  "hb_vm_exit_callback_int env dr6 s =
     (let info_field = hb_read_vmcs env VM_DATA_VM_EXIT_INT_INFO (uninit env) s;
          vector = VM_EXIT_INT_INFO_VECTOR info_field;
          type = VM_EXIT_INT_INFO_INT_TYPE info_field
      in if type \<noteq> VM_EXIT_INT_TYPE_NMI \<and> vector \<noteq> VM_INT_DEBUG_EXCEPTION then Some s
         else do {
           s \<leftarrow> (if hb_is_system_shutdowning env = 0 then hb_handle_systemcall_breakpoints env dr6 s else Some s);
           let s = set_debugreg (dr6 AND 0xfffffffffffffff0) 6 s;
           let rflags = hb_read_vmcs env VM_GUEST_RFLAGS (uninit env) s;
           let s = hb_write_vmcs env VM_GUEST_RFLAGS (rflags OR RFLAGS_BIT_RF) s;
           Some (hb_remove_int_exception_from_vm env vector s)
         })"

text \<open>An INIT signal while the system restarts: VMX is switched off and the machine is reset through an empty
  interrupt table. SYSTEM_RESTART is 5.\<close>

definition hb_vm_exit_callback_init_signal :: "vm_env \<Rightarrow> vm \<Rightarrow> vm option" where
  "hb_vm_exit_callback_init_signal env s = (if system_state env = 5 then None else Some s)"

definition hb_vm_exit_callback_start_up_signal :: "vm_env \<Rightarrow> vm \<Rightarrow> vm" where
  "hb_vm_exit_callback_start_up_signal env s = s"

section \<open>Control registers\<close>

definition read_cr :: "vm_env \<Rightarrow> nat \<Rightarrow> vm \<Rightarrow> u64" where
  "read_cr env n s =
     (if n = REG_NUM_CR0 then hb_read_vmcs env VM_GUEST_CR0 0 s
      else if n = REG_NUM_CR2 then hw_cr2 env
      else if n = REG_NUM_CR3 then hb_read_vmcs env VM_GUEST_CR3 0 s
      else if n = REG_NUM_CR4 then hb_read_vmcs env VM_GUEST_CR4 0 s
      else if n = REG_NUM_CR8 then hw_cr8 env
      else 0)"

definition write_cr :: "vm_env \<Rightarrow> nat \<Rightarrow> u64 \<Rightarrow> vm \<Rightarrow> vm" where
  "write_cr env n reg_value s =
     (if n = REG_NUM_CR0 then hb_write_vmcs env VM_GUEST_CR0 (reg_value OR CR0_BIT_WP) s
      else if n = REG_NUM_CR3 then hb_write_vmcs env VM_GUEST_CR3 reg_value s
      else if n = REG_NUM_CR4 then
        hb_write_vmcs env VM_GUEST_CR4 ((reg_value OR (CR4_BIT_VMXE OR CR4_BIT_SMEP)) AND NOT CR4_BIT_MCE) s
      else s)"

definition hb_vm_exit_callback_access_cr :: "vm_env \<Rightarrow> u64 \<Rightarrow> vm \<Rightarrow> vm" where
  "hb_vm_exit_callback_access_cr env exit_qual s =
     (let acc = VM_EXIT_QUAL_CTRL_REG_ACC_GET_ACC_TYPE exit_qual;
          cr = VM_EXIT_QUAL_CTRL_REG_ACC_GET_CTRL_REG_NUMBER exit_qual;
          gp = VM_EXIT_QUAL_CTRL_REG_ACC_GET_GP_REG_NUMBER exit_qual;
          s = (if acc = VM_EXIT_QUAL_CTRL_REG_ACC_MOVE_FROM_CR then
                 hb_set_reg_value_from_index env gp (read_cr env cr s) s
               else if acc = VM_EXIT_QUAL_CTRL_REG_ACC_MOVE_TO_CR then
                 write_cr env cr (hb_get_reg_value_from_index env gp s) s
               else s)
      in hb_advance_vm_guest_rip env s)"

section \<open>Calls of the hypervisor\<close>

definition hb_vm_exit_callback_vmcall :: "vm_env \<Rightarrow> vm \<Rightarrow> vm" where
  "hb_vm_exit_callback_vmcall env s =
     (let svr_num = rax (vs_ctx s);
          s = set_ctx (\<lambda>c. c\<lparr>rax := 0\<rparr>) s;
          s = hb_clear_vmx_inst_flags env s;
          cs_selector = hb_read_vmcs env VM_GUEST_CS_SELECTOR (uninit env) s
      in if cs_selector AND MASK_GDT_ACCESS \<noteq> 0
         then hb_advance_vm_guest_rip env (hb_insert_ud_exception_to_vm env s)
         else
           let s = hb_advance_vm_guest_rip env s
           in if svr_num = VM_SERVICE_GET_LOGINFO then set_ctx (\<lambda>c. c\<lparr>rax := g_log_info env\<rparr>) s else s)"

section \<open>Descriptor tables\<close>

text \<open>The operand of an instruction: memory, or a register for a set bit 10 of the instruction information.\<close>

definition inst_operand :: "vm_env \<Rightarrow> u64 \<Rightarrow> vm \<Rightarrow> bool \<times> u64" where
  "inst_operand env inst_info s =
     (if VM_INST_INFO_MEM_REG inst_info = 0 then (True, hb_calc_dest_mem_addr env inst_info s)
      else (False, hb_get_reg_value_from_index env (VM_INST_INFO_REG1 inst_info) s))"

text \<open>\<open>struct desc_ptr\<close> is packed: the limit at offset 0, the base at offset 2.\<close>

definition store_desc_ptr :: "vm_env \<Rightarrow> u64 \<Rightarrow> u64 \<Rightarrow> u64 \<Rightarrow> vm \<Rightarrow> vm" where
  "store_desc_ptr env dest base_field limit_field s =
     (let s = mem_store 8 (dest + 2) (hb_read_vmcs env base_field (uninit env) s) s
      in mem_store 2 dest (hb_read_vmcs env limit_field (uninit env) s) s)"

definition load_desc_ptr :: "vm_env \<Rightarrow> u64 \<Rightarrow> u64 \<Rightarrow> u64 \<Rightarrow> vm \<Rightarrow> vm" where
  "load_desc_ptr env dest base_field limit_field s =
     (let s = hb_write_vmcs env base_field (mem_load 8 (dest + 2) s) s
      in hb_write_vmcs env limit_field (mem_load 2 dest s) s)"

definition hb_vm_exit_callback_gdtr_idtr :: "vm_env \<Rightarrow> vm \<Rightarrow> vm" where
  "hb_vm_exit_callback_gdtr_idtr env s =
     (if hb_is_system_shutdowning env \<noteq> 0 then hb_disable_desc_monitor env s
      else
        let s = hb_advance_vm_guest_rip env s;
            inst_info = hb_read_vmcs env VM_DATA_VM_EXIT_INST_INFO (uninit env) s;
            exit_qual = hb_read_vmcs env VM_DATA_EXIT_QUALIFICATION (uninit env) s;
            dest_addr = snd (inst_operand env inst_info s) + exit_qual;
            guest_cr3 = hb_read_vmcs env VM_GUEST_CR3 (uninit env) s;
            s = hb_sync_page_table_event dest_addr guest_cr3 s;
            inst = VM_INST_INFO_INST_IDENTITY inst_info
        in if inst = VM_INST_INFO_SGDT then store_desc_ptr env dest_addr VM_GUEST_GDTR_BASE VM_GUEST_GDTR_LIMIT s
           else if inst = VM_INST_INFO_SIDT then store_desc_ptr env dest_addr VM_GUEST_IDTR_BASE VM_GUEST_IDTR_LIMIT s
           else if inst = VM_INST_INFO_LGDT then load_desc_ptr env dest_addr VM_GUEST_GDTR_BASE VM_GUEST_GDTR_LIMIT s
           else if inst = VM_INST_INFO_LIDT then load_desc_ptr env dest_addr VM_GUEST_IDTR_BASE VM_GUEST_IDTR_LIMIT s
           else s)"

definition put_operand :: "vm_env \<Rightarrow> u64 \<Rightarrow> bool \<Rightarrow> u64 \<Rightarrow> u64 \<Rightarrow> vm \<Rightarrow> vm" where
  "put_operand env inst_info memory dest_addr v s =
     (if memory then hb_set_value_to_memory inst_info dest_addr v s
      else hb_set_reg_value_from_index env (VM_INST_INFO_REG1 inst_info) v s)"

definition hb_vm_exit_callback_ldtr_tr :: "vm_env \<Rightarrow> vm \<Rightarrow> vm" where
  "hb_vm_exit_callback_ldtr_tr env s =
     (let inst_info = hb_read_vmcs env VM_DATA_VM_EXIT_INST_INFO (uninit env) s;
          exit_qual = hb_read_vmcs env VM_DATA_EXIT_QUALIFICATION (uninit env) s;
          (memory, dest_addr) = inst_operand env inst_info s;
          dest_addr = dest_addr + exit_qual;
          s = (if memory
               then hb_sync_page_table_event dest_addr (hb_read_vmcs env VM_GUEST_CR3 (uninit env) s) s else s);
          inst = VM_INST_INFO_INST_IDENTITY inst_info;
          operand = (if memory then hb_get_value_from_memory inst_info dest_addr s else dest_addr);
          s = (if inst = VM_INST_INFO_SLDT then
                 put_operand env inst_info memory dest_addr (hb_read_vmcs env VM_GUEST_LDTR_SELECTOR (uninit env) s) s
               else if inst = VM_INST_INFO_STR then
                 put_operand env inst_info memory dest_addr (hb_read_vmcs env VM_GUEST_TR_SELECTOR (uninit env) s) s
               else if inst = VM_INST_INFO_LLDT then
                 (if operand = 0 then hb_write_vmcs env VM_GUEST_LDTR_SELECTOR operand s
                  else hb_insert_ud_exception_to_vm env s)
               else if inst = VM_INST_INFO_LTR then hb_write_vmcs env VM_GUEST_TR_SELECTOR operand s
               else s)
      in hb_advance_vm_guest_rip env s)"

section \<open>VMX instructions of the guest\<close>

definition hb_vm_exit_callback_vmx_inst_type1 :: "vm_env \<Rightarrow> nat \<Rightarrow> u64 \<Rightarrow> vm \<Rightarrow> vm" where
  "hb_vm_exit_callback_vmx_inst_type1 env cpu_id exit_reason s =
     (let inst_info = hb_read_vmcs env VM_DATA_VM_EXIT_INST_INFO (uninit env) s;
          exit_qual = hb_read_vmcs env VM_DATA_EXIT_QUALIFICATION (uninit env) s;
          dest_addr = hb_calc_dest_mem_addr env inst_info s + exit_qual;
          guest_cr3 = hb_read_vmcs env VM_GUEST_CR3 (uninit env) s;
          s = hb_sync_page_table_event dest_addr guest_cr3 s;
          data = mem_load 8 dest_addr s;
          s = hb_advance_vm_guest_rip env s;
          s = hb_clear_vmx_inst_flags env s
      in if exit_reason = VM_EXIT_REASON_VMCLEAR then
           let s = snd (hb_clear_vmcs env data s)
           in if g_nested_vmcs_ptr s cpu_id = data
              then hb_vm_clear_vmcs_shadowing_to_current env
                     (s\<lparr>g_nested_vmcs_ptr := (g_nested_vmcs_ptr s)(cpu_id := 0)\<rparr>)
              else s
         else if exit_reason = VM_EXIT_REASON_VMPTRLD then
           hb_vm_set_vmcs_shadowing_to_current env data
             (s\<lparr>g_nested_vmcs_ptr := (g_nested_vmcs_ptr s)(cpu_id := data)\<rparr>)
         else s)"

text \<open>The host state of a nested VMCS is replaced by the hypervisor's own; what the guest wrote is
  kept in \<open>nested_vmcs\<close>.\<close>

definition nested_host_value ::
  "vm_env \<Rightarrow> nat \<Rightarrow> nat \<Rightarrow> u64 \<Rightarrow> u64 \<Rightarrow> vm \<Rightarrow> u64 \<times> vm" where
  "nested_host_value env cpu_id i reg_field dest_addr s =
     (if reg_field = VM_HOST_RIP then
        (hb_vm_exit_callback_stub env, set_nested i (\<lambda>e. e\<lparr>nv_rip := dest_addr\<rparr>) s)
      else if reg_field = VM_HOST_RSP then
        (g_vm_exit_stack_addr env cpu_id + g_stack_size env - VAL_4KB,
         set_nested i (\<lambda>e. e\<lparr>nv_rsp := dest_addr\<rparr>) s)
      else if reg_field = VM_HOST_CR3 then
        (g_vm_host_phy_pml4 env, set_nested i (\<lambda>e. e\<lparr>nv_cr3 := dest_addr\<rparr>) s)
      else (dest_addr, s))"

definition nested_vmwrite :: "vm_env \<Rightarrow> nat \<Rightarrow> nat \<Rightarrow> u64 \<Rightarrow> u64 \<Rightarrow> u64 \<Rightarrow> vm \<Rightarrow> vm" where
  "nested_vmwrite env cpu_id i reg_field dest_addr prev_vmcs s =
     (let (dest_addr, s) = nested_host_value env cpu_id i reg_field dest_addr s;
          (e, s) = hb_load_vmcs env (g_nested_vmcs_ptr s cpu_id) s
      in if e = 0 then snd (hb_load_vmcs env prev_vmcs (hb_write_vmcs env reg_field dest_addr s)) else s)"

definition nested_vmread :: "vm_env \<Rightarrow> nat \<Rightarrow> nat \<Rightarrow> u64 \<Rightarrow> bool \<Rightarrow> u64 \<Rightarrow> u64 \<Rightarrow> u64 \<Rightarrow> vm \<Rightarrow> vm" where
  "nested_vmread env cpu_id i inst_info memory reg_field dest_addr prev_vmcs s =
     (let (e, s) = hb_load_vmcs env (g_nested_vmcs_ptr s cpu_id) s
      in if e \<noteq> 0 then s
         else
           let nested_vmcs = g_nested_vmcs_array s ! i;
               temp_value = (if reg_field = VM_HOST_RIP then nv_rip nested_vmcs
                 else if reg_field = VM_HOST_RSP then nv_rsp nested_vmcs
                 else if reg_field = VM_HOST_CR3 then nv_cr3 nested_vmcs
                 else hb_read_vmcs env reg_field 0 s)
           in snd (hb_load_vmcs env prev_vmcs (put_operand env inst_info memory dest_addr temp_value s)))"

definition hb_vm_exit_callback_vmx_inst_type2 :: "vm_env \<Rightarrow> nat \<Rightarrow> u64 \<Rightarrow> vm \<Rightarrow> vm" where
  "hb_vm_exit_callback_vmx_inst_type2 env cpu_id exit_reason s =
     (let inst_info = hb_read_vmcs env VM_DATA_VM_EXIT_INST_INFO (uninit env) s;
          exit_qual = hb_read_vmcs env VM_DATA_EXIT_QUALIFICATION (uninit env) s;
          (memory, dest_addr) = inst_operand env inst_info s;
          dest_addr = dest_addr + exit_qual;
          reg_field = hb_get_reg_value_from_index env (VM_INST_INFO_REG2 inst_info) s;
          s = hb_advance_vm_guest_rip env s;
          s = hb_clear_vmx_inst_flags env s;
          prev_vmcs = hb_store_vmcs s
      in case hb_find_nested_vmcs_struct (g_nested_vmcs_ptr s cpu_id) s of
           None \<Rightarrow> s
         | Some i \<Rightarrow>
             let s = set_nested i (\<lambda>e. e\<lparr>nv_vmcs_ptr := g_nested_vmcs_ptr s cpu_id\<rparr>) s in
             if exit_reason = VM_EXIT_REASON_VMWRITE then nested_vmwrite env cpu_id i reg_field dest_addr prev_vmcs s
             else if exit_reason = VM_EXIT_REASON_VMREAD then
               nested_vmread env cpu_id i inst_info memory reg_field dest_addr prev_vmcs s
             else if exit_reason = VM_EXIT_REASON_INVEPT then vm_event (Invept reg_field dest_addr) s
             else if exit_reason = VM_EXIT_REASON_INVVPID then vm_event (Invvpid reg_field dest_addr) s
             else if exit_reason = VM_EXIT_REASON_INVPCID then vm_event (Invpcid reg_field dest_addr) s
             else s)"

section \<open>EPT violations\<close>

text \<open>The work-around addresses are compiled out, in this configuration no address is one.\<close>

definition hb_is_workaround_addr :: "u64 \<Rightarrow> int" where
  "hb_is_workaround_addr addr = 0"

definition hb_vm_exit_callback_ept_violation :: "vm_env \<Rightarrow> u64 \<Rightarrow> u64 \<Rightarrow> vm \<Rightarrow> vm option" where
  "hb_vm_exit_callback_ept_violation env guest_linear guest_physical s =
     (if guest_linear = hb_system_sleep_notify env then do {
        s \<leftarrow> on_prot (on_ept (hb_set_ept_lock_page guest_physical)) s;
        Some (hb_trigger_shutdown_timer env s)
      }
      else if hb_is_system_shutdowning env = 0 then
        (if hb_is_workaround_addr guest_physical = 1
         then on_prot (on_ept (hb_set_ept_all_access_page guest_physical)) s
         else
           let s = hb_insert_ud_exception_to_vm env s;
               cr0 = hb_read_vmcs env VM_GUEST_CR0 (uninit env) s;
               s = (if cr0 AND CR0_BIT_PG \<noteq> 0 \<and> cr0 AND CR0_BIT_WP = 0
                    then hb_write_vmcs env VM_GUEST_CR0 (cr0 OR CR0_BIT_WP) s else s)
           in Some (hb_vm_error_log ERROR_KERNEL_MODIFICATION s))
      else if hb_is_addr_in_kernel_ro_area guest_linear (ro (vs_prot s)) = 0
        then on_prot (on_ept (hb_set_ept_read_only_page guest_physical)) s
      else Some s)"

section \<open>Other instructions\<close>

text \<open>\<open>cpuid_count\<close> stores through pointers to \<open>u32\<close>: the upper halves of the registers are kept.\<close>

definition set_low32 :: "u64 \<Rightarrow> u32 \<Rightarrow> u64" where
  "set_low32 r v = (r AND NOT (mask 32)) OR ucast v"

definition hb_vm_exit_callback_cpuid :: "vm_env \<Rightarrow> vm \<Rightarrow> vm" where
  "hb_vm_exit_callback_cpuid env s =
     (let (a, b, c, d) = hw_cpuid env (ucast (rax (vs_ctx s))) (ucast (rcx (vs_ctx s)));
          s = set_ctx (\<lambda>x. x\<lparr>rax := set_low32 (rax x) a, rbx := set_low32 (rbx x) b,
                            rcx := set_low32 (rcx x) c, rdx := set_low32 (rdx x) d\<rparr>) s
      in hb_advance_vm_guest_rip env s)"

definition hb_vm_exit_callback_invd :: "vm_env \<Rightarrow> vm \<Rightarrow> vm" where
  "hb_vm_exit_callback_invd env s = hb_advance_vm_guest_rip env (vm_event Invd s)"

text \<open>MSR_IA32_VMX_MISC is 0x485. The timer runs at the rate of the time stamp counter divided by a power of two.\<close>

definition VM_PRE_TIMER_VALUE :: "vm_env \<Rightarrow> u64" where
  "VM_PRE_TIMER_VALUE env = ucast (tsc_khz env) * 1024 * ucast TIMER_INTERVAL div 1000000"

definition hb_calc_vm_pre_timer_value :: "vm_env \<Rightarrow> vm \<Rightarrow> u64" where
  "hb_calc_vm_pre_timer_value env s =
     (let scale = hb_rdmsr 0x485 s AND 0x1F in drop_bit (unat scale) (VM_PRE_TIMER_VALUE env))"

definition hb_vm_exit_callback_pre_timer_expired :: "vm_env \<Rightarrow> vm \<Rightarrow> vm option" where
  "hb_vm_exit_callback_pre_timer_expired env s = do {
     s \<leftarrow> (if hb_is_system_shutdowning env = 0
           then on_mon (hb_callback_vm_timer (ve_monitor env) (ve_clock env) (ve_tasks env) (ve_procs env)
                  (ro (vs_prot s)) (ve_objects env) (g_need_init_in_secure s)) s
           else Some s);
     Some (hb_write_vmcs env VM_GUEST_VMX_PRE_TIMER_VALUE (hb_calc_vm_pre_timer_value env s) s)
   }"

definition exit_rdmsr :: "vm_env \<Rightarrow> vm \<Rightarrow> vm" where
  "exit_rdmsr env s =
     (let temp_value = hb_rdmsr (rcx (vs_ctx s)) s;
          s = set_ctx (\<lambda>c. c\<lparr>rdx := drop_bit 32 temp_value, rax := temp_value AND 0xFFFFFFFF\<rparr>) s
      in hb_advance_vm_guest_rip env s)"

definition exit_wrmsr :: "vm_env \<Rightarrow> vm \<Rightarrow> vm" where
  "exit_wrmsr env s =
     (let temp_value = push_bit 32 (rdx (vs_ctx s)) OR (rax (vs_ctx s) AND 0xFFFFFFFF)
      in hb_advance_vm_guest_rip env (hb_wrmsr (rcx (vs_ctx s)) temp_value s))"

definition exit_xsetbv :: "vm_env \<Rightarrow> vm \<Rightarrow> vm" where
  "exit_xsetbv env s =
     (let s = hb_advance_vm_guest_rip env s;
          temp_value = push_bit 32 (rdx (vs_ctx s)) OR rax (vs_ctx s)
      in vm_event (Xsetbv (rcx (vs_ctx s)) temp_value) s)"

section \<open>Entry into a nested guest\<close>

definition host_stack :: "vm_env \<Rightarrow> nat \<Rightarrow> u64" where
  "host_stack env cpu_id = g_vm_exit_stack_addr env cpu_id + g_stack_size env - VAL_4KB"

definition exit_vmlaunch :: "vm_env \<Rightarrow> nat \<Rightarrow> vm \<Rightarrow> vm" where
  "exit_vmlaunch env cpu_id s =
     (let s = hb_advance_vm_guest_rip env s;
          s = hb_vm_clear_vmcs_shadowing_to_current env s;
          s = hb_clear_vmx_inst_flags env s;
          (e, s) = hb_load_vmcs env (g_nested_vmcs_ptr s cpu_id) s;
          s = (if e = 0 then set_ctx (\<lambda>c. c\<lparr>vm_launch := 1\<rparr>) s else s)
      in hb_write_vmcs env VM_HOST_RSP (host_stack env cpu_id) s)"

definition exit_vmresume :: "vm_env \<Rightarrow> nat \<Rightarrow> vm \<Rightarrow> vm" where
  "exit_vmresume env cpu_id s =
     (let s = hb_advance_vm_guest_rip env s;
          s = hb_vm_clear_vmcs_shadowing_to_current env s;
          s = hb_clear_vmx_inst_flags env s;
          s = snd (hb_load_vmcs env (g_nested_vmcs_ptr s cpu_id) s);
          s = hb_write_vmcs env VM_HOST_RSP (host_stack env cpu_id) s
      in if g_support_vmcs_shadowing env = 1 then set_ctx (\<lambda>c. c\<lparr>vm_launch := 1\<rparr>) s else s)"

text \<open>An exit of a nested guest: control goes back to the hypervisor of the guest, at the host state that it had
  asked for.\<close>

definition exit_from_nested :: "vm_env \<Rightarrow> nat \<Rightarrow> u64 \<Rightarrow> vm \<Rightarrow> vm" where
  "exit_from_nested env cpu_id prev_vmcs s =
     (case hb_find_nested_vmcs_struct prev_vmcs s of
        None \<Rightarrow> s
      | Some i \<Rightarrow>
          let nested_vmcs = g_nested_vmcs_array s ! i;
              kvm_host_regs = hb_backup_host_register env nested_vmcs s;
              s = snd (hb_load_vmcs env (g_guest_vmcs_phy_addr env cpu_id) s);
              s = hb_copy_host_reg_to_guest env kvm_host_regs s;
              s = hb_write_vmcs env VM_GUEST_RIP (nv_rip nested_vmcs) s;
              s = hb_write_vmcs env VM_GUEST_RSP (nv_rsp nested_vmcs) s;
              s = hb_write_vmcs env VM_GUEST_RFLAGS 0x02 s;
              s = hb_vm_set_vmcs_shadowing_to_current env prev_vmcs s;
              s = set_debugreg (g_test_dr s cpu_id 0) 0 s;
              s = set_debugreg (g_test_dr s cpu_id 1) 1 s;
              s = set_debugreg (g_test_dr s cpu_id 2) 2 s;
              s = set_debugreg (g_test_dr s cpu_id 3) 3 s;
              s = s\<lparr>g_test_dr := (g_test_dr s)(cpu_id := (g_test_dr s cpu_id)(6 := vs_dr s 6))\<rparr>
          in set_debugreg (g_test_dr s cpu_id 6 AND 0xfffffffffffffff0) 6 s)"

section \<open>Dispatch\<close>

text \<open>The exit reasons whose case only advances the instruction pointer, in the order of the switch; the default
  case does the same.\<close>

definition skip_reasons :: "u64 list" where
  "skip_reasons =
     [VM_EXIT_REASON_TRIPLE_FAULT, VM_EXIT_REASON_IO_SMI, VM_EXIT_REASON_OTHER_SMI, VM_EXIT_REASON_INT_WINDOW,
      VM_EXIT_REASON_NMI_WINDOW, VM_EXIT_REASON_TASK_SWITCH, VM_EXIT_REASON_GETSEC, VM_EXIT_REASON_HLT,
      VM_EXIT_REASON_INVLPG, VM_EXIT_REASON_RDPMC, VM_EXIT_REASON_RDTSC, VM_EXIT_REASON_RSM, VM_EXIT_REASON_MOV_DR,
      VM_EXIT_REASON_IO_INST, VM_EXIT_REASON_VM_ENTRY_FAILURE_INV_GUEST, VM_EXIT_REASON_VM_ENTRY_FAILURE_MSR_LOAD,
      VM_EXIT_REASON_MWAIT, VM_EXIT_REASON_MONITOR_TRAP_FLAG, VM_EXIT_REASON_MONITOR, VM_EXIT_REASON_PAUSE,
      VM_EXIT_REASON_VM_ENTRY_FAILURE_MACHINE_CHECK, VM_EXIT_REASON_TRP_BELOW_THRESHOLD, VM_EXIT_REASON_APIC_ACCESS,
      VM_EXIT_REASON_VIRTUALIZED_EOI, VM_EXIT_REASON_EPT_MISCONFIGURATION, VM_EXIT_REASON_RDTSCP,
      VM_EXIT_REASON_WBINVD, VM_EXIT_REASON_APIC_WRITE, VM_EXIT_REASON_RDRAND, VM_EXIT_REASON_VMFUNC,
      VM_EXIT_REASON_RDSEED, VM_EXIT_REASON_XSAVES, VM_EXIT_REASON_XRSTORS]"

text \<open>The switch in three parts, for the cases up to VMPTRST, up to PAUSE and the rest. Each part hands the
  reasons that it does not know on to the next; the first component of the result is \<open>is_back_to_vm\<close>.\<close>

definition exit_switch3 :: "vm_env \<Rightarrow> nat \<Rightarrow> u64 \<Rightarrow> vm \<Rightarrow> (bool \<times> vm) option" where
  "exit_switch3 env cpu_id reason s =
     (if reason = VM_EXIT_REASON_ACCESS_GDTR_OR_IDTR then Some (False, hb_vm_exit_callback_gdtr_idtr env s)
      else if reason = VM_EXIT_REASON_ACCESS_LDTR_OR_TR then Some (False, hb_vm_exit_callback_ldtr_tr env s)
      else if reason = VM_EXIT_REASON_EPT_VIOLATION then
        (let guest_linear = hb_read_vmcs env VM_DATA_GUEST_LINEAR_ADDR (uninit env) s;
             guest_physical = hb_read_vmcs env VM_DATA_GUEST_PHY_ADDR (uninit env) s
         in map_option (Pair False) (hb_vm_exit_callback_ept_violation env guest_linear guest_physical s))
      else if reason = VM_EXIT_REASON_VMX_PREEMP_TIMER_EXPIRED then
        map_option (Pair False) (hb_vm_exit_callback_pre_timer_expired env s)
      else if reason = VM_EXIT_REASON_INVEPT \<or> reason = VM_EXIT_REASON_INVVPID \<or> reason = VM_EXIT_REASON_INVPCID then
        Some (False, hb_vm_exit_callback_vmx_inst_type2 env cpu_id reason s)
      else if reason = VM_EXIT_REASON_XSETBV then Some (False, exit_xsetbv env s)
      else Some (False, hb_advance_vm_guest_rip env s))"

definition exit_switch2 :: "vm_env \<Rightarrow> nat \<Rightarrow> u64 \<Rightarrow> u64 \<Rightarrow> vm \<Rightarrow> (bool \<times> vm) option" where
  "exit_switch2 env cpu_id reason exit_qual s =
     (if reason = VM_EXIT_REASON_VMREAD \<or> reason = VM_EXIT_REASON_VMWRITE then
        Some (False, hb_vm_exit_callback_vmx_inst_type2 env cpu_id reason s)
      else if reason = VM_EXIT_REASON_VMRESUME then Some (True, exit_vmresume env cpu_id s)
      else if reason = VM_EXIT_REASON_VMXON then
        Some (False, hb_vm_exit_callback_vmx_inst_type1 env cpu_id reason s)
      else if reason = VM_EXIT_REASON_VMXOFF then
        Some (False, hb_advance_vm_guest_rip env (s\<lparr>g_nested_vmcs_ptr := (g_nested_vmcs_ptr s)(cpu_id := 0)\<rparr>))
      else if reason = VM_EXIT_REASON_VMCALL then Some (False, hb_vm_exit_callback_vmcall env s)
      else if reason = VM_EXIT_REASON_CTRL_REG_ACCESS then Some (False, hb_vm_exit_callback_access_cr env exit_qual s)
      else if reason = VM_EXIT_REASON_RDMSR then Some (False, exit_rdmsr env s)
      else if reason = VM_EXIT_REASON_WRMSR then Some (False, exit_wrmsr env s)
      else exit_switch3 env cpu_id reason s)"

definition exit_switch1 :: "vm_env \<Rightarrow> nat \<Rightarrow> u64 \<Rightarrow> u64 \<Rightarrow> vm \<Rightarrow> (bool \<times> vm) option" where
  "exit_switch1 env cpu_id reason exit_qual s =
     (if reason = VM_EXIT_REASON_EXCEPT_OR_NMI then map_option (Pair False) (hb_vm_exit_callback_int env exit_qual s)
      else if reason = VM_EXIT_REASON_EXT_INTTERUPT then Some (False, s)
      else if reason = VM_EXIT_REASON_INIT_SIGNAL then map_option (Pair False) (hb_vm_exit_callback_init_signal env s)
      else if reason = VM_EXIT_REASON_START_UP_IPI then Some (False, hb_vm_exit_callback_start_up_signal env s)
      else if reason \<in> set skip_reasons then Some (False, hb_advance_vm_guest_rip env s)
      else if reason = VM_EXIT_REASON_CPUID then Some (False, hb_vm_exit_callback_cpuid env s)
      else if reason = VM_EXIT_REASON_INVD then Some (False, hb_vm_exit_callback_invd env s)
      else if reason = VM_EXIT_REASON_VMCLEAR \<or> reason = VM_EXIT_REASON_VMPTRLD \<or> reason = VM_EXIT_REASON_VMPTRST then
        Some (False, hb_vm_exit_callback_vmx_inst_type1 env cpu_id reason s)
      else if reason = VM_EXIT_REASON_VMLAUNCH then Some (True, exit_vmlaunch env cpu_id s)
      else exit_switch2 env cpu_id reason exit_qual s)"

definition HYPER_BOX_HIDE_TIME_BUFFER_MS :: u32 where [hb_consts]: "HYPER_BOX_HIDE_TIME_BUFFER_MS = 1000"

text \<open>Some time after the start, the module and the data of the monitor are hidden, by the first exit that sees
  \<open>g_need_init_in_secure\<close> set.\<close>

definition hide_hypervisor :: "vm_env \<Rightarrow> vm \<Rightarrow> vm option" where
  "hide_hypervisor env s =
     (if g_allow_hyper_box_hide s = 1 \<and>
         jiffies_to_msecs env (jiffies (ve_clock env) - g_init_in_secure_jiffies env) \<ge> HYPER_BOX_HIDE_TIME_BUFFER_MS then
        (if g_need_init_in_secure s \<noteq> 0 then do {
           let s = (if g_need_init_in_secure s = 1 then s\<lparr>g_need_init_in_secure := 0\<rparr> else s);
           s \<leftarrow> on_prot (on_ept (hb_protect_hyper_box_module (ve_kernel env) (ve_this_module env) PROTECT_MODE_HIDE)) s;
           s \<leftarrow> on_prot (on_ept (hb_protect_monitor_data (ve_kernel env) (ve_monitor env) (ve_sizeof_node env) (ve_pool env))) s;
           Some (s\<lparr>g_allow_hyper_box_hide := 0\<rparr>)
         }
         else Some s)
      else Some s)"

definition exit_from_guest :: "vm_env \<Rightarrow> nat \<Rightarrow> vm \<Rightarrow> (bool \<times> vm) option" where
  "exit_from_guest env cpu_id s = do {
     let exit_reason = hb_read_vmcs env VM_DATA_EXIT_REASON (uninit env) s;
     let exit_qual = hb_read_vmcs env VM_DATA_EXIT_QUALIFICATION (uninit env) s;
     let s = snd (hb_is_shutdown_timer_expired env s);
     let s = hb_write_vmcs env VM_CTRL_VM_ENTRY_INST_LENGTH 0 s;
     s \<leftarrow> hide_hypervisor env s;
     exit_switch1 env cpu_id (exit_reason AND 0xFFFF) exit_qual s
   }"

definition set_root_mode :: "nat \<Rightarrow> int \<Rightarrow> vm \<Rightarrow> vm" where
  "set_root_mode cpu_id b s = s\<lparr>g_vmx_root_mode := (g_vmx_root_mode s)(cpu_id := b)\<rparr>"

definition hb_vm_exit_callback :: "vm_env \<Rightarrow> nat \<Rightarrow> vm \<Rightarrow> vm option" where
  "hb_vm_exit_callback env cpu_id s =
     (let s = set_root_mode cpu_id 1 s;
          prev_vmcs = hb_store_vmcs s
      in if prev_vmcs \<noteq> g_guest_vmcs_phy_addr env cpu_id
         then Some (set_root_mode cpu_id 0 (exit_from_nested env cpu_id prev_vmcs s))
         else do {
           (is_back_to_vm, s) \<leftarrow> exit_from_guest env cpu_id s;
           let s = (if g_support_vmcs_shadowing env = 1 \<and> \<not> is_back_to_vm \<and> g_nested_vmcs_ptr s cpu_id \<noteq> 0
                    then hb_vm_set_vmcs_shadowing_to_current env (g_nested_vmcs_ptr s cpu_id) s else s);
           Some (set_root_mode cpu_id 0 s)
         })"

end
