(* ===== verification/Guest_Cpu.thy ===== *)
theory Guest_Cpu
  imports Vm_Exit
begin

text \<open>
  Correctness of the exit handlers for instructions of the guest: registers, memory operands, control registers,
  MSRs, descriptor tables, calls of the hypervisor, system call breakpoints and EPT violations.
\<close>

section \<open>A concrete machine\<close>

text \<open>A processor that has all fields and accepts every page aligned VMCS, with VMCS shadowing; the Linux guest runs
  on the VMCS at 0x10000.\<close>

definition sample_vm_env :: vm_env where
  "sample_vm_env =
     \<lparr>hw_readable = (\<lambda>_. True), hw_writable = (\<lambda>_. True),
      hw_vmptrld_ok = (\<lambda>a r. a AND 0xFFF = 0 \<and> r AND VM_BIT_REVISION_SHADOW_VMCS = 0), hw_vmclear_ok = (\<lambda>a. a AND 0xFFF = 0),
      hw_cpuid = (\<lambda>a c. (a, 0, c, 0)), hw_cr2 = 0, hw_cr8 = 0, uninit = 0xDEAD,
      ve_kernel = sample_env, ve_monitor = sample_mon_env, ve_clock = sample_clock, jiffies_to_msecs = (\<lambda>j. ucast j),
      tsc_khz = 2000000, system_state = 2, acpi_target_system_state = 0,
      ve_tasks = (\<lambda>p. (sample_task p)\<lparr>ts_cred := (sample_cred 1000)\<lparr>euid := 0\<rparr>\<rparr>), ve_procs = [0x3000],
      ve_current_task = 0x3000, ve_objects = sample_objects,
      ve_this_module = \<lparr>mod_addr = 0xFFFFC90000000000, mod_name = ''hyper_box'',
        hb_get_module_core_base = 0xFFFFC90000000000, hb_get_module_core_size = 0x2000, hb_get_module_core_ro_size = 0x1000\<rparr>,
      ve_pool = 0xFFFFC90000004000, ve_sizeof_node = 256,
      g_guest_vmcs_phy_addr = (\<lambda>_. 0x10000), g_vm_exit_stack_addr = (\<lambda>c. 0x800000 * of_nat (Suc c)),
      g_stack_size = 0x800000, g_vm_host_phy_pml4 = 0x70000, g_log_info = 0x90000, g_support_vmcs_shadowing = 1,
      g_init_in_secure_jiffies = 0, hb_vm_exit_callback_stub = 0xFFFF0000, hb_system_sleep_notify = 0xFFFF1000\<rparr>"

definition sample_ctx :: hb_vm_exit_guest_register where
  "sample_ctx = \<lparr>vm_launch = 0x12345678, r15 = 0, r14 = 0, r13 = 0, r12 = 0, r11 = 0, r10 = 0, r9 = 0, r8 = 0, rsi = 0,
     rdi = 0, rdx = 0, rcx = 0x10, rbx = 0, rax = 0, rbp = 0\<rparr>"

text \<open>The fields given by \<open>fs\<close> hold in the VMCS of the Linux guest, all others are zero.\<close>

definition sample_vm :: "(u64 \<Rightarrow> u64) \<Rightarrow> monitor \<Rightarrow> vm" where
  "sample_vm fs mon =
     \<lparr>vs_current = 0x10000, vs_vmcs = (\<lambda>_. fs), vs_revision = (\<lambda>_. 1), vs_launched = (\<lambda>_. True), vs_mem = (\<lambda>_. 0), vs_dr = (\<lambda>_. 0),
      vs_msr = (\<lambda>_. 0), vs_events = [], vs_ctx = sample_ctx, g_vmx_root_mode = (\<lambda>_. 0), g_nested_vmcs_ptr = (\<lambda>_. 0x20000),
      g_nested_vmcs_array = replicate 4 \<lparr>nv_vmcs_ptr = 0, nv_rip = 0, nv_rsp = 0, nv_cr3 = 0\<rparr>, g_test_dr = (\<lambda>_ _. 0),
      g_is_shutdown_trigger_set = 0, g_shutdown_jiffies = 0, g_need_init_in_secure = 0, g_allow_hyper_box_hide = 0,
      vs_creds = (\<lambda>_. sample_cred 0),
      vs_prot = \<lparr>ept = \<lparr>g_ept_info = null_ept_info, ept_mem = (\<lambda>_ _. 0)\<rparr>, ro = ro_init\<rparr>, vs_mon = mon\<rparr>"

lemma sample_vm_ok [simp]: "vm_ok sample_vm_env (sample_vm fs mon)" "sdm_fields sample_vm_env"
  by (simp_all add: vm_ok_def sdm_fields_def sample_vm_env_def sample_vm_def NO_VMCS_def)

lemma sample_vm_field [simp]: "vm_field (sample_vm fs mon) f = fs f"
  by (simp add: vm_field_def sample_vm_def)

lemma sample_vm_select [simp]:
  "vs_ctx (sample_vm fs mon) = sample_ctx" "vs_mon (sample_vm fs mon) = mon" "vs_current (sample_vm fs mon) = 0x10000"
  "g_log_info sample_vm_env = 0x90000"
  by (simp_all add: sample_vm_def sample_vm_env_def)

section \<open>Registers\<close>

text \<open>What the handlers rely on when they take an operand from, or return a result in, a register that the
  instruction information names.\<close>

locale register_file =
  fixes get :: "nat \<Rightarrow> 's \<Rightarrow> 'v" and put :: "nat \<Rightarrow> 'v \<Rightarrow> 's \<Rightarrow> 's" and regs :: "nat set" and ok :: "'s \<Rightarrow> bool"
  assumes get_put: "ok s \<Longrightarrow> i \<in> regs \<Longrightarrow> j \<in> regs \<Longrightarrow> get i (put j v s) = (if i = j then v else get i s)"
    and ok_put: "ok s \<Longrightarrow> ok (put j v s)"
begin

definition puts :: "(nat \<times> 'v) list \<Rightarrow> 's \<Rightarrow> 's" where
  "puts ws s = fold (\<lambda>(j, v) s. put j v s) ws s"

lemma get_puts:
  assumes "ok s" "i \<in> regs" "fst ` set ws \<subseteq> regs"
  shows "get i (puts ws s) = (case map_of (rev ws) i of None \<Rightarrow> get i s | Some v \<Rightarrow> v)"
  using assms
proof (induction ws arbitrary: s)
  case (Cons w ws)
  obtain j v where w: "w = (j, v)" by force
  with Cons show ?case
    by (auto simp: puts_def ok_put get_put map_add_def split: option.splits)
qed (simp add: puts_def)

end

lemma advance_eq:
  assumes "vm_ok env s"
  shows "hb_advance_vm_guest_rip env s =
    hb_write_vmcs env VM_GUEST_RIP (vm_field s VM_GUEST_RIP + vm_field s VM_DATA_VM_EXIT_INST_LENGTH) s"
  using assms by (simp add: hb_advance_vm_guest_rip_def vmcs_rw)

lemma vm_ok_set_ctx [simp]: "vm_ok env (set_ctx f s) = vm_ok env s"
  by (simp add: vm_ok_def set_ctx_def)

lemma set_ctx_select [simp]:
  "vs_ctx (set_ctx f s) = f (vs_ctx s)" "vm_field (set_ctx f s) = vm_field s" "vs_current (set_ctx f s) = vs_current s"
  "vs_vmcs (set_ctx f s) = vs_vmcs s" "vs_mem (set_ctx f s) = vs_mem s" "vs_msr (set_ctx f s) = vs_msr s"
  "vs_prot (set_ctx f s) = vs_prot s" "vs_mon (set_ctx f s) = vs_mon s"
  "g_nested_vmcs_ptr (set_ctx f s) = g_nested_vmcs_ptr s" "g_nested_vmcs_array (set_ctx f s) = g_nested_vmcs_array s"
  "vs_revision (set_ctx f s) = vs_revision s" "vs_launched (set_ctx f s) = vs_launched s"
  by (simp_all add: set_ctx_def vm_field_def [abs_def])

definition gp_regs :: "nat set" where
  "gp_regs = {..<16}"

lemma take_bit_64: "take_bit 64 (v :: u64) = v"
  by (simp add: take_bit_word_eq_self)

lemmas reg_nums = REG_NUM_RAX_def REG_NUM_RCX_def REG_NUM_RDX_def REG_NUM_RBX_def REG_NUM_RSP_def REG_NUM_RBP_def
  REG_NUM_RSI_def REG_NUM_RDI_def REG_NUM_R8_def REG_NUM_R9_def REG_NUM_R10_def REG_NUM_R11_def REG_NUM_R12_def
  REG_NUM_R13_def REG_NUM_R14_def REG_NUM_R15_def

lemma gp_regs_named:
  assumes "i \<in> gp_regs"
  shows "i \<in> {REG_NUM_RAX, REG_NUM_RCX, REG_NUM_RDX, REG_NUM_RBX, REG_NUM_RSP, REG_NUM_RBP, REG_NUM_RSI, REG_NUM_RDI,
    REG_NUM_R8, REG_NUM_R9, REG_NUM_R10, REG_NUM_R11, REG_NUM_R12, REG_NUM_R13, REG_NUM_R14, REG_NUM_R15}"
  using assms unfolding gp_regs_def lessThan_iff insert_iff empty_iff reg_nums by presburger

lemma get_set_reg:
  assumes "vm_ok env s" "j \<in> gp_regs"
  shows "hb_get_reg_value_from_index env i (hb_set_reg_value_from_index env j v s) =
    (if i = j then v else hb_get_reg_value_from_index env i s)"
  using gp_regs_named [OF assms(2)] assms(1)
  by (elim insertE emptyE)
    (simp_all add: hb_get_reg_value_from_index_def hb_set_reg_value_from_index_def reg_nums vmcs_rw take_bit_64 Let_def
      del: One_nat_def cong: if_cong)

lemma vm_ok_set_reg [simp]: "vm_ok env (hb_set_reg_value_from_index env' j v s) = vm_ok env s"
  by (simp add: hb_set_reg_value_from_index_def)

interpretation gp: register_file "hb_get_reg_value_from_index env" "hb_set_reg_value_from_index env" gp_regs "vm_ok env"
  for env
  by unfold_locales (simp_all add: get_set_reg)

text \<open>The access to registers by the number in the instruction information is a register file: after any
  sequence of writes to the sixteen general registers (RSP lives in the VMCS, the others in the saved context), every
  register holds the value last written to it, or its old value.\<close>

theorem gp_registers_faithful:
  assumes "vm_ok env s" "i < 16" "\<forall>(j, v) \<in> set ws. j < 16"
  shows "hb_get_reg_value_from_index env i (fold (\<lambda>(j, v) s. hb_set_reg_value_from_index env j v s) ws s) =
    (case map_of (rev ws) i of None \<Rightarrow> hb_get_reg_value_from_index env i s | Some v \<Rightarrow> v)"
proof -
  have "fst ` set ws \<subseteq> gp_regs" "i \<in> gp_regs" using assms(2,3) by (auto simp: gp_regs_def)
  from gp.get_puts [OF assms(1) this(2,1)] show ?thesis by (simp add: gp.puts_def)
qed

theorem gp_registers_faithful_witness:
  "hb_get_reg_value_from_index sample_vm_env 4
     (fold (\<lambda>(j, v) s. hb_set_reg_value_from_index sample_vm_env j v s) [(4, 1), (5, 2), (4, 3)] (sample_vm (\<lambda>_. 0) sample_monitor)) = 3"
  using gp_registers_faithful [of sample_vm_env "sample_vm (\<lambda>_. 0) sample_monitor" 4 "[(4, 1), (5, 2), (4, 3)]"] by simp

section \<open>Memory operands\<close>

lemma mem_load_store: "n \<le> 8 \<Longrightarrow> mem_load n a (mem_store n a v s) = take_bit (8 * n) v"
  by (simp add: mem_load_def mem_store_def load_store_bytes)

lemma load_bytes_cong: "(\<And>i. i < n \<Longrightarrow> m' (a + of_nat i) = m (a + of_nat i)) \<Longrightarrow> load_bytes n a m' = load_bytes n a m"
proof (induction n arbitrary: a)
  case (Suc n)
  have "m' (a + 1 + of_nat i) = m (a + 1 + of_nat i)" if "i < n" for i
    using Suc.prems [of "Suc i"] that by (simp add: add.assoc)
  moreover have "m' a = m a" using Suc.prems [of 0] by simp
  ultimately show ?case using Suc.IH by simp
qed simp

lemma mem_load_store_disjoint:
  assumes "\<And>i j. i < n \<Longrightarrow> j < k \<Longrightarrow> a + of_nat i \<noteq> b + of_nat j"
  shows "mem_load n a (mem_store k b v s) = mem_load n a s"
  unfolding mem_load_def mem_store_def
  by (auto intro!: load_bytes_cong store_bytes_other dest: assms)

lemma mem_store_select [simp]:
  "vs_vmcs (mem_store n a v s) = vs_vmcs s" "vs_current (mem_store n a v s) = vs_current s"
  "vm_field (mem_store n a v s) = vm_field s" "vm_ok env (mem_store n a v s) = vm_ok env s"
  by (simp_all add: mem_store_def vm_field_def [abs_def] vm_ok_def)

lemma mem_load_write [simp]: "mem_load n a (hb_write_vmcs env f v s) = mem_load n a s"
  by (simp add: mem_load_def)

text \<open>A descriptor table register that SGDT or SIDT stored to memory and LGDT or LIDT loads back from there is
  unchanged, for every base and for every limit of 16 bits; nothing else of the VMCS changes.\<close>

theorem desc_ptr_roundtrip:
  assumes "vm_ok env s"
    and "(b, l) \<in> {(VM_GUEST_GDTR_BASE, VM_GUEST_GDTR_LIMIT), (VM_GUEST_IDTR_BASE, VM_GUEST_IDTR_LIMIT)}"
    and "vm_field s l < 2 ^ 16"
  shows "vm_field (load_desc_ptr env dest b l (store_desc_ptr env dest b l s)) = vm_field s"
proof -
  have bl: "hw_readable env b" "hw_readable env l" "hw_writable env b" "hw_writable env l"
      "field_width b = 64" "field_width l = 32" "b \<noteq> l"
    using assms(1,2) by (auto simp: vm_ok_fields VM_GUEST_GDTR_BASE_def VM_GUEST_GDTR_LIMIT_def VM_GUEST_IDTR_BASE_def VM_GUEST_IDTR_LIMIT_def)
  let ?s = "store_desc_ptr env dest b l s"
  have s: "?s = mem_store 2 dest (vm_field s l) (mem_store 8 (dest + 2) (vm_field s b) s)"
    using assms(1) bl by (simp add: store_desc_ptr_def vmcs_rw)
  have dis: "dest + 2 + of_nat i \<noteq> dest + of_nat j" if "i < 8" "j < 2" for i j :: nat
  proof -
    have "unat (of_nat k :: u64) = k" if "k < 10" for k
      using that by (simp add: unat_of_nat take_bit_eq_mod)
    from this [of "i + 2"] this [of j] that have "of_nat (i + 2) \<noteq> (of_nat j :: u64)" by force
    then show ?thesis by (simp add: add.assoc add.commute)
  qed
  have b: "mem_load 8 (dest + 2) ?s = vm_field s b"
    unfolding s by (subst mem_load_store_disjoint) (simp_all add: dis mem_load_store take_bit_64)
  have l: "take_bit 32 (mem_load 2 dest ?s) = vm_field s l"
    using assms(3) unfolding s
    by (simp add: mem_load_store word_less_nat_alt take_bit_small [where k = 16] take_bit_small [where k = 32])
  show ?thesis
    using assms(1) bl b l unfolding load_desc_ptr_def Let_def
    by (intro ext) (simp add: write_field s take_bit_64)
qed

theorem desc_ptr_roundtrip_witness:
  "vm_field (load_desc_ptr sample_vm_env 0x8000 VM_GUEST_IDTR_BASE VM_GUEST_IDTR_LIMIT
     (store_desc_ptr sample_vm_env 0x8000 VM_GUEST_IDTR_BASE VM_GUEST_IDTR_LIMIT (sample_vm (\<lambda>_. 0xFFF) sample_monitor)))
     VM_GUEST_IDTR_BASE = 0xFFF"
  using fun_cong [OF desc_ptr_roundtrip [of sample_vm_env "sample_vm (\<lambda>_. 0xFFF) sample_monitor" VM_GUEST_IDTR_BASE
        VM_GUEST_IDTR_LIMIT "0x8000"], of VM_GUEST_IDTR_BASE] by simp

section \<open>Control registers\<close>

text \<open>The bits of the control registers that the guest must not change: WP in CR0; VMXE and SMEP set and MCE clear in
  CR4.\<close>

definition cr_guarded :: "u64 \<Rightarrow> u64 \<Rightarrow> bool" where
  "cr_guarded cr0 cr4 \<longleftrightarrow> bit cr0 16 \<and> bit cr4 13 \<and> bit cr4 20 \<and> \<not> bit cr4 6"

lemma bit_pow2: "bit (2 ^ k :: u64) n \<longleftrightarrow> n = k \<and> n < 64"
  by (auto simp: bit_simps)

lemma and_zero_iff: "(v :: u64) AND w = 0 \<longleftrightarrow> (\<forall>k. bit w k \<longrightarrow> \<not> bit v k)"
proof -
  have "k < 64" if "bit v k" for k using bit_imp_le_length [OF that] by simp
  then show ?thesis by (subst bit_eq_iff) (auto simp: bit_and_iff)
qed

lemma cr_bits:
  "bit CR0_BIT_WP k \<longleftrightarrow> k = 16" "bit CR0_BIT_PG k \<longleftrightarrow> k = 31" "bit CR4_BIT_VMXE k \<longleftrightarrow> k = 13"
  "bit CR4_BIT_SMEP k \<longleftrightarrow> k = 20" "bit CR4_BIT_MCE k \<longleftrightarrow> k = 6"
proof -
  have eqs: "CR0_BIT_WP = 2 ^ 16" "CR0_BIT_PG = 2 ^ 31" "CR4_BIT_VMXE = 2 ^ 13" "CR4_BIT_SMEP = 2 ^ 20" "CR4_BIT_MCE = 2 ^ 6"
    by (simp_all add: hb_consts)
  show "bit CR0_BIT_WP k \<longleftrightarrow> k = 16" "bit CR0_BIT_PG k \<longleftrightarrow> k = 31" "bit CR4_BIT_VMXE k \<longleftrightarrow> k = 13"
    "bit CR4_BIT_SMEP k \<longleftrightarrow> k = 20" "bit CR4_BIT_MCE k \<longleftrightarrow> k = 6"
    unfolding eqs bit_pow2 by auto
qed

text \<open>C33: a move to a control register. CR0 gets the value of the register with WP forced to one, CR4 gets it with VMXE
  and SMEP forced to one and MCE to zero, all other bits as the guest wrote them; CR3 gets exactly the value; no other
  control register can be changed. The instruction pointer moves behind the instruction.\<close>

theorem mov_to_cr_guarded:
  assumes "vm_ok env s" "VM_EXIT_QUAL_CTRL_REG_ACC_GET_ACC_TYPE qual = VM_EXIT_QUAL_CTRL_REG_ACC_MOVE_TO_CR"
    and "n = VM_EXIT_QUAL_CTRL_REG_ACC_GET_CTRL_REG_NUMBER qual"
    and "v = hb_get_reg_value_from_index env (VM_EXIT_QUAL_CTRL_REG_ACC_GET_GP_REG_NUMBER qual) s"
    and "s' = hb_vm_exit_callback_access_cr env qual s"
  shows "(\<forall>k. bit (vm_field s' VM_GUEST_CR0) k = (if n = REG_NUM_CR0 then bit v k \<or> k = 16 else bit (vm_field s VM_GUEST_CR0) k)) \<and>
    (\<forall>k. bit (vm_field s' VM_GUEST_CR4) k =
      (if n = REG_NUM_CR4 then (bit v k \<or> k = 13 \<or> k = 20) \<and> k \<noteq> 6 else bit (vm_field s VM_GUEST_CR4) k)) \<and>
    vm_field s' VM_GUEST_CR3 = (if n = REG_NUM_CR3 then v else vm_field s VM_GUEST_CR3) \<and>
    vm_field s' VM_GUEST_RIP = vm_field s VM_GUEST_RIP + vm_field s VM_DATA_VM_EXIT_INST_LENGTH"
proof -
  have s': "s' = hb_advance_vm_guest_rip env (write_cr env n v s)"
    using assms(2-5) by (simp add: hb_vm_exit_callback_access_cr_def hb_consts)
  have ok: "vm_ok env (write_cr env n v s)" using assms(1) by (simp add: write_cr_def)
  have w: "vm_field s' f = (if f = VM_GUEST_RIP then vm_field s VM_GUEST_RIP + vm_field s VM_DATA_VM_EXIT_INST_LENGTH
      else vm_field (write_cr env n v s) f)" for f
    using assms(1) ok unfolding s' advance_eq [OF ok]
    by (simp add: vmcs_rw take_bit_64) (simp add: write_cr_def write_field_other hb_consts)
  have cr0: "vm_field s' VM_GUEST_CR0 = (if n = REG_NUM_CR0 then v OR CR0_BIT_WP else vm_field s VM_GUEST_CR0)"
    and cr3: "vm_field s' VM_GUEST_CR3 = (if n = REG_NUM_CR3 then v else vm_field s VM_GUEST_CR3)"
    and cr4: "vm_field s' VM_GUEST_CR4 =
      (if n = REG_NUM_CR4 then (v OR (CR4_BIT_VMXE OR CR4_BIT_SMEP)) AND NOT CR4_BIT_MCE else vm_field s VM_GUEST_CR4)"
    using assms(1) 
    by (simp_all add: w write_cr_def write_field vm_ok_fields take_bit_64 write_field_other vmcs_field_defs
        REG_NUM_CR0_def REG_NUM_CR3_def REG_NUM_CR4_def)
  have "bit (v OR CR0_BIT_WP) k \<longleftrightarrow> bit v k \<or> k = 16" for k
    by (auto simp: bit_or_iff cr_bits)
  moreover have "bit ((v OR (CR4_BIT_VMXE OR CR4_BIT_SMEP)) AND NOT CR4_BIT_MCE) k \<longleftrightarrow> (bit v k \<or> k = 13 \<or> k = 20) \<and> k \<noteq> 6" for k
    by (cases "k < 64") (auto simp: bit_and_iff bit_or_iff bit_not_iff cr_bits dest: bit_imp_le_length)
  ultimately show ?thesis using cr0 cr3 cr4 w by simp
qed

theorem mov_to_cr_guarded_witness:
  "vm_field (hb_vm_exit_callback_access_cr sample_vm_env 0x104 (sample_vm (\<lambda>_. 0) sample_monitor)) VM_GUEST_RIP = 0 \<and>
   bit (vm_field (hb_vm_exit_callback_access_cr sample_vm_env 0x104 (sample_vm (\<lambda>_. 0) sample_monitor)) VM_GUEST_CR4) 20"
  using mov_to_cr_guarded [of sample_vm_env "sample_vm (\<lambda>_. 0) sample_monitor" "0x104", OF _ _ refl refl refl]
  by (simp add: VM_EXIT_QUAL_CTRL_REG_ACC_GET_ACC_TYPE_def VM_EXIT_QUAL_CTRL_REG_ACC_MOVE_TO_CR_def
      VM_EXIT_QUAL_CTRL_REG_ACC_GET_CTRL_REG_NUMBER_def REG_NUM_CR4_def)

section \<open>Model specific registers\<close>

lemma advance_select [simp]:
  "vs_ctx (hb_advance_vm_guest_rip env s) = vs_ctx s" "vs_msr (hb_advance_vm_guest_rip env s) = vs_msr s"
  "vs_mon (hb_advance_vm_guest_rip env s) = vs_mon s" "vs_prot (hb_advance_vm_guest_rip env s) = vs_prot s"
  "vs_current (hb_advance_vm_guest_rip env s) = vs_current s" "vm_ok env' (hb_advance_vm_guest_rip env s) = vm_ok env' s"
  "vs_mem (hb_advance_vm_guest_rip env s) = vs_mem s" "g_nested_vmcs_ptr (hb_advance_vm_guest_rip env s) = g_nested_vmcs_ptr s"
  "g_nested_vmcs_array (hb_advance_vm_guest_rip env s) = g_nested_vmcs_array s"
  "vs_revision (hb_advance_vm_guest_rip env s) = vs_revision s" "vs_launched (hb_advance_vm_guest_rip env s) = vs_launched s"
  by (simp_all add: hb_advance_vm_guest_rip_def Let_def)

lemma wrmsr_select [simp]:
  "vs_ctx (hb_wrmsr m v s) = vs_ctx s" "vm_ok env (hb_wrmsr m v s) = vm_ok env s" "vm_field (hb_wrmsr m v s) = vm_field s"
  "vs_msr (hb_wrmsr m v s) = (vs_msr s)(ucast m := v)"
  by (simp_all add: hb_wrmsr_def vm_ok_def vm_field_def [abs_def])

lemma mask32_take_bit: "(v :: u64) AND 0xFFFFFFFF = take_bit 32 v"
  by (simp add: take_bit_eq_mask mask_eq_exp_minus_1)

text \<open>a WRMSR of the guest followed by a RDMSR of the same register returns in EDX:EAX what was written, with the
  upper halves of RDX and RAX cleared; the other registers are unchanged, and so are the other MSRs.\<close>

theorem msr_roundtrip:
  assumes "vm_ok env s" "s' = exit_rdmsr env (exit_wrmsr env s)"
  shows "vs_ctx s' = (vs_ctx s)\<lparr>rdx := take_bit 32 (rdx (vs_ctx s)), rax := take_bit 32 (rax (vs_ctx s))\<rparr> \<and>
    (\<forall>m. m \<noteq> ucast (rcx (vs_ctx s)) \<longrightarrow> vs_msr s' m = vs_msr s m) \<and>
    vm_field s' VM_GUEST_RIP = vm_field s VM_GUEST_RIP + 2 * vm_field s VM_DATA_VM_EXIT_INST_LENGTH"
proof -
  let ?v = "push_bit 32 (rdx (vs_ctx s)) OR take_bit 32 (rax (vs_ctx s))"
  have v: "drop_bit 32 ?v = take_bit 32 (rdx (vs_ctx s))" "take_bit 32 ?v = take_bit 32 (rax (vs_ctx s))"
    by (rule bit_word_eqI, auto simp: bit_simps)+
  have ok: "vm_ok env (exit_wrmsr env s)" using assms(1) by (simp add: exit_wrmsr_def)
  have "vs_ctx s' = (vs_ctx s)\<lparr>rdx := take_bit 32 (rdx (vs_ctx s)), rax := take_bit 32 (rax (vs_ctx s))\<rparr>"
    using v by (simp add: assms(2) exit_rdmsr_def exit_wrmsr_def hb_rdmsr_def mask32_take_bit Let_def)
  moreover have "vs_msr s' m = vs_msr s m" if "m \<noteq> ucast (rcx (vs_ctx s))" for m
    using that by (simp add: assms(2) exit_rdmsr_def exit_wrmsr_def Let_def)
  moreover have "vm_field s' VM_GUEST_RIP = vm_field s VM_GUEST_RIP + 2 * vm_field s VM_DATA_VM_EXIT_INST_LENGTH"
    using assms(1) ok unfolding assms(2) exit_rdmsr_def Let_def
    by (simp add: exit_wrmsr_def advance_eq write_field take_bit_64 vm_ok_fields vmcs_field_defs)
  ultimately show ?thesis by blast
qed

theorem msr_roundtrip_witness:
  "vs_ctx (exit_rdmsr sample_vm_env (exit_wrmsr sample_vm_env (sample_vm (\<lambda>_. 0) sample_monitor))) = sample_ctx"
  using msr_roundtrip [OF sample_vm_ok(1) [of "\<lambda>_. 0" sample_monitor] refl] by (simp add: sample_ctx_def)

section \<open>Calls of the hypervisor\<close>

lemma UD_value: "take_bit 32 VM_ENTRY_INT_INFO_UD = 0x80000306"
  by (simp add: hb_consts take_bit_eq_mask mask_eq_exp_minus_1)

lemma clear_flags_eq:
  assumes "vm_ok env s"
  shows "hb_clear_vmx_inst_flags env s =
    hb_write_vmcs env VM_GUEST_RFLAGS (vm_field s VM_GUEST_RFLAGS AND NOT (RFLAGS_BIT_CF OR RFLAGS_BIT_ZF)) s"
  using assms by (simp add: hb_clear_vmx_inst_flags_def vmcs_rw)

lemma insert_ud_field:
  assumes "vm_ok env s"
  shows "vm_field (hb_insert_ud_exception_to_vm env s) f =
    (if f = VM_CTRL_VM_ENTRY_INT_INFO_FIELD then 0x80000306 else if f = VM_CTRL_VM_ENTRY_EXCEPT_ERR_CODE then 0
     else vm_field s f)"
  using assms UD_value by (simp add: hb_insert_ud_exception_to_vm_def write_field vm_ok_fields vmcs_field_defs)

lemma insert_ud_select [simp]:
  "vs_ctx (hb_insert_ud_exception_to_vm env s) = vs_ctx s" "vs_prot (hb_insert_ud_exception_to_vm env s) = vs_prot s"
  "vs_mon (hb_insert_ud_exception_to_vm env s) = vs_mon s" "vm_ok env' (hb_insert_ud_exception_to_vm env s) = vm_ok env' s"
  "vs_current (hb_insert_ud_exception_to_vm env s) = vs_current s"
  by (simp_all add: hb_insert_ud_exception_to_vm_def)

text \<open>A VMCALL of user code is answered with an invalid opcode exception and a zero in RAX. A VMCALL of the kernel
  gets the address of the log buffer for the one service there is, and zero for every other number, with no exception.
  No other register changes and the instruction pointer moves behind the instruction.\<close>

theorem vmcall_answers:
  assumes "vm_ok env s" "s' = hb_vm_exit_callback_vmcall env s"
  shows "vs_ctx s' = (vs_ctx s)\<lparr>rax := (if vm_field s VM_GUEST_CS_SELECTOR AND 3 = 0 \<and> rax (vs_ctx s) = 0 then g_log_info env else 0)\<rparr> \<and>
    vm_field s' VM_CTRL_VM_ENTRY_INT_INFO_FIELD =
      (if vm_field s VM_GUEST_CS_SELECTOR AND 3 = 0 then vm_field s VM_CTRL_VM_ENTRY_INT_INFO_FIELD else 0x80000306) \<and>
    vm_field s' VM_GUEST_RIP = vm_field s VM_GUEST_RIP + vm_field s VM_DATA_VM_EXIT_INST_LENGTH"
proof -
  let ?t = "hb_clear_vmx_inst_flags env (set_ctx (\<lambda>c. c\<lparr>rax := 0\<rparr>) s)"
  have t: "vm_ok env ?t" "vs_ctx ?t = (vs_ctx s)\<lparr>rax := 0\<rparr>"
    using assms(1) by (simp_all add: clear_flags_eq)
  have f: "vm_field ?t f = vm_field s f" if "f \<noteq> VM_GUEST_RFLAGS" for f
    using assms(1) that by (simp add: clear_flags_eq write_field_other)
  have cs: "hb_read_vmcs env VM_GUEST_CS_SELECTOR (uninit env) ?t = vm_field s VM_GUEST_CS_SELECTOR"
    using t(1) f by (simp add: read_field vm_ok_fields vmcs_field_defs)
  show ?thesis
  proof (cases "vm_field s VM_GUEST_CS_SELECTOR AND 3 = 0")
    case True
    then have s': "s' = (if rax (vs_ctx s) = 0 then set_ctx (\<lambda>c. c\<lparr>rax := g_log_info env\<rparr>) (hb_advance_vm_guest_rip env ?t)
        else hb_advance_vm_guest_rip env ?t)"
      unfolding assms(2) hb_vm_exit_callback_vmcall_def Let_def cs
      by (simp add: MASK_GDT_ACCESS_def VM_SERVICE_GET_LOGINFO_def)
    show ?thesis
      using True t f unfolding s'
      by (simp add: advance_eq write_field vm_ok_fields take_bit_64 vmcs_field_defs)
  next
    case False
    then have s': "s' = hb_advance_vm_guest_rip env (hb_insert_ud_exception_to_vm env ?t)"
      unfolding assms(2) hb_vm_exit_callback_vmcall_def Let_def cs by (simp add: MASK_GDT_ACCESS_def)
    show ?thesis
      using False t f unfolding s'
      by (simp add: advance_eq write_field insert_ud_field vm_ok_fields take_bit_64 vmcs_field_defs)
  qed
qed

theorem vmcall_answers_witness:
  "rax (vs_ctx (hb_vm_exit_callback_vmcall sample_vm_env (sample_vm (\<lambda>_. 0x10) sample_monitor))) = 0x90000"
  using vmcall_answers [OF sample_vm_ok(1) [of "\<lambda>_. 0x10" sample_monitor] refl]
  by (simp add: sample_ctx_def)

section \<open>EPT violations\<close>

lemma vm_error_log_select [simp]:
  "vm_field (hb_vm_error_log c s) = vm_field s" "vs_ctx (hb_vm_error_log c s) = vs_ctx s"
  "vs_prot (hb_vm_error_log c s) = vs_prot s" "vs_mon (hb_vm_error_log c s) = hb_error_log c (vs_mon s)"
  "vs_current (hb_vm_error_log c s) = vs_current s" "vs_vmcs (hb_vm_error_log c s) = vs_vmcs s"
  by (simp_all add: hb_vm_error_log_def vm_field_def [abs_def])

lemma violation_blocked:
  assumes "vm_ok env s" "hb_is_system_shutdowning env = 0" "guest_linear \<noteq> hb_system_sleep_notify env"
  shows "\<exists>s'. hb_vm_exit_callback_ept_violation env guest_linear guest_physical s = Some s' \<and>
    vs_prot s' = vs_prot s \<and> vs_ctx s' = vs_ctx s \<and> m_errors (vs_mon s') = m_errors (vs_mon s) @ [ERROR_KERNEL_MODIFICATION] \<and>
    vm_field s' VM_CTRL_VM_ENTRY_INT_INFO_FIELD = 0x80000306 \<and> vm_field s' VM_GUEST_RIP = vm_field s VM_GUEST_RIP \<and>
    (\<forall>k. bit (vm_field s' VM_GUEST_CR0) k \<longleftrightarrow>
       bit (vm_field s VM_GUEST_CR0) k \<or> k = 16 \<and> bit (vm_field s VM_GUEST_CR0) 31)"
proof -
  let ?cr0 = "vm_field s VM_GUEST_CR0"
  let ?t = "hb_insert_ud_exception_to_vm env s"
  let ?u = "if ?cr0 AND CR0_BIT_PG \<noteq> 0 \<and> ?cr0 AND CR0_BIT_WP = 0 then hb_write_vmcs env VM_GUEST_CR0 (?cr0 OR CR0_BIT_WP) ?t else ?t"
  have t: "vm_ok env ?t" using assms(1) by simp
  have cr0: "hb_read_vmcs env VM_GUEST_CR0 (uninit env) ?t = ?cr0"
    using t assms(1) by (simp add: read_field insert_ud_field vm_ok_fields vmcs_field_defs)
  have run: "hb_vm_exit_callback_ept_violation env guest_linear guest_physical s =
      Some (hb_vm_error_log ERROR_KERNEL_MODIFICATION ?u)"
    using assms(2,3) unfolding hb_vm_exit_callback_ept_violation_def Let_def cr0 by (simp add: hb_is_workaround_addr_def)
  have masks: "?cr0 AND CR0_BIT_PG \<noteq> 0 \<longleftrightarrow> bit ?cr0 31" "?cr0 AND CR0_BIT_WP = 0 \<longleftrightarrow> \<not> bit ?cr0 16"
    by (simp_all add: and_zero_iff cr_bits)
  have "vm_field ?u VM_GUEST_CR0 = (if bit ?cr0 31 then ?cr0 OR CR0_BIT_WP else ?cr0)"
  proof -
    have "?cr0 OR CR0_BIT_WP = ?cr0" if "bit ?cr0 16"
      using that by (intro bit_word_eqI) (auto simp: bit_or_iff cr_bits)
    then show ?thesis
      unfolding masks using t assms(1) by (simp add: write_field insert_ud_field vm_ok_fields take_bit_64 vmcs_field_defs)
  qed
  then have "bit (vm_field ?u VM_GUEST_CR0) k \<longleftrightarrow> bit ?cr0 k \<or> k = 16 \<and> bit ?cr0 31" for k
    by (auto simp: bit_or_iff cr_bits)
  moreover have "vm_field ?u VM_CTRL_VM_ENTRY_INT_INFO_FIELD = 0x80000306" "vm_field ?u VM_GUEST_RIP = vm_field s VM_GUEST_RIP"
    using t assms(1) by (simp_all add: write_field insert_ud_field vm_ok_fields vmcs_field_defs)
  ultimately show ?thesis unfolding run by (auto simp: hb_error_log_def)
qed

lemma sleep_violation:
  assumes "hb_is_system_shutdowning env = 0" "ept_wf kenv (ept (vs_prot s))" "ept_covered (ept (vs_prot s)) guest_physical"
  shows "\<exists>s'. hb_vm_exit_callback_ept_violation env (hb_system_sleep_notify env) guest_physical s = Some s' \<and>
    s' = s\<lparr>vs_prot := (vs_prot s)\<lparr>ept := ept (vs_prot s')\<rparr>\<rparr> \<and>
    (\<forall>gpa. unat gpa < 2 ^ 48 \<longrightarrow> guest_translate kenv (ept (vs_prot s')) gpa =
      (if page_of gpa = page_of guest_physical then Some (gpa, EPT_READ OR EPT_EXECUTE) else guest_translate kenv (ept (vs_prot s)) gpa))"
proof -
  obtain e where e: "hb_set_ept_lock_page guest_physical (ept (vs_prot s)) = Some e"
      "\<forall>gpa. unat gpa < 2 ^ 48 \<longrightarrow> guest_translate kenv e gpa =
        (if page_of gpa = page_of guest_physical then grant 5 gpa else guest_translate kenv (ept (vs_prot s)) gpa)"
    using lock.op_translate [OF assms(2,3)] by blast
  have "EPT_READ OR EPT_EXECUTE = 5" by (simp add: hb_consts)
  moreover have "grant 5 gpa = Some (gpa, 5)" for gpa by (simp add: grant_def)
  moreover have "hb_vm_exit_callback_ept_violation env (hb_system_sleep_notify env) guest_physical s =
      Some (s\<lparr>vs_prot := (vs_prot s)\<lparr>ept := e\<rparr>\<rparr>)"
    using e(1) assms(1) by (simp add: hb_vm_exit_callback_ept_violation_def on_prot_def on_ept_def hb_trigger_shutdown_timer_def)
  ultimately show ?thesis using e(2) by simp
qed

text \<open>C8: what a violation of the EPT permissions does while the system runs. At every linear address but one it changes no permission:
  the page tables and the registry stay as they are, the guest gets an invalid opcode exception at the same instruction, the error is logged, and
  write protection in CR0 is switched on again if paging is enabled and the guest had switched it off. The exception is the address of
  \<open>hb_system_sleep_notify\<close>: there the guest-physical page of the access becomes readable and executable, whatever page it is,
  the permissions of all other pages and the rest of the state stay as they are and no exception is injected. The code does not compare that
  page with the one that holds the function, so a guest that maps the address to a hidden page can read it from then on.\<close>

theorem ept_violation_blocked:
  assumes "vm_ok env s" "hb_is_system_shutdowning env = 0"
  shows "(guest_linear \<noteq> hb_system_sleep_notify env \<longrightarrow>
      (\<exists>s'. hb_vm_exit_callback_ept_violation env guest_linear guest_physical s = Some s' \<and>
        vs_prot s' = vs_prot s \<and> vs_ctx s' = vs_ctx s \<and> m_errors (vs_mon s') = m_errors (vs_mon s) @ [ERROR_KERNEL_MODIFICATION] \<and>
        vm_field s' VM_CTRL_VM_ENTRY_INT_INFO_FIELD = 0x80000306 \<and> vm_field s' VM_GUEST_RIP = vm_field s VM_GUEST_RIP \<and>
        (\<forall>k. bit (vm_field s' VM_GUEST_CR0) k \<longleftrightarrow>
           bit (vm_field s VM_GUEST_CR0) k \<or> k = 16 \<and> bit (vm_field s VM_GUEST_CR0) 31))) \<and>
    (guest_linear = hb_system_sleep_notify env \<and> ept_wf kenv (ept (vs_prot s)) \<and> ept_covered (ept (vs_prot s)) guest_physical \<longrightarrow>
      (\<exists>s'. hb_vm_exit_callback_ept_violation env guest_linear guest_physical s = Some s' \<and>
        s' = s\<lparr>vs_prot := (vs_prot s)\<lparr>ept := ept (vs_prot s')\<rparr>\<rparr> \<and>
        (\<forall>gpa. unat gpa < 2 ^ 48 \<longrightarrow> guest_translate kenv (ept (vs_prot s')) gpa =
          (if page_of gpa = page_of guest_physical then Some (gpa, EPT_READ OR EPT_EXECUTE)
           else guest_translate kenv (ept (vs_prot s)) gpa))))"
  using violation_blocked [OF assms, of guest_linear guest_physical] sleep_violation [OF assms(2), of kenv s guest_physical] by blast

theorem ept_violation_blocked_witness:
  "\<exists>s'. hb_vm_exit_callback_ept_violation sample_vm_env 0x1000 0x1000 (sample_vm (\<lambda>_. 0x80000000) sample_monitor) = Some s' \<and>
     bit (vm_field s' VM_GUEST_CR0) 16"
proof -
  have "bit (0x80000000 :: u64) 31" by simp
  then show ?thesis
    using ept_violation_blocked [THEN conjunct1, OF sample_vm_ok(1) [of "\<lambda>_. 0x80000000" sample_monitor], of "0x1000" "0x1000"]
    by (auto simp: sample_vm_env_def hb_is_system_shutdowning_def)
qed

section \<open>System call breakpoints\<close>

lemma debugreg_select [simp]:
  "vs_ctx (set_debugreg v i s) = vs_ctx s" "vs_mon (set_debugreg v i s) = vs_mon s" "vm_field (set_debugreg v i s) = vm_field s"
  "vm_ok env (set_debugreg v i s) = vm_ok env s" "vs_dr (set_debugreg v i s) = (vs_dr s)(i := v)"
  "vs_current (set_debugreg v i s) = vs_current s" "vs_vmcs (set_debugreg v i s) = vs_vmcs s"
  by (simp_all add: set_debugreg_def vm_field_def [abs_def] vm_ok_def)

lemma remove_int_select [simp]:
  "vs_ctx (hb_remove_int_exception_from_vm env v s) = vs_ctx s" "vs_mon (hb_remove_int_exception_from_vm env v s) = vs_mon s"
  "vs_dr (hb_remove_int_exception_from_vm env v s) = vs_dr s"
  by (simp_all add: hb_remove_int_exception_from_vm_def Let_def)

lemma remove_int_field:
  "f \<noteq> VM_CTRL_VM_ENTRY_INT_INFO_FIELD \<Longrightarrow> vm_field (hb_remove_int_exception_from_vm env v s) f = vm_field s f"
  by (simp add: hb_remove_int_exception_from_vm_def Let_def write_field_other)

lemma bit_RF: "bit RFLAGS_BIT_RF k \<longleftrightarrow> k = 16"
proof -
  have eq: "RFLAGS_BIT_RF = 2 ^ 16" by (simp add: hb_consts)
  show ?thesis unfolding eq bit_pow2 by auto
qed

text \<open>C7: a tracked task that reaches a system call with credentials whose eight identifiers have another exclusive or than the recorded ones,
  as when exactly one of them was changed, has its call replaced: when the guest continues, RAX holds the number of exit and RDX -1, whatever the
  task asked for; the task is sent SIGKILL and every tracked task of its thread group is marked to exit. The breakpoint is acknowledged in DR6,
  and the resume flag keeps it from firing again. Forged credentials with the same exclusive or, such as all identifiers set to 0 at once, are not
  covered: the comparison does not notice them.\<close>

theorem forged_task_exits:
  assumes ok: "vm_ok env s" and up: "hb_is_system_shutdowning env = 0"
    and db: "VM_EXIT_INT_INFO_VECTOR (vm_field s VM_DATA_VM_EXIT_INT_INFO) = VM_INT_DEBUG_EXCEPTION"
    and dr: "dr6 AND DR_BIT_SYSCALL_64 \<noteq> 0"
    and wf: "tm_wf (ve_monitor env) (vs_mon s)" and n: "tracked (vs_mon s) (ve_current_task env) = Some n"
    and diff: "foldr (XOR) (cred_ids (tn_cred n)) 0 \<noteq> foldr (XOR) (cred_ids (ts_cred (ve_tasks env (ve_current_task env)))) 0"
    and mm: "ts_comm (ve_tasks env (ve_current_task env)) = ''modprobe'' \<longrightarrow> ts_mm (ve_tasks env (ve_current_task env)) \<noteq> 0"
  shows "\<exists>s'. hb_vm_exit_callback_int env dr6 s = Some s' \<and>
    vs_ctx s' = (vs_ctx s)\<lparr>rax := NR_exit, rdx := -1\<rparr> \<and> m_signals (vs_mon s') = m_signals (vs_mon s) @ [ve_current_task env] \<and>
    tm_wf (ve_monitor env) (vs_mon s') \<and>
    (\<forall>p q. tracked (vs_mon s) p = Some q \<and> tn_tgid q = tn_tgid n \<longrightarrow>
      (\<exists>q'. tracked (vs_mon s') p = Some q' \<and> tn_need_exit q' = 1)) \<and>
    vs_dr s' 6 AND 0xF = 0 \<and> bit (vm_field s' VM_GUEST_RFLAGS) 16"
proof -
  obtain t where t: "hb_callback_check_cred_update_syscall (ve_monitor env) (ve_tasks env) (ve_current_task env)
      (sint (ucast (rax (vs_ctx s)) :: u32)) (vs_mon s) = Some (-1, t)" "tm_wf (ve_monitor env) t"
      "m_signals t = m_signals (vs_mon s) @ [ve_current_task env]"
      "\<forall>p q. tracked (vs_mon s) p = Some q \<and> tn_tgid q = tn_tgid n \<longrightarrow> (\<exists>q'. tracked t p = Some q' \<and> tn_need_exit q' = 1)"
    using cred_change_reported [where kt = "ve_tasks env" and task = "ve_current_task env", OF wf n diff [folded cred_sum_def] mm] by meson
  let ?s1 = "set_ctx (\<lambda>c. c\<lparr>rax := NR_exit, rdx := -1\<rparr>) (s\<lparr>vs_mon := t\<rparr>)"
  let ?s2 = "set_debugreg (dr6 AND 0xfffffffffffffff0) 6 ?s1"
  let ?s3 = "hb_write_vmcs env VM_GUEST_RFLAGS (vm_field s VM_GUEST_RFLAGS OR RFLAGS_BIT_RF) ?s2"
  have ok1: "vm_ok env (s\<lparr>vs_mon := t\<rparr>)" "vm_field (s\<lparr>vs_mon := t\<rparr>) = vm_field s"
    using ok by (simp_all add: vm_ok_def vm_field_def [abs_def])
  have call: "hb_handle_systemcall_breakpoints env dr6 s = Some ?s1"
    using t(1) dr by (simp add: hb_handle_systemcall_breakpoints_def)
  have info: "hb_read_vmcs env VM_DATA_VM_EXIT_INT_INFO (uninit env) s = vm_field s VM_DATA_VM_EXIT_INT_INFO"
    using ok by (simp add: vmcs_rw)
  have run: "hb_vm_exit_callback_int env dr6 s = Some (hb_remove_int_exception_from_vm env VM_INT_DEBUG_EXCEPTION ?s3)"
    using up db call ok ok1 unfolding hb_vm_exit_callback_int_def Let_def info by (simp add: read_field vm_ok_fields)
  have "vm_field ?s3 VM_GUEST_RFLAGS = vm_field s VM_GUEST_RFLAGS OR RFLAGS_BIT_RF"
    using ok1 by (simp add: write_field vm_ok_fields take_bit_64)
  then have "bit (vm_field (hb_remove_int_exception_from_vm env VM_INT_DEBUG_EXCEPTION ?s3) VM_GUEST_RFLAGS) 16"
    by (simp add: remove_int_field vmcs_field_defs bit_or_iff bit_RF)
  moreover have "(dr6 AND 0xfffffffffffffff0) AND 0xF = 0"
    by (simp add: and.assoc)
  ultimately show ?thesis unfolding run using t by auto
qed

theorem forged_task_exits_witness:
  "\<exists>s s'. hb_vm_exit_callback_int sample_vm_env 4 s = Some s' \<and> rax (vs_ctx s') = 60 \<and> m_signals (vs_mon s') = [0x3000]"
proof -
  obtain m n where m: "tm_wf sample_mon_env m" "tracked m 0x3000 = Some n"
      "n = (new_node 0x3000 (sample_task 0x3000))\<lparr>tn_syscall_number := 1\<rparr>" "m_signals m = []"
    using sample_parent by blast
  have "foldr (XOR) (cred_ids (tn_cred n)) 0 \<noteq> foldr (XOR) (cred_ids ((sample_cred 1000)\<lparr>euid := 0\<rparr>)) 0"
    by (simp add: m(3) new_node_def sample_task_def cred_ids_def sample_cred_def)
  moreover have "hb_is_system_shutdowning sample_vm_env = 0" "ve_monitor sample_vm_env = sample_mon_env"
      "ve_current_task sample_vm_env = 0x3000" "ts_cred (ve_tasks sample_vm_env p) = (sample_cred 1000)\<lparr>euid := 0\<rparr>"
      "ts_comm (ve_tasks sample_vm_env p) = ''bash''" for p
    by (simp_all add: sample_vm_env_def hb_is_system_shutdowning_def sample_task_def)
  ultimately show ?thesis
    using forged_task_exits [OF sample_vm_ok(1) [of "\<lambda>_. 1" m], of "4" n] m
    by (fastforce simp: VM_EXIT_INT_INFO_VECTOR_def VM_INT_DEBUG_EXCEPTION_def DR_BIT_SYSCALL_64_def NR_exit_def)
qed

section \<open>Exits without a handler\<close>

lemma root_mode_select [simp]:
  "vs_ctx (set_root_mode c b s) = vs_ctx s" "vs_mon (set_root_mode c b s) = vs_mon s" "vm_field (set_root_mode c b s) = vm_field s"
  "vm_ok env (set_root_mode c b s) = vm_ok env s" "vs_current (set_root_mode c b s) = vs_current s"
  "vs_mem (set_root_mode c b s) = vs_mem s" "vs_prot (set_root_mode c b s) = vs_prot s" "vs_vmcs (set_root_mode c b s) = vs_vmcs s"
  "g_nested_vmcs_ptr (set_root_mode c b s) = g_nested_vmcs_ptr s" "g_nested_vmcs_array (set_root_mode c b s) = g_nested_vmcs_array s"
  "g_vmx_root_mode (set_root_mode c b s) = (g_vmx_root_mode s)(c := b)"
  "vs_revision (set_root_mode c b s) = vs_revision s" "vs_launched (set_root_mode c b s) = vs_launched s"
  by (simp_all add: set_root_mode_def vm_field_def [abs_def] vm_ok_def)

lemma root_mode_flags [simp]:
  "g_is_shutdown_trigger_set (set_root_mode c b s) = g_is_shutdown_trigger_set s"
  "g_need_init_in_secure (set_root_mode c b s) = g_need_init_in_secure s"
  "g_need_init_in_secure (hb_write_vmcs env f v s) = g_need_init_in_secure s"
  by (simp_all add: set_root_mode_def hb_write_vmcs_def)

text \<open>An exit of the Linux guest for a reason that has no handler of its own (the explicit empty cases and the
  default) makes the guest continue behind the instruction: apart from the instruction pointer and the
  instruction length for the next entry, the VMCS, the registers, the memory, the EPT and the monitor are untouched, and
  the processor is marked as outside of the hypervisor again.\<close>

theorem unhandled_exit_skips:
  assumes "vm_ok env s" "vs_current s = g_guest_vmcs_phy_addr env cpu" "vm_field s VM_DATA_EXIT_REASON = reason"
    and "reason \<in> set skip_reasons"
    and "g_is_shutdown_trigger_set s = 0" "g_need_init_in_secure s = 0" "g_nested_vmcs_ptr s cpu = 0"
  shows "\<exists>s'. hb_vm_exit_callback env cpu s = Some s' \<and>
    (\<forall>f. vm_field s' f = (if f = VM_GUEST_RIP then vm_field s VM_GUEST_RIP + vm_field s VM_DATA_VM_EXIT_INST_LENGTH
       else if f = VM_CTRL_VM_ENTRY_INST_LENGTH then 0 else vm_field s f)) \<and>
    vs_current s' = vs_current s \<and> vs_ctx s' = vs_ctx s \<and> vs_mem s' = vs_mem s \<and> vs_prot s' = vs_prot s \<and>
    vs_mon s' = vs_mon s \<and> g_vmx_root_mode s' cpu = 0"
proof -
  let ?s = "set_root_mode cpu 1 s"
  let ?t = "hb_write_vmcs env VM_CTRL_VM_ENTRY_INST_LENGTH 0 ?s"
  have r: "hb_read_vmcs env VM_DATA_EXIT_REASON (uninit env) ?s = reason" using assms(1,3) by (simp add: read_field vm_ok_fields)
  have "reason AND 0xFFFF = reason" "reason \<notin> {VM_EXIT_REASON_EXCEPT_OR_NMI, VM_EXIT_REASON_EXT_INTTERUPT,
      VM_EXIT_REASON_INIT_SIGNAL, VM_EXIT_REASON_START_UP_IPI}"
    using assms(4) by (auto simp: skip_reasons_def hb_consts)
  then have "exit_switch1 env cpu (reason AND 0xFFFF) q ?t = Some (False, hb_advance_vm_guest_rip env ?t)" for q
    using assms(4) by (simp add: exit_switch1_def)
  moreover have "hide_hypervisor env ?t = Some ?t" using assms(6) by (simp add: hide_hypervisor_def)
  moreover have "hb_is_shutdown_timer_expired env ?s = (0, ?s)" using assms(5) by (simp add: hb_is_shutdown_timer_expired_def)
  ultimately have run: "hb_vm_exit_callback env cpu s = Some (set_root_mode cpu 0 (hb_advance_vm_guest_rip env ?t))"
    using assms(2,7) r by (simp add: hb_vm_exit_callback_def exit_from_guest_def hb_store_vmcs_def)
  show ?thesis unfolding run
    using assms(1) by (simp add: advance_eq write_field vm_ok_fields take_bit_64 vmcs_field_defs)
qed

theorem unhandled_exit_skips_witness:
  "\<exists>s'. hb_vm_exit_callback sample_vm_env 0 ((sample_vm (\<lambda>_. 12) sample_monitor)\<lparr>g_nested_vmcs_ptr := (\<lambda>_. 0)\<rparr>) = Some s' \<and>
     vm_field s' VM_GUEST_RIP = 24"
proof -
  let ?s = "(sample_vm (\<lambda>_. 12) sample_monitor)\<lparr>g_nested_vmcs_ptr := (\<lambda>_. 0)\<rparr>"
  have "vm_ok sample_vm_env ?s" "vs_current ?s = g_guest_vmcs_phy_addr sample_vm_env 0" "vm_field ?s VM_DATA_EXIT_REASON = 12"
      "g_is_shutdown_trigger_set ?s = 0" "g_need_init_in_secure ?s = 0" "g_nested_vmcs_ptr ?s 0 = 0" "\<And>f. vm_field ?s f = 12"
    by (simp_all add: vm_ok_def vm_field_def sample_vm_def sample_vm_env_def sdm_fields_def NO_VMCS_def)
  moreover have "(12 :: u64) \<in> set skip_reasons" by (simp add: skip_reasons_def hb_consts)
  ultimately show ?thesis using unhandled_exit_skips [of sample_vm_env ?s 0 12] by fastforce
qed

end
