(* ===== verification/Nested.thy ===== *)
theory Nested
  imports Guest_Cpu
begin

text \<open>
  Nested virtualisation and the protection of the control registers. The guest may run a hypervisor of its own: its VMX
  instructions exit to the handlers, which keep the host state that it asked for in \<open>g_nested_vmcs_array\<close> and put their own
  into the VMCS, so that every exit of a nested guest passes through the hypervisor first.
\<close>

section \<open>Virtualised host state\<close>

text \<open>The host state that the hypervisor puts into a nested VMCS, and the entry of \<open>g_nested_vmcs_array\<close> in which it
  keeps the value of the guest.\<close>

definition own_host_value :: "vm_env \<Rightarrow> nat \<Rightarrow> u64 \<Rightarrow> u64" where
  "own_host_value env cpu f =
     (if f = VM_HOST_RIP then hb_vm_exit_callback_stub env else if f = VM_HOST_RSP then host_stack env cpu else g_vm_host_phy_pml4 env)"

definition saved_host_value :: "hb_nested_vmcs_struct \<Rightarrow> u64 \<Rightarrow> u64" where
  "saved_host_value e f = (if f = VM_HOST_RIP then nv_rip e else if f = VM_HOST_RSP then nv_rsp e else nv_cr3 e)"

definition save_host_value :: "u64 \<Rightarrow> u64 \<Rightarrow> hb_nested_vmcs_struct \<Rightarrow> hb_nested_vmcs_struct" where
  "save_host_value f v e =
     (if f = VM_HOST_RIP then e\<lparr>nv_rip := v\<rparr> else if f = VM_HOST_RSP then e\<lparr>nv_rsp := v\<rparr> else e\<lparr>nv_cr3 := v\<rparr>)"

definition host_fields :: "u64 set" where
  "host_fields = {VM_HOST_RIP, VM_HOST_RSP, VM_HOST_CR3}"

lemma saved_save [simp]: "saved_host_value (save_host_value f v e) f = v" "nv_vmcs_ptr (save_host_value f v e) = nv_vmcs_ptr e"
  "saved_host_value (e\<lparr>nv_vmcs_ptr := q\<rparr>) f = saved_host_value e f"
  by (simp_all add: saved_host_value_def save_host_value_def)

lemma host_fields_ok:
  "f \<in> host_fields \<Longrightarrow> field_width f = 64" "f \<in> host_fields \<Longrightarrow> sdm_fields env \<Longrightarrow> hw_writable env f"
  by (auto simp: host_fields_def)

lemma nested_host_value_eq:
  "f \<in> host_fields \<Longrightarrow> nested_host_value env cpu i f v s = (own_host_value env cpu f, set_nested i (save_host_value f v) s)"
  by (auto simp: host_fields_def nested_host_value_def own_host_value_def save_host_value_def [abs_def] host_stack_def
      VM_HOST_RIP_def VM_HOST_RSP_def VM_HOST_CR3_def)

lemma set_nested_select [simp]:
  "vs_current (set_nested i f s) = vs_current s" "vs_vmcs (set_nested i f s) = vs_vmcs s" "vs_ctx (set_nested i f s) = vs_ctx s"
  "vs_revision (set_nested i f s) = vs_revision s" "g_nested_vmcs_ptr (set_nested i f s) = g_nested_vmcs_ptr s"
  "vm_field (set_nested i f s) = vm_field s" "vm_ok env (set_nested i f s) = vm_ok env s"
  "g_nested_vmcs_array (set_nested i f s) = (g_nested_vmcs_array s)[i := f (g_nested_vmcs_array s ! i)]"
  "vs_launched (set_nested i f s) = vs_launched s"
  by (simp_all add: set_nested_def vm_field_def [abs_def] vm_ok_def)

text \<open>The slot found for a pointer is in range, and it is still found when its other contents change.\<close>

lemma find_nested_bound: "hb_find_nested_vmcs_struct p s = Some i \<Longrightarrow> i < length (g_nested_vmcs_array s)"
  by (auto simp: hb_find_nested_vmcs_struct_def Let_def split: if_splits)

lemma takeWhile_index:
  "length (takeWhile P xs) = i \<and> i < length xs \<longleftrightarrow> i < length xs \<and> \<not> P (xs ! i) \<and> (\<forall>j < i. P (xs ! j))"
proof (induction xs arbitrary: i)
  case (Cons x xs)
  show ?case
  proof (cases i)
    case (Suc k)
    then show ?thesis using Cons [of k] by (auto simp: less_Suc_eq_0_disj)
  qed auto
qed simp

lemma find_nested_iff:
  "hb_find_nested_vmcs_struct p s = Some i \<longleftrightarrow> i < length (g_nested_vmcs_array s) \<and>
     (nv_vmcs_ptr (g_nested_vmcs_array s ! i) = p \<or> nv_vmcs_ptr (g_nested_vmcs_array s ! i) = 0) \<and>
     (\<forall>j < i. nv_vmcs_ptr (g_nested_vmcs_array s ! j) \<noteq> p \<and> nv_vmcs_ptr (g_nested_vmcs_array s ! j) \<noteq> 0)"
  using takeWhile_index [of "\<lambda>e. nv_vmcs_ptr e \<noteq> p \<and> nv_vmcs_ptr e \<noteq> 0" "g_nested_vmcs_array s" i]
  by (auto simp: hb_find_nested_vmcs_struct_def Let_def)

lemma find_nested_kept:
  assumes "hb_find_nested_vmcs_struct p s = Some i" "g_nested_vmcs_array s' = (g_nested_vmcs_array s)[i := e]" "nv_vmcs_ptr e = p"
  shows "hb_find_nested_vmcs_struct p s' = Some i"
  using assms by (simp add: find_nested_iff nth_list_update)

section \<open>VMWRITE and VMREAD of a nested hypervisor\<close>

text \<open>The nested VMCS \<open>p\<close> and the current one can be loaded, and they are different.\<close>

definition nested_loadable :: "vm_env \<Rightarrow> u64 \<Rightarrow> vm \<Rightarrow> bool" where
  "nested_loadable env p s \<longleftrightarrow> hw_vmptrld_ok env p (vs_revision s p) \<and> hw_vmptrld_ok env (vs_current s) (vs_revision s (vs_current s)) \<and>
     p \<noteq> NO_VMCS \<and> p \<noteq> vs_current s"

lemma nested_vmwrite_host:
  assumes ok: "vm_ok env s" and f: "f \<in> host_fields" and p: "nested_loadable env (g_nested_vmcs_ptr s cpu) s"
    and i: "i < length (g_nested_vmcs_array s)"
  shows "\<exists>s'. nested_vmwrite env cpu i f v (vs_current s) s = s' \<and> vs_current s' = vs_current s \<and>
    vs_vmcs s' (g_nested_vmcs_ptr s cpu) f = own_host_value env cpu f \<and>
    vs_vmcs s' (vs_current s) = vs_vmcs s (vs_current s) \<and>
    g_nested_vmcs_array s' = (g_nested_vmcs_array s)[i := save_host_value f v (g_nested_vmcs_array s ! i)] \<and>
    g_nested_vmcs_ptr s' = g_nested_vmcs_ptr s \<and> vs_revision s' = vs_revision s \<and> vs_ctx s' = vs_ctx s"
proof -
  let ?p = "g_nested_vmcs_ptr s cpu"
  let ?t = "(set_nested i (save_host_value f v) s)\<lparr>vs_current := ?p\<rparr>"
  let ?u = "hb_write_vmcs env f (own_host_value env cpu f) ?t"
  have load: "hb_load_vmcs env ?p (set_nested i (save_host_value f v) s) = (0, ?t)"
    using p by (simp add: hb_load_vmcs_def nested_loadable_def)
  have reload: "hb_load_vmcs env (vs_current s) ?u = (0, ?u\<lparr>vs_current := vs_current s\<rparr>)"
    using p by (simp add: hb_load_vmcs_def nested_loadable_def)
  have run: "nested_vmwrite env cpu i f v (vs_current s) s = ?u\<lparr>vs_current := vs_current s\<rparr>"
    using load reload by (simp add: nested_vmwrite_def nested_host_value_eq [OF f] Let_def)
  have "vs_vmcs ?u ?p f = own_host_value env cpu f" "vs_vmcs ?u (vs_current s) = vs_vmcs s (vs_current s)"
    using p host_fields_ok [OF f] ok by (auto simp: hb_write_vmcs_def nested_loadable_def vm_ok_fields take_bit_64)
  then show ?thesis unfolding run by simp
qed

lemma ctx_if: "\<exists>g. \<forall>t. F t = set_ctx g t \<Longrightarrow> \<exists>g. \<forall>t. (if b then set_ctx h t else F t) = set_ctx g t"
  by (cases b) auto

lemma set_reg_ctx:
  assumes "index \<noteq> REG_NUM_RSP"
  shows "\<exists>g. \<forall>t. hb_set_reg_value_from_index env index v t = set_ctx g t"
proof -
  have "\<exists>g. \<forall>t. t = set_ctx g t" by (rule exI [of _ id]) (simp add: set_ctx_def)
  then show ?thesis
    unfolding hb_set_reg_value_from_index_def if_not_P [OF assms] by (intro ctx_if)
qed

lemma nested_vmread_host:
  assumes f: "f \<in> host_fields" and p: "nested_loadable env (g_nested_vmcs_ptr s cpu) s"
    and r: "VM_INST_INFO_REG1 info \<noteq> REG_NUM_RSP"
  shows "nested_vmread env cpu i info False f d (vs_current s) s =
    hb_set_reg_value_from_index env (VM_INST_INFO_REG1 info) (saved_host_value (g_nested_vmcs_array s ! i) f) s"
proof -
  let ?p = "g_nested_vmcs_ptr s cpu"
  let ?v = "saved_host_value (g_nested_vmcs_array s ! i) f"
  obtain g where g: "\<And>t. hb_set_reg_value_from_index env (VM_INST_INFO_REG1 info) ?v t = set_ctx g t"
    using set_reg_ctx [OF r, of env ?v] by blast
  let ?t = "s\<lparr>vs_current := ?p\<rparr>"
  have load: "hb_load_vmcs env ?p s = (0, ?t)"
    using p by (simp add: hb_load_vmcs_def nested_loadable_def)
  have reload: "hb_load_vmcs env (vs_current s) (set_ctx g ?t) = (0, set_ctx g s)"
    using p by (simp add: hb_load_vmcs_def nested_loadable_def set_ctx_def)
  have v: "(if f = VM_HOST_RIP then nv_rip (g_nested_vmcs_array ?t ! i) else if f = VM_HOST_RSP then nv_rsp (g_nested_vmcs_array ?t ! i)
      else if f = VM_HOST_CR3 then nv_cr3 (g_nested_vmcs_array ?t ! i) else hb_read_vmcs env f 0 ?t) = ?v"
    using f by (auto simp: host_fields_def saved_host_value_def)
  show ?thesis
    unfolding nested_vmread_def load Let_def prod.case v by (simp add: put_operand_def g reload)
qed

text \<open>What every VMX instruction does first: the instruction pointer advances and the error flags are cleared.\<close>

definition vmx_done :: "vm_env \<Rightarrow> vm \<Rightarrow> vm" where
  "vmx_done env s = hb_clear_vmx_inst_flags env (hb_advance_vm_guest_rip env s)"

lemma vmx_done_select [simp]:
  "vs_ctx (vmx_done env s) = vs_ctx s" "vs_current (vmx_done env s) = vs_current s" "vs_revision (vmx_done env s) = vs_revision s"
  "g_nested_vmcs_ptr (vmx_done env s) = g_nested_vmcs_ptr s" "g_nested_vmcs_array (vmx_done env s) = g_nested_vmcs_array s"
  "vm_ok env' (vmx_done env s) = vm_ok env' s" "vs_launched (vmx_done env s) = vs_launched s"
  by (simp_all add: vmx_done_def hb_clear_vmx_inst_flags_def Let_def)

lemma vmx_done_vmcs: "g \<notin> {VM_GUEST_RIP, VM_GUEST_RFLAGS} \<Longrightarrow> vs_vmcs (vmx_done env s) a g = vs_vmcs s a g"
  by (simp add: vmx_done_def hb_clear_vmx_inst_flags_def hb_advance_vm_guest_rip_def hb_write_vmcs_def Let_def)

lemma vmx_done_field: "g \<notin> {VM_GUEST_RIP, VM_GUEST_RFLAGS} \<Longrightarrow> vm_field (vmx_done env s) g = vm_field s g"
  by (simp add: vm_field_def vmx_done_vmcs)

lemma vmx_done_other: "a \<noteq> vs_current s \<Longrightarrow> vs_vmcs (vmx_done env s) a = vs_vmcs s a"
  by (simp add: vmx_done_def hb_clear_vmx_inst_flags_def hb_advance_vm_guest_rip_def hb_write_vmcs_def Let_def)

lemma find_nested_cong:
  "g_nested_vmcs_array s' = g_nested_vmcs_array s \<Longrightarrow> hb_find_nested_vmcs_struct p s' = hb_find_nested_vmcs_struct p s"
  by (simp add: hb_find_nested_vmcs_struct_def)

lemma get_reg_cong:
  "vs_ctx s' = vs_ctx s \<Longrightarrow> vm_field s' VM_GUEST_RSP = vm_field s VM_GUEST_RSP \<Longrightarrow> vs_current s' = vs_current s \<Longrightarrow>
     hb_get_reg_value_from_index env i s' = hb_get_reg_value_from_index env i s"
  unfolding hb_get_reg_value_from_index_def hb_read_vmcs_def vm_field_def by (simp only:)

lemma nested_loadable_cong:
  "vs_revision s' = vs_revision s \<Longrightarrow> vs_current s' = vs_current s \<Longrightarrow> nested_loadable env p s' = nested_loadable env p s"
  by (simp add: nested_loadable_def)

text \<open>A VMREAD or VMWRITE with two register operands.\<close>

definition reg_operands :: "vm_env \<Rightarrow> vm \<Rightarrow> nat \<Rightarrow> nat \<Rightarrow> bool" where
  "reg_operands env s a b \<longleftrightarrow>
     VM_INST_INFO_MEM_REG (vm_field s VM_DATA_VM_EXIT_INST_INFO) \<noteq> 0 \<and> vm_field s VM_DATA_EXIT_QUALIFICATION = 0 \<and>
     VM_INST_INFO_REG1 (vm_field s VM_DATA_VM_EXIT_INST_INFO) = a \<and> VM_INST_INFO_REG2 (vm_field s VM_DATA_VM_EXIT_INST_INFO) = b"

lemma inst_type2_regs:
  assumes "vm_ok env s" "reg_operands env s a b" "hb_find_nested_vmcs_struct (g_nested_vmcs_ptr s cpu) s = Some i"
  defines "t \<equiv> set_nested i (\<lambda>e. e\<lparr>nv_vmcs_ptr := g_nested_vmcs_ptr s cpu\<rparr>) (vmx_done env s)"
  shows "hb_vm_exit_callback_vmx_inst_type2 env cpu VM_EXIT_REASON_VMWRITE s =
      nested_vmwrite env cpu i (hb_get_reg_value_from_index env b s) (hb_get_reg_value_from_index env a s) (vs_current s) t"
    and "hb_vm_exit_callback_vmx_inst_type2 env cpu VM_EXIT_REASON_VMREAD s =
      nested_vmread env cpu i (vm_field s VM_DATA_VM_EXIT_INST_INFO) False (hb_get_reg_value_from_index env b s)
        (hb_get_reg_value_from_index env a s) (vs_current s) t"
proof -
  have "hb_find_nested_vmcs_struct (g_nested_vmcs_ptr s cpu) (vmx_done env s) = Some i"
    using assms(3) by (subst find_nested_cong [of _ s]) simp_all
  then show "hb_vm_exit_callback_vmx_inst_type2 env cpu VM_EXIT_REASON_VMWRITE s =
      nested_vmwrite env cpu i (hb_get_reg_value_from_index env b s) (hb_get_reg_value_from_index env a s) (vs_current s) t"
    "hb_vm_exit_callback_vmx_inst_type2 env cpu VM_EXIT_REASON_VMREAD s =
      nested_vmread env cpu i (vm_field s VM_DATA_VM_EXIT_INST_INFO) False (hb_get_reg_value_from_index env b s)
        (hb_get_reg_value_from_index env a s) (vs_current s) t"
    using assms(1,2)
    by (simp_all add: hb_vm_exit_callback_vmx_inst_type2_def reg_operands_def inst_operand_def read_field vm_ok_fields
        vmx_done_def [symmetric] t_def hb_store_vmcs_def VM_EXIT_REASON_VMREAD_def VM_EXIT_REASON_VMWRITE_def)
qed

text \<open>C5: the host state of a nested VMCS is virtualised. When the hypervisor of the guest writes HOST_RIP, HOST_RSP or
  HOST_CR3 with VMWRITE, the VMCS receives the entry point, the stack or the page table of this hypervisor instead, so
  that no exit can bypass it; and a later VMREAD of the field returns the value the guest wrote, whatever the register held
  in between. The VMCS of the guest stays the current one.\<close>

theorem nested_host_state_virtualised:
  assumes ok: "vm_ok env s" and ops: "reg_operands env s a b" "a \<noteq> REG_NUM_RSP" "a \<noteq> b" "a < 16"
    and f: "f = hb_get_reg_value_from_index env b s" "f \<in> {VM_HOST_RIP, VM_HOST_RSP, VM_HOST_CR3}"
    and p: "nested_loadable env (g_nested_vmcs_ptr s cpu) s"
    and slot: "hb_find_nested_vmcs_struct (g_nested_vmcs_ptr s cpu) s \<noteq> None"
    and s1: "s1 = hb_vm_exit_callback_vmx_inst_type2 env cpu VM_EXIT_REASON_VMWRITE s"
    and s2: "s2 = hb_vm_exit_callback_vmx_inst_type2 env cpu VM_EXIT_REASON_VMREAD (hb_set_reg_value_from_index env a w s1)"
  shows "vs_vmcs s1 (g_nested_vmcs_ptr s cpu) f = own_host_value env cpu f \<and> vs_current s1 = vs_current s \<and>
    hb_get_reg_value_from_index env a s2 = hb_get_reg_value_from_index env a s \<and> vs_current s2 = vs_current s"
proof -
  let ?p = "g_nested_vmcs_ptr s cpu" and ?v = "hb_get_reg_value_from_index env a s"
  have fh: "f \<in> host_fields" using f(2) by (simp add: host_fields_def)
  obtain i where i: "hb_find_nested_vmcs_struct ?p s = Some i" using slot by blast
  note bound = find_nested_bound [OF i]
  let ?t = "set_nested i (\<lambda>e. e\<lparr>nv_vmcs_ptr := ?p\<rparr>) (vmx_done env s)"
  have t: "vm_ok env ?t" "nested_loadable env (g_nested_vmcs_ptr ?t cpu) ?t" "i < length (g_nested_vmcs_array ?t)"
    using ok p bound by (simp_all add: nested_loadable_cong [of ?t s])
  have "s1 = nested_vmwrite env cpu i f ?v (vs_current ?t) ?t"
    unfolding s1 inst_type2_regs(1) [OF ok ops(1) i] by (simp add: f(1))
  then have w1: "vs_current s1 = vs_current s" "vs_vmcs s1 ?p f = own_host_value env cpu f"
      "vs_vmcs s1 (vs_current s) = vs_vmcs ?t (vs_current s)" "g_nested_vmcs_ptr s1 = g_nested_vmcs_ptr s"
      "g_nested_vmcs_array s1 = (g_nested_vmcs_array s)[i := save_host_value f ?v ((g_nested_vmcs_array s ! i)\<lparr>nv_vmcs_ptr := ?p\<rparr>)]"
      "vs_revision s1 = vs_revision s" "vs_ctx s1 = vs_ctx s"
    using nested_vmwrite_host [OF t(1) fh t(2,3), of ?v] bound by (auto simp: nth_list_update)
  let ?u = "hb_set_reg_value_from_index env a w s1"
  obtain g where g: "?u = set_ctx g s1" using set_reg_ctx [OF ops(2), of env w] by blast
  have fld: "vm_field ?u h = vm_field s h" if "h \<notin> {VM_GUEST_RIP, VM_GUEST_RFLAGS}" for h
    using that w1(1,3) by (simp add: g vm_field_def vmx_done_vmcs)
  have u: "vm_ok env ?u" "reg_operands env ?u a b"
    using ok ops(1) w1(1) fld by (simp_all add: vm_ok_def g reg_operands_def vmcs_field_defs)
  have find: "hb_find_nested_vmcs_struct (g_nested_vmcs_ptr ?u cpu) ?u = Some i"
    using find_nested_kept [OF i, of s1] w1(4,5) by (simp add: g find_nested_cong [of "set_ctx g s1" s1])
  have "hb_get_reg_value_from_index env b s1 = f"
    unfolding f(1) using w1(1,3,7) by (intro get_reg_cong) (simp_all add: vm_field_def vmx_done_vmcs vmcs_field_defs)
  moreover have ok1: "vm_ok env s1" using ok w1(1) by (simp add: vm_ok_def)
  ultimately have fb: "hb_get_reg_value_from_index env b ?u = f"
    using get_set_reg [OF ok1, of a b w] ops(3,4) by (simp add: gp_regs_def)
  let ?r = "set_nested i (\<lambda>e. e\<lparr>nv_vmcs_ptr := g_nested_vmcs_ptr ?u cpu\<rparr>) (vmx_done env ?u)"
  have r: "nested_loadable env (g_nested_vmcs_ptr ?r cpu) ?r" "vm_ok env ?r"
      "saved_host_value (g_nested_vmcs_array ?r ! i) f = ?v"
  proof -
    have "vs_revision ?r = vs_revision s" "vs_current ?r = vs_current s" "g_nested_vmcs_ptr ?r = g_nested_vmcs_ptr s"
      using w1(1,4,6) by (simp_all add: g)
    with p show "nested_loadable env (g_nested_vmcs_ptr ?r cpu) ?r" by (simp only: nested_loadable_def simp_thms)
    show "vm_ok env ?r" using u(1) by simp
    show "saved_host_value (g_nested_vmcs_array ?r ! i) f = ?v" using w1(5) bound by (simp add: g)
  qed
  have reg1: "VM_INST_INFO_REG1 (vm_field ?u VM_DATA_VM_EXIT_INST_INFO) = a" using u(2) by (simp add: reg_operands_def)
  have cur: "vs_current ?u = vs_current ?r" by simp
  have "s2 = hb_set_reg_value_from_index env a ?v ?r"
    unfolding s2 inst_type2_regs(2) [OF u find] fb cur
    by (subst nested_vmread_host [OF fh r(1)]) (simp_all only: reg1 ops(2) r(3) not_False_eq_True)
  moreover obtain g' where "hb_set_reg_value_from_index env a ?v ?r = set_ctx g' ?r"
    using set_reg_ctx [OF ops(2), of env ?v] by blast
  ultimately show ?thesis
    using w1 get_set_reg [OF r(2), of a a ?v] ops(4) by (simp add: g gp_regs_def)
qed

definition sample_vmwrite :: vm where
  "sample_vmwrite = set_ctx (\<lambda>c. c\<lparr>rcx := VM_HOST_RIP, rax := 0x1234\<rparr>)
     (sample_vm (\<lambda>f. if f = VM_DATA_VM_EXIT_INST_INFO then 0x10000400 else 0) sample_monitor)"

theorem nested_host_state_virtualised_witness:
  "\<exists>s1. hb_vm_exit_callback_vmx_inst_type2 sample_vm_env 0 VM_EXIT_REASON_VMWRITE sample_vmwrite = s1 \<and>
     vs_vmcs s1 0x20000 VM_HOST_RIP = 0xFFFF0000 \<and>
     hb_get_reg_value_from_index sample_vm_env 0 (hb_vm_exit_callback_vmx_inst_type2 sample_vm_env 0 VM_EXIT_REASON_VMREAD
       (hb_set_reg_value_from_index sample_vm_env 0 0 s1)) = 0x1234"
proof -
  let ?s = "sample_vmwrite"
  have "vm_ok sample_vm_env ?s" by (simp add: sample_vmwrite_def)
  moreover have "reg_operands sample_vm_env ?s 0 1"
    by (simp add: reg_operands_def sample_vmwrite_def VM_INST_INFO_MEM_REG_def VM_INST_INFO_REG1_def VM_INST_INFO_REG2_def
        vmcs_field_defs)
  moreover have "hb_get_reg_value_from_index sample_vm_env 1 ?s = VM_HOST_RIP" "hb_get_reg_value_from_index sample_vm_env 0 ?s = 0x1234"
    by (simp_all add: hb_get_reg_value_from_index_def sample_vmwrite_def reg_nums)
  moreover have "g_nested_vmcs_ptr ?s = (\<lambda>_. 0x20000)" "nested_loadable sample_vm_env 0x20000 ?s"
      "hb_find_nested_vmcs_struct 0x20000 ?s \<noteq> None"
    by (simp_all add: sample_vmwrite_def sample_vm_def set_ctx_def nested_loadable_def sample_vm_env_def NO_VMCS_def
        hb_find_nested_vmcs_struct_def VM_BIT_REVISION_SHADOW_VMCS_def)
  ultimately show ?thesis
    using nested_host_state_virtualised [of sample_vm_env ?s 0 1 VM_HOST_RIP 0, OF _ _ _ _ _ _ _ _ _ refl refl, where w = 0]
    by (simp add: reg_nums own_host_value_def sample_vm_env_def)
qed

section \<open>Shadow VMCS\<close>

definition shadow_bit :: "u32 \<Rightarrow> bool" where
  "shadow_bit r \<longleftrightarrow> bit r 31"

lemma shadow_bit_or [simp]: "shadow_bit (r OR VM_BIT_REVISION_SHADOW_VMCS)"
  and shadow_bit_and [simp]: "\<not> shadow_bit (r AND NOT VM_BIT_REVISION_SHADOW_VMCS)"
proof -
  have "bit VM_BIT_REVISION_SHADOW_VMCS 31" by (simp add: VM_BIT_REVISION_SHADOW_VMCS_def)
  then show "shadow_bit (r OR VM_BIT_REVISION_SHADOW_VMCS)" "\<not> shadow_bit (r AND NOT VM_BIT_REVISION_SHADOW_VMCS)"
    by (simp_all add: shadow_bit_def bit_or_iff bit_and_iff bit_not_iff)
qed

text \<open>The VMCS \<open>g\<close> uses \<open>p\<close> as its shadow: it is linked, its region is marked as a shadow VMCS, and it is in the launch
  state clear, as the processor requires.\<close>

definition shadows :: "vm \<Rightarrow> u64 \<Rightarrow> u64 \<Rightarrow> bool" where
  "shadows s g p \<longleftrightarrow> vs_vmcs s g VM_VMCS_LINK_PTR = p \<and> shadow_bit (vs_revision s p) \<and> \<not> vs_launched s p"

text \<open>The VMCS \<open>p\<close> is not a shadow of \<open>g\<close> and can be entered with VMLAUNCH.\<close>

definition launchable :: "vm \<Rightarrow> u64 \<Rightarrow> u64 \<Rightarrow> bool" where
  "launchable s g p \<longleftrightarrow> vs_vmcs s g VM_VMCS_LINK_PTR = NO_VMCS \<and> \<not> shadow_bit (vs_revision s p) \<and> \<not> vs_launched s p"

lemma set_shadowing:
  assumes "vm_ok env s" "g_support_vmcs_shadowing env = 1" "hw_vmclear_ok env p" "p \<noteq> vs_current s"
  shows "\<exists>s'. hb_vm_set_vmcs_shadowing_to_current env p s = s' \<and> vs_current s' = vs_current s \<and> shadows s' (vs_current s) p \<and>
    (\<forall>f. f \<noteq> VM_VMCS_LINK_PTR \<longrightarrow> vm_field s' f = vm_field s f) \<and> vs_ctx s' = vs_ctx s \<and>
    g_nested_vmcs_ptr s' = g_nested_vmcs_ptr s \<and> g_nested_vmcs_array s' = g_nested_vmcs_array s"
  using assms
  by (auto simp: hb_vm_set_vmcs_shadowing_to_current_def hb_clear_vmcs_def hb_write_vmcs_def vm_ok_def shadows_def
      take_bit_64 vm_field_def Let_def)

lemma clear_shadowing:
  assumes "vm_ok env s" "g_support_vmcs_shadowing env = 1" "hw_vmclear_ok env p" "p \<noteq> vs_current s" "p \<noteq> NO_VMCS"
    and "shadows s (vs_current s) p"
  shows "\<exists>s'. hb_vm_clear_vmcs_shadowing_to_current env s = s' \<and> vs_current s' = vs_current s \<and> launchable s' (vs_current s) p \<and>
    vs_revision s' p = vs_revision s p AND NOT VM_BIT_REVISION_SHADOW_VMCS \<and>
    vs_ctx s' = vs_ctx s \<and> g_nested_vmcs_ptr s' = g_nested_vmcs_ptr s \<and> g_nested_vmcs_array s' = g_nested_vmcs_array s"
proof -
  have "hb_read_vmcs env VM_VMCS_LINK_PTR (uninit env) s = p"
    using assms(1,6) by (simp add: read_field vm_ok_fields vm_field_def shadows_def)
  moreover have "0xFFFFFFFFFFFFFFFF = NO_VMCS" by (simp add: NO_VMCS_def)
  ultimately show ?thesis
    using assms
    by (auto simp: hb_vm_clear_vmcs_shadowing_to_current_def hb_clear_vmcs_def hb_write_vmcs_def vm_ok_def launchable_def
        take_bit_64 Let_def)
qed

lemma shadows_advance: "shadows s g p \<Longrightarrow> shadows (hb_advance_vm_guest_rip env s) g p"
  by (auto simp: shadows_def hb_advance_vm_guest_rip_def hb_write_vmcs_def Let_def vmcs_field_defs)

lemma clear_flags_select [simp]:
  "vs_current (hb_clear_vmx_inst_flags env s) = vs_current s" "vs_revision (hb_clear_vmx_inst_flags env s) = vs_revision s"
  "g_nested_vmcs_ptr (hb_clear_vmx_inst_flags env s) = g_nested_vmcs_ptr s" "vs_launched (hb_clear_vmx_inst_flags env s) = vs_launched s"
  "vs_ctx (hb_clear_vmx_inst_flags env s) = vs_ctx s"
  by (simp_all add: hb_clear_vmx_inst_flags_def Let_def)

lemma write_vmcs_other: "h \<noteq> f \<Longrightarrow> vs_vmcs (hb_write_vmcs env f v s) a h = vs_vmcs s a h"
  by (simp add: hb_write_vmcs_def)

lemma launchable_flags: "launchable (hb_clear_vmx_inst_flags env s) g p = launchable s g p"
proof -
  have "VM_VMCS_LINK_PTR \<noteq> VM_GUEST_RFLAGS" by (simp add: vmcs_field_defs)
  then show ?thesis by (simp add: launchable_def hb_clear_vmx_inst_flags_def write_vmcs_other Let_def)
qed

text \<open>C9: entry into a nested guest. When the VMCS of the guest uses the nested one as its shadow, a VMLAUNCH or
  VMRESUME of the guest dissolves the connection and leaves the nested VMCS loaded, unmarked and in the launch state clear; the
  flag for the entry code asks for VMLAUNCH, the instruction this launch state needs, and the nested
  guest will exit on the stack of this hypervisor.\<close>

theorem nested_entry_prepared:
  assumes ok: "vm_ok env s" and sup: "g_support_vmcs_shadowing env = 1" and p: "p = g_nested_vmcs_ptr s cpu"
    and sh: "shadows s (vs_current s) p" and hw: "hw_vmclear_ok env p" "hw_vmptrld_ok env p (vs_revision s p AND NOT VM_BIT_REVISION_SHADOW_VMCS)"
    and ne: "p \<noteq> vs_current s" "p \<noteq> NO_VMCS"
    and s': "s' \<in> {exit_vmlaunch env cpu s, exit_vmresume env cpu s}"
  shows "vs_current s' = p \<and> launchable s' (vs_current s) p \<and> vm_launch (vs_ctx s') = 1 \<and>
    vm_field s' VM_HOST_RSP = host_stack env cpu"
proof -
  let ?a = "hb_advance_vm_guest_rip env s"
  let ?b = "hb_vm_clear_vmcs_shadowing_to_current env ?a"
  let ?c = "hb_clear_vmx_inst_flags env ?b"
  let ?d = "?c\<lparr>vs_current := p\<rparr>"
  have b: "vs_current ?b = vs_current s" "launchable ?b (vs_current s) p" "vs_ctx ?b = vs_ctx s"
      "vs_revision ?b p = vs_revision s p AND NOT VM_BIT_REVISION_SHADOW_VMCS" "g_nested_vmcs_ptr ?b = g_nested_vmcs_ptr s"
    using clear_shadowing [of env ?a p] ok sup hw(1) ne shadows_advance [OF sh, of env] by auto
  have c: "launchable ?c (vs_current s) p" using b(2) by (simp only: launchable_flags)
  have load: "hb_load_vmcs env (g_nested_vmcs_ptr ?c cpu) ?c = (0, ?d)"
    using b hw(2) p by (simp add: hb_load_vmcs_def)
  have d: "vm_ok env ?d" "vs_current ?d = p" using ok ne by (simp_all add: vm_ok_def)
  have w: "launchable (hb_write_vmcs env VM_HOST_RSP v ?d) (vs_current s) p"
      "vs_vmcs (hb_write_vmcs env VM_HOST_RSP v ?d) p VM_HOST_RSP = v" for v
    using c d ne by (auto simp: launchable_def hb_write_vmcs_def vm_ok_def take_bit_64)
  have ctx: "launchable (set_ctx h t) g q = launchable t g q" "hb_write_vmcs env VM_HOST_RSP v (set_ctx h t) = set_ctx h (hb_write_vmcs env VM_HOST_RSP v t)"
    for h t g q v by (simp_all add: launchable_def hb_write_vmcs_def set_ctx_def)
  have "exit_vmlaunch env cpu s = set_ctx (\<lambda>c. c\<lparr>vm_launch := 1\<rparr>) (hb_write_vmcs env VM_HOST_RSP (host_stack env cpu) ?d)"
    unfolding exit_vmlaunch_def Let_def load by (simp add: ctx)
  moreover have "exit_vmresume env cpu s = set_ctx (\<lambda>c. c\<lparr>vm_launch := 1\<rparr>) (hb_write_vmcs env VM_HOST_RSP (host_stack env cpu) ?d)"
    unfolding exit_vmresume_def Let_def load using sup by simp
  ultimately have "s' = set_ctx (\<lambda>c. c\<lparr>vm_launch := 1\<rparr>) (hb_write_vmcs env VM_HOST_RSP (host_stack env cpu) ?d)"
    using s' by auto
  then show ?thesis using w d by (simp add: ctx vm_field_def)
qed

theorem nested_entry_prepared_witness:
  "vs_current (exit_vmresume sample_vm_env 0 ((sample_vm (\<lambda>_. 0x20000) sample_monitor)
     \<lparr>vs_revision := (\<lambda>_. 0x80000001), vs_launched := (\<lambda>_. False)\<rparr>)) = 0x20000"
proof -
  let ?s = "(sample_vm (\<lambda>_. 0x20000) sample_monitor)\<lparr>vs_revision := (\<lambda>_. 0x80000001), vs_launched := (\<lambda>_. False)\<rparr>"
  have "vm_ok sample_vm_env ?s" "g_support_vmcs_shadowing sample_vm_env = 1" "g_nested_vmcs_ptr ?s 0 = 0x20000" "vs_current ?s = 0x10000"
      "hw_vmclear_ok sample_vm_env 0x20000" "(0x20000 :: u64) \<noteq> NO_VMCS" "shadows ?s (vs_current ?s) 0x20000"
      "hw_vmptrld_ok sample_vm_env 0x20000 (vs_revision ?s 0x20000 AND NOT VM_BIT_REVISION_SHADOW_VMCS)"
    by (simp_all add: vm_ok_def sample_vm_def sample_vm_env_def sdm_fields_def NO_VMCS_def shadows_def shadow_bit_def
        VM_BIT_REVISION_SHADOW_VMCS_def)
  note facts = this
  have "p \<noteq> vs_current ?s" if "p = 0x20000" for p using facts(4) that by (simp only:) simp
  from nested_entry_prepared [OF facts(1,2) facts(3) [symmetric] facts(7,5,8) this [OF refl] facts(6) insertI2 [OF singletonI]]
  show ?thesis by (rule conjunct1)
qed

section \<open>Exits of a nested guest\<close>

lemma ctx_updates [simp]:
  "vm_field (s\<lparr>g_test_dr := d\<rparr>) = vm_field s" "vm_ok env (s\<lparr>g_test_dr := d\<rparr>) = vm_ok env s"
  "vs_revision (set_debugreg v i s) = vs_revision s" "vs_launched (set_debugreg v i s) = vs_launched s"
  "g_test_dr (set_debugreg v i s) = g_test_dr s"
  by (simp_all add: vm_field_def [abs_def] vm_ok_def set_debugreg_def)

lemma shadows_select: "vs_vmcs s' = vs_vmcs s \<Longrightarrow> vs_revision s' = vs_revision s \<Longrightarrow> vs_launched s' = vs_launched s \<Longrightarrow>
    shadows s' g p = shadows s g p"
  by (simp add: shadows_def)

text \<open>C6: an exit of a nested guest ends in the hypervisor of the guest: the VMCS of the Linux guest is current again and
  continues at the RIP, RSP and CR3 that the guest had written as host state of its VMCS, with the FS and GS base of that
  host state and cleared flags; the nested VMCS becomes the shadow of the guest's one, and the processor is marked as
  outside of the hypervisor.\<close>

theorem nested_exit_returns:
  assumes ok: "sdm_fields env" and G: "G = g_guest_vmcs_phy_addr env cpu" "G \<noteq> NO_VMCS" "vs_current s \<noteq> G" "vs_current s \<noteq> NO_VMCS"
    and load: "hw_vmptrld_ok env G (vs_revision s G)" and sup: "g_support_vmcs_shadowing env = 1" and clr: "hw_vmclear_ok env (vs_current s)"
    and slot: "hb_find_nested_vmcs_struct (vs_current s) s = Some i" "e = g_nested_vmcs_array s ! i"
  shows "\<exists>s'. hb_vm_exit_callback env cpu s = Some s' \<and> vs_current s' = G \<and> vm_field s' VM_GUEST_RIP = nv_rip e \<and>
    vm_field s' VM_GUEST_RSP = nv_rsp e \<and> vm_field s' VM_GUEST_CR3 = nv_cr3 e \<and> vm_field s' VM_GUEST_RFLAGS = 2 \<and>
    vm_field s' VM_GUEST_FS_BASE = vm_field s VM_HOST_FS_BASE \<and> vm_field s' VM_GUEST_GS_BASE = vm_field s VM_HOST_GS_BASE \<and>
    shadows s' G (vs_current s) \<and> g_vmx_root_mode s' cpu = 0"
proof -
  let ?p = "vs_current s"
  let ?r = "set_root_mode cpu 1 s"
  have find: "hb_find_nested_vmcs_struct ?p ?r = Some i" using slot(1) by (simp add: find_nested_cong [of ?r s])
  have regs: "hb_backup_host_register env e ?r = (nv_cr3 e, vm_field s VM_HOST_FS_BASE, vm_field s VM_HOST_GS_BASE)"
    using ok G(4) by (simp add: hb_backup_host_register_def hb_read_vmcs_def vm_field_def)
  let ?a = "?r\<lparr>vs_current := G\<rparr>"
  have a: "snd (hb_load_vmcs env G ?r) = ?a" "vm_ok env ?a" "vs_current ?a = G"
    using load ok G(2) by (simp_all add: hb_load_vmcs_def vm_ok_def)
  let ?b = "hb_copy_host_reg_to_guest env (nv_cr3 e, vm_field s VM_HOST_FS_BASE, vm_field s VM_HOST_GS_BASE) ?a"
  have b: "vm_ok env ?b" "vs_current ?b = G" "vm_field ?b VM_GUEST_CR3 = nv_cr3 e"
      "vm_field ?b VM_GUEST_FS_BASE = vm_field s VM_HOST_FS_BASE" "vm_field ?b VM_GUEST_GS_BASE = vm_field s VM_HOST_GS_BASE"
    using a(2) by (simp_all add: hb_copy_host_reg_to_guest_def write_field vm_ok_fields take_bit_64 vmcs_field_defs)
  let ?c = "hb_write_vmcs env VM_GUEST_RFLAGS 2 (hb_write_vmcs env VM_GUEST_RSP (nv_rsp e) (hb_write_vmcs env VM_GUEST_RIP (nv_rip e) ?b))"
  have c: "vm_ok env ?c" "vs_current ?c = G" "vm_field ?c VM_GUEST_RIP = nv_rip e" "vm_field ?c VM_GUEST_RSP = nv_rsp e"
      "vm_field ?c VM_GUEST_RFLAGS = 2" "vm_field ?c VM_GUEST_CR3 = nv_cr3 e"
      "vm_field ?c VM_GUEST_FS_BASE = vm_field s VM_HOST_FS_BASE" "vm_field ?c VM_GUEST_GS_BASE = vm_field s VM_HOST_GS_BASE"
    using b by (simp_all add: write_field vm_ok_fields take_bit_64 vmcs_field_defs)
  let ?d = "hb_vm_set_vmcs_shadowing_to_current env ?p ?c"
  have d: "vs_current ?d = G" "shadows ?d G ?p" "\<And>f. f \<noteq> VM_VMCS_LINK_PTR \<Longrightarrow> vm_field ?d f = vm_field ?c f"
    using set_shadowing [OF c(1) sup clr] c(2) G(3) by auto
  have "\<exists>t. exit_from_nested env cpu ?p ?r = t \<and> vs_current t = vs_current ?d \<and> vs_vmcs t = vs_vmcs ?d \<and>
      vs_revision t = vs_revision ?d \<and> vs_launched t = vs_launched ?d"
    unfolding exit_from_nested_def find option.case Let_def G(1) [symmetric] using slot(2) regs a(1)
    by (simp add: set_debugreg_def)
  then obtain t where t: "exit_from_nested env cpu ?p ?r = t" "vs_current t = vs_current ?d" "vs_vmcs t = vs_vmcs ?d"
      "vs_revision t = vs_revision ?d" "vs_launched t = vs_launched ?d" by blast
  have run: "hb_vm_exit_callback env cpu s = Some (set_root_mode cpu 0 t)"
    using t(1) G(1,3) by (simp add: hb_vm_exit_callback_def hb_store_vmcs_def)
  have fields: "vm_field t f = vm_field ?c f" if "f \<noteq> VM_VMCS_LINK_PTR" for f
    using d(3) [OF that] t(2,3) by (simp add: vm_field_def)
  have "shadows (set_root_mode cpu 0 t) G ?p" using d(2) t by (simp add: shadows_def)
  then show ?thesis unfolding run using fields c d(1) t(2) by (simp add: vmcs_field_defs)
qed

theorem nested_exit_returns_witness:
  "\<exists>s'. hb_vm_exit_callback sample_vm_env 0 ((sample_vm (\<lambda>_. 7) sample_monitor)\<lparr>vs_current := 0x20000,
      g_nested_vmcs_array := [\<lparr>nv_vmcs_ptr = 0x20000, nv_rip = 0x1234, nv_rsp = 0x5678, nv_cr3 = 0x9000\<rparr>]\<rparr>) = Some s' \<and>
     vs_current s' = 0x10000 \<and> vm_field s' VM_GUEST_RIP = 0x1234"
proof -
  let ?s = "(sample_vm (\<lambda>_. 7) sample_monitor)\<lparr>vs_current := 0x20000,
      g_nested_vmcs_array := [\<lparr>nv_vmcs_ptr = 0x20000, nv_rip = 0x1234, nv_rsp = 0x5678, nv_cr3 = 0x9000\<rparr>]\<rparr>"
  have "hw_vmptrld_ok sample_vm_env 0x10000 (vs_revision ?s 0x10000)" "g_support_vmcs_shadowing sample_vm_env = 1"
      "g_guest_vmcs_phy_addr sample_vm_env 0 = 0x10000" "hw_vmclear_ok sample_vm_env (vs_current ?s)"
      "hb_find_nested_vmcs_struct (vs_current ?s) ?s = Some 0" "(0x10000 :: u64) \<noteq> NO_VMCS" "vs_current ?s \<noteq> NO_VMCS"
    by (simp_all add: sample_vm_def sample_vm_env_def NO_VMCS_def hb_find_nested_vmcs_struct_def VM_BIT_REVISION_SHADOW_VMCS_def)
  then show ?thesis using nested_exit_returns [OF sample_vm_ok(2), of "0x10000" 0 ?s 0, OF _ _ _ _ _ _ _ _ refl] by auto
qed

end
