(* ===== verification/Cr_Guard.thy ===== *)
theory Cr_Guard
  imports Nested
begin

text \<open>
  The protection of the control registers as an invariant of the interleaved exits of all processors: the VMCS of a core
  keeps write protection, SMEP and VMXE enabled and machine check exceptions disabled, as long as no exit is taken on a
  processor whose nested VMCS pointer is that VMCS. The hypervisor does not check this condition when the guest executes
  VMPTRLD; a run in which the guest breaks it, and so clears CR0.WP, stands beside the invariant.
\<close>

text \<open>The guest/host masks make the guarded bits of CR0 and CR4 trap.\<close>

definition cr_masked :: "u64 \<Rightarrow> u64 \<Rightarrow> bool" where
  "cr_masked mask0 mask4 \<longleftrightarrow> bit mask0 16 \<and> bit mask4 6 \<and> bit mask4 13 \<and> bit mask4 20"

definition guard :: "u64 \<Rightarrow> vm \<Rightarrow> bool" where
  "guard G s \<longleftrightarrow> cr_guarded (vs_vmcs s G VM_GUEST_CR0) (vs_vmcs s G VM_GUEST_CR4) \<and>
     cr_masked (vs_vmcs s G VM_CTRL_CR0_GUEST_HOST_MASK) (vs_vmcs s G VM_CTRL_CR4_GUEST_HOST_MASK)"

abbreviation guard_fields :: "u64 set" where
  "guard_fields \<equiv> {VM_GUEST_CR0, VM_GUEST_CR4, VM_CTRL_CR0_GUEST_HOST_MASK, VM_CTRL_CR4_GUEST_HOST_MASK}"

lemmas guard_field_defs = vmcs_field_defs VM_CTRL_CR0_GUEST_HOST_MASK_def VM_CTRL_CR4_GUEST_HOST_MASK_def

named_theorems guard_simps \<open>operations that do not touch CR0, CR4 and their masks\<close>

lemma guard_vmcs: "vs_vmcs s' = vs_vmcs s \<Longrightarrow> guard G s' = guard G s"
  by (simp add: guard_def)

lemma guard_write: "f \<notin> guard_fields \<Longrightarrow> guard G (hb_write_vmcs env f v s) = guard G s"
  by (auto simp: guard_def write_vmcs_other)

lemma guard_write_elsewhere: "vs_current s \<noteq> G \<Longrightarrow> guard G (hb_write_vmcs env f v s) = guard G s"
  by (simp add: guard_def hb_write_vmcs_def)

lemma guard_named [guard_simps]:
  assumes "f \<in> {VM_GUEST_RIP, VM_GUEST_RSP, VM_GUEST_RFLAGS, VM_GUEST_CR3, VM_GUEST_FS_BASE, VM_GUEST_GS_BASE, VM_GUEST_GDTR_BASE,
    VM_GUEST_GDTR_LIMIT, VM_GUEST_IDTR_BASE, VM_GUEST_IDTR_LIMIT, VM_GUEST_LDTR_SELECTOR, VM_GUEST_TR_SELECTOR, VM_HOST_RSP,
    VM_VMCS_LINK_PTR, VM_GUEST_VMX_PRE_TIMER_VALUE, VM_CTRL_VM_ENTRY_INT_INFO_FIELD, VM_CTRL_VM_ENTRY_EXCEPT_ERR_CODE,
    VM_CTRL_VM_ENTRY_INST_LENGTH, VM_CTRL_SEC_PROC_BASED_EXE_CTRL}"
  shows "guard G (hb_write_vmcs env f v s) = guard G s"
  using assms by (intro guard_write) (auto simp: guard_field_defs)

lemma guard_plain [guard_simps]:
  "guard G (set_ctx f s) = guard G s" "guard G (mem_store n a v s) = guard G s" "guard G (vm_event e s) = guard G s"
  "guard G (set_debugreg v i s) = guard G s" "guard G (set_root_mode c b s) = guard G s" "guard G (set_nested i h s) = guard G s"
  "guard G (hb_vm_error_log code s) = guard G s" "guard G (hb_wrmsr m v s) = guard G s"
  "guard G (hb_sync_page_table_event a a' s) = guard G s"
  "guard G (s\<lparr>vs_mon := t\<rparr>) = guard G s" "guard G (s\<lparr>vs_prot := q\<rparr>) = guard G s" "guard G (s\<lparr>vs_creds := x\<rparr>) = guard G s"
  "guard G (s\<lparr>g_nested_vmcs_ptr := y\<rparr>) = guard G s" "guard G (s\<lparr>g_test_dr := d\<rparr>) = guard G s" "guard G (s\<lparr>vs_current := u\<rparr>) = guard G s"
  "guard G (s\<lparr>vs_revision := w\<rparr>) = guard G s" "guard G (s\<lparr>g_need_init_in_secure := n'\<rparr>) = guard G s"
  "guard G (s\<lparr>g_allow_hyper_box_hide := n'\<rparr>) = guard G s" "guard G (s\<lparr>g_shutdown_jiffies := j\<rparr>) = guard G s"
  "guard G (s\<lparr>g_is_shutdown_trigger_set := n'\<rparr>) = guard G s"
  by (rule guard_vmcs, simp add: vm_event_def set_debugreg_def set_nested_def hb_vm_error_log_def hb_wrmsr_def hb_sync_page_table_event_def)+

lemma guard_vmx [guard_simps]:
  "guard G (snd (hb_load_vmcs env a s)) = guard G s" "guard G (snd (hb_clear_vmcs env a s)) = guard G s"
  by (rule guard_vmcs, simp add: hb_load_vmcs_def hb_clear_vmcs_def)+

lemma guard_helpers [guard_simps]:
  "guard G (hb_advance_vm_guest_rip env s) = guard G s" "guard G (hb_clear_vmx_inst_flags env s) = guard G s"
  "guard G (hb_insert_ud_exception_to_vm env s) = guard G s" "guard G (hb_remove_int_exception_from_vm env v s) = guard G s"
  "guard G (hb_disable_desc_monitor env s) = guard G s" "guard G (hb_set_reg_value_from_index env i v s) = guard G s"
  "guard G (hb_set_value_to_memory info a v s) = guard G s" "guard G (put_operand env info m a v s) = guard G s"
  "guard G (hb_trigger_shutdown_timer env s) = guard G s" "guard G (snd (hb_is_shutdown_timer_expired env s)) = guard G s"
  by (simp_all add: hb_advance_vm_guest_rip_def hb_clear_vmx_inst_flags_def hb_insert_ud_exception_to_vm_def
      hb_remove_int_exception_from_vm_def hb_disable_desc_monitor_def hb_set_reg_value_from_index_def hb_set_value_to_memory_def
      put_operand_def hb_trigger_shutdown_timer_def hb_is_shutdown_timer_expired_def guard_simps Let_def)

lemma guard_shadowing [guard_simps]:
  "guard G (hb_vm_set_vmcs_shadowing_to_current env p s) = guard G s"
  "guard G (hb_vm_clear_vmcs_shadowing_to_current env s) = guard G s"
  "guard G (hb_copy_host_reg_to_guest env regs s) = guard G s"
  by (simp_all add: hb_vm_set_vmcs_shadowing_to_current_def hb_vm_clear_vmcs_shadowing_to_current_def hb_copy_host_reg_to_guest_def
      guard_simps Let_def split: prod.split)

section \<open>The handlers\<close>

lemma cr0_guarded: "bit (v OR CR0_BIT_WP) 16"
  by (simp add: bit_or_iff cr_bits)

lemma cr4_guarded:
  "bit ((v OR (CR4_BIT_VMXE OR CR4_BIT_SMEP)) AND NOT CR4_BIT_MCE) 13" "bit ((v OR (CR4_BIT_VMXE OR CR4_BIT_SMEP)) AND NOT CR4_BIT_MCE) 20"
  "\<not> bit ((v OR (CR4_BIT_VMXE OR CR4_BIT_SMEP)) AND NOT CR4_BIT_MCE) 6"
  by (simp_all add: bit_and_iff bit_or_iff bit_not_iff cr_bits)

lemma guard_write_cr0: "guard G s \<Longrightarrow> bit v 16 \<Longrightarrow> guard G (hb_write_vmcs env VM_GUEST_CR0 v s)"
  by (auto simp: guard_def cr_guarded_def hb_write_vmcs_def take_bit_64 guard_field_defs)

lemma guard_write_cr4: "guard G s \<Longrightarrow> bit v 13 \<Longrightarrow> bit v 20 \<Longrightarrow> \<not> bit v 6 \<Longrightarrow> guard G (hb_write_vmcs env VM_GUEST_CR4 v s)"
  by (auto simp: guard_def cr_guarded_def hb_write_vmcs_def take_bit_64 guard_field_defs)

lemma guard_access_cr: "guard G s \<Longrightarrow> guard G (hb_vm_exit_callback_access_cr env qual s)"
  by (simp add: hb_vm_exit_callback_access_cr_def write_cr_def guard_simps guard_write_cr0 guard_write_cr4 cr0_guarded cr4_guarded Let_def)

lemma guard_on_mon: "on_mon f s = Some s' \<Longrightarrow> guard G s' = guard G s"
  and guard_on_prot: "on_prot h s = Some s' \<Longrightarrow> guard G s' = guard G s"
  by (auto simp: on_mon_def on_prot_def guard_simps)

lemma guard_breakpoints: "hb_handle_systemcall_breakpoints env dr6 s = Some s' \<Longrightarrow> guard G s' = guard G s"
  by (auto simp: hb_handle_systemcall_breakpoints_def guard_simps guard_on_mon Let_def split: if_splits bind_splits intro: guard_vmcs)

lemma guard_int: "hb_vm_exit_callback_int env dr6 s = Some s' \<Longrightarrow> guard G s' = guard G s"
  by (auto simp: hb_vm_exit_callback_int_def guard_simps guard_breakpoints Let_def split: if_splits bind_splits)

lemma guard_ept:
  assumes "hb_vm_exit_callback_ept_violation env gl gp s = Some s'" "guard G s"
  shows "guard G s'"
  using assms
  by (auto simp: hb_vm_exit_callback_ept_violation_def hb_is_workaround_addr_def guard_simps guard_write_cr0 cr0_guarded guard_on_prot Let_def
      split: if_splits bind_splits)

lemma guard_timer: "hb_vm_exit_callback_pre_timer_expired env s = Some s' \<Longrightarrow> guard G s' = guard G s"
  by (auto simp: hb_vm_exit_callback_pre_timer_expired_def guard_simps guard_on_mon split: if_splits bind_splits)

lemma guard_misc [guard_simps]:
  "guard G (hb_vm_exit_callback_vmcall env s) = guard G s" "guard G (hb_vm_exit_callback_cpuid env s) = guard G s"
  "guard G (hb_vm_exit_callback_invd env s) = guard G s" "guard G (exit_rdmsr env s) = guard G s" "guard G (exit_wrmsr env s) = guard G s"
  "guard G (exit_xsetbv env s) = guard G s" "guard G (hb_vm_exit_callback_gdtr_idtr env s) = guard G s"
  "guard G (hb_vm_exit_callback_ldtr_tr env s) = guard G s" "guard G (hb_vm_exit_callback_start_up_signal env s) = guard G s"
  "guard G (hb_vm_exit_callback_vmx_inst_type1 env cpu reason s) = guard G s"
  by (simp_all add: hb_vm_exit_callback_vmcall_def hb_vm_exit_callback_cpuid_def hb_vm_exit_callback_invd_def exit_rdmsr_def exit_wrmsr_def
      exit_xsetbv_def hb_vm_exit_callback_gdtr_idtr_def hb_vm_exit_callback_ldtr_tr_def hb_vm_exit_callback_start_up_signal_def
      hb_vm_exit_callback_vmx_inst_type1_def store_desc_ptr_def load_desc_ptr_def guard_simps Let_def split: prod.split)

lemma guard_vmwrite:
  assumes "g_nested_vmcs_ptr s cpu \<noteq> G"
  shows "guard G (nested_vmwrite env cpu i f v q s) = guard G s"
proof -
  obtain v' s1 where s1: "nested_host_value env cpu i f v s = (v', s1)" by force
  then have g1: "guard G s1 = guard G s" "g_nested_vmcs_ptr s1 = g_nested_vmcs_ptr s"
    by (auto simp: nested_host_value_def guard_simps split: if_splits)
  show ?thesis
    using assms g1 by (simp add: nested_vmwrite_def s1 hb_load_vmcs_def guard_simps guard_write_elsewhere Let_def)
qed

lemma guard_vmread: "guard G (nested_vmread env cpu i info m f d q s) = guard G s"
  by (simp add: nested_vmread_def hb_load_vmcs_def guard_simps Let_def)

lemma guard_type2:
  assumes "g_nested_vmcs_ptr s cpu \<noteq> G"
  shows "guard G (hb_vm_exit_callback_vmx_inst_type2 env cpu reason s) = guard G s"
  using assms
  by (simp add: hb_vm_exit_callback_vmx_inst_type2_def vmx_done_def [symmetric] guard_vmwrite guard_vmread guard_simps Let_def
      split: prod.split option.split) (simp add: vmx_done_def guard_simps)

lemma guard_entry [guard_simps]:
  "guard G (exit_vmlaunch env cpu s) = guard G s" "guard G (exit_vmresume env cpu s) = guard G s"
  "guard G (exit_from_nested env cpu q s) = guard G s"
  by (simp_all add: exit_vmlaunch_def exit_vmresume_def exit_from_nested_def hb_load_vmcs_def guard_simps Let_def split: option.split)

lemma guard_hide: "hide_hypervisor env s = Some s' \<Longrightarrow> guard G s' = guard G s"
  by (auto simp: hide_hypervisor_def guard_simps guard_on_prot Let_def split: if_splits bind_splits)

lemma guard_switch:
  assumes "exit_switch1 env cpu reason qual s = Some (b, s')" "guard G s" "g_nested_vmcs_ptr s cpu \<noteq> G"
  shows "guard G s'"
  using assms
  by (auto simp: exit_switch1_def exit_switch2_def exit_switch3_def guard_simps guard_access_cr guard_type2 guard_int guard_timer
      hb_vm_exit_callback_init_signal_def Let_def dest: guard_ept split: if_splits)

lemma hide_nested_ptr: "hide_hypervisor env s = Some s' \<Longrightarrow> g_nested_vmcs_ptr s' = g_nested_vmcs_ptr s"
  by (auto simp: hide_hypervisor_def on_prot_def Let_def split: if_splits bind_splits)

lemma timer_nested_ptr: "g_nested_vmcs_ptr (snd (hb_is_shutdown_timer_expired env s)) = g_nested_vmcs_ptr s"
  by (simp add: hb_is_shutdown_timer_expired_def hb_vm_error_log_def Let_def)

lemma guard_callback:
  assumes "hb_vm_exit_callback env cpu s = Some s'" "guard G s" "g_nested_vmcs_ptr s cpu \<noteq> G"
  shows "guard G s'"
proof (cases "hb_store_vmcs (set_root_mode cpu 1 s) = g_guest_vmcs_phy_addr env cpu")
  case False
  with assms(1,2) show ?thesis by (auto simp: hb_vm_exit_callback_def Let_def guard_simps)
next
  case True
  let ?s = "set_root_mode cpu 1 s"
  let ?t = "hb_write_vmcs env VM_CTRL_VM_ENTRY_INST_LENGTH 0 (snd (hb_is_shutdown_timer_expired env ?s))"
  obtain b t where t: "exit_from_guest env cpu ?s = Some (b, t)" "guard G s' = guard G t"
    using assms(1) True by (auto simp: hb_vm_exit_callback_def Let_def guard_simps split: bind_splits if_splits)
  then obtain u where u: "hide_hypervisor env ?t = Some u"
      "exit_switch1 env cpu (hb_read_vmcs env VM_DATA_EXIT_REASON (uninit env) ?s AND 0xFFFF)
        (hb_read_vmcs env VM_DATA_EXIT_QUALIFICATION (uninit env) ?s) u = Some (b, t)"
    by (auto simp: exit_from_guest_def Let_def split: bind_splits)
  have "guard G u" using guard_hide [OF u(1)] assms(2) by (simp add: guard_simps)
  moreover have "g_nested_vmcs_ptr u cpu \<noteq> G" using hide_nested_ptr [OF u(1)] assms(3) by (simp add: timer_nested_ptr)
  ultimately have "guard G t" by (rule guard_switch [OF u(2)])
  then show ?thesis by (simp only: t(2))
qed

section \<open>Reachable states\<close>

text \<open>Between two exits the guests, the processors and the rest of the kernel may change everything, except for what the
  VMCS \<open>G\<close> makes trap: the guest/host masks in \<open>G\<close> stay, and so does every bit of CR0 and CR4 in \<open>G\<close> that they contain.\<close>

definition guest_step :: "u64 \<Rightarrow> vm \<Rightarrow> vm \<Rightarrow> bool" where
  "guest_step G s t \<longleftrightarrow>
     vs_vmcs t G VM_CTRL_CR0_GUEST_HOST_MASK = vs_vmcs s G VM_CTRL_CR0_GUEST_HOST_MASK \<and>
     vs_vmcs t G VM_CTRL_CR4_GUEST_HOST_MASK = vs_vmcs s G VM_CTRL_CR4_GUEST_HOST_MASK \<and>
     (\<forall>k. bit (vs_vmcs s G VM_CTRL_CR0_GUEST_HOST_MASK) k \<longrightarrow> bit (vs_vmcs t G VM_GUEST_CR0) k = bit (vs_vmcs s G VM_GUEST_CR0) k) \<and>
     (\<forall>k. bit (vs_vmcs s G VM_CTRL_CR4_GUEST_HOST_MASK) k \<longrightarrow> bit (vs_vmcs t G VM_GUEST_CR4) k = bit (vs_vmcs s G VM_GUEST_CR4) k)"

text \<open>The states reached from \<open>s0\<close> by the exits of all processors, one exit at a time, with steps of the guests in between
  (which may also move to the current VMCS and the registers of another processor). An exit of processor \<open>c\<close> is taken in the
  states that \<open>ok\<close> admits for it; with \<open>ok = (\<lambda>_ _. True)\<close> these are all runs of the program.\<close>

inductive vm_reachable :: "vm_env \<Rightarrow> u64 \<Rightarrow> (vm \<Rightarrow> nat \<Rightarrow> bool) \<Rightarrow> vm \<Rightarrow> vm \<Rightarrow> bool" for env G ok s0 where
  start: "vm_reachable env G ok s0 s0"
| run: "vm_reachable env G ok s0 s \<Longrightarrow> guest_step G s t \<Longrightarrow> vm_reachable env G ok s0 t"
| exit: "vm_reachable env G ok s0 s \<Longrightarrow> ok s c \<Longrightarrow> hb_vm_exit_callback env c s = Some t \<Longrightarrow> vm_reachable env G ok s0 t"

lemma guard_guest_step: "guest_step G s t \<Longrightarrow> guard G s \<Longrightarrow> guard G t"
  by (simp add: guest_step_def guard_def cr_guarded_def cr_masked_def)

lemma guard_reachable:
  assumes "vm_reachable env G (\<lambda>s c. g_nested_vmcs_ptr s c \<noteq> G) s0 s" "guard G s0"
  shows "guard G s"
  using assms by (induction rule: vm_reachable.induct) (auto intro: guard_guest_step guard_callback)

text \<open>C1: as long as no processor takes an exit while its nested VMCS pointer is the VMCS \<open>G\<close>, the control registers of the
  core with VMCS \<open>G\<close> stay guarded. In every state reached from a start in which CR0.WP, CR4.VMXE and CR4.SMEP are set, CR4.MCE
  is clear and the guest/host masks contain these bits, they are so again and the masks still contain them: under that
  condition no sequence of exits on any processors, whatever their reasons, operands and order, and no activity of nested
  guests in between takes the protection away. The condition is needed: \<open>own_vmcs_defeats_guard\<close> below.\<close>

theorem cr_guard_invariant:
  assumes "vm_reachable env G (\<lambda>s c. g_nested_vmcs_ptr s c \<noteq> G) s0 s"
    and "cr_guarded (vs_vmcs s0 G VM_GUEST_CR0) (vs_vmcs s0 G VM_GUEST_CR4)"
    and "cr_masked (vs_vmcs s0 G VM_CTRL_CR0_GUEST_HOST_MASK) (vs_vmcs s0 G VM_CTRL_CR4_GUEST_HOST_MASK)"
  shows "cr_guarded (vs_vmcs s G VM_GUEST_CR0) (vs_vmcs s G VM_GUEST_CR4) \<and>
    cr_masked (vs_vmcs s G VM_CTRL_CR0_GUEST_HOST_MASK) (vs_vmcs s G VM_CTRL_CR4_GUEST_HOST_MASK)"
  using guard_reachable [OF assms(1)] assms(2,3) by (simp add: guard_def)

text \<open>An exit from the Linux guest to a handler, with no shutdown pending and nothing left to hide.\<close>

definition handled :: "vm_env \<Rightarrow> vm \<Rightarrow> vm" where
  "handled env s = hb_write_vmcs env VM_CTRL_VM_ENTRY_INST_LENGTH 0 (snd (hb_is_shutdown_timer_expired env s))"

lemma exit_handled:
  assumes "vs_current s = g_guest_vmcs_phy_addr env cpu" "g_need_init_in_secure s = 0"
    and "exit_switch1 env cpu (hb_read_vmcs env VM_DATA_EXIT_REASON (uninit env) (set_root_mode cpu 1 s) AND 0xFFFF)
      (hb_read_vmcs env VM_DATA_EXIT_QUALIFICATION (uninit env) (set_root_mode cpu 1 s))
      (handled env (set_root_mode cpu 1 s)) = Some (False, t)"
  shows "\<exists>t'. hb_vm_exit_callback env cpu s = Some t' \<and>
    (g_support_vmcs_shadowing env = 0 \<longrightarrow> t' = set_root_mode cpu 0 t)"
proof -
  have "g_need_init_in_secure (handled env (set_root_mode cpu 1 s)) = 0"
    using assms(2) by (simp add: handled_def hb_is_shutdown_timer_expired_def hb_vm_error_log_def Let_def set_root_mode_def)
  then have "hide_hypervisor env (handled env (set_root_mode cpu 1 s)) = Some (handled env (set_root_mode cpu 1 s))"
    by (simp add: hide_hypervisor_def)
  then have "exit_from_guest env cpu (set_root_mode cpu 1 s) = Some (False, t)"
    using assms(3) by (simp add: exit_from_guest_def handled_def Let_def)
  moreover have "hb_store_vmcs (set_root_mode cpu 1 s) = g_guest_vmcs_phy_addr env cpu"
    using assms(1) by (simp add: hb_store_vmcs_def set_root_mode_def)
  ultimately show ?thesis by (simp add: hb_vm_exit_callback_def Let_def)
qed

lemma handled_select:
  assumes "vs_current s = g_guest_vmcs_phy_addr env cpu"
  shows "vs_current (handled env (set_root_mode cpu 1 s)) = vs_current s" "vs_ctx (handled env (set_root_mode cpu 1 s)) = vs_ctx s"
    "vs_revision (handled env (set_root_mode cpu 1 s)) = vs_revision s" "vs_mem (handled env (set_root_mode cpu 1 s)) = vs_mem s"
    "g_nested_vmcs_ptr (handled env (set_root_mode cpu 1 s)) = g_nested_vmcs_ptr s"
    "g_nested_vmcs_array (handled env (set_root_mode cpu 1 s)) = g_nested_vmcs_array s"
    "f \<noteq> VM_CTRL_VM_ENTRY_INST_LENGTH \<Longrightarrow> vm_field (handled env (set_root_mode cpu 1 s)) f = vm_field s f"
  by (simp_all add: handled_def set_root_mode_def hb_is_shutdown_timer_expired_def hb_vm_error_log_def Let_def vm_field_def hb_write_vmcs_def)

text \<open>The VMWRITE of a guest whose nested VMCS is its own VMCS writes that VMCS: the value of register \<open>a\<close> goes into the field
  that register \<open>b\<close> names.\<close>

lemma own_vmcs_written:
  assumes ok: "vm_ok env s" "vs_current s = G" "G = g_guest_vmcs_phy_addr env cpu" "g_need_init_in_secure s = 0"
    and own: "g_nested_vmcs_ptr s cpu = G" "hb_find_nested_vmcs_struct G s = Some i" "hw_vmptrld_ok env G (vs_revision s G)"
    and "vm_field s VM_DATA_EXIT_REASON = VM_EXIT_REASON_VMWRITE" "reg_operands env s a b" "g_support_vmcs_shadowing env = 0"
    and f: "hb_get_reg_value_from_index env b s = f" "f \<notin> host_fields" "hw_writable env f" "field_width f = 64"
  shows "\<exists>t. hb_vm_exit_callback env cpu s = Some t \<and> vs_vmcs t G f = hb_get_reg_value_from_index env a s"
proof -
  let ?r = "set_root_mode cpu 1 s" and ?v = "hb_get_reg_value_from_index env a s"
  let ?u = "handled env ?r"
  note sel = handled_select [of s env cpu, OF ok(2) [unfolded ok(3)]]
  have u: "vm_ok env ?u" using ok(1) sel(1) by (simp add: vm_ok_def)
  have ops: "reg_operands env ?u a b" using assms(9) by (simp add: reg_operands_def sel(7) vmcs_field_defs)
  have get: "hb_get_reg_value_from_index env j ?u = hb_get_reg_value_from_index env j s" for j
    by (rule get_reg_cong) (simp_all add: sel vmcs_field_defs)
  have find: "hb_find_nested_vmcs_struct (g_nested_vmcs_ptr ?u cpu) ?u = Some i"
    using own(1,2) sel(5,6) by (simp add: hb_find_nested_vmcs_struct_def)
  let ?t = "set_nested i (\<lambda>e. e\<lparr>nv_vmcs_ptr := g_nested_vmcs_ptr ?u cpu\<rparr>) (vmx_done env ?u)"
  define t where "t = nested_vmwrite env cpu i f ?v (vs_current ?u) ?t"
  have run: "hb_vm_exit_callback_vmx_inst_type2 env cpu VM_EXIT_REASON_VMWRITE ?u = t"
    unfolding t_def inst_type2_regs(1) [OF u ops find] get f(1) ..
  have "nested_host_value env cpu i f ?v ?t = (?v, ?t)" using f(2) by (simp add: nested_host_value_def host_fields_def)
  moreover have "hb_load_vmcs env G ?t = (0, ?t)" "hb_load_vmcs env G (hb_write_vmcs env f ?v ?t) = (0, hb_write_vmcs env f ?v ?t)"
    using own(3) sel(1,3) ok(2) by (simp_all add: hb_load_vmcs_def)
  ultimately have "t = hb_write_vmcs env f ?v ?t"
    unfolding t_def nested_vmwrite_def using own(1) sel(1,5) ok(2) by simp
  moreover have "vs_current ?t = G" "G \<noteq> NO_VMCS" using ok(1,2) sel(1) by (simp_all add: vm_ok_def)
  ultimately have w: "vs_vmcs t G f = ?v" using f(3,4) by (simp add: hb_write_vmcs_def take_bit_64)
  have "hb_read_vmcs env VM_DATA_EXIT_REASON (uninit env) ?r AND 0xFFFF = VM_EXIT_REASON_VMWRITE"
    using ok(1) assms(8) by (simp add: hb_read_vmcs_def vm_ok_fields vm_field_def set_root_mode_def vm_ok_def VM_EXIT_REASON_VMWRITE_def)
  then obtain t' where "hb_vm_exit_callback env cpu s = Some t'" "t' = set_root_mode cpu 0 t"
    using exit_handled [of s env cpu t] ok(2,3,4) assms(10) run
    by (auto simp: exit_switch1_def exit_switch2_def skip_reasons_def hb_consts)
  with w show ?thesis by (simp add: set_root_mode_def)
qed

section \<open>Runs\<close>

text \<open>A guest that clears CR0 by a move from RAX.\<close>

definition guarded_fields :: "u64 \<Rightarrow> u64 \<Rightarrow> u64 \<Rightarrow> u64" where
  "guarded_fields reason info f =
     (if f = VM_GUEST_CR0 then 0x80010000 else if f = VM_GUEST_CR4 then 0x102000
      else if f = VM_CTRL_CR0_GUEST_HOST_MASK then 0x10000 else if f = VM_CTRL_CR4_GUEST_HOST_MASK then 0x102040
      else if f = VM_DATA_EXIT_REASON then reason else if f = VM_DATA_VM_EXIT_INST_INFO then info else 0)"

lemma guarded_fields_ok:
  "cr_guarded (guarded_fields reason info VM_GUEST_CR0) (guarded_fields reason info VM_GUEST_CR4)"
  "cr_masked (guarded_fields reason info VM_CTRL_CR0_GUEST_HOST_MASK) (guarded_fields reason info VM_CTRL_CR4_GUEST_HOST_MASK)"
  by (simp_all add: guarded_fields_def cr_guarded_def cr_masked_def guard_field_defs)

definition sample_mov_cr0 :: vm where
  "sample_mov_cr0 = sample_vm (guarded_fields 28 0) sample_monitor"

lemma sample_vm_vmcs: "vs_vmcs (sample_vm fs mon) a = fs"
  by (simp add: sample_vm_def)

lemma sample_mov_cr0_exit: "\<exists>t. hb_vm_exit_callback sample_vm_env 0 sample_mov_cr0 = Some t"
proof -
  let ?s = "set_root_mode 0 1 sample_mov_cr0"
  have "hb_read_vmcs sample_vm_env VM_DATA_EXIT_REASON (uninit sample_vm_env) ?s = 28"
    by (simp add: read_field sample_mov_cr0_def guarded_fields_def guard_field_defs)
  then have "exit_switch1 sample_vm_env 0 (hb_read_vmcs sample_vm_env VM_DATA_EXIT_REASON (uninit sample_vm_env) ?s AND 0xFFFF) q u =
      Some (False, hb_vm_exit_callback_access_cr sample_vm_env q u)" for q u
    by (simp add: exit_switch1_def exit_switch2_def skip_reasons_def hb_consts)
  from exit_handled [OF _ _ this] show ?thesis
    by (auto simp: sample_mov_cr0_def sample_vm_def sample_vm_env_def)
qed

theorem cr_guard_invariant_witness:
  "\<exists>s. hb_vm_exit_callback sample_vm_env 0 sample_mov_cr0 = Some s \<and> bit (vs_vmcs s 0x10000 VM_GUEST_CR0) 16"
proof -
  obtain t where t: "hb_vm_exit_callback sample_vm_env 0 sample_mov_cr0 = Some t" using sample_mov_cr0_exit by blast
  have "g_nested_vmcs_ptr sample_mov_cr0 0 \<noteq> 0x10000" by (simp add: sample_mov_cr0_def sample_vm_def)
  then have "vm_reachable sample_vm_env 0x10000 (\<lambda>s c. g_nested_vmcs_ptr s c \<noteq> 0x10000) sample_mov_cr0 t"
    by (rule vm_reachable.exit [OF vm_reachable.start _ t])
  then have "cr_guarded (vs_vmcs t 0x10000 VM_GUEST_CR0) (vs_vmcs t 0x10000 VM_GUEST_CR4)"
    using cr_guard_invariant [of sample_vm_env "0x10000" sample_mov_cr0 t] guarded_fields_ok
    by (simp add: sample_mov_cr0_def sample_vm_vmcs)
  with t show ?thesis by (auto simp: cr_guarded_def)
qed

text \<open>A processor without VMCS shadowing, on which the guest executes VMPTRLD with the address of its own VMCS as the operand,
  at address 0, and then VMWRITE of RAX, which is 0, to the field that RCX names.\<close>

definition plain_vm_env :: vm_env where
  "plain_vm_env = sample_vm_env\<lparr>g_support_vmcs_shadowing := 0\<rparr>"

definition sample_vmptrld :: vm where
  "sample_vmptrld = (sample_vm (guarded_fields VM_EXIT_REASON_VMPTRLD 0x8400000) sample_monitor)
     \<lparr>vs_mem := \<lambda>a. if a = 2 then 1 else 0, g_nested_vmcs_ptr := \<lambda>_. 0\<rparr>"

definition guest_vmwrite :: "u64 \<Rightarrow> u64 \<Rightarrow> vm \<Rightarrow> vm" where
  "guest_vmwrite f v s = set_ctx (\<lambda>c. c\<lparr>rcx := f, rax := v\<rparr>) (s\<lparr>vs_vmcs := (vs_vmcs s)(0x10000 := (vs_vmcs s 0x10000)
     (VM_DATA_EXIT_REASON := VM_EXIT_REASON_VMWRITE, VM_DATA_VM_EXIT_INST_INFO := 0x10000400))\<rparr>)"

lemma sample_vmptrld_exit:
  "\<exists>t. hb_vm_exit_callback plain_vm_env 0 sample_vmptrld = Some t \<and> g_nested_vmcs_ptr t 0 = 0x10000 \<and> vs_current t = 0x10000 \<and>
     g_need_init_in_secure t = 0 \<and> vs_revision t = vs_revision sample_vmptrld \<and> vm_field t VM_DATA_EXIT_QUALIFICATION = 0 \<and>
     g_nested_vmcs_array t = g_nested_vmcs_array sample_vmptrld"
proof -
  let ?r = "set_root_mode 0 1 sample_vmptrld"
  let ?u = "handled plain_vm_env ?r"
  have env: "g_guest_vmcs_phy_addr plain_vm_env 0 = 0x10000" "g_support_vmcs_shadowing plain_vm_env = 0" "sdm_fields plain_vm_env"
    by (simp_all add: plain_vm_env_def sample_vm_env_def sdm_fields_def)
  have cur: "vs_current sample_vmptrld = g_guest_vmcs_phy_addr plain_vm_env 0" by (simp add: env sample_vmptrld_def)
  have need: "g_need_init_in_secure sample_vmptrld = 0" by (simp add: sample_vmptrld_def sample_vm_def)
  note sel = handled_select [OF cur]
  have ok: "vm_ok plain_vm_env ?u" "vm_ok plain_vm_env ?r"
    using env(1,3) sel(1) cur by (simp_all add: vm_ok_def NO_VMCS_def set_root_mode_def)
  have f: "vm_field ?u f = guarded_fields VM_EXIT_REASON_VMPTRLD 0x8400000 f" if "f \<noteq> VM_CTRL_VM_ENTRY_INST_LENGTH" for f
    using sel(7) [OF that] by (simp add: sample_vmptrld_def vm_field_def sample_vm_def)
  have "vm_field ?r VM_DATA_EXIT_REASON = VM_EXIT_REASON_VMPTRLD"
    by (simp add: sample_vmptrld_def vm_field_def set_root_mode_def sample_vm_def guarded_fields_def guard_field_defs)
  then have "hb_read_vmcs plain_vm_env VM_DATA_EXIT_REASON (uninit plain_vm_env) ?r AND 0xFFFF = VM_EXIT_REASON_VMPTRLD"
    by (simp add: read_field [OF ok(2)] vm_ok_fields [OF ok(2)] VM_EXIT_REASON_VMPTRLD_def)
  then have "exit_switch1 plain_vm_env 0 (hb_read_vmcs plain_vm_env VM_DATA_EXIT_REASON (uninit plain_vm_env) ?r AND 0xFFFF) q ?u =
      Some (False, hb_vm_exit_callback_vmx_inst_type1 plain_vm_env 0 VM_EXIT_REASON_VMPTRLD ?u)" for q
    by (simp add: exit_switch1_def skip_reasons_def hb_consts)
  then obtain t where t: "hb_vm_exit_callback plain_vm_env 0 sample_vmptrld = Some t"
      "t = set_root_mode 0 0 (hb_vm_exit_callback_vmx_inst_type1 plain_vm_env 0 VM_EXIT_REASON_VMPTRLD ?u)"
    using exit_handled [OF cur need] env(2) by blast
  have eight: "(8 :: nat) = Suc (Suc (Suc (Suc (Suc (Suc (Suc (Suc 0)))))))" by simp
  have mem: "vs_mem ?u = (\<lambda>a. if a = 2 then 1 else 0)" unfolding sel(4) by (simp add: sample_vmptrld_def)
  have "hb_read_vmcs plain_vm_env VM_DATA_VM_EXIT_INST_INFO (uninit plain_vm_env) ?u = 0x8400000"
      "hb_read_vmcs plain_vm_env VM_DATA_EXIT_QUALIFICATION (uninit plain_vm_env) ?u = 0"
    by (simp_all add: read_field [OF ok(1)] vm_ok_fields [OF ok(1)] f guarded_fields_def guard_field_defs)
  moreover have "hb_calc_dest_mem_addr plain_vm_env 0x8400000 ?u = 0"
    by (simp add: hb_calc_dest_mem_addr_def VM_INST_INFO_IDX_REG_INVALID_def VM_INST_INFO_BASE_REG_INVALID_def)
  moreover have "mem_load 8 0 (hb_sync_page_table_event 0 c ?u) = 0x10000" for c
    using mem unfolding mem_load_def hb_sync_page_table_event_def vm_event_def eight by simp
  ultimately obtain c where t2: "t = set_root_mode 0 0 ((vmx_done plain_vm_env (hb_sync_page_table_event 0 c ?u))
      \<lparr>g_nested_vmcs_ptr := (g_nested_vmcs_ptr (vmx_done plain_vm_env (hb_sync_page_table_event 0 c ?u)))(0 := 0x10000)\<rparr>)"
    unfolding t(2)
    by (auto simp: hb_vm_exit_callback_vmx_inst_type1_def Let_def vmx_done_def hb_vm_set_vmcs_shadowing_to_current_def env(2)
        VM_EXIT_REASON_VMPTRLD_def VM_EXIT_REASON_VMCLEAR_def)
  have cur_t: "vs_current t = 0x10000" "vs_revision t = vs_revision sample_vmptrld" "g_nested_vmcs_array t = g_nested_vmcs_array sample_vmptrld"
    using sel(1,3,6) cur env(1) by (simp_all add: t2 set_root_mode_def hb_sync_page_table_event_def vm_event_def)
  have "vm_field t VM_DATA_EXIT_QUALIFICATION = vm_field ?u VM_DATA_EXIT_QUALIFICATION"
    unfolding t2 using vmx_done_field [of VM_DATA_EXIT_QUALIFICATION plain_vm_env "hb_sync_page_table_event 0 c ?u"]
    by (simp add: set_root_mode_def vm_field_def hb_sync_page_table_event_def vm_event_def guard_field_defs)
  also have "\<dots> = 0" by (simp add: f guarded_fields_def guard_field_defs)
  finally have q: "vm_field t VM_DATA_EXIT_QUALIFICATION = 0" .
  have "g_need_init_in_secure t = 0" "g_nested_vmcs_ptr t 0 = 0x10000"
    unfolding t2 by (simp_all add: set_root_mode_def vmx_done_def hb_clear_vmx_inst_flags_def hb_advance_vm_guest_rip_def Let_def
        hb_sync_page_table_event_def vm_event_def handled_def hb_is_shutdown_timer_expired_def sample_vmptrld_def sample_vm_def)
  with t(1) cur_t q show ?thesis by blast
qed

text \<open>From a guarded start with no nested VMCS, two exits clear CR0.WP: the VMPTRLD of the own VMCS is accepted, and the VMWRITE that
  follows writes 0 to the CR0 of that VMCS. Without the condition on the nested VMCS pointer the control registers are not
  guarded.\<close>

theorem own_vmcs_defeats_guard:
  "\<exists>t1 t. vs_current sample_vmptrld = g_guest_vmcs_phy_addr plain_vm_env 0 \<and> g_nested_vmcs_ptr sample_vmptrld 0 = 0 \<and>
     guard 0x10000 sample_vmptrld \<and> hb_vm_exit_callback plain_vm_env 0 sample_vmptrld = Some t1 \<and>
     guest_step 0x10000 t1 (guest_vmwrite VM_GUEST_CR0 0 t1) \<and>
     hb_vm_exit_callback plain_vm_env 0 (guest_vmwrite VM_GUEST_CR0 0 t1) = Some t \<and>
     vm_reachable plain_vm_env 0x10000 (\<lambda>_ _. True) sample_vmptrld t \<and> \<not> bit (vs_vmcs t 0x10000 VM_GUEST_CR0) 16"
proof -
  obtain t1 where t1: "hb_vm_exit_callback plain_vm_env 0 sample_vmptrld = Some t1" "g_nested_vmcs_ptr t1 0 = 0x10000"
      "vs_current t1 = 0x10000" "g_need_init_in_secure t1 = 0" "vs_revision t1 = vs_revision sample_vmptrld"
      "vm_field t1 VM_DATA_EXIT_QUALIFICATION = 0" "g_nested_vmcs_array t1 = g_nested_vmcs_array sample_vmptrld"
    using sample_vmptrld_exit by blast
  let ?w = "guest_vmwrite VM_GUEST_CR0 0 t1"
  have w: "vs_current ?w = 0x10000" "g_need_init_in_secure ?w = 0" "g_nested_vmcs_ptr ?w 0 = 0x10000"
      "vs_revision ?w = vs_revision sample_vmptrld" "g_nested_vmcs_array ?w = g_nested_vmcs_array sample_vmptrld"
    by (simp_all add: guest_vmwrite_def set_ctx_def t1)
  have env: "0x10000 = g_guest_vmcs_phy_addr plain_vm_env 0" "g_support_vmcs_shadowing plain_vm_env = 0" "sdm_fields plain_vm_env"
      "hw_writable plain_vm_env f" for f
    by (simp_all add: plain_vm_env_def sample_vm_env_def sdm_fields_def)
  have ok: "vm_ok plain_vm_env ?w" using env(3) w(1) by (simp add: vm_ok_def NO_VMCS_def)
  have find: "hb_find_nested_vmcs_struct 0x10000 ?w = Some 0"
    by (simp add: hb_find_nested_vmcs_struct_def w(5) sample_vmptrld_def sample_vm_def eval_nat_numeral)
  have load: "hw_vmptrld_ok plain_vm_env 0x10000 (vs_revision ?w 0x10000)"
    by (simp add: w(4) plain_vm_env_def sample_vm_env_def sample_vmptrld_def sample_vm_def VM_BIT_REVISION_SHADOW_VMCS_def)
  have reason: "vm_field ?w VM_DATA_EXIT_REASON = VM_EXIT_REASON_VMWRITE"
    using w(1) t1(3) by (simp add: vm_field_def guest_vmwrite_def set_ctx_def guard_field_defs)
  have ops: "reg_operands plain_vm_env ?w 0 1"
    using w(1) t1(3,6) by (simp add: reg_operands_def vm_field_def guest_vmwrite_def set_ctx_def guard_field_defs
        VM_INST_INFO_MEM_REG_def VM_INST_INFO_REG1_def VM_INST_INFO_REG2_def)
  have regs: "hb_get_reg_value_from_index plain_vm_env 1 ?w = VM_GUEST_CR0" "hb_get_reg_value_from_index plain_vm_env 0 ?w = 0"
    by (simp_all add: hb_get_reg_value_from_index_def guest_vmwrite_def reg_nums)
  have cr0: "VM_GUEST_CR0 \<notin> host_fields" "field_width VM_GUEST_CR0 = 64"
    by (simp_all add: host_fields_def guard_field_defs field_width_def)
  obtain t where t: "hb_vm_exit_callback plain_vm_env 0 ?w = Some t" "vs_vmcs t 0x10000 VM_GUEST_CR0 = 0"
    using own_vmcs_written [OF ok w(1) env(1) w(2,3) find load reason ops env(2) regs(1) cr0(1) env(4) cr0(2)] regs(2) by auto
  have "vs_vmcs ?w 0x10000 f = vs_vmcs t1 0x10000 f" if "f \<in> guard_fields" for f
    using that by (auto simp: guest_vmwrite_def set_ctx_def guard_field_defs)
  then have step: "guest_step 0x10000 t1 ?w" by (simp add: guest_step_def)
  have "vm_reachable plain_vm_env 0x10000 (\<lambda>_ _. True) sample_vmptrld t"
    by (rule vm_reachable.exit [OF vm_reachable.run [OF vm_reachable.exit [OF vm_reachable.start _ t1(1)] step] _ t(1)]) simp_all
  moreover have "guard 0x10000 sample_vmptrld" using guarded_fields_ok by (simp add: guard_def sample_vmptrld_def sample_vm_def)
  moreover have "vs_current sample_vmptrld = g_guest_vmcs_phy_addr plain_vm_env 0" "g_nested_vmcs_ptr sample_vmptrld 0 = 0"
    using env(1) by (simp_all add: sample_vmptrld_def)
  ultimately show ?thesis using t1(1) step t by auto
qed

end
