(* ===== verification/Memory_Pool.thy ===== *)
theory Memory_Pool
  imports Ranges
begin

text \<open>
  The memory pool of the hypervisor (hypervisor.c, \<open>hb_setup_memory_pool\<close> and \<open>hb_get_memory\<close>): pages
  that are allocated and hidden from the guest when the module is loaded, so that a handler of a VM exit, which must
  not call the kernel, can extend the page tables of the host. The locale \<open>page_supply\<close> is what a client of the
  pool relies on.
\<close>

section \<open>The pool\<close>

record hb_memory_pool_struct =
  mp_max_count :: u64
  mp_pop_index :: u64
  mp_pool :: ptr_array

record pool_state =
  g_memory_pool :: hb_memory_pool_struct
  ps_ept :: ept_state
  ps_heap :: kheap

text \<open>The loop that fills the pool: the page is stored before it is checked; \<open>-1\<close> stands for \<open>goto ERROR\<close>.\<close>

fun pool_fill ::
  "kernel_env \<Rightarrow> nat list \<Rightarrow> u64 list \<Rightarrow> ept_state \<Rightarrow> kheap \<Rightarrow> (int \<times> u64 list \<times> ept_state \<times> kheap) option" where
  "pool_fill env [] arr e h = Some (0, arr, e, h)"
| "pool_fill env (i # is) arr e h =
     (if i < length arr then
        let (p, h) = kh_get_free_page env h; arr = arr[i := p]
        in if p = 0 then Some (-1, arr, e, h)
           else do { e \<leftarrow> hb_hide_range env p (p + VAL_4KB) ALLOC_KMALLOC e; pool_fill env is arr e h }
      else None)"

text \<open>The loop of the error path.\<close>

definition pool_release_page :: "kernel_env \<Rightarrow> u64 list \<Rightarrow> nat \<Rightarrow> ept_state \<times> kheap \<Rightarrow> (ept_state \<times> kheap) option" where
  "pool_release_page env arr i s =
     (let (e, h) = s in
      if i < length arr then
        if arr ! i \<noteq> 0
        then do { e \<leftarrow> hb_set_all_access_range env (arr ! i) (arr ! i + VAL_4KB) ALLOC_KMALLOC e;
                  Some (e, kh_free_page (arr ! i) h) }
        else Some s
      else None)"

definition hb_setup_memory_pool :: "kernel_env \<Rightarrow> u64 \<Rightarrow> pool_state \<Rightarrow> (int \<times> pool_state) option" where
  "hb_setup_memory_pool env g_max_ram_size st =
     (let max_count = g_max_ram_size div VAL_2MB * 2;
          (p, h) = kh_vzalloc env (ps_heap st);
          pool = g_memory_pool st\<lparr>mp_max_count := max_count, mp_pool := (p, [])\<rparr>
      in if p = 0 then Some (-1, st\<lparr>g_memory_pool := pool, ps_heap := h\<rparr>)
         else do {
           (r, arr, e, h) \<leftarrow> pool_fill env [0..<unat max_count] (replicate (unat (max_count * 8) div 8) 0) (ps_ept st) h;
           if r = 0
           then Some (0, st\<lparr>g_memory_pool := pool\<lparr>mp_pool := (p, arr), mp_pop_index := 0\<rparr>,
                             ps_ept := e, ps_heap := h\<rparr>)
           else do {
             (e, h) \<leftarrow> foldo (pool_release_page env arr) [0..<unat max_count] (e, h);
             Some (-1, st\<lparr>g_memory_pool := pool\<lparr>mp_pool := (p, arr)\<rparr>, ps_ept := e, ps_heap := kh_vfree p h\<rparr>)
           }
         })"

definition hb_get_memory :: "hb_memory_pool_struct \<Rightarrow> (u64 \<times> hb_memory_pool_struct) option" where
  "hb_get_memory mp =
     (if mp_max_count mp \<le> mp_pop_index mp then Some (0, mp)
      else do { memory \<leftarrow> array_at (mp_pool mp) (uint (mp_pop_index mp));
                Some (memory, mp\<lparr>mp_pop_index := mp_pop_index mp + 1\<rparr>) })"

section \<open>What a client relies on\<close>

text \<open>A supply has a stock of pages and delivers them in order; an empty one delivers the null pointer.\<close>

locale page_supply =
  fixes get_page :: "'s \<Rightarrow> (u64 \<times> 's) option"
    and stock :: "'s \<Rightarrow> u64 list"
    and supply_ok :: "'s \<Rightarrow> bool"
  assumes get_next: "supply_ok s \<Longrightarrow> stock s = p # ps \<Longrightarrow>
      \<exists>s'. get_page s = Some (p, s') \<and> stock s' = ps \<and> supply_ok s'"
    and get_empty: "supply_ok s \<Longrightarrow> stock s = [] \<Longrightarrow> get_page s = Some (0, s)"
begin

primrec get_pages :: "nat \<Rightarrow> 's \<Rightarrow> (u64 list \<times> 's) option" where
  "get_pages 0 s = Some ([], s)"
| "get_pages (Suc n) s = do { (p, s) \<leftarrow> get_page s; (ps, s) \<leftarrow> get_pages n s; Some (p # ps, s) }"

lemma get_pages_empty: "supply_ok s \<Longrightarrow> stock s = [] \<Longrightarrow> get_pages n s = Some (replicate n 0, s)"
  by (induction n) (simp_all add: get_empty)

lemma get_pages_stock:
  "supply_ok s \<Longrightarrow> \<exists>s'. get_pages n s = Some (take n (stock s) @ replicate (n - length (stock s)) 0, s') \<and>
     stock s' = drop n (stock s) \<and> supply_ok s'"
proof (induction n arbitrary: s)
  case (Suc n)
  show ?case
  proof (cases "stock s")
    case Nil
    with Suc.prems show ?thesis using get_pages_empty [of s "Suc n"] by simp
  next
    case (Cons p ps)
    then obtain s1 where "get_page s = Some (p, s1)" "stock s1 = ps" "supply_ok s1" using get_next Suc.prems by blast
    with Suc.IH [of s1] Cons show ?thesis by auto
  qed
qed simp

end

definition pool_stock :: "hb_memory_pool_struct \<Rightarrow> u64 list" where
  "pool_stock mp = drop (unat (mp_pop_index mp)) (snd (mp_pool mp))"

definition pool_ok :: "hb_memory_pool_struct \<Rightarrow> bool" where
  "pool_ok mp \<longleftrightarrow> fst (mp_pool mp) \<noteq> 0 \<and> length (snd (mp_pool mp)) = unat (mp_max_count mp)"

interpretation pool: page_supply hb_get_memory pool_stock pool_ok
proof unfold_locales
  fix mp p ps assume ok: "pool_ok mp" and st: "pool_stock mp = p # ps"
  let ?i = "unat (mp_pop_index mp)"
  have i: "?i < length (snd (mp_pool mp))" using st by (metis drop_all list.distinct(1) not_le_imp_less pool_stock_def)
  then have lt: "?i < unat (mp_max_count mp)" using ok by (simp add: pool_ok_def)
  then have "unat (mp_pop_index mp + 1) = Suc ?i"
    using unat_u64_less [of "mp_max_count mp"] by (simp add: unat_word_ariths)
  moreover have "snd (mp_pool mp) ! ?i = p" "drop (Suc ?i) (snd (mp_pool mp)) = ps"
    using st i by (simp_all add: pool_stock_def Cons_nth_drop_Suc [symmetric])
  ultimately show "\<exists>s'. hb_get_memory mp = Some (p, s') \<and> pool_stock s' = ps \<and> pool_ok s'"
    using lt ok i
    by (auto simp: hb_get_memory_def array_at_def pool_stock_def pool_ok_def word_le_nat_alt)
next
  fix mp assume "pool_ok mp" "pool_stock mp = []"
  then show "hb_get_memory mp = Some (0, mp)"
    by (simp add: hb_get_memory_def pool_stock_def pool_ok_def word_le_nat_alt)
qed


section \<open>Filling the pool\<close>

text \<open>The frames of the pages among \<open>xs\<close> that were really allocated.\<close>

definition page_frames :: "kernel_env \<Rightarrow> u64 list \<Rightarrow> nat set" where
  "page_frames env xs = (\<lambda>p. page_of (virt_to_phys env p)) ` (set xs - {0})"

text \<open>The \<open>n\<close> pages that the allocator hands out from its \<open>c\<close>-th call on lie in the memory under EPT
  control.\<close>

definition pages_covered :: "kernel_env \<Rightarrow> ept_state \<Rightarrow> nat \<Rightarrow> nat \<Rightarrow> bool" where
  "pages_covered env e c n \<longleftrightarrow>
     (\<forall>p \<in> set (pages_from env c n) - {0}. ept_covered e (virt_to_phys env p))"

lemma pages_covered_hides: "hides env e e' F \<Longrightarrow> pages_covered env e' c n \<longleftrightarrow> pages_covered env e c n"
  by (simp add: pages_covered_def hides_def ept_covered_def ept_nd_def)

lemma pages_covered_Suc:
  "pages_covered env e c (Suc n) \<longleftrightarrow> pages_covered env e (Suc c) n \<and>
     (get_free_page env c \<noteq> 0 \<longrightarrow> ept_covered e (virt_to_phys env (get_free_page env c)))"
  by (auto simp: pages_covered_def upt_conv_Cons simp del: upt_Suc)

lemma one_page_range:
  assumes "direct_mapped env p" "ept_covered e (virt_to_phys env p)"
  shows "range_covered env e p (p + VAL_4KB) ALLOC_KMALLOC"
    and "range_frames env p (p + VAL_4KB) ALLOC_KMALLOC = {page_of (virt_to_phys env p)}"
proof -
  have "VAL_4KB = EPT_PAGE_SIZE" by (simp add: hb_consts)
  then show "range_covered env e p (p + VAL_4KB) ALLOC_KMALLOC"
    and "range_frames env p (p + VAL_4KB) ALLOC_KMALLOC = {page_of (virt_to_phys env p)}"
    using assms range_covered_one range_frames_one by simp_all
qed

lemma hide_new_page:
  assumes "direct_mapped env p" "ept_covered e (virt_to_phys env p)" "ept_wf env e"
  shows "\<exists>e'. hb_hide_range env p (p + VAL_4KB) ALLOC_KMALLOC e = Some e' \<and> hides env e e' (page_frames env [p])"
  using hide_range_hides [OF assms(3) one_page_range(1) [OF assms(1,2)]] one_page_range(2) [OF assms(1,2)] assms(1)
  by (auto simp: page_frames_def direct_mapped_def)

definition filled :: "kernel_env \<Rightarrow> nat \<Rightarrow> nat \<Rightarrow> int \<Rightarrow> nat \<Rightarrow> bool" where
  "filled env c n r m \<longleftrightarrow>
     (if r = 0 then m = n \<and> 0 \<notin> set (pages_from env c n)
      else r = -1 \<and> m \<le> n \<and> 0 < m \<and> get_free_page env (c + m - 1) = 0 \<and> 0 \<notin> set (pages_from env c (m - 1)))"

lemma pages_from_Suc: "pages_from env c (Suc k) = get_free_page env c # pages_from env (Suc c) k"
  by (simp add: upt_conv_Cons del: upt_Suc)

lemma filled_Suc:
  assumes "get_free_page env c \<noteq> 0" "filled env (Suc c) n r m"
  shows "filled env c (Suc n) r (Suc m)"
proof -
  have nz: "0 \<notin> set (pages_from env c (Suc k)) \<longleftrightarrow> 0 \<notin> set (pages_from env (Suc c) k)" for k
    using assms(1) unfolding pages_from_Suc by auto
  show ?thesis
  proof (cases "r = 0")
    case True
    with assms(2) nz [of n] show ?thesis by (simp only: filled_def if_True simp_thms)
  next
    case False
    with assms(2) have "Suc (m - 1) = m" "Suc c + m - 1 = c + Suc m - 1" by (simp_all add: filled_def)
    with assms(2) False nz [of "m - 1"] show ?thesis by (simp only: filled_def if_False Suc_le_mono diff_Suc_1 zero_less_Suc simp_thms)
  qed
qed

lemma pool_fill_total:
  assumes "fresh_pages env" "ept_wf env e" "pages_covered env e (kh_page_calls h) n" "i + n \<le> length arr"
  shows "\<exists>r m e'. pool_fill env [i..<i + n] arr e h =
      Some (r, take i arr @ pages_from env (kh_page_calls h) m @ drop (i + m) arr, e',
            h\<lparr>kh_page_calls := kh_page_calls h + m\<rparr>) \<and>
    filled env (kh_page_calls h) n r m \<and> hides env e e' (page_frames env (pages_from env (kh_page_calls h) m))"
  using assms(2-)
proof (induction n arbitrary: i arr e h)
  case 0
  then show ?case by (intro exI [of _ 0] exI [of _ e]) (simp add: filled_def hides_refl page_frames_def)
next
  case (Suc n)
  let ?c = "kh_page_calls h" and ?p = "get_free_page env (kh_page_calls h)"
  let ?h = "h\<lparr>kh_page_calls := Suc (kh_page_calls h)\<rparr>"
  have up: "take (Suc i) (arr[i := ?p]) = take i arr @ [?p]" "drop (Suc i + m) (arr[i := ?p]) = drop (Suc i + m) arr"
      "arr[i := ?p] = take i arr @ ?p # drop (Suc i) arr" for m
    using Suc.prems by (simp_all add: take_Suc_conv_app_nth upd_conv_take_nth_drop add.commute)
  have range: "[i..<i + Suc n] = i # [Suc i..<Suc i + n]" by (simp add: upt_conv_Cons)
  note pf = pages_from_Suc [of env ?c] and pf' = pages_from_Suc [of env ?c, unfolded add_Suc_right]
  show ?case
  proof (cases "?p = 0")
    case True
    then show ?thesis using Suc.prems unfolding range
      by (intro exI [of _ "-1"] exI [of _ 1] exI [of _ e])
        (simp add: kh_get_free_page_def filled_def hides_refl page_frames_def up(3) [unfolded True])
  next
    case False
    then have "direct_mapped env ?p" "ept_covered e (virt_to_phys env ?p)"
      using assms(1) Suc.prems(2) pages_covered_Suc [of env e ?c n] by (auto simp: fresh_pages_def)
    then obtain e1 where e1: "hb_hide_range env ?p (?p + VAL_4KB) ALLOC_KMALLOC e = Some e1"
        "hides env e e1 (page_frames env [?p])" using hide_new_page Suc.prems(1) by blast
    have "ept_wf env e1" "pages_covered env e1 (kh_page_calls ?h) n" "Suc i + n \<le> length (arr[i := ?p])"
      using e1(2) pages_covered_hides [OF e1(2)] Suc.prems pages_covered_Suc [of env e ?c n]
      by (simp_all add: hides_def)
    from Suc.IH [OF this] obtain r m e' where
      r: "pool_fill env [Suc i..<Suc i + n] (arr[i := ?p]) e1 ?h =
          Some (r, (take i arr @ [?p]) @ pages_from env (Suc ?c) m @ drop (Suc i + m) arr, e',
                h\<lparr>kh_page_calls := Suc ?c + m\<rparr>)"
        "filled env (Suc ?c) n r m" "hides env e1 e' (page_frames env (pages_from env (Suc ?c) m))"
      unfolding up(1,2) by auto
    have "filled env ?c (Suc n) r (Suc m)" by (rule filled_Suc [OF False r(2)])
    moreover have "page_frames env [?p] \<union> page_frames env (pages_from env (Suc ?c) m) =
        page_frames env (pages_from env ?c (Suc m))" unfolding pf by (auto simp: page_frames_def)
    ultimately show ?thesis
      using r(1) hides_trans [OF e1(2) r(3)] e1(1) False Suc.prems(3) unfolding range
      by (intro exI [of _ r] exI [of _ "Suc m"] exI [of _ e'])
        (simp add: kh_get_free_page_def pf' del: upt_Suc)
  qed
qed


section \<open>Giving the pages back\<close>

text \<open>\<open>gives env e e' F\<close>: the frames \<open>F\<close> are accessible to the guest again, the others are as before.\<close>

definition gives :: "kernel_env \<Rightarrow> ept_state \<Rightarrow> ept_state \<Rightarrow> nat set \<Rightarrow> bool" where
  "gives env st st' F \<longleftrightarrow> ept_wf env st' \<and> g_ept_info st' = g_ept_info st \<and>
     (\<forall>gpa. unat gpa < 2 ^ 48 \<longrightarrow> guest_translate env st' gpa =
        (if page_of gpa \<in> F then Some (gpa, 7) else guest_translate env st gpa))"

lemma gives_trans: "gives env st st' F \<Longrightarrow> gives env st' st'' G \<Longrightarrow> gives env st st'' (F \<union> G)"
  by (auto simp: gives_def)

lemma hides_gives:
  "hides env st st' F \<Longrightarrow> gives env st' st'' F \<Longrightarrow> gives env st st'' F"
  by (auto simp: hides_def gives_def)

lemma pool_release_total:
  assumes "ept_wf env e" "\<forall>p \<in> set arr - {0}. direct_mapped env p \<and> ept_covered e (virt_to_phys env p)"
  shows "\<exists>e' h'. foldo (pool_release_page env arr) [0..<length arr] (e, h) = Some (e', h') \<and>
    gives env e e' (page_frames env arr) \<and> h' = h\<lparr>kh_freed := kh_freed h @ filter (\<lambda>p. p \<noteq> 0) arr\<rparr>"
proof -
  let ?P = "\<lambda>n (e', h'). gives env e e' (page_frames env (take n arr)) \<and>
    h' = h\<lparr>kh_freed := kh_freed h @ filter (\<lambda>p. p \<noteq> 0) (take n arr)\<rparr>"
  have "\<exists>s'. foldo (pool_release_page env arr) [0..<length arr] (e, h) = Some s' \<and> ?P (length arr) s'"
  proof (rule foldo_upt_total)
    show "?P 0 (e, h)" using assms(1) by (simp add: gives_def page_frames_def)
    fix i s assume i: "i < length arr" and P: "?P i s"
    obtain e1 h1 where s: "s = (e1, h1)" by fastforce
    note tk = take_Suc_conv_app_nth [OF i]
    show "\<exists>s'. pool_release_page env arr i s = Some s' \<and> ?P (Suc i) s'"
    proof (cases "arr ! i = 0")
      case True
      then have "page_frames env (take (Suc i) arr) = page_frames env (take i arr)"
        unfolding tk by (auto simp: page_frames_def)
      with True P show ?thesis by (simp add: pool_release_page_def s tk i)
    next
      case False
      let ?p = "arr ! i"
      have dm: "direct_mapped env ?p" "ept_covered e1 (virt_to_phys env ?p)" "ept_wf env e1"
        using False assms(2) i P s by (auto simp: gives_def ept_covered_def ept_nd_def)
      obtain e2 where e2: "hb_set_all_access_range env ?p (?p + VAL_4KB) ALLOC_KMALLOC e1 = Some e2"
          "gives env e1 e2 {page_of (virt_to_phys env ?p)}"
        using hb_set_all_access_range_translate [OF dm(3) one_page_range(1) [OF dm(1,2)]] one_page_range(2) [OF dm(1,2)]
        unfolding gives_def by metis
      have "page_frames env (take (Suc i) arr) = page_frames env (take i arr) \<union> {page_of (virt_to_phys env ?p)}"
        using False unfolding tk by (auto simp: page_frames_def)
      with gives_trans [OF _ e2(2)] e2(1) False P show ?thesis
        by (auto simp: pool_release_page_def s tk i kh_free_page_def)
    qed
  qed
  then show ?thesis by auto
qed

section \<open>Properties\<close>

lemma pool_count:
  assumes "unat m \<le> 2 ^ 48"
  shows "unat (m div VAL_2MB * 2) = unat m div 2097152 * 2" "unat (m div VAL_2MB * 2 * 8) div 8 = unat m div 2097152 * 2"
proof -
  have "unat m div 2097152 \<le> 2 ^ 27" using assms div_le_mono [of "unat m" "2 ^ 48" 2097152] by simp
  then show "unat (m div VAL_2MB * 2) = unat m div 2097152 * 2"
    "unat (m div VAL_2MB * 2 * 8) div 8 = unat m div 2097152 * 2"
    by (simp_all add: VAL_2MB_def unat_word_ariths unat_div)
qed

lemma pages_from_distinct: "fresh_pages env \<Longrightarrow> 0 \<notin> set (pages_from env c n) \<Longrightarrow> distinct (pages_from env c n)"
  unfolding distinct_map fresh_pages_def by (auto intro!: inj_onI) (metis atLeastLessThan_iff image_eqI)


lemma setup_pool_success:
  assumes env: "fresh_pages env" "ept_wf env (ps_ept st)" "unat m \<le> 2 ^ 48"
    and cov: "pages_covered env (ps_ept st) (kh_page_calls (ps_heap st)) (unat m div 2097152 * 2)"
    and ok: "vzalloc env (kh_vmalloc_calls (ps_heap st)) \<noteq> 0"
    and pages: "0 \<notin> set (pages_from env (kh_page_calls (ps_heap st)) (unat m div 2097152 * 2))"
  shows "\<exists>st'. hb_setup_memory_pool env m st = Some (0, st') \<and> pool_ok (g_memory_pool st') \<and>
    pool_stock (g_memory_pool st') = pages_from env (kh_page_calls (ps_heap st)) (unat m div 2097152 * 2) \<and>
    hides env (ps_ept st) (ps_ept st') (page_frames env (pool_stock (g_memory_pool st')))"
proof -
  let ?n = "unat m div 2097152 * 2" and ?p = "vzalloc env (kh_vmalloc_calls (ps_heap st))"
  let ?h = "ps_heap st\<lparr>kh_vmalloc_calls := Suc (kh_vmalloc_calls (ps_heap st))\<rparr>"
  note cnt = pool_count [OF env(3)]
  obtain r k e' where r: "pool_fill env [0..<?n] (replicate ?n 0) (ps_ept st) ?h =
      Some (r, pages_from env (kh_page_calls (ps_heap st)) k @ drop k (replicate ?n 0), e',
            ?h\<lparr>kh_page_calls := kh_page_calls (ps_heap st) + k\<rparr>)"
      "filled env (kh_page_calls (ps_heap st)) ?n r k"
      "hides env (ps_ept st) e' (page_frames env (pages_from env (kh_page_calls (ps_heap st)) k))"
    using pool_fill_total [OF env(1,2), of ?h ?n 0 "replicate ?n 0"] cov by auto
  have "r = 0"
  proof (rule ccontr)
    assume "r \<noteq> 0"
    with r(2) have k: "k \<le> ?n" "0 < k" "get_free_page env (kh_page_calls (ps_heap st) + k - 1) = 0"
      by (simp_all add: filled_def)
    then have "kh_page_calls (ps_heap st) + k - 1 \<in> {kh_page_calls (ps_heap st)..<kh_page_calls (ps_heap st) + ?n}" by auto
    with k(3) pages show False unfolding set_map set_upt by (metis image_eqI)
  qed
  with r(2) have k: "k = ?n" by (simp add: filled_def)
  show ?thesis
    using r(1,3) ok unfolding k \<open>r = 0\<close> hb_setup_memory_pool_def kh_vzalloc_def Let_def prod.case cnt
    by (simp add: cnt pool_ok_def pool_stock_def)
qed

text \<open>C34: If no allocation fails, \<open>hb_setup_memory_pool\<close> returns 0, and from then on the calls of
  \<open>hb_get_memory\<close> deliver two different pages for every 2MB of memory, none of them null, none of them twice, all of them
  hidden from the guest; once they are used up every further call delivers the null pointer.\<close>

theorem memory_pool_delivers:
  assumes "fresh_pages env" "ept_wf env (ps_ept st)" "unat m \<le> 2 ^ 48"
    and "pages_covered env (ps_ept st) (kh_page_calls (ps_heap st)) (unat m div 2097152 * 2)"
    and "vzalloc env (kh_vmalloc_calls (ps_heap st)) \<noteq> 0"
    and "0 \<notin> set (pages_from env (kh_page_calls (ps_heap st)) (unat m div 2097152 * 2))"
  shows "\<exists>st' ps. hb_setup_memory_pool env m st = Some (0, st') \<and>
    length ps = unat m div 2097152 * 2 \<and> distinct ps \<and> 0 \<notin> set ps \<and>
    (\<forall>p \<in> set ps. guest_translate env (ps_ept st') (virt_to_phys env p) = None) \<and>
    (\<forall>n. \<exists>mp'. pool.get_pages n (g_memory_pool st') = Some (take n ps @ replicate (n - length ps) 0, mp'))"
proof -
  let ?ps = "pages_from env (kh_page_calls (ps_heap st)) (unat m div 2097152 * 2)"
  obtain st' where st': "hb_setup_memory_pool env m st = Some (0, st')" "pool_ok (g_memory_pool st')"
      "pool_stock (g_memory_pool st') = ?ps" "hides env (ps_ept st) (ps_ept st') (page_frames env ?ps)"
    using setup_pool_success [OF assms] by (metis (no_types, lifting))
  have "guest_translate env (ps_ept st') (virt_to_phys env p) = None" if p: "p \<in> set ?ps" for p
  proof -
    have "p \<noteq> 0" using p assms(6) by metis
    then have "ept_covered (ps_ept st) (virt_to_phys env p)" using p assms(4) unfolding pages_covered_def by blast
    moreover have "ept_nd (ps_ept st) * 512 \<le> 2 ^ 36" using assms(2) by (auto simp: ept_wf_def ept_pages_ok_def)
    ultimately have "unat (virt_to_phys env p) < 2 ^ 48" by (simp add: ept_covered_def page_of_def)
    moreover have "page_of (virt_to_phys env p) \<in> page_frames env ?ps"
      unfolding page_frames_def using p \<open>p \<noteq> 0\<close> by blast
    ultimately show ?thesis using st'(4) by (simp add: hides_def)
  qed
  moreover have "\<exists>mp'. pool.get_pages n (g_memory_pool st') = Some (take n ?ps @ replicate (n - length ?ps) 0, mp')" for n
    using pool.get_pages_stock [OF st'(2), of n] unfolding st'(3) by blast
  moreover have "length ?ps = unat m div 2097152 * 2" by simp
  ultimately show ?thesis using st'(1) pages_from_distinct [OF assms(1,6)] assms(6) by blast
qed


text \<open>A kernel in which the pool of 4MB of memory can be filled.\<close>

lemma sample_pool_pages:
  "0 \<notin> set (pages_from sample_env 3078 4)" "ept_nd e = 2560 \<Longrightarrow> pages_covered sample_env e 3078 4"
proof -
  have p: "page_of (get_free_page sample_env n) = n + 1" "get_free_page sample_env n \<noteq> 0" if "n < 2 ^ 30" for n
    using sample_page [OF that] by (auto simp: page_of_def)
  have "get_free_page sample_env n \<noteq> 0" if "n \<in> {3078..<3078 + 4}" for n using that p(2) [of n] by auto
  then show "0 \<notin> set (pages_from sample_env 3078 4)" unfolding set_map set_upt by (metis imageE)
  have "virt_to_phys sample_env a = a" for a by (simp add: sample_env_def)
  then show "pages_covered sample_env e 3078 4" if "ept_nd e = 2560"
    using that p(1) by (auto simp: pages_covered_def ept_covered_def)
qed

theorem memory_pool_delivers_witness:
  "\<exists>e st' ps. hb_setup_memory_pool sample_env 0x400000
      \<lparr>g_memory_pool = \<lparr>mp_max_count = 0, mp_pop_index = 0, mp_pool = (0, [])\<rparr>, ps_ept = e,
       ps_heap = kh_init\<lparr>kh_page_calls := 3078\<rparr>\<rparr> = Some (0, st') \<and> length ps = 4 \<and> distinct ps \<and>
     (\<exists>mp'. pool.get_pages 6 (g_memory_pool st') = Some (ps @ [0, 0], mp'))"
proof -
  obtain e where e: "ept_wf sample_env e" "ept_nd e = 2560" using sample_state by blast
  let ?st = "\<lparr>g_memory_pool = \<lparr>mp_max_count = 0, mp_pop_index = 0, mp_pool = (0, [])\<rparr>, ps_ept = e,
       ps_heap = kh_init\<lparr>kh_page_calls := 3078\<rparr>\<rparr>"
  have n: "unat (0x400000 :: u64) div 2097152 * 2 = 4" by simp
  have "vzalloc sample_env 0 \<noteq> 0" by (simp add: sample_env_def)
  then obtain st' ps where res: "hb_setup_memory_pool sample_env 0x400000 ?st = Some (0, st')"
      "length ps = 4" "distinct ps"
      "\<forall>n. \<exists>mp'. pool.get_pages n (g_memory_pool st') = Some (take n ps @ replicate (n - length ps) 0, mp')"
    using memory_pool_delivers [where env = sample_env and st = ?st and m = "0x400000", unfolded n, OF sample_fresh_pages]
      e sample_pool_pages by auto
  obtain mp' where "pool.get_pages 6 (g_memory_pool st') = Some (take 6 ps @ replicate (6 - length ps) 0, mp')"
    using res(4) by blast
  with res(2) have "pool.get_pages 6 (g_memory_pool st') = Some (ps @ [0, 0], mp')"
    by (simp add: numeral_2_eq_2)
  with res(1-3) show ?thesis by blast
qed


text \<open>What the array holds when the allocator has failed: the pages taken, and zeros.\<close>

lemma failed_fill_array:
  assumes "filled env c n r k" "r \<noteq> 0"
  defines "arr \<equiv> pages_from env c k @ drop k (replicate n 0)" and "ps \<equiv> pages_from env c (k - 1)"
  shows "r = -1" "k \<le> n" "get_free_page env (c + (k - 1)) = 0" "0 \<notin> set ps"
    and "filter (\<lambda>p. p \<noteq> 0) arr = ps" "set arr - {0} = set ps"
    and "page_frames env arr = page_frames env ps" "page_frames env (pages_from env c k) = page_frames env ps"
proof -
  show k: "r = -1" "k \<le> n" "get_free_page env (c + (k - 1)) = 0" "0 \<notin> set ps"
    using assms by (auto simp: filled_def split: if_splits)
  have "0 < k" using assms by (simp add: filled_def)
  then have pf: "pages_from env c k = ps @ [0]" using k(3) unfolding ps_def by (cases k) simp_all
  have "filter (\<lambda>p. p \<noteq> 0) ps = ps" using k(4) by (auto simp: filter_id_conv)
  then show f: "filter (\<lambda>p. p \<noteq> 0) arr = ps" unfolding arr_def pf by (simp add: filter_empty_conv)
  show s: "set arr - {0} = set ps" unfolding f [symmetric] by auto
  then show "page_frames env arr = page_frames env ps" "page_frames env (pages_from env c k) = page_frames env ps"
    using k(4) unfolding pf by (auto simp: page_frames_def)
qed

text \<open>C35: If the page allocator runs dry while the pool is filled, \<open>hb_setup_memory_pool\<close> returns -1 and nothing is
  lost: the pages it had taken are freed in order, each once, the array is released, the frames of the pages are
  accessible to the guest again and no other page changes its translation.\<close>

theorem memory_pool_failure:
  assumes "fresh_pages env" "ept_wf env (ps_ept st)" "unat m \<le> 2 ^ 48"
    and "pages_covered env (ps_ept st) (kh_page_calls (ps_heap st)) (unat m div 2097152 * 2)"
    and "vzalloc env (kh_vmalloc_calls (ps_heap st)) \<noteq> 0"
    and "0 \<in> set (pages_from env (kh_page_calls (ps_heap st)) (unat m div 2097152 * 2))"
  shows "\<exists>st' ps. hb_setup_memory_pool env m st = Some (-1, st') \<and>
    (\<exists>k. ps = pages_from env (kh_page_calls (ps_heap st)) k \<and> get_free_page env (kh_page_calls (ps_heap st) + k) = 0) \<and>
    kh_freed (ps_heap st') = kh_freed (ps_heap st) @ ps \<and>
    kh_vfreed (ps_heap st') = kh_vfreed (ps_heap st) @ [vzalloc env (kh_vmalloc_calls (ps_heap st))] \<and>
    (\<forall>gpa. unat gpa < 2 ^ 48 \<longrightarrow> guest_translate env (ps_ept st') gpa =
      (if page_of gpa \<in> page_frames env ps then Some (gpa, 7) else guest_translate env (ps_ept st) gpa))"
proof -
  let ?n = "unat m div 2097152 * 2" and ?p = "vzalloc env (kh_vmalloc_calls (ps_heap st))"
  let ?c = "kh_page_calls (ps_heap st)" and ?h = "ps_heap st\<lparr>kh_vmalloc_calls := Suc (kh_vmalloc_calls (ps_heap st))\<rparr>"
  note cnt = pool_count [OF assms(3)]
  obtain r k e1 where r: "pool_fill env [0..<?n] (replicate ?n 0) (ps_ept st) ?h =
      Some (r, pages_from env ?c k @ drop k (replicate ?n 0), e1, ?h\<lparr>kh_page_calls := ?c + k\<rparr>)"
      "filled env ?c ?n r k" "hides env (ps_ept st) e1 (page_frames env (pages_from env ?c k))"
    using pool_fill_total [OF assms(1,2), of ?h ?n 0 "replicate ?n 0"] assms(4) by auto
  let ?arr = "pages_from env ?c k @ drop k (replicate ?n 0)" and ?ps = "pages_from env ?c (k - 1)"
  have "r \<noteq> 0" using r(2) assms(6) by (auto simp: filled_def)
  note k = failed_fill_array [OF r(2) this]
  have "direct_mapped env p \<and> ept_covered e1 (virt_to_phys env p)" if "p \<in> set ?ps" for p
  proof -
    have "p \<noteq> 0" "p \<in> set (pages_from env ?c ?n)" using that k(2,4) by auto
    moreover have "ept_covered e1 a \<longleftrightarrow> ept_covered (ps_ept st) a" for a
      using r(3) by (simp add: hides_def ept_covered_def ept_nd_def)
    ultimately show ?thesis using assms(1,4) unfolding fresh_pages_def pages_covered_def by auto
  qed
  then have "\<forall>p \<in> set ?arr - {0}. direct_mapped env p \<and> ept_covered e1 (virt_to_phys env p)" unfolding k(6) by blast
  from pool_release_total [OF _ this, of "?h\<lparr>kh_page_calls := ?c + k\<rparr>"] r(3) k(2)
  obtain e2 h2 where e2: "foldo (pool_release_page env ?arr) [0..<?n] (e1, ?h\<lparr>kh_page_calls := ?c + k\<rparr>) = Some (e2, h2)"
      "gives env e1 e2 (page_frames env ?arr)" "h2 = ?h\<lparr>kh_page_calls := ?c + k, kh_freed := kh_freed (ps_heap st) @ ?ps\<rparr>"
    unfolding k(5) by (auto simp: hides_def)
  have g: "gives env (ps_ept st) e2 (page_frames env ?ps)" using hides_gives r(3) e2(2) unfolding k(7,8) by blast
  have "\<exists>st'. hb_setup_memory_pool env m st = Some (-1, st') \<and> ps_ept st' = e2 \<and> ps_heap st' = kh_vfree ?p h2"
    using r(1) e2(1) assms(5) k(1) unfolding hb_setup_memory_pool_def kh_vzalloc_def Let_def prod.case cnt
    by (simp add: cnt)
  then show ?thesis using g k(3) e2(3) unfolding gives_def kh_vfree_def
    by (auto intro!: exI [of _ "?ps"])
qed


theorem memory_pool_failure_witness:
  "\<exists>e st'. hb_setup_memory_pool sample_env 0x400000
      \<lparr>g_memory_pool = \<lparr>mp_max_count = 0, mp_pop_index = 0, mp_pool = (0, [])\<rparr>, ps_ept = e,
       ps_heap = kh_init\<lparr>kh_page_calls := 2 ^ 30\<rparr>\<rparr> = Some (-1, st') \<and>
     kh_vfreed (ps_heap st') = [0xFFFFC90000000000]"
proof -
  obtain e where e: "ept_wf sample_env e" using sample_state by blast
  let ?st = "\<lparr>g_memory_pool = \<lparr>mp_max_count = 0, mp_pop_index = 0, mp_pool = (0, [])\<rparr>, ps_ept = e,
       ps_heap = kh_init\<lparr>kh_page_calls := 2 ^ 30\<rparr>\<rparr>"
  have n: "unat (0x400000 :: u64) div 2097152 * 2 = 4" by simp
  have dry: "get_free_page sample_env i = 0" if "2 ^ 30 \<le> i" for i using that by (simp add: sample_env_def)
  have "set (pages_from sample_env (2 ^ 30) 4) = {0}"
  proof
    show "set (pages_from sample_env (2 ^ 30) 4) \<subseteq> {0}" using dry by auto
    have "2 ^ 30 \<in> set [2 ^ 30..<2 ^ 30 + 4 :: nat]" unfolding set_upt by simp
    then show "{0} \<subseteq> set (pages_from sample_env (2 ^ 30) 4)" using dry [of "2 ^ 30"] unfolding set_map by force
  qed
  then have c: "0 \<in> set (pages_from sample_env (2 ^ 30) 4)" "pages_covered sample_env e (2 ^ 30) 4"
    unfolding pages_covered_def by blast+
  have v: "vzalloc sample_env 0 = 0xFFFFC90000000000" by (simp add: sample_env_def)
  obtain st' where "hb_setup_memory_pool sample_env 0x400000 ?st = Some (-1, st')"
      "kh_vfreed (ps_heap st') = kh_vfreed (ps_heap ?st) @ [vzalloc sample_env (kh_vmalloc_calls (ps_heap ?st))]"
    using memory_pool_failure [where env = sample_env and st = ?st and m = "0x400000", unfolded n, OF sample_fresh_pages]
      e c v by auto
  then show ?thesis using v by auto
qed

end
