(* ===== verification/Page_Table.thy ===== *)
theory Page_Table
  imports Memory_Pool
begin

text \<open>
  The page tables of the host (hypervisor.c): the hypervisor runs on a copy of the kernel's page tables
  (\<open>hb_dup_page_table_for_host\<close>) and, before a handler reads an object of the guest, copies the mapping of its address
  from the tables of the guest (\<open>hb_sync_page_table\<close>), taking new tables from the memory pool.

  A table is addressed by its kernel pointer; \<open>pt_mem t i\<close> is its i-th entry. The tables of the guest and of the host
  lie in the same memory, so what a theorem says about the tables of the guest needs that the two do not share tables.
\<close>

section \<open>Macros of mmu.h\<close>

definition VAL_1TB :: u64 where [hb_consts]: "VAL_1TB = 1 * 1024 * 1024 * 1024 * 1024"
definition MASK_PAGEFLAG :: u64 where [hb_consts]: "MASK_PAGEFLAG = 0xFF00000000000FFF"
definition MASK_PAGEFLAG_WO_DA :: u64 where
  [hb_consts]: "MASK_PAGEFLAG_WO_DA = 0xFF00000000000FFF XOR push_bit 5 1 XOR push_bit 6 1"
definition MASK_PAGEFLAG_WO_SIZE :: u64 where
  [hb_consts]: "MASK_PAGEFLAG_WO_SIZE = MASK_PAGEFLAG XOR MASK_PAGE_SIZE_FLAG"
definition MASK_PRESENT_FLAG :: u64 where [hb_consts]: "MASK_PRESENT_FLAG = push_bit 0 1"

definition IS_PRESENT :: "u64 \<Rightarrow> bool" where "IS_PRESENT x \<longleftrightarrow> x AND MASK_PRESENT_FLAG \<noteq> 0"
definition IS_SIZE_FLAG_SET :: "u64 \<Rightarrow> bool" where "IS_SIZE_FLAG_SET x \<longleftrightarrow> x AND MASK_PAGE_SIZE_FLAG \<noteq> 0"
definition GET_ADDR :: "u64 \<Rightarrow> u64" where "GET_ADDR x = x AND NOT MASK_PAGEFLAG"

section \<open>State\<close>

type_synonym pt_memory = "u64 \<Rightarrow> nat \<Rightarrow> u64"

record pt_state =
  pt_mem :: pt_memory
  pt_pool :: hb_memory_pool_struct
  pt_flushed :: "u64 list"
  pt_init_phy_pml4 :: u64
  pt_host_phy_pml4 :: u64

definition pt_store :: "u64 \<Rightarrow> nat \<Rightarrow> u64 \<Rightarrow> pt_memory \<Rightarrow> pt_memory" where
  "pt_store t i v mem = mem(t := (mem t)(i := v))"

lemma pt_store_apply [simp]:
  "pt_store t i v mem t' = (if t' = t then (mem t)(i := v) else mem t')"
  by (simp add: pt_store_def)

section \<open>Operations on one table\<close>

definition vm_expand_page_table_entry :: "kernel_env \<Rightarrow> u64 \<Rightarrow> u64 \<Rightarrow> u64 \<Rightarrow> pt_memory \<Rightarrow> pt_memory" where
  "vm_expand_page_table_entry env phy_table_addr start_entry_and_flags entry_size mem =
     (let log_addr = phys_to_virt env (phy_table_addr AND NOT MASK_PAGEFLAG) in
      fold (\<lambda>i. pt_store log_addr i
        (if entry_size = VAL_4KB then (start_entry_and_flags AND NOT MASK_PAGE_SIZE_FLAG) + of_nat i * entry_size
         else ((start_entry_and_flags AND NOT (entry_size - 1)) OR MASK_PAGE_SIZE_FLAG) + of_nat i * entry_size))
        [0..<512] mem)"

text \<open>A null pointer from the pool is only logged, and \<open>memset\<close> then writes through it: \<open>None\<close>.\<close>

definition vm_check_alloc_page_table :: "kernel_env \<Rightarrow> u64 \<Rightarrow> nat \<Rightarrow> pt_state \<Rightarrow> (u64 \<times> pt_state) option" where
  "vm_check_alloc_page_table env pagetable index st =
     (let e = pt_mem st pagetable index in
      if e = 0 \<or> IS_SIZE_FLAG_SET e then do {
        (value, mp) \<leftarrow> hb_get_memory (pt_pool st);
        if value = 0 then None
        else Some (virt_to_phys env value, st\<lparr>pt_pool := mp, pt_mem := (pt_mem st)(value := \<lambda>_. 0)\<rparr>)
      }
      else Some (e, st))"

definition hb_sync_page_table_flag :: "u64 \<Rightarrow> u64 \<Rightarrow> nat \<Rightarrow> u64 \<Rightarrow> pt_memory \<Rightarrow> pt_memory" where
  "hb_sync_page_table_flag vm init index addr mem =
     pt_store vm index ((addr AND NOT MASK_PAGEFLAG) OR (mem init index AND MASK_PAGEFLAG)) mem"

definition vm_is_same_page_table_flag_or_size_flag_set :: "u64 \<Rightarrow> u64 \<Rightarrow> nat \<Rightarrow> pt_memory \<Rightarrow> int" where
  "vm_is_same_page_table_flag_or_size_flag_set vm init index mem =
     (if IS_SIZE_FLAG_SET (mem init index) then 1
      else if mem vm index AND MASK_PAGEFLAG_WO_DA = mem init index AND MASK_PAGEFLAG_WO_DA then 1
      else 0)"

definition vm_is_new_page_table_needed :: "u64 \<Rightarrow> u64 \<Rightarrow> nat \<Rightarrow> pt_memory \<Rightarrow> int" where
  "vm_is_new_page_table_needed vm init index mem =
     (if mem vm index = 0 \<or> IS_SIZE_FLAG_SET (mem vm index) then 1 else 0)"

section \<open>Walking the tables\<close>

text \<open>The four words of \<open>struct vm_page_entry_struct\<close>: the entries on the way to the page; the last one is 0 when
  the address is not mapped.\<close>

definition hb_get_phy_from_log :: "kernel_env \<Rightarrow> u64 \<Rightarrow> u64 \<Rightarrow> pt_memory \<Rightarrow> u64 \<times> u64 \<times> u64 \<times> u64" where
  "hb_get_phy_from_log env pml4_phy_addr addr mem =
     (let pml4_index = addr div VAL_512GB mod 512;
          pdpte_pd_index = addr div VAL_1GB mod 512;
          pdept_index = addr div VAL_2MB mod 512;
          pte_index = addr div VAL_4KB mod 512;
          v0 = mem (phys_to_virt env pml4_phy_addr) (unat pml4_index)
      in if \<not> IS_PRESENT v0 then (v0, 0, 0, 0)
         else if IS_SIZE_FLAG_SET v0 then
           (v0, 0, 0, (GET_ADDR v0 + (pdpte_pd_index * VAL_1GB + pdept_index * VAL_2MB + pte_index * VAL_4KB)) OR
                      (v0 AND MASK_PAGEFLAG_WO_SIZE))
         else let v1 = mem (phys_to_virt env (GET_ADDR v0)) (unat pdpte_pd_index)
         in if \<not> IS_PRESENT v1 then (v0, v1, 0, 0)
         else if IS_SIZE_FLAG_SET v1 then
           (v0, v1, 0, (GET_ADDR v1 + (pdept_index * VAL_2MB + pte_index * VAL_4KB)) OR (v1 AND MASK_PAGEFLAG_WO_SIZE))
         else let v2 = mem (phys_to_virt env (GET_ADDR v1)) (unat pdept_index)
         in if \<not> IS_PRESENT v2 then (v0, v1, v2, 0)
         else if IS_SIZE_FLAG_SET v2 then
           (v0, v1, v2, (GET_ADDR v2 + pte_index * VAL_4KB) OR (v2 AND MASK_PAGEFLAG_WO_SIZE))
         else let v3 = mem (phys_to_virt env (GET_ADDR v2)) (unat pte_index)
         in (v0, v1, v2, v3))"

text \<open>The last word, \<open>phy_addr[3]\<close>.\<close>

definition phy_entry :: "u64 \<times> u64 \<times> u64 \<times> u64 \<Rightarrow> u64" where
  "phy_entry out = snd (snd (snd out))"

section \<open>Synchronising one address\<close>

text \<open>One level of \<open>hb_sync_page_table\<close>: the entry of the guest is copied when it is empty or maps a large page,
  and the descent ends (\<open>None\<close> inside the result, \<open>goto EXIT\<close>); otherwise the host gets a table of its own if it has
  none, and the descent goes on in the tables behind the two entries.\<close>

definition sync_level ::
  "kernel_env \<Rightarrow> u64 \<Rightarrow> u64 \<Rightarrow> nat \<Rightarrow> u64 \<Rightarrow> u64 \<Rightarrow> u64 \<times> pt_state \<Rightarrow>
     ((u64 \<times> u64) option \<times> u64 \<times> pt_state) option" where
  "sync_level env phy3 entry_size index init vm s =
     (let (expand_value, st) = s; e = pt_mem st init index in
      if e = 0 \<or> IS_SIZE_FLAG_SET e
      then Some (None, expand_value, st\<lparr>pt_mem := pt_store vm index e (pt_mem st)\<rparr>)
      else do {
        (expand_value, st) \<leftarrow>
          (if vm_is_new_page_table_needed vm init index (pt_mem st) = 1 then do {
             (value, st) \<leftarrow> vm_check_alloc_page_table env vm index st;
             let mem = vm_expand_page_table_entry env value phy3 entry_size (pt_mem st);
             let mem = hb_sync_page_table_flag vm init index value mem;
             Some (if expand_value = 0 then entry_size else expand_value, st\<lparr>pt_mem := mem\<rparr>)
           }
           else Some (expand_value, st));
        Some (Some (phys_to_virt env (e AND NOT MASK_PAGEFLAG),
                    phys_to_virt env (pt_mem st vm index AND NOT MASK_PAGEFLAG)), expand_value, st)
      })"

definition hb_sync_page_table ::
  "kernel_env \<Rightarrow> u64 \<Rightarrow> ro_registry \<Rightarrow> u64 \<Rightarrow> u64 \<Rightarrow> int \<Rightarrow> pt_state \<Rightarrow> (u64 \<times> pt_state) option" where
  "hb_sync_page_table env page_offset_base reg addr org_target_phy_pml4 sync_direct_mapping st =
     (let target_phy_pml4 = GET_ADDR org_target_phy_pml4;
          direct = (page_offset_base \<le> addr \<and> addr < page_offset_base + 64 * VAL_1TB);
          phy3 = phy_entry (hb_get_phy_from_log env target_phy_pml4 addr (pt_mem st));
          host3 = phy_entry (hb_get_phy_from_log env (pt_host_phy_pml4 st) addr (pt_mem st));
          pml4_index = addr div VAL_512GB mod 512;
          pdpte_pd_index = addr div VAL_1GB mod 512;
          pdept_index = addr div VAL_2MB mod 512;
          pte_index = addr div VAL_4KB mod 512;
          init_pml4 = phys_to_virt env target_phy_pml4;
          vm_pml4 = phys_to_virt env (pt_host_phy_pml4 st);
          EXIT = (\<lambda>(expand_value, st). Some (expand_value, st\<lparr>pt_flushed := pt_flushed st @ [addr]\<rparr>))
      in
      if direct \<and> sync_direct_mapping = 0 then Some (0, st)
      else if direct \<and> \<not> IS_PRESENT phy3 then Some (0, st)
      else if direct \<and> IS_PRESENT host3 \<and> GET_ADDR phy3 = GET_ADDR host3 then Some (0, st)
      else if hb_is_addr_in_kernel_ro_area addr reg \<noteq> 0 then Some (0, st)
      else if \<not> IS_PRESENT phy3 then Some (0, st)
      else if GET_ADDR phy3 = GET_ADDR host3 then Some (0, st)
      else do {
        (d, s) \<leftarrow> sync_level env phy3 VAL_1GB (unat pml4_index) init_pml4 vm_pml4 (0, st);
        case d of None \<Rightarrow> EXIT s | Some (init_pdpte_pd, vm_pdpte_pd) \<Rightarrow> do {
          (d, s) \<leftarrow> sync_level env phy3 VAL_2MB (unat pdpte_pd_index) init_pdpte_pd vm_pdpte_pd s;
          case d of None \<Rightarrow> EXIT s | Some (init_pdept, vm_pdept) \<Rightarrow> do {
            (d, s) \<leftarrow> sync_level env phy3 VAL_4KB (unat pdept_index) init_pdept vm_pdept s;
            case d of None \<Rightarrow> EXIT s | Some (init_pte, vm_pte) \<Rightarrow>
              let (expand_value, st) = s in
              EXIT (expand_value,
                st\<lparr>pt_mem := pt_store vm_pte (unat pte_index) (pt_mem st init_pte (unat pte_index)) (pt_mem st)\<rparr>)
          }
        }
      })"


section \<open>Entries\<close>

lemma MASK_PAGEFLAG_bit: "bit MASK_PAGEFLAG n \<longleftrightarrow> n < 12 \<or> 56 \<le> n \<and> n < 64"
proof -
  have eq: "MASK_PAGEFLAG = mask 12 OR push_bit 56 (mask 8)" by (simp add: MASK_PAGEFLAG_def mask_eq_exp_minus_1)
  show ?thesis unfolding eq by (auto simp: bit_simps)
qed

lemma IS_PRESENT_bit: "IS_PRESENT x \<longleftrightarrow> bit x 0"
  by (simp add: IS_PRESENT_def MASK_PRESENT_FLAG_def and_one_eq odd_iff_mod_2_eq_one bit_0)

lemma IS_SIZE_bit: "IS_SIZE_FLAG_SET x \<longleftrightarrow> bit x 7"
proof -
  have "x AND push_bit 7 1 \<noteq> 0 \<longleftrightarrow> bit x 7"
    using and_exp_eq_0_iff_not_bit [of x 7] by (simp add: push_bit_eq_mult)
  then show ?thesis by (simp add: IS_SIZE_FLAG_SET_def MASK_PAGE_SIZE_FLAG_def)
qed

lemma GET_ADDR_bit: "bit (GET_ADDR x) n \<longleftrightarrow> bit x n \<and> 12 \<le> n \<and> n < 56"
  by (auto simp: GET_ADDR_def bit_simps MASK_PAGEFLAG_bit dest: bit_imp_le_length)

lemma phys_bits: "page_aligned a \<Longrightarrow> unat a < 2 ^ 52 \<Longrightarrow> bit a n \<Longrightarrow> 12 \<le> n \<and> n < 52"
  using aligned_bit [of a n] bit_small [of a 52 n] by blast

lemma GET_ADDR_page: "page_aligned a \<Longrightarrow> unat a < 2 ^ 52 \<Longrightarrow> GET_ADDR a = a"
  by (rule bit_word_eqI) (use phys_bits [of a] in \<open>force simp: GET_ADDR_bit\<close>)

lemma IS_PRESENT_nonzero: "IS_PRESENT x \<Longrightarrow> x \<noteq> 0" by (auto simp: IS_PRESENT_def)

lemma not_present_0 [simp]: "\<not> IS_PRESENT 0" by (simp add: IS_PRESENT_def)

text \<open>The entry that links the page \<open>p\<close> with the flags of the entry \<open>e\<close>.\<close>

lemma linked_entry:
  assumes "direct_mapped env p" "IS_PRESENT e" "\<not> IS_SIZE_FLAG_SET e"
  defines "v \<equiv> virt_to_phys env p OR (e AND MASK_PAGEFLAG)"
  shows "IS_PRESENT v" "\<not> IS_SIZE_FLAG_SET v" "GET_ADDR v = virt_to_phys env p" "phys_to_virt env (GET_ADDR v) = p"
proof -
  have al: "12 \<le> n \<and> n < 52" if "bit (virt_to_phys env p) n" for n
    using assms(1) that phys_bits [of "virt_to_phys env p" n] by (auto simp: direct_mapped_def)
  show "IS_PRESENT v" "\<not> IS_SIZE_FLAG_SET v"
    using assms(2,3) al [of 7] by (auto simp: v_def IS_PRESENT_bit IS_SIZE_bit bit_simps MASK_PAGEFLAG_bit)
  show "GET_ADDR v = virt_to_phys env p"
    by (rule bit_word_eqI) (auto simp: v_def GET_ADDR_bit bit_simps MASK_PAGEFLAG_bit dest: al)
  then show "phys_to_virt env (GET_ADDR v) = p" using assms(1) by (simp add: direct_mapped_def)
qed

section \<open>The walk by levels\<close>

text \<open>Level 3 is the PML4, level 0 the last table.\<close>

definition level_size :: "nat \<Rightarrow> u64" where
  "level_size n = 2 ^ (12 + 9 * n)"

definition pt_index :: "nat \<Rightarrow> u64 \<Rightarrow> nat" where
  "pt_index n addr = unat (addr div level_size n mod 512)"

lemma pt_index_less: "pt_index n addr < 512"
  by (simp add: pt_index_def unat_mod)

primrec page_offset :: "nat \<Rightarrow> u64 \<Rightarrow> u64" where
  "page_offset 0 addr = 0"
| "page_offset (Suc n) addr = addr div level_size n mod 512 * level_size n + page_offset n addr"

primrec pt_walk :: "kernel_env \<Rightarrow> pt_memory \<Rightarrow> nat \<Rightarrow> u64 \<Rightarrow> u64 \<Rightarrow> u64" where
  "pt_walk env mem 0 t addr = mem t (pt_index 0 addr)"
| "pt_walk env mem (Suc n) t addr =
     (let v = mem t (pt_index (Suc n) addr) in
      if \<not> IS_PRESENT v then 0
      else if IS_SIZE_FLAG_SET v then (GET_ADDR v + page_offset (Suc n) addr) OR (v AND MASK_PAGEFLAG_WO_SIZE)
      else pt_walk env mem n (phys_to_virt env (GET_ADDR v)) addr)"

lemma level_sizes: "level_size 0 = VAL_4KB" "level_size (Suc 0) = VAL_2MB" "level_size 2 = VAL_1GB" "level_size 3 = VAL_512GB"
  by (simp_all add: level_size_def hb_consts)

lemma hb_get_phy_from_log_walk:
  "phy_entry (hb_get_phy_from_log env pml4 addr mem) = pt_walk env mem 3 (phys_to_virt env pml4) addr"
  by (simp add: hb_get_phy_from_log_def phy_entry_def numeral_3_eq_3 numeral_2_eq_2 pt_index_def Let_def
      level_sizes [unfolded numeral_3_eq_3 numeral_2_eq_2] add.assoc)


text \<open>The tables that a walk reads.\<close>

primrec walk_tables :: "kernel_env \<Rightarrow> pt_memory \<Rightarrow> nat \<Rightarrow> u64 \<Rightarrow> u64 \<Rightarrow> u64 set" where
  "walk_tables env mem 0 t addr = {t}"
| "walk_tables env mem (Suc n) t addr =
     (let v = mem t (pt_index (Suc n) addr) in
      insert t (if \<not> IS_PRESENT v \<or> IS_SIZE_FLAG_SET v then {}
                else walk_tables env mem n (phys_to_virt env (GET_ADDR v)) addr))"

lemma walk_tables_root: "t \<in> walk_tables env mem n t addr"
  by (cases n) (simp_all add: Let_def)

lemma pt_walk_cong:
  "\<forall>t' \<in> walk_tables env mem n t addr. mem' t' = mem t' \<Longrightarrow>
     pt_walk env mem' n t addr = pt_walk env mem n t addr \<and> walk_tables env mem' n t addr = walk_tables env mem n t addr"
proof (induction n arbitrary: t)
  case (Suc n)
  then have "mem' t = mem t" by (simp add: Let_def)
  with Suc show ?case by (auto simp: Let_def)
qed simp

section \<open>The tables of the host\<close>

text \<open>\<open>lev\<close> assigns a level to every table of the host. An entry of a table above the last level is empty, maps
  a large page, or is present and links a table of the next level.\<close>

definition tables_ok :: "kernel_env \<Rightarrow> (u64 \<rightharpoonup> nat) \<Rightarrow> pt_memory \<Rightarrow> bool" where
  "tables_ok env lev mem \<longleftrightarrow>
     (\<forall>t n i. lev t = Some (Suc n) \<longrightarrow> i < 512 \<longrightarrow>
        mem t i = 0 \<or> IS_SIZE_FLAG_SET (mem t i) \<or>
        IS_PRESENT (mem t i) \<and> lev (phys_to_virt env (GET_ADDR (mem t i))) = Some n)"

lemma tables_ok_cases:
  assumes "tables_ok env lev mem" "lev t = Some (Suc n)" "i < 512"
  obtains "mem t i = 0" | "IS_SIZE_FLAG_SET (mem t i)"
  | "mem t i \<noteq> 0" "\<not> IS_SIZE_FLAG_SET (mem t i)" "IS_PRESENT (mem t i)" "lev (phys_to_virt env (GET_ADDR (mem t i))) = Some n"
  using assms unfolding tables_ok_def by blast

lemma tables_ok_store_leaf:
  assumes "tables_ok env lev mem" "e = 0 \<or> IS_SIZE_FLAG_SET e"
  shows "tables_ok env lev (pt_store t i e mem)"
  using assms unfolding tables_ok_def by (auto simp: fun_upd_def)

lemma tables_ok_store_last:
  assumes "tables_ok env lev mem" "lev t = Some 0"
  shows "tables_ok env lev (pt_store t i e mem)"
  using assms unfolding tables_ok_def by auto

text \<open>A page that becomes a new table, with entries that map large pages only, and the entry that links it.\<close>

lemma tables_ok_new:
  assumes "tables_ok env lev mem" "lev p = None" "\<And>i. i < 512 \<Longrightarrow> n \<noteq> 0 \<Longrightarrow> f i = 0 \<or> IS_SIZE_FLAG_SET (f i)"
  shows "tables_ok env (lev(p \<mapsto> n)) (mem(p := f))"
  using assms unfolding tables_ok_def by (auto split: if_splits) (metis option.distinct(1))+

lemma tables_ok_link:
  assumes "tables_ok env lev mem" "IS_PRESENT v" "lev (phys_to_virt env (GET_ADDR v)) = Some n" "lev t = Some (Suc n)"
  shows "tables_ok env lev (pt_store t i v mem)"
  using assms unfolding tables_ok_def by (auto simp: fun_upd_def)

text \<open>The walk over tables of the host depends on the tables of its levels only.\<close>

lemma host_walk_tables:
  "tables_ok env lev mem \<Longrightarrow> lev t = Some n \<Longrightarrow> t' \<in> walk_tables env mem n t addr \<Longrightarrow> \<exists>k \<le> n. lev t' = Some k"
proof (induction n arbitrary: t)
  case (Suc n)
  show ?case
  proof (cases "t' = t")
    case False
    let ?v = "mem t (pt_index (Suc n) addr)"
    have v: "IS_PRESENT ?v" "\<not> IS_SIZE_FLAG_SET ?v" "t' \<in> walk_tables env mem n (phys_to_virt env (GET_ADDR ?v)) addr"
      using Suc.prems(3) False by (auto simp: Let_def split: if_splits)
    have "lev (phys_to_virt env (GET_ADDR ?v)) = Some n"
      using tables_ok_cases [OF Suc.prems(1,2) pt_index_less] v(1,2) IS_PRESENT_nonzero by blast
    from Suc.IH [OF Suc.prems(1) this v(3)] show ?thesis by auto
  qed (use Suc.prems in auto)
qed simp

lemma host_walk_cong:
  assumes "tables_ok env lev mem" "lev t = Some n" "\<And>t' k. k \<le> n \<Longrightarrow> lev t' = Some k \<Longrightarrow> mem' t' = mem t'"
  shows "pt_walk env mem' n t addr = pt_walk env mem n t addr"
  using pt_walk_cong [of env mem n t addr mem'] host_walk_tables [OF assms(1,2)] assms(3) by blast


section \<open>New tables\<close>

lemma fold_pt_store:
  "fold (\<lambda>i. pt_store t i (f i)) [0..<n] mem = mem(t := \<lambda>i. if i < n then f i else mem t i)"
  by (induction n) (auto simp: fun_eq_iff pt_store_def)

definition expanded :: "u64 \<Rightarrow> u64 \<Rightarrow> nat \<Rightarrow> u64" where
  "expanded start entry_size i =
     (if entry_size = VAL_4KB then (start AND NOT MASK_PAGE_SIZE_FLAG) + of_nat i * entry_size
      else ((start AND NOT (entry_size - 1)) OR MASK_PAGE_SIZE_FLAG) + of_nat i * entry_size)"

lemma vm_expand_eq:
  assumes "direct_mapped env p"
  shows "vm_expand_page_table_entry env (virt_to_phys env p) start entry_size mem =
    mem(p := \<lambda>i. if i < 512 then expanded start entry_size i else mem p i)"
proof -
  have "virt_to_phys env p AND NOT MASK_PAGEFLAG = virt_to_phys env p" "phys_to_virt env (virt_to_phys env p) = p"
    using assms GET_ADDR_page [of "virt_to_phys env p"] by (simp_all add: direct_mapped_def GET_ADDR_def)
  then show ?thesis unfolding vm_expand_page_table_entry_def Let_def fold_pt_store expanded_def by (simp cong: if_cong)
qed

lemma bit_add_shifted:
  fixes a b :: u64
  assumes "m < k"
  shows "bit (a + push_bit k b) m \<longleftrightarrow> bit a m"
proof -
  have int: "bit (x + push_bit k y) m \<longleftrightarrow> bit x m" for x y :: int
  proof -
    have "take_bit k (x + push_bit k y) = take_bit k x"
      by (simp add: take_bit_eq_mod push_bit_eq_mult)
    then show ?thesis using assms by (metis bit_take_bit_iff)
  qed
  show ?thesis using int by transfer (simp add: bit_simps take_bit_push_bit)
qed

lemma expanded_large: "n \<noteq> 0 \<Longrightarrow> n \<le> 2 \<Longrightarrow> IS_SIZE_FLAG_SET (expanded start (level_size n) i)"
proof -
  assume n: "n \<noteq> 0" "n \<le> 2"
  then have "n = 1 \<or> n = 2" by auto
  then have "level_size n \<noteq> VAL_4KB" by (auto simp: level_size_def hb_consts)
  then have e: "expanded start (level_size n) i =
      ((start AND NOT (level_size n - 1)) OR MASK_PAGE_SIZE_FLAG) + push_bit (12 + 9 * n) (of_nat i)" (is "_ = ?a + ?b")
    by (simp add: expanded_def push_bit_eq_mult level_size_def)
  have "bit (?a + ?b) 7 \<longleftrightarrow> bit ?a 7" by (rule bit_add_shifted) simp
  then show ?thesis by (simp add: e IS_SIZE_bit MASK_PAGE_SIZE_FLAG_def bit_simps)
qed

text \<open>Pages the host may still take: they are direct mapped, and no table yet.\<close>

definition pool_fresh :: "kernel_env \<Rightarrow> (u64 \<rightharpoonup> nat) \<Rightarrow> hb_memory_pool_struct \<Rightarrow> bool" where
  "pool_fresh env lev mp \<longleftrightarrow> pool_ok mp \<and> distinct (pool_stock mp) \<and>
     (\<forall>p \<in> set (pool_stock mp). direct_mapped env p \<and> lev p = None)"

lemma vm_check_alloc_new:
  assumes "pool_fresh env lev (pt_pool st)" "pool_stock (pt_pool st) = p # ps"
    and "pt_mem st t i = 0 \<or> IS_SIZE_FLAG_SET (pt_mem st t i)"
  shows "\<exists>mp. vm_check_alloc_page_table env t i st =
      Some (virt_to_phys env p, st\<lparr>pt_pool := mp, pt_mem := (pt_mem st)(p := \<lambda>_. 0)\<rparr>) \<and>
    pool_stock mp = ps \<and> direct_mapped env p \<and> lev p = None \<and> pool_fresh env (lev(p \<mapsto> n)) mp"
proof -
  obtain mp where mp: "hb_get_memory (pt_pool st) = Some (p, mp)" "pool_stock mp = ps" "pool_ok mp"
    using pool.get_next assms(1,2) unfolding pool_fresh_def by blast
  have "direct_mapped env p" "lev p = None" "pool_fresh env (lev(p \<mapsto> n)) mp"
    using assms(1,2) mp by (auto simp: pool_fresh_def)
  with mp assms(3) show ?thesis by (auto simp: vm_check_alloc_page_table_def direct_mapped_def)
qed

section \<open>The descent\<close>

primrec sync_tables ::
  "kernel_env \<Rightarrow> u64 \<Rightarrow> u64 \<Rightarrow> nat \<Rightarrow> u64 \<Rightarrow> u64 \<Rightarrow> u64 \<times> pt_state \<Rightarrow> (u64 \<times> pt_state) option" where
  "sync_tables env phy3 addr 0 init vm s =
     Some (fst s, snd s\<lparr>pt_mem := pt_store vm (pt_index 0 addr) (pt_mem (snd s) init (pt_index 0 addr)) (pt_mem (snd s))\<rparr>)"
| "sync_tables env phy3 addr (Suc n) init vm s =
     do { (d, s) \<leftarrow> sync_level env phy3 (level_size n) (pt_index (Suc n) addr) init vm s;
          case d of None \<Rightarrow> Some s | Some (init', vm') \<Rightarrow> sync_tables env phy3 addr n init' vm' s }"

definition sync_skips :: "kernel_env \<Rightarrow> u64 \<Rightarrow> ro_registry \<Rightarrow> u64 \<Rightarrow> u64 \<Rightarrow> int \<Rightarrow> pt_state \<Rightarrow> bool" where
  "sync_skips env page_offset_base reg addr cr3 sync_direct_mapping st \<longleftrightarrow>
     page_offset_base \<le> addr \<and> addr < page_offset_base + 64 * VAL_1TB \<and> sync_direct_mapping = 0 \<or>
     hb_is_addr_in_kernel_ro_area addr reg \<noteq> 0"

lemma hb_sync_page_table_eq:
  "hb_sync_page_table env page_offset_base reg addr cr3 sync_direct_mapping st =
     (let init = phys_to_virt env (GET_ADDR cr3); vm = phys_to_virt env (pt_host_phy_pml4 st);
          phy3 = pt_walk env (pt_mem st) 3 init addr
      in if sync_skips env page_offset_base reg addr cr3 sync_direct_mapping st \<or> \<not> IS_PRESENT phy3 \<or>
            GET_ADDR phy3 = GET_ADDR (pt_walk env (pt_mem st) 3 vm addr)
         then Some (0, st)
         else do { (r, st) \<leftarrow> sync_tables env phy3 addr 3 init vm (0, st);
                   Some (r, st\<lparr>pt_flushed := pt_flushed st @ [addr]\<rparr>) })"
proof -
  have idx: "unat (addr div VAL_512GB mod 512) = pt_index 3 addr" "unat (addr div VAL_1GB mod 512) = pt_index 2 addr"
      "unat (addr div VAL_2MB mod 512) = pt_index (Suc 0) addr" "unat (addr div VAL_4KB mod 512) = pt_index 0 addr"
    by (simp_all add: pt_index_def level_sizes)
  have three: "sync_tables env phy3 addr 3 i v s =
      do { (d, s) \<leftarrow> sync_level env phy3 VAL_1GB (pt_index 3 addr) i v s;
        case d of None \<Rightarrow> Some s | Some (i, v) \<Rightarrow> do {
          (d, s) \<leftarrow> sync_level env phy3 VAL_2MB (pt_index 2 addr) i v s;
          case d of None \<Rightarrow> Some s | Some (i, v) \<Rightarrow> do {
            (d, s) \<leftarrow> sync_level env phy3 VAL_4KB (pt_index (Suc 0) addr) i v s;
            case d of None \<Rightarrow> Some s | Some (i, v) \<Rightarrow> sync_tables env phy3 addr 0 i v s } } }" for phy3 i v s
    unfolding numeral_3_eq_3 numeral_2_eq_2 sync_tables.simps(2) level_sizes [unfolded numeral_3_eq_3 numeral_2_eq_2] ..
  show ?thesis
    unfolding hb_sync_page_table_def hb_get_phy_from_log_walk idx three sync_skips_def Let_def
    by (auto split: Option.bind_splits prod.splits option.splits)
qed


text \<open>What a step of the descent keeps: the tables of the host stay tables, new ones come from the pool, and
  memory changes in tables of the levels below \<open>n\<close> and in pages of the pool only.\<close>

definition sync_frame ::
  "kernel_env \<Rightarrow> nat \<Rightarrow> (u64 \<rightharpoonup> nat) \<Rightarrow> pt_state \<Rightarrow> (u64 \<rightharpoonup> nat) \<Rightarrow> pt_state \<Rightarrow> bool" where
  "sync_frame env n lev st lev' st' \<longleftrightarrow> tables_ok env lev' (pt_mem st') \<and> pool_fresh env lev' (pt_pool st') \<and>
     lev \<subseteq>\<^sub>m lev' \<and> (\<exists>j. pool_stock (pt_pool st') = drop j (pool_stock (pt_pool st)) \<and> j \<le> n) \<and>
     (\<forall>t. pt_mem st' t \<noteq> pt_mem st t \<longrightarrow> (\<exists>k \<le> n. lev t = Some k) \<or> t \<in> set (pool_stock (pt_pool st))) \<and>
     dom lev' \<subseteq> dom lev \<union> set (pool_stock (pt_pool st)) \<and> pt_host_phy_pml4 st' = pt_host_phy_pml4 st"

lemma sync_frame_trans:
  assumes "sync_frame env m lev st lev1 st1" "sync_frame env n lev1 st1 lev2 st2" "pool_fresh env lev (pt_pool st)"
    and "\<And>t. pt_mem st1 t \<noteq> pt_mem st t \<Longrightarrow> lev t = Some (Suc n) \<or> t \<in> set (pool_stock (pt_pool st))"
    and "\<exists>j. pool_stock (pt_pool st1) = drop j (pool_stock (pt_pool st)) \<and> j \<le> 1"
  shows "sync_frame env (Suc n) lev st lev2 st2"
proof -
  obtain i j where ij: "pool_stock (pt_pool st1) = drop i (pool_stock (pt_pool st))" "i \<le> 1"
      "pool_stock (pt_pool st2) = drop j (pool_stock (pt_pool st1))" "j \<le> n"
    using assms(2,5) unfolding sync_frame_def by blast
  have sub: "set (pool_stock (pt_pool st1)) \<subseteq> set (pool_stock (pt_pool st))" unfolding ij(1) by (rule set_drop_subset)
  have "\<exists>k. pool_stock (pt_pool st2) = drop k (pool_stock (pt_pool st)) \<and> k \<le> Suc n"
    using ij by (intro exI [of _ "j + i"]) auto
  moreover have "(\<exists>k \<le> Suc n. lev t = Some k) \<or> t \<in> set (pool_stock (pt_pool st))" if "pt_mem st2 t \<noteq> pt_mem st t" for t
  proof (cases "pt_mem st1 t = pt_mem st t")
    case True
    with that assms(2) consider k where "k \<le> n" "lev1 t = Some k" | "t \<in> set (pool_stock (pt_pool st1))"
      unfolding sync_frame_def by force
    then show ?thesis
    proof cases
      case 1
      with assms(1) have "t \<in> dom lev \<union> set (pool_stock (pt_pool st))" "lev \<subseteq>\<^sub>m lev1" unfolding sync_frame_def by blast+
      moreover have "lev t = Some k" if "t \<in> dom lev" "lev \<subseteq>\<^sub>m lev1" using that 1(2) by (simp add: map_le_def)
      ultimately show ?thesis using 1(1) le_SucI by blast
    qed (use sub in auto)
  qed (use assms(4) in auto)
  moreover have "lev \<subseteq>\<^sub>m lev2" using assms(1,2) map_le_trans unfolding sync_frame_def by blast
  moreover have "dom lev2 \<subseteq> dom lev \<union> set (pool_stock (pt_pool st))"
    using assms(1,2) sub unfolding sync_frame_def by blast
  ultimately show ?thesis using assms(1,2) unfolding sync_frame_def by simp
qed

text \<open>One level where both sides go on: the guest through the entry \<open>e\<close>, the host to its table \<open>vm'\<close>.\<close>

definition descended ::
  "kernel_env \<Rightarrow> nat \<Rightarrow> nat \<Rightarrow> u64 \<Rightarrow> (u64 \<rightharpoonup> nat) \<Rightarrow> pt_state \<Rightarrow> u64 \<Rightarrow> (u64 \<rightharpoonup> nat) \<Rightarrow> pt_state \<Rightarrow> bool" where
  "descended env n i vm lev st vm' lev' st' \<longleftrightarrow> sync_frame env (Suc n) lev st lev' st' \<and> lev' vm' = Some n \<and>
     (let v = pt_mem st' vm i in IS_PRESENT v \<and> \<not> IS_SIZE_FLAG_SET v \<and> phys_to_virt env (GET_ADDR v) = vm') \<and>
     (\<forall>t. pt_mem st' t \<noteq> pt_mem st t \<longrightarrow> t = vm \<or> t \<in> set (pool_stock (pt_pool st))) \<and>
     (\<exists>j. pool_stock (pt_pool st') = drop j (pool_stock (pt_pool st)) \<and> j \<le> 1)"

lemma descendedD:
  assumes "descended env n i vm lev st vm' lev' st'"
  shows "sync_frame env (Suc n) lev st lev' st'" "lev' vm' = Some n"
    and "IS_PRESENT (pt_mem st' vm i) \<and> \<not> IS_SIZE_FLAG_SET (pt_mem st' vm i) \<and> phys_to_virt env (GET_ADDR (pt_mem st' vm i)) = vm'"
    and "\<And>t. pt_mem st' t \<noteq> pt_mem st t \<Longrightarrow> t = vm \<or> t \<in> set (pool_stock (pt_pool st))"
    and "\<exists>j. pool_stock (pt_pool st') = drop j (pool_stock (pt_pool st)) \<and> j \<le> 1"
  using assms unfolding descended_def Let_def by blast+

lemma sync_level_descend:
  assumes ok: "tables_ok env lev (pt_mem st)" "pool_fresh env lev (pt_pool st)" "pool_stock (pt_pool st) \<noteq> []"
    and vm: "lev vm = Some (Suc n)" "n \<le> 2" and i: "i < 512"
    and e: "e = pt_mem st init i" "IS_PRESENT e" "\<not> IS_SIZE_FLAG_SET e"
    and sep: "lev init = None" "init \<notin> set (pool_stock (pt_pool st))"
  shows "\<exists>r vm' st' lev'. sync_level env phy3 (level_size n) i init vm (ev, st) =
      Some (Some (phys_to_virt env (GET_ADDR e), vm'), r, st') \<and> descended env n i vm lev st vm' lev' st'"
proof (cases "pt_mem st vm i = 0 \<or> IS_SIZE_FLAG_SET (pt_mem st vm i)")
  case False
  then have v: "IS_PRESENT (pt_mem st vm i)" "lev (phys_to_virt env (GET_ADDR (pt_mem st vm i))) = Some n"
    using tables_ok_cases [OF ok(1) vm(1) i] by blast+
  have "sync_frame env (Suc n) lev st lev st" using ok by (auto simp: sync_frame_def intro: exI [of _ 0])
  then have "descended env n i vm lev st (phys_to_virt env (GET_ADDR (pt_mem st vm i))) lev st"
    using v False by (auto simp: descended_def Let_def intro: exI [of _ 0])
  moreover have "sync_level env phy3 (level_size n) i init vm (ev, st) =
      Some (Some (phys_to_virt env (GET_ADDR e), phys_to_virt env (GET_ADDR (pt_mem st vm i))), ev, st)"
    using e False by (auto simp: sync_level_def vm_is_new_page_table_needed_def GET_ADDR_def dest: IS_PRESENT_nonzero)
  ultimately show ?thesis by blast
next
  case True
  obtain p ps where ps: "pool_stock (pt_pool st) = p # ps" using ok(3) by (cases "pool_stock (pt_pool st)") auto
  obtain mp where mp: "vm_check_alloc_page_table env vm i st =
        Some (virt_to_phys env p, st\<lparr>pt_pool := mp, pt_mem := (pt_mem st)(p := \<lambda>_. 0)\<rparr>)"
      "pool_stock mp = ps" "direct_mapped env p" "lev p = None" "pool_fresh env (lev(p \<mapsto> n)) mp"
    using vm_check_alloc_new [OF ok(2) ps True] by blast
  have ne: "p \<noteq> vm" "init \<noteq> p" "init \<noteq> vm" using mp(4) vm(1) sep ps by auto
  let ?v = "virt_to_phys env p OR (e AND MASK_PAGEFLAG)"
  note lk = linked_entry [OF mp(3) e(2,3)]
  define mem where "mem = pt_store vm i ?v ((pt_mem st)(p := \<lambda>j. if j < 512 then expanded phy3 (level_size n) j else 0))"
  define st' where "st' = st\<lparr>pt_pool := mp, pt_mem := mem\<rparr>"
  have "virt_to_phys env p AND NOT MASK_PAGEFLAG = virt_to_phys env p"
    using mp(3) GET_ADDR_page [of "virt_to_phys env p"] by (simp add: direct_mapped_def GET_ADDR_def)
  then have flag: "hb_sync_page_table_flag vm init i (virt_to_phys env p)
      (vm_expand_page_table_entry env (virt_to_phys env p) phy3 (level_size n) ((pt_mem st)(p := \<lambda>_. 0))) = mem"
    using ne e(1) by (simp add: hb_sync_page_table_flag_def vm_expand_eq [OF mp(3)] mem_def cong: if_cong)
  have mv: "mem vm i = ?v" using ne by (simp add: mem_def)
  have "vm_is_new_page_table_needed vm init i (pt_mem st) = 1" using True by (simp add: vm_is_new_page_table_needed_def)
  then have run: "sync_level env phy3 (level_size n) i init vm (ev, st) =
      Some (Some (phys_to_virt env (GET_ADDR e), p), if ev = 0 then level_size n else ev, st')"
    using IS_PRESENT_nonzero [OF e(2)] e(3) lk(4)
    by (simp add: sync_level_def mp(1) flag Let_def e(1) [symmetric] GET_ADDR_def [symmetric] mv st'_def)
  have "tables_ok env (lev(p \<mapsto> n)) mem" unfolding mem_def
    by (rule tables_ok_link [OF tables_ok_new [OF ok(1) mp(4)] lk(1)])
      (use lk(4) vm ne expanded_large [of n phy3] in auto)
  moreover have "lev \<subseteq>\<^sub>m lev(p \<mapsto> n)" using mp(4) by (auto simp: map_le_def)
  moreover have "mem t = pt_mem st t" if "t \<noteq> vm" "t \<noteq> p" for t using that by (simp add: mem_def)
  moreover have "\<exists>j. pool_stock mp = drop j (pool_stock (pt_pool st)) \<and> j \<le> Suc n"
    using mp(2) ps by (intro exI [of _ "Suc 0"]) simp
  moreover have "(\<exists>k \<le> Suc n. lev t = Some k) \<or> t \<in> set (pool_stock (pt_pool st))" if "mem t \<noteq> pt_mem st t" for t
    using that vm(1) ps by (cases "t = vm") (auto simp: mem_def split: if_splits)
  ultimately have "sync_frame env (Suc n) lev st (lev(p \<mapsto> n)) st'"
    using mp(5) ps unfolding sync_frame_def by (auto simp: st'_def)
  moreover have "\<forall>t. mem t \<noteq> pt_mem st t \<longrightarrow> t = vm \<or> t = p" by (simp add: mem_def)
  ultimately have "descended env n i vm lev st p (lev(p \<mapsto> n)) st'"
    using lk ps mp(2) mv unfolding descended_def by (auto simp: st'_def Let_def intro!: exI [of _ "Suc 0"])
  with run show ?thesis by blast
qed

lemma sync_tables_correct:
  assumes "tables_ok env lev (pt_mem st)" "pool_fresh env lev (pt_pool st)" "n \<le> length (pool_stock (pt_pool st))"
    and "lev vm = Some n" "n \<le> 3" "IS_PRESENT (pt_walk env (pt_mem st) n init addr)"
    and "\<forall>t \<in> walk_tables env (pt_mem st) n init addr. lev t = None \<and> t \<notin> set (pool_stock (pt_pool st))"
  shows "\<exists>r st' lev'. sync_tables env phy3 addr n init vm (ev, st) = Some (r, st') \<and> sync_frame env n lev st lev' st' \<and>
    pt_walk env (pt_mem st') n vm addr = pt_walk env (pt_mem st) n init addr"
  using assms
proof (induction n arbitrary: lev st init vm ev)
  case 0
  then have "sync_frame env 0 lev st lev
      (st\<lparr>pt_mem := pt_store vm (pt_index 0 addr) (pt_mem st init (pt_index 0 addr)) (pt_mem st)\<rparr>)"
    by (auto simp: sync_frame_def tables_ok_store_last intro: exI [of _ 0])
  then show ?case by (auto intro!: exI [of _ lev])
next
  case (Suc n)
  let ?i = "pt_index (Suc n) addr" let ?e = "pt_mem st init ?i"
  have pres: "IS_PRESENT ?e" using Suc.prems(6) by (auto simp: Let_def split: if_splits)
  have root: "lev init = None" "init \<notin> set (pool_stock (pt_pool st))" using Suc.prems(7) walk_tables_root by blast+
  show ?case
  proof (cases "IS_SIZE_FLAG_SET ?e")
    case True
    let ?st = "st\<lparr>pt_mem := pt_store vm ?i ?e (pt_mem st)\<rparr>"
    have "sync_frame env (Suc n) lev st lev ?st"
      using Suc.prems tables_ok_store_leaf True by (auto simp: sync_frame_def intro: exI [of _ 0])
    moreover have "sync_tables env phy3 addr (Suc n) init vm (ev, st) = Some (ev, ?st)"
      using True by (simp add: sync_level_def)
    ultimately show ?thesis using True by (auto simp: Let_def intro!: exI [of _ lev])
  next
    case False
    let ?init = "phys_to_virt env (GET_ADDR ?e)"
    have ne: "pool_stock (pt_pool st) \<noteq> []" "n \<le> 2" using Suc.prems(3,5) by auto
    obtain r vm' st1 lev1 where step: "sync_level env phy3 (level_size n) ?i init vm (ev, st) = Some (Some (?init, vm'), r, st1)"
        and d: "descended env n ?i vm lev st vm' lev1 st1"
      using sync_level_descend [OF Suc.prems(1,2) ne(1) Suc.prems(4) ne(2) pt_index_less refl pres False root] by blast
    note l = descendedD [OF d]
    have tabs: "walk_tables env (pt_mem st) (Suc n) init addr = insert init (walk_tables env (pt_mem st) n ?init addr)"
      using pres False by (simp add: Let_def)
    have same: "\<forall>t \<in> walk_tables env (pt_mem st) n ?init addr. pt_mem st1 t = pt_mem st t"
    proof
      fix t assume "t \<in> walk_tables env (pt_mem st) n ?init addr"
      then have "lev t = None" "t \<notin> set (pool_stock (pt_pool st))" using Suc.prems(7) unfolding tabs by blast+
      with l(4) Suc.prems(4) show "pt_mem st1 t = pt_mem st t" by (metis option.distinct(1))
    qed
    note cong = pt_walk_cong [OF same]
    have walk: "pt_walk env (pt_mem st) (Suc n) init addr = pt_walk env (pt_mem st1) n ?init addr"
      using pres False cong by (simp add: Let_def)
    have sub: "set (pool_stock (pt_pool st1)) \<subseteq> set (pool_stock (pt_pool st))" using l(5) set_drop_subset by metis
    have "\<exists>r' st' lev'. sync_tables env phy3 addr n ?init vm' (r, st1) = Some (r', st') \<and> sync_frame env n lev1 st1 lev' st' \<and>
        pt_walk env (pt_mem st') n vm' addr = pt_walk env (pt_mem st1) n ?init addr"
    proof (rule Suc.IH)
      show "tables_ok env lev1 (pt_mem st1)" "pool_fresh env lev1 (pt_pool st1)" using l(1) by (simp_all add: sync_frame_def)
      show "n \<le> length (pool_stock (pt_pool st1))" using l(5) Suc.prems(3) by auto
      show "lev1 vm' = Some n" "n \<le> 3" using l(2) Suc.prems(5) by simp_all
      show "IS_PRESENT (pt_walk env (pt_mem st1) n ?init addr)" using Suc.prems(6) walk by simp
      show "\<forall>t \<in> walk_tables env (pt_mem st1) n ?init addr. lev1 t = None \<and> t \<notin> set (pool_stock (pt_pool st1))"
        using Suc.prems(7) cong l(1) sub unfolding tabs sync_frame_def by blast
    qed
    then obtain r' st' lev' where s: "sync_tables env phy3 addr n ?init vm' (r, st1) = Some (r', st')"
        "sync_frame env n lev1 st1 lev' st'" "pt_walk env (pt_mem st') n vm' addr = pt_walk env (pt_mem st1) n ?init addr"
      by blast
    have lvm: "lev1 vm = Some (Suc n)" using l(1) Suc.prems(4) by (auto simp: sync_frame_def map_le_def dom_def)
    moreover have "lev1 t = None" if "t \<in> set (pool_stock (pt_pool st1))" for t
      using l(1) that by (auto simp: sync_frame_def pool_fresh_def)
    ultimately have "pt_mem st' vm = pt_mem st1 vm" using s(2) unfolding sync_frame_def by fastforce
    then have "pt_walk env (pt_mem st') (Suc n) vm addr = pt_walk env (pt_mem st) (Suc n) init addr"
      using l(3) s(3) walk by (simp add: Let_def)
    moreover have "sync_frame env (Suc n) lev st lev' st'"
      using sync_frame_trans [OF l(1) s(2) Suc.prems(2) _ l(5)] l(4) Suc.prems(4) by blast
    ultimately show ?thesis using step s(1) by auto
  qed
qed


section \<open>Synchronisation of the host\<close>

definition host_ok :: "kernel_env \<Rightarrow> (u64 \<rightharpoonup> nat) \<Rightarrow> pt_state \<Rightarrow> bool" where
  "host_ok env lev st \<longleftrightarrow> tables_ok env lev (pt_mem st) \<and> pool_fresh env lev (pt_pool st) \<and>
     lev (phys_to_virt env (pt_host_phy_pml4 st)) = Some 3"

definition separate :: "(u64 \<rightharpoonup> nat) \<Rightarrow> pt_state \<Rightarrow> u64 set \<Rightarrow> bool" where
  "separate lev st G \<longleftrightarrow> (\<forall>t \<in> G. lev t = None \<and> t \<notin> set (pool_stock (pt_pool st)))"

abbreviation guest_tables :: "kernel_env \<Rightarrow> pt_memory \<Rightarrow> u64 \<Rightarrow> u64 \<Rightarrow> u64 set" where
  "guest_tables env mem cr3 addr \<equiv> walk_tables env mem 3 (phys_to_virt env (GET_ADDR cr3)) addr"

lemma sync_frame_host:
  assumes "sync_frame env n lev st lev' st'" "host_ok env lev st"
  shows "host_ok env lev' st'" "\<And>t. lev t = None \<Longrightarrow> t \<notin> set (pool_stock (pt_pool st)) \<Longrightarrow> pt_mem st' t = pt_mem st t"
    and "separate lev st G \<Longrightarrow> separate lev' st' G"
proof -
  show "host_ok env lev' st'"
    using assms unfolding host_ok_def sync_frame_def by (auto simp: map_le_def dom_def)
  show "pt_mem st' t = pt_mem st t" if "lev t = None" "t \<notin> set (pool_stock (pt_pool st))" for t
    using assms(1) that unfolding sync_frame_def by force
  have "set (pool_stock (pt_pool st')) \<subseteq> set (pool_stock (pt_pool st))" "dom lev' \<subseteq> dom lev \<union> set (pool_stock (pt_pool st))"
    using assms(1) set_drop_subset unfolding sync_frame_def by metis+
  then show "separate lev' st' G" if "separate lev st G"
    using that unfolding separate_def by blast
qed

text \<open>A call that changes nothing is a step too.\<close>

lemma sync_frame_refl: "host_ok env lev st \<Longrightarrow> sync_frame env n lev st lev st"
  by (auto simp: host_ok_def sync_frame_def intro: exI [of _ 0])

lemma hb_sync_page_table_step:
  assumes "host_ok env lev st" "3 \<le> length (pool_stock (pt_pool st))" "separate lev st (guest_tables env (pt_mem st) cr3 addr)"
  defines "phy3 \<equiv> pt_walk env (pt_mem st) 3 (phys_to_virt env (GET_ADDR cr3)) addr"
    and "host \<equiv> phys_to_virt env (pt_host_phy_pml4 st)"
  shows "\<exists>r st' lev'. hb_sync_page_table env pob reg addr cr3 sdm st = Some (r, st') \<and> sync_frame env 3 lev st lev' st' \<and>
    (sync_skips env pob reg addr cr3 sdm st \<or> \<not> IS_PRESENT phy3 \<or> GET_ADDR phy3 = GET_ADDR (pt_walk env (pt_mem st) 3 host addr) \<longrightarrow>
       st' = st) \<and>
    (\<not> sync_skips env pob reg addr cr3 sdm st \<and> IS_PRESENT phy3 \<and> GET_ADDR phy3 \<noteq> GET_ADDR (pt_walk env (pt_mem st) 3 host addr) \<longrightarrow>
       pt_walk env (pt_mem st') 3 host addr = phy3)"
proof (cases "sync_skips env pob reg addr cr3 sdm st \<or> \<not> IS_PRESENT phy3 \<or>
    GET_ADDR phy3 = GET_ADDR (pt_walk env (pt_mem st) 3 host addr)")
  case True
  then have "hb_sync_page_table env pob reg addr cr3 sdm st = Some (0, st)"
    unfolding hb_sync_page_table_eq Let_def phy3_def host_def by (rule if_P)
  with True sync_frame_refl [OF assms(1)] show ?thesis by blast
next
  case False
  have "\<exists>r st' lev'. sync_tables env phy3 addr 3 (phys_to_virt env (GET_ADDR cr3)) host (0, st) = Some (r, st') \<and>
      sync_frame env 3 lev st lev' st' \<and> pt_walk env (pt_mem st') 3 host addr = phy3"
    unfolding phy3_def
    by (rule sync_tables_correct) (use assms False in \<open>auto simp: host_ok_def separate_def\<close>)
  then obtain r st' lev' where s: "sync_tables env phy3 addr 3 (phys_to_virt env (GET_ADDR cr3)) host (0, st) = Some (r, st')"
      "sync_frame env 3 lev st lev' st'" "pt_walk env (pt_mem st') 3 host addr = phy3" by blast
  have "hb_sync_page_table env pob reg addr cr3 sdm st = Some (r, st'\<lparr>pt_flushed := pt_flushed st' @ [addr]\<rparr>)"
    using False s(1) unfolding hb_sync_page_table_eq Let_def phy3_def host_def by simp
  moreover have "sync_frame env 3 lev st lev' (st'\<lparr>pt_flushed := pt_flushed st' @ [addr]\<rparr>)"
    using s(2) by (simp add: sync_frame_def)
  ultimately show ?thesis using s(3) False by (intro exI [of _ r] exI [of _ lev'] exI) auto
qed


text \<open>C14: When the guest maps an address, and the address is neither in the protected kernel text nor excluded as
  direct mapping, \<open>hb_sync_page_table\<close> returns and afterwards the walk over the tables of the host ends at the same frame
  as the walk over the tables of the guest; where the frames differed before, at the same entry with the same flags. The
  tables of the guest, and all other memory outside of the host's tables and the pool, are untouched.\<close>

theorem sync_page_table_agrees:
  assumes "host_ok env lev st" "3 \<le> length (pool_stock (pt_pool st))"
    and "separate lev st (guest_tables env (pt_mem st) cr3 addr)" "\<not> sync_skips env pob reg addr cr3 sdm st"
    and "phy3 = phy_entry (hb_get_phy_from_log env (GET_ADDR cr3) addr (pt_mem st))" "IS_PRESENT phy3"
  shows "\<exists>r st'. hb_sync_page_table env pob reg addr cr3 sdm st = Some (r, st') \<and>
    (\<exists>host3. host3 = phy_entry (hb_get_phy_from_log env (pt_host_phy_pml4 st') addr (pt_mem st')) \<and>
       GET_ADDR host3 = GET_ADDR phy3 \<and> (st' \<noteq> st \<longrightarrow> host3 = phy3)) \<and>
    phy_entry (hb_get_phy_from_log env (GET_ADDR cr3) addr (pt_mem st')) = phy3 \<and>
    (\<forall>t. lev t = None \<longrightarrow> t \<notin> set (pool_stock (pt_pool st)) \<longrightarrow> pt_mem st' t = pt_mem st t)"
proof -
  have p3: "phy3 = pt_walk env (pt_mem st) 3 (phys_to_virt env (GET_ADDR cr3)) addr"
    using assms(5) by (simp only: hb_get_phy_from_log_walk)
  obtain r st' lev' where s: "hb_sync_page_table env pob reg addr cr3 sdm st = Some (r, st')" "sync_frame env 3 lev st lev' st'"
      "GET_ADDR phy3 = GET_ADDR (pt_walk env (pt_mem st) 3 (phys_to_virt env (pt_host_phy_pml4 st)) addr) \<longrightarrow> st' = st"
      "GET_ADDR phy3 \<noteq> GET_ADDR (pt_walk env (pt_mem st) 3 (phys_to_virt env (pt_host_phy_pml4 st)) addr) \<longrightarrow>
         pt_walk env (pt_mem st') 3 (phys_to_virt env (pt_host_phy_pml4 st)) addr = phy3"
    using hb_sync_page_table_step [OF assms(1-3), of pob reg sdm] assms(4,6) unfolding p3 [symmetric] by blast
  note frame = sync_frame_host(2) [OF s(2) assms(1)]
  have "pt_host_phy_pml4 st' = pt_host_phy_pml4 st" using s(2) by (simp add: sync_frame_def)
  moreover have "pt_walk env (pt_mem st') 3 (phys_to_virt env (GET_ADDR cr3)) addr = phy3"
    unfolding p3 using pt_walk_cong frame assms(3) unfolding separate_def by blast
  ultimately show ?thesis
    using s(1,3,4) frame unfolding hb_get_phy_from_log_walk by (intro exI [of _ r] exI [of _ st']) auto
qed

text \<open>A guest that maps its first page to the frame at 0x5000 through tables at 0x10000, and an empty host with a
  pool of three pages.\<close>

definition sample_pt :: pt_state where
  "sample_pt = \<lparr>pt_mem = (\<lambda>_ _. 0)(0x10000 := (\<lambda>_. 0)(0 := 0x11063), 0x11000 := (\<lambda>_. 0)(0 := 0x12063),
       0x12000 := (\<lambda>_. 0)(0 := 0x13063), 0x13000 := (\<lambda>_. 0)(0 := 0x5063)),
     pt_pool = \<lparr>mp_max_count = 3, mp_pop_index = 0, mp_pool = (0x90000, [0x20000, 0x21000, 0x22000])\<rparr>,
     pt_flushed = [], pt_init_phy_pml4 = 0x10000, pt_host_phy_pml4 = 0x1000\<rparr>"

lemma sample_pt_ok:
  "host_ok sample_env [0x1000 \<mapsto> 3] sample_pt" "pool_stock (pt_pool sample_pt) = [0x20000, 0x21000, 0x22000]"
proof -
  have id: "virt_to_phys sample_env a = a" "phys_to_virt sample_env a = a" for a by (simp_all add: sample_env_def)
  show st: "pool_stock (pt_pool sample_pt) = [0x20000, 0x21000, 0x22000]"
    by (simp add: sample_pt_def pool_stock_def)
  have "tables_ok sample_env [0x1000 \<mapsto> 3] (pt_mem sample_pt)"
    by (auto simp: tables_ok_def sample_pt_def split: if_splits)
  moreover have "pool_ok (pt_pool sample_pt)" by (simp add: sample_pt_def pool_ok_def)
  ultimately show "host_ok sample_env [0x1000 \<mapsto> 3] sample_pt"
    by (simp add: host_ok_def pool_fresh_def st direct_mapped_def id page_aligned_iff) (simp add: sample_pt_def)
qed

lemma sample_pt_walk:
  "pt_walk sample_env (pt_mem sample_pt) 3 (phys_to_virt sample_env (GET_ADDR 0x10000)) 8 = 0x5063"
  "guest_tables sample_env (pt_mem sample_pt) 0x10000 8 = {0x10000, 0x11000, 0x12000, 0x13000}"
proof -
  have id: "phys_to_virt sample_env a = a" for a by (simp add: sample_env_def)
  have idx: "pt_index 0 8 = 0" "pt_index (Suc 0) 8 = 0" "pt_index (Suc (Suc 0)) 8 = 0" "pt_index (Suc (Suc (Suc 0))) 8 = 0"
    by (simp_all add: pt_index_def level_size_def)
  have w: "GET_ADDR 0x10000 = 0x10000" "GET_ADDR 0x11063 = 0x11000" "GET_ADDR 0x12063 = 0x12000" "GET_ADDR 0x13063 = 0x13000"
    "IS_PRESENT 0x11063" "IS_PRESENT 0x12063" "IS_PRESENT 0x13063"
    "\<not> IS_SIZE_FLAG_SET 0x11063" "\<not> IS_SIZE_FLAG_SET 0x12063" "\<not> IS_SIZE_FLAG_SET 0x13063"
    by (simp_all add: GET_ADDR_def IS_PRESENT_def IS_SIZE_FLAG_SET_def hb_consts)
  show "pt_walk sample_env (pt_mem sample_pt) 3 (phys_to_virt sample_env (GET_ADDR 0x10000)) 8 = 0x5063"
    "guest_tables sample_env (pt_mem sample_pt) 0x10000 8 = {0x10000, 0x11000, 0x12000, 0x13000}"
    by (simp_all add: numeral_3_eq_3 idx id w sample_pt_def)
qed

theorem sync_page_table_agrees_witness:
  "\<exists>r st'. hb_sync_page_table sample_env 0xFFFF888000000000 ro_init 8 0x10000 1 sample_pt = Some (r, st') \<and>
     GET_ADDR (phy_entry (hb_get_phy_from_log sample_env (pt_host_phy_pml4 st') 8 (pt_mem st'))) = 0x5000"
proof -
  have "\<not> sync_skips sample_env 0xFFFF888000000000 ro_init 8 0x10000 1 sample_pt"
    by (simp add: sync_skips_def ro_init_def hb_is_addr_in_kernel_ro_area_def)
  moreover have "IS_PRESENT 0x5063" "GET_ADDR 0x5063 = 0x5000" by (simp_all add: IS_PRESENT_def GET_ADDR_def hb_consts)
  moreover have "separate [0x1000 \<mapsto> 3] sample_pt (guest_tables sample_env (pt_mem sample_pt) 0x10000 8)"
    unfolding sample_pt_walk by (simp add: separate_def sample_pt_ok)
  moreover have "0x5063 = phy_entry (hb_get_phy_from_log sample_env (GET_ADDR 0x10000) 8 (pt_mem sample_pt))"
    by (simp only: hb_get_phy_from_log_walk sample_pt_walk)
  moreover have "3 \<le> length (pool_stock (pt_pool sample_pt))" by (simp add: sample_pt_ok)
  ultimately show ?thesis using sync_page_table_agrees [OF sample_pt_ok(1)] by metis
qed


text \<open>The requests of the handlers, one after the other.\<close>

definition sync_requests ::
  "kernel_env \<Rightarrow> u64 \<Rightarrow> ro_registry \<Rightarrow> (u64 \<times> u64 \<times> int) list \<Rightarrow> pt_state \<Rightarrow> pt_state option" where
  "sync_requests env pob reg reqs st =
     foldo (\<lambda>(addr, cr3, sdm) st. map_option snd (hb_sync_page_table env pob reg addr cr3 sdm st)) reqs st"

text \<open>C15: The tables of the host are well typed for ever: starting from tables in which every entry is empty, a large
  page, or a present link to a table of the next level, any sequence of requests that the pool can serve (three pages each)
  runs to its end, keeps the level of every table and the typing of every entry, and writes to no table of the guest.\<close>

theorem host_tables_typed:
  assumes "host_ok env lev st" "3 * length reqs \<le> length (pool_stock (pt_pool st))" "separate lev st G"
    and "\<forall>(addr, cr3, sdm) \<in> set reqs. guest_tables env (pt_mem st) cr3 addr \<subseteq> G"
  shows "\<exists>st' lev'. sync_requests env pob reg reqs st = Some st' \<and> host_ok env lev' st' \<and> lev \<subseteq>\<^sub>m lev' \<and>
    (\<forall>t \<in> G. pt_mem st' t = pt_mem st t)"
  using assms
proof (induction reqs arbitrary: lev st)
  case Nil
  then show ?case by (auto simp: sync_requests_def intro: map_le_refl)
next
  case (Cons q reqs)
  obtain addr cr3 sdm where q: "q = (addr, cr3, sdm)" by (cases q) auto
  have sep: "separate lev st (guest_tables env (pt_mem st) cr3 addr)"
    using Cons.prems(3,4) unfolding q separate_def by auto
  obtain r st1 lev1 where s: "hb_sync_page_table env pob reg addr cr3 sdm st = Some (r, st1)" "sync_frame env 3 lev st lev1 st1"
    using hb_sync_page_table_step [OF Cons.prems(1) _ sep, of pob reg sdm] Cons.prems(2) by auto
  note h = sync_frame_host [OF s(2) Cons.prems(1)]
  have G: "pt_mem st1 t = pt_mem st t" if "t \<in> G" for t using h(2) Cons.prems(3) that unfolding separate_def by blast
  have "\<forall>(addr, cr3, sdm) \<in> set reqs. guest_tables env (pt_mem st1) cr3 addr \<subseteq> G"
  proof safe
    fix addr cr3 sdm t assume req: "(addr, cr3, sdm) \<in> set reqs" and t: "t \<in> guest_tables env (pt_mem st1) cr3 addr"
    then have sub: "guest_tables env (pt_mem st) cr3 addr \<subseteq> G" using Cons.prems(4) by force
    then have "guest_tables env (pt_mem st1) cr3 addr = guest_tables env (pt_mem st) cr3 addr"
      using pt_walk_cong [of env "pt_mem st" 3 _ addr "pt_mem st1"] G by blast
    with t sub show "t \<in> G" by blast
  qed
  moreover have "3 * length reqs \<le> length (pool_stock (pt_pool st1))"
    using s(2) Cons.prems(2) unfolding sync_frame_def by auto
  ultimately obtain st' lev' where s': "sync_requests env pob reg reqs st1 = Some st'" "host_ok env lev' st'" "lev1 \<subseteq>\<^sub>m lev'"
      "\<forall>t \<in> G. pt_mem st' t = pt_mem st1 t"
    using Cons.IH [OF h(1) _ h(3) [OF Cons.prems(3)]] by blast
  moreover have "lev \<subseteq>\<^sub>m lev1" using s(2) by (simp add: sync_frame_def)
  ultimately show ?case
    using s(1) G map_le_trans by (auto simp: sync_requests_def q intro!: exI [of _ lev'])
qed

theorem host_tables_typed_witness:
  "\<exists>st' lev'. sync_requests sample_env 0xFFFF888000000000 ro_init [(8, 0x10000, 1)] sample_pt = Some st' \<and>
     host_ok sample_env lev' st' \<and> lev' 0x1000 = Some 3"
proof -
  have "separate [0x1000 \<mapsto> 3] sample_pt {0x10000, 0x11000, 0x12000, 0x13000}" by (simp add: separate_def sample_pt_ok)
  moreover have "3 * length [(8 :: u64, 0x10000 :: u64, 1 :: int)] \<le> length (pool_stock (pt_pool sample_pt))"
    by (simp add: sample_pt_ok)
  moreover have "\<forall>(addr, cr3, sdm) \<in> set [(8, 0x10000, 1 :: int)]. guest_tables sample_env (pt_mem sample_pt) cr3 addr \<subseteq>
      {0x10000, 0x11000, 0x12000, 0x13000}" using sample_pt_walk(2) by simp
  ultimately obtain st' lev' where "sync_requests sample_env 0xFFFF888000000000 ro_init [(8, 0x10000, 1)] sample_pt = Some st'"
      "host_ok sample_env lev' st'" "[0x1000 \<mapsto> 3] \<subseteq>\<^sub>m lev'"
    using host_tables_typed [OF sample_pt_ok(1)] by blast
  moreover from this(3) have "lev' 0x1000 = Some 3" by (simp add: map_le_def)
  ultimately show ?thesis by blast
qed

text \<open>The comparison that ends the call early does not ask whether the host maps the address at all: an address that
  the guest maps to the frame 0 is never synchronised to a host that does not map it.\<close>

lemma sync_misses_frame_zero:
  assumes "GET_ADDR (pt_walk env (pt_mem st) 3 (phys_to_virt env (GET_ADDR cr3)) addr) = 0"
    and "pt_walk env (pt_mem st) 3 (phys_to_virt env (pt_host_phy_pml4 st)) addr = 0"
  shows "hb_sync_page_table env pob reg addr cr3 sdm st = Some (0, st)"
  using assms by (simp add: hb_sync_page_table_eq GET_ADDR_def)

text \<open>A new last-level table is filled with consecutive frames counted from the frame of the synchronised address itself,
  not from the one that the first page of its 2MB region has: at every other index the host then maps a frame that the guest
  did not ask for.\<close>

lemma expansion_counts_from_target:
  assumes "direct_mapped env p" "i < 512"
  shows "vm_expand_page_table_entry env (virt_to_phys env p) phy3 VAL_4KB mem p i =
    (phy3 AND NOT MASK_PAGE_SIZE_FLAG) + of_nat i * VAL_4KB"
  using assms by (simp add: vm_expand_eq expanded_def)

end
