(* ===== verification/Page_Dup.thy ===== *)
theory Page_Dup
  imports Page_Table
begin

text \<open>
  The first tables of the host (hypervisor.c, \<open>hb_dup_page_table_for_host\<close>): a copy of the kernel's tables down to
  the last level, in pages of its own that are hidden from the guest.
\<close>

section \<open>The copy\<close>

record host_setup =
  hs_mem :: pt_memory
  hs_ept :: ept_state
  hs_heap :: kheap
  g_vm_init_phy_pml4 :: u64
  hs_host_phy_pml4 :: u64

definition INIT_LEVEL4_PGT :: string where "INIT_LEVEL4_PGT = ''init_top_pgt''"
definition PGD_ALLOCATION_ORDER :: nat where [hb_consts]: "PGD_ALLOCATION_ORDER = 1"

text \<open>One entry of a table above the last level; \<open>inner\<close> is the loop over the table behind it. The page comes zeroed
  (\<open>__GFP_ZERO\<close>); nobody checks the pointer, so a failed allocation ends in an access through the null pointer.\<close>

definition dup_entry ::
  "kernel_env \<Rightarrow> (u64 \<Rightarrow> u64 \<Rightarrow> host_setup \<Rightarrow> host_setup option) \<Rightarrow> u64 \<Rightarrow> u64 \<Rightarrow> nat \<Rightarrow> host_setup \<Rightarrow> host_setup option" where
  "dup_entry env inner org vm i st =
     (let e = hs_mem st org i in
      if e = 0 \<or> IS_SIZE_FLAG_SET e then Some (st\<lparr>hs_mem := pt_store vm i e (hs_mem st)\<rparr>)
      else let (p, h) = kh_get_free_page env (hs_heap st) in
        if p = 0 then None
        else do {
          ept' \<leftarrow> hb_hide_range env p (p + PAGE_SIZE) ALLOC_KMALLOC (hs_ept st);
          let v = virt_to_phys env p OR (e AND MASK_PAGEFLAG);
          inner (phys_to_virt env (e AND NOT MASK_PAGEFLAG)) (phys_to_virt env (v AND NOT MASK_PAGEFLAG))
            (st\<lparr>hs_mem := pt_store vm i v ((hs_mem st)(p := \<lambda>_. 0)), hs_ept := ept', hs_heap := h\<rparr>)
        })"

definition dup_pte :: "u64 \<Rightarrow> u64 \<Rightarrow> host_setup \<Rightarrow> host_setup option" where
  "dup_pte org vm st =
     Some (st\<lparr>hs_mem := (hs_mem st)(vm := \<lambda>i. if i < 512 then hs_mem st org i else hs_mem st vm i)\<rparr>)"

definition dup_pdept :: "kernel_env \<Rightarrow> u64 \<Rightarrow> u64 \<Rightarrow> host_setup \<Rightarrow> host_setup option" where
  "dup_pdept env org vm st = foldo (dup_entry env dup_pte org vm) [0..<512] st"

definition dup_pdpte_pd :: "kernel_env \<Rightarrow> u64 \<Rightarrow> u64 \<Rightarrow> host_setup \<Rightarrow> host_setup option" where
  "dup_pdpte_pd env org vm st = foldo (dup_entry env (dup_pdept env) org vm) [0..<512] st"

definition dup_pml4 :: "kernel_env \<Rightarrow> u64 \<Rightarrow> u64 \<Rightarrow> host_setup \<Rightarrow> host_setup option" where
  "dup_pml4 env org vm st = foldo (dup_entry env (dup_pdpte_pd env) org vm) [0..<512] st"

definition hb_dup_page_table_for_host :: "kernel_env \<Rightarrow> int \<Rightarrow> host_setup \<Rightarrow> host_setup option" where
  "hb_dup_page_table_for_host env reinitialize st =
     (if reinitialize \<noteq> 0 then Some st
      else do {
        org_pml4 \<leftarrow> hb_get_symbol_address env INIT_LEVEL4_PGT;
        swapper_mm \<leftarrow> hb_get_symbol_address env ''init_mm'';
        let (vm_pml4, h) = kh_get_free_page env (hs_heap st);
        if vm_pml4 = 0 then None
        else do {
          ept' \<leftarrow> hb_hide_range env vm_pml4 (vm_pml4 + PAGE_SIZE * push_bit PGD_ALLOCATION_ORDER 1) ALLOC_KMALLOC (hs_ept st);
          dup_pml4 env org_pml4 vm_pml4
            (st\<lparr>hs_mem := (hs_mem st)(vm_pml4 := \<lambda>_. 0), hs_ept := ept', hs_heap := h,
               g_vm_init_phy_pml4 := virt_to_phys env org_pml4, hs_host_phy_pml4 := virt_to_phys env vm_pml4\<rparr>)
        }
      })"

section \<open>The copy by levels\<close>

primrec dup_tables :: "kernel_env \<Rightarrow> nat \<Rightarrow> u64 \<Rightarrow> u64 \<Rightarrow> host_setup \<Rightarrow> host_setup option" where
  "dup_tables env 0 = dup_pte"
| "dup_tables env (Suc n) = (\<lambda>org vm st. foldo (dup_entry env (dup_tables env n) org vm) [0..<512] st)"

lemma dup_pml4_tables: "dup_pml4 env = dup_tables env 3"
proof -
  have "dup_pdept env = dup_tables env (Suc 0)" by (intro ext) (simp add: dup_pdept_def)
  moreover from this have "dup_pdpte_pd env = dup_tables env (Suc (Suc 0))" by (intro ext) (simp add: dup_pdpte_pd_def)
  ultimately show ?thesis by (intro ext) (simp add: dup_pml4_def numeral_3_eq_3)
qed

text \<open>The original: tables in \<open>G\<close>, whose entries are empty, large pages or links to further ones; and the number of
  tables behind it.\<close>

abbreviation leaf_entry_pt :: "u64 \<Rightarrow> bool" where
  "leaf_entry_pt e \<equiv> e = 0 \<or> IS_SIZE_FLAG_SET e"

primrec tree_ok :: "kernel_env \<Rightarrow> pt_memory \<Rightarrow> u64 set \<Rightarrow> nat \<Rightarrow> u64 \<Rightarrow> bool" where
  "tree_ok env mem G 0 t \<longleftrightarrow> t \<in> G"
| "tree_ok env mem G (Suc n) t \<longleftrightarrow> t \<in> G \<and> (\<forall>i < 512. leaf_entry_pt (mem t i) \<or>
     IS_PRESENT (mem t i) \<and> tree_ok env mem G n (phys_to_virt env (GET_ADDR (mem t i))))"

primrec pt_count :: "kernel_env \<Rightarrow> pt_memory \<Rightarrow> nat \<Rightarrow> u64 \<Rightarrow> nat" where
  "pt_count env mem 0 t = 0"
| "pt_count env mem (Suc n) t = (\<Sum>i < 512. if leaf_entry_pt (mem t i) then 0
     else Suc (pt_count env mem n (phys_to_virt env (GET_ADDR (mem t i)))))"

lemma tree_cong:
  "tree_ok env mem G n t \<Longrightarrow> \<forall>t' \<in> G. mem' t' = mem t' \<Longrightarrow>
     tree_ok env mem' G n t \<and> pt_count env mem' n t = pt_count env mem n t \<and>
     (\<forall>addr. pt_walk env mem' n t addr = pt_walk env mem n t addr)"
proof (induction n arbitrary: t)
  case (Suc n)
  then have t: "mem' t = mem t" by simp
  let ?c = "\<lambda>i. phys_to_virt env (GET_ADDR (mem t i))"
  have ch: "tree_ok env mem' G n (?c i) \<and> pt_count env mem' n (?c i) = pt_count env mem n (?c i) \<and>
      (\<forall>addr. pt_walk env mem' n (?c i) addr = pt_walk env mem n (?c i) addr)"
    if "i < 512" "\<not> leaf_entry_pt (mem t i)" for i
    using Suc that by auto
  have "pt_walk env mem' (Suc n) t addr = pt_walk env mem (Suc n) t addr" for addr
    using ch [OF pt_index_less, of "Suc n" addr] t IS_PRESENT_nonzero by (auto simp: Let_def)
  moreover have "pt_count env mem' (Suc n) t = pt_count env mem (Suc n) t"
    using ch by (auto simp: t intro!: sum.cong)
  ultimately show ?case using Suc.prems ch t by auto
qed simp


section \<open>Steps of the copy\<close>

text \<open>The next \<open>k\<close> pages of the allocator.\<close>

abbreviation next_pages :: "kernel_env \<Rightarrow> host_setup \<Rightarrow> nat \<Rightarrow> u64 list" where
  "next_pages env st k \<equiv> pages_from env (kh_page_calls (hs_heap st)) k"

text \<open>A step that takes \<open>k\<close> pages, makes them tables and hides them, and otherwise writes to the tables in \<open>X\<close> only.\<close>

definition dup_ext ::
  "kernel_env \<Rightarrow> u64 set \<Rightarrow> nat \<Rightarrow> (u64 \<rightharpoonup> nat) \<Rightarrow> host_setup \<Rightarrow> (u64 \<rightharpoonup> nat) \<Rightarrow> host_setup \<Rightarrow> bool" where
  "dup_ext env X k lev st lev' st' \<longleftrightarrow> tables_ok env lev' (hs_mem st') \<and> lev \<subseteq>\<^sub>m lev' \<and>
     dom lev' \<subseteq> dom lev \<union> set (next_pages env st k) \<and>
     kh_page_calls (hs_heap st') = kh_page_calls (hs_heap st) + k \<and>
     (\<forall>t. hs_mem st' t \<noteq> hs_mem st t \<longrightarrow> t \<in> X \<union> set (next_pages env st k)) \<and>
     hides env (hs_ept st) (hs_ept st') (page_frames env (next_pages env st k)) \<and>
     g_vm_init_phy_pml4 st' = g_vm_init_phy_pml4 st \<and> hs_host_phy_pml4 st' = hs_host_phy_pml4 st"

lemma pages_from_add: "pages_from env c (j + k) = pages_from env c j @ pages_from env (c + j) k"
  using upt_add_eq_append [of c "c + j" k] by (simp add: add.assoc)

lemma page_frames_append: "page_frames env (xs @ ys) = page_frames env xs \<union> page_frames env ys"
  by (auto simp: page_frames_def)

lemma dup_ext_trans:
  assumes "dup_ext env X j lev st lev1 st1" "dup_ext env Y k lev1 st1 lev2 st2" "Y \<subseteq> X \<union> set (next_pages env st j)"
  shows "dup_ext env X (j + k) lev st lev2 st2"
proof -
  have c: "kh_page_calls (hs_heap st1) = kh_page_calls (hs_heap st) + j" using assms(1) by (simp add: dup_ext_def)
  have P: "next_pages env st (j + k) = next_pages env st j @ next_pages env st1 k"
    unfolding c by (rule pages_from_add)
  have "lev \<subseteq>\<^sub>m lev2" using assms(1,2) map_le_trans unfolding dup_ext_def by blast
  moreover have "dom lev2 \<subseteq> dom lev \<union> set (next_pages env st (j + k))"
    using assms(1,2) unfolding P set_append dup_ext_def by blast
  moreover have "hides env (hs_ept st) (hs_ept st2) (page_frames env (next_pages env st (j + k)))"
    unfolding P page_frames_append using assms(1,2) hides_trans unfolding dup_ext_def by blast
  moreover have "t \<in> X \<union> set (next_pages env st (j + k))" if "hs_mem st2 t \<noteq> hs_mem st t" for t
  proof (cases "hs_mem st1 t = hs_mem st t")
    case True
    with that assms(2) have "t \<in> Y \<union> set (next_pages env st1 k)" unfolding dup_ext_def by metis
    then show ?thesis using assms(3) unfolding P by auto
  next
    case False
    with assms(1) have "t \<in> X \<union> set (next_pages env st j)" unfolding dup_ext_def by metis
    then show ?thesis unfolding P by auto
  qed
  ultimately show ?thesis using assms(1,2) by (simp add: dup_ext_def)
qed

text \<open>What the copy needs of the next \<open>N\<close> pages: they exist, are no tables yet, and lie under EPT control.\<close>

definition dup_supply :: "kernel_env \<Rightarrow> nat \<Rightarrow> (u64 \<rightharpoonup> nat) \<Rightarrow> u64 set \<Rightarrow> host_setup \<Rightarrow> bool" where
  "dup_supply env N lev G st \<longleftrightarrow> ept_wf env (hs_ept st) \<and>
     (\<forall>p \<in> set (next_pages env st N). p \<noteq> 0 \<and> lev p = None \<and> p \<notin> G \<and> ept_covered (hs_ept st) (virt_to_phys env p)) \<and>
     (\<forall>t \<in> G. lev t = None)"

lemma dup_supply_ext:
  assumes "fresh_pages env" "dup_ext env X k lev st lev' st'" "dup_supply env (k + N) lev G st"
  shows "dup_supply env N lev' G st'"
proof -
  have c: "kh_page_calls (hs_heap st') = kh_page_calls (hs_heap st) + k" using assms(2) by (simp add: dup_ext_def)
  have P: "next_pages env st (k + N) = next_pages env st k @ next_pages env st' N"
    unfolding c by (rule pages_from_add)
  have "ept_covered (hs_ept st') a \<longleftrightarrow> ept_covered (hs_ept st) a" for a
    using assms(2) by (simp add: dup_ext_def hides_def ept_covered_def ept_nd_def)
  moreover have nz: "0 \<notin> set (next_pages env st (k + N))" using assms(3) unfolding dup_supply_def by blast
  have "set (next_pages env st k) \<inter> set (next_pages env st' N) = {}"
    using pages_from_distinct [OF assms(1) nz] unfolding P distinct_append by blast
  ultimately show ?thesis
    using assms(2,3) unfolding dup_supply_def dup_ext_def P set_append hides_def by blast
qed

text \<open>Linking a new page.\<close>

lemma dup_alloc:
  assumes "fresh_pages env" "tables_ok env lev (hs_mem st)" "dup_supply env (Suc N) lev G st"
    and vm: "lev vm = Some (Suc n)" and e: "e = hs_mem st org i" "IS_PRESENT e" "\<not> IS_SIZE_FLAG_SET e"
  shows "\<exists>p st1. dup_entry env inner org vm i st = inner (phys_to_virt env (GET_ADDR e)) p st1 \<and>
    dup_ext env {vm} 1 lev st (lev(p \<mapsto> n)) st1 \<and> next_pages env st 1 = [p] \<and>
    hs_mem st1 = pt_store vm i (virt_to_phys env p OR (e AND MASK_PAGEFLAG)) ((hs_mem st)(p := \<lambda>_. 0)) \<and>
    p \<noteq> vm \<and> lev p = None \<and> direct_mapped env p"
proof -
  let ?p = "get_free_page env (kh_page_calls (hs_heap st))"
  have mem: "?p \<in> set (next_pages env st (Suc N))" by (simp add: upt_conv_Cons del: upt_Suc)
  then have p: "?p \<noteq> 0" "lev ?p = None" "ept_covered (hs_ept st) (virt_to_phys env ?p)" "ept_wf env (hs_ept st)"
    using assms(3) unfolding dup_supply_def by blast+
  then have dm: "direct_mapped env ?p" using assms(1) by (simp add: fresh_pages_def)
  have "VAL_4KB = PAGE_SIZE" by (simp add: hb_consts)
  then obtain e1 where e1: "hb_hide_range env ?p (?p + PAGE_SIZE) ALLOC_KMALLOC (hs_ept st) = Some e1"
      "hides env (hs_ept st) e1 (page_frames env [?p])" using hide_new_page [OF dm p(3,4)] by auto
  note lk = linked_entry [OF dm e(2,3)]
  have ne: "?p \<noteq> vm" using p(2) vm by auto
  let ?mem = "pt_store vm i (virt_to_phys env ?p OR (e AND MASK_PAGEFLAG)) ((hs_mem st)(?p := \<lambda>_. 0))"
  define st1 where "st1 = st\<lparr>hs_mem := ?mem, hs_ept := e1,
    hs_heap := hs_heap st\<lparr>kh_page_calls := Suc (kh_page_calls (hs_heap st))\<rparr>\<rparr>"
  have "tables_ok env (lev(?p \<mapsto> n)) ?mem"
    by (rule tables_ok_link [OF tables_ok_new [OF assms(2) p(2)] lk(1)]) (use lk(4) vm ne in auto)
  moreover have "lev \<subseteq>\<^sub>m lev(?p \<mapsto> n)" using p(2) by (auto simp: map_le_def)
  ultimately have "dup_ext env {vm} 1 lev st (lev(?p \<mapsto> n)) st1"
    using e1(2) unfolding dup_ext_def by (auto simp: st1_def)
  moreover have "dup_entry env inner org vm i st = inner (phys_to_virt env (GET_ADDR e)) ?p st1"
    using e IS_PRESENT_nonzero [OF e(2)] p(1) e1(1) lk(4)
    by (simp add: dup_entry_def kh_get_free_page_def st1_def Let_def GET_ADDR_def)
  moreover have "hs_mem st1 = ?mem" by (simp add: st1_def)
  ultimately show ?thesis using ne p(2) dm by auto
qed


section \<open>The loop over a table\<close>

abbreviation pt_child :: "kernel_env \<Rightarrow> u64 \<Rightarrow> u64" where
  "pt_child env e \<equiv> phys_to_virt env (GET_ADDR e)"

text \<open>The number of pages that the first \<open>i\<close> entries take.\<close>

definition dup_count :: "kernel_env \<Rightarrow> pt_memory \<Rightarrow> nat \<Rightarrow> u64 \<Rightarrow> nat \<Rightarrow> nat" where
  "dup_count env mem n org i =
     (\<Sum>j < i. if leaf_entry_pt (mem org j) then 0 else Suc (pt_count env mem n (pt_child env (mem org j))))"

text \<open>Entry \<open>j\<close> is copied: \<open>mem\<close> is the memory at the start, \<open>mem'\<close> the one now.\<close>

definition copied ::
  "kernel_env \<Rightarrow> nat \<Rightarrow> (u64 \<rightharpoonup> nat) \<Rightarrow> pt_memory \<Rightarrow> u64 \<Rightarrow> pt_memory \<Rightarrow> u64 \<Rightarrow> nat \<Rightarrow> bool" where
  "copied env n lev mem org mem' vm j \<longleftrightarrow>
     (if leaf_entry_pt (mem org j) then mem' vm j = mem org j
      else IS_PRESENT (mem' vm j) \<and> \<not> IS_SIZE_FLAG_SET (mem' vm j) \<and> lev (pt_child env (mem' vm j)) = Some n \<and>
        (\<forall>addr. pt_walk env mem' n (pt_child env (mem' vm j)) addr = pt_walk env mem n (pt_child env (mem org j)) addr))"

lemma copied_walk:
  assumes "tree_ok env mem G (Suc n) org" "\<And>j. j < 512 \<Longrightarrow> copied env n lev mem org mem' vm j"
  shows "pt_walk env mem' (Suc n) vm addr = pt_walk env mem (Suc n) org addr"
proof -
  let ?i = "pt_index (Suc n) addr"
  have "leaf_entry_pt (mem org ?i) \<or> IS_PRESENT (mem org ?i)" using assms(1) pt_index_less by auto
  then show ?thesis using assms(2) [OF pt_index_less, of "Suc n" addr]
    by (auto simp: copied_def Let_def split: if_splits)
qed

lemma copied_keep:
  assumes "copied env n lev mem org mem1 vm j" "tables_ok env lev mem1" "lev \<subseteq>\<^sub>m lev2" "mem2 vm j = mem1 vm j"
    and "\<And>t k. k \<le> n \<Longrightarrow> lev t = Some k \<Longrightarrow> mem2 t = mem1 t"
  shows "copied env n lev2 mem org mem2 vm j"
proof (cases "leaf_entry_pt (mem org j)")
  case False
  then have l: "lev (pt_child env (mem1 vm j)) = Some n" using assms(1) by (auto simp: copied_def)
  from l assms(3) have "lev2 (pt_child env (mem1 vm j)) = Some n" by (auto simp: map_le_def dom_def)
  with host_walk_cong [OF assms(2) l assms(5)] assms(1,4) False show ?thesis by (simp add: copied_def)
qed (use assms(1,4) in \<open>simp add: copied_def\<close>)

definition dup_inv ::
  "kernel_env \<Rightarrow> nat \<Rightarrow> u64 \<Rightarrow> u64 \<Rightarrow> (u64 \<rightharpoonup> nat) \<Rightarrow> host_setup \<Rightarrow> nat \<Rightarrow> (u64 \<rightharpoonup> nat) \<Rightarrow> host_setup \<Rightarrow> bool" where
  "dup_inv env n org vm lev0 st0 i lev st \<longleftrightarrow>
     dup_ext env {vm} (dup_count env (hs_mem st0) n org i) lev0 st0 lev st \<and>
     (\<forall>j < i. copied env n lev (hs_mem st0) org (hs_mem st) vm j) \<and> (\<forall>j. i \<le> j \<longrightarrow> j < 512 \<longrightarrow> hs_mem st vm j = 0)"

text \<open>What the copy of one table promises.\<close>

definition dup_correct :: "kernel_env \<Rightarrow> nat \<Rightarrow> bool" where
  "dup_correct env n \<longleftrightarrow>
     (\<forall>lev st G org vm. tables_ok env lev (hs_mem st) \<longrightarrow> lev vm = Some n \<longrightarrow>
        (\<forall>i < 512. hs_mem st vm i = 0) \<longrightarrow> tree_ok env (hs_mem st) G n org \<longrightarrow>
        dup_supply env (pt_count env (hs_mem st) n org) lev G st \<longrightarrow>
        (\<exists>lev' st'. dup_tables env n org vm st = Some st' \<and>
           dup_ext env {vm} (pt_count env (hs_mem st) n org) lev st lev' st' \<and>
           (\<forall>addr. pt_walk env (hs_mem st') n vm addr = pt_walk env (hs_mem st) n org addr)))"

lemma dup_ext_tables:
  assumes "dup_ext env X k lev st lev' st'" "dup_supply env N lev G st" "k \<le> N"
  shows "\<forall>t \<in> G - X. hs_mem st' t = hs_mem st t"
proof -
  have "set (next_pages env st k) \<subseteq> set (next_pages env st N)" using assms(3) by auto
  then show ?thesis using assms(1,2) unfolding dup_ext_def dup_supply_def by blast
qed

lemma dup_correct_0: "dup_correct env 0"
  unfolding dup_correct_def
proof (intro allI impI)
  fix lev st G org vm
  assume a: "tables_ok env lev (hs_mem st)" "lev vm = Some 0"
    and s: "dup_supply env (pt_count env (hs_mem st) 0 org) lev G st"
  let ?mem = "(hs_mem st)(vm := \<lambda>i. if i < 512 then hs_mem st org i else hs_mem st vm i)"
  have "tables_ok env lev ?mem" using a unfolding tables_ok_def by auto
  then have "dup_ext env {vm} 0 lev st lev (st\<lparr>hs_mem := ?mem\<rparr>)"
    using s by (auto simp: dup_ext_def dup_supply_def hides_refl page_frames_def)
  then show "\<exists>lev' st'. dup_tables env 0 org vm st = Some st' \<and>
      dup_ext env {vm} (pt_count env (hs_mem st) 0 org) lev st lev' st' \<and>
      (\<forall>addr. pt_walk env (hs_mem st') 0 vm addr = pt_walk env (hs_mem st) 0 org addr)"
    using pt_index_less by (auto simp: dup_pte_def intro!: exI [of _ lev])
qed


lemma dup_supply_mono: "dup_supply env N lev G st \<Longrightarrow> M \<le> N \<Longrightarrow> dup_supply env M lev G st"
  unfolding dup_supply_def by auto

lemma dup_count_Suc:
  "dup_count env mem n org (Suc i) = dup_count env mem n org i +
     (if leaf_entry_pt (mem org i) then 0 else Suc (pt_count env mem n (pt_child env (mem org i))))"
  by (simp add: dup_count_def)

lemma dup_count_mono: "i \<le> k \<Longrightarrow> dup_count env mem n org i \<le> dup_count env mem n org k"
  unfolding dup_count_def by (rule sum_mono2) auto

text \<open>A leaf entry is copied as it is.\<close>

lemma dup_entry_leaf:
  assumes inv: "dup_inv env n org vm lev0 st0 i lev st" and vm: "lev vm = Some (Suc n)"
    and org: "hs_mem st org i = hs_mem st0 org i" "leaf_entry_pt (hs_mem st0 org i)"
  shows "\<exists>st'. dup_entry env inner org vm i st = Some st' \<and> dup_inv env n org vm lev0 st0 (Suc i) lev st'"
proof -
  let ?st = "st\<lparr>hs_mem := pt_store vm i (hs_mem st0 org i) (hs_mem st)\<rparr>"
  have ext: "dup_ext env {vm} (dup_count env (hs_mem st0) n org i) lev0 st0 lev st" using inv by (simp add: dup_inv_def)
  then have ok: "tables_ok env lev (hs_mem st)" "ept_wf env (hs_ept st)" by (simp_all add: dup_ext_def hides_def)
  then have "dup_ext env {vm} 0 lev st lev ?st"
    using org(2) tables_ok_store_leaf by (auto simp: dup_ext_def hides_refl page_frames_def)
  from dup_ext_trans [OF ext this] have "dup_ext env {vm} (dup_count env (hs_mem st0) n org (Suc i)) lev0 st0 lev ?st"
    using org(2) by (auto simp: dup_count_Suc)
  moreover have "copied env n lev (hs_mem st0) org (hs_mem ?st) vm j" if "j < Suc i" for j
  proof (cases "j = i")
    case True
    then show ?thesis using org(2) by (simp add: copied_def)
  next
    case False
    then have c: "copied env n lev (hs_mem st0) org (hs_mem st) vm j" using inv that by (simp add: dup_inv_def)
    show ?thesis by (rule copied_keep [OF c ok(1) map_le_refl]) (use False vm in auto)
  qed
  moreover have "dup_entry env inner org vm i st = Some ?st" using org by (auto simp: dup_entry_def)
  ultimately show ?thesis using inv by (auto simp: dup_inv_def)
qed

lemma dup_entry_link:
  assumes fresh: "fresh_pages env" and IH: "dup_correct env n" and inv: "dup_inv env n org vm lev0 st0 i lev st"
    and vm: "lev vm = Some (Suc n)" and same: "\<forall>t \<in> G. hs_mem st t = hs_mem st0 t"
    and e: "e = hs_mem st0 org i" "org \<in> G" "\<not> leaf_entry_pt e" "IS_PRESENT e" "tree_ok env (hs_mem st0) G n (pt_child env e)"
    and sup: "dup_supply env (Suc (pt_count env (hs_mem st0) n (pt_child env e))) lev G st"
  shows "\<exists>lev' st'. dup_entry env (dup_tables env n) org vm i st = Some st' \<and> dup_inv env n org vm lev0 st0 (Suc i) lev' st'"
proof -
  let ?m0 = "hs_mem st0" and ?k = "pt_count env (hs_mem st0) n (pt_child env e)"
  have ext: "dup_ext env {vm} (dup_count env ?m0 n org i) lev0 st0 lev st" using inv by (simp add: dup_inv_def)
  then have ok: "tables_ok env lev (hs_mem st)" by (simp add: dup_ext_def)
  have e': "e = hs_mem st org i" "\<not> IS_SIZE_FLAG_SET e" using e same by auto
  obtain p st1 where a: "dup_entry env (dup_tables env n) org vm i st = dup_tables env n (pt_child env e) p st1"
      "dup_ext env {vm} 1 lev st (lev(p \<mapsto> n)) st1" "next_pages env st 1 = [p]"
      "hs_mem st1 = pt_store vm i (virt_to_phys env p OR (e AND MASK_PAGEFLAG)) ((hs_mem st)(p := \<lambda>_. 0))"
      "p \<noteq> vm" "lev p = None" "direct_mapped env p"
    using dup_alloc [OF fresh ok sup vm e'(1) e(4) e'(2), of "dup_tables env n"] by (elim exE conjE) (rule that)
  note lk = linked_entry [OF a(7) e(4) e'(2)]
  have sup1: "dup_supply env ?k (lev(p \<mapsto> n)) G st1"
    using dup_supply_ext [OF fresh a(2)] sup by simp
  have vmG: "vm \<notin> G" "p \<notin> G" using vm sup a(3) unfolding dup_supply_def by (auto simp: upt_conv_Cons simp del: upt_Suc)
  then have G1: "\<forall>t \<in> G. hs_mem st1 t = ?m0 t" using same a(4) by auto
  note tr = tree_cong [OF e(5) G1]
  obtain lev' st' where s: "dup_tables env n (pt_child env e) p st1 = Some st'" "dup_ext env {p} ?k (lev(p \<mapsto> n)) st1 lev' st'"
      "\<forall>addr. pt_walk env (hs_mem st') n p addr = pt_walk env (hs_mem st1) n (pt_child env e) addr"
  proof -
    have "tables_ok env (lev(p \<mapsto> n)) (hs_mem st1)" using a(2) by (simp add: dup_ext_def)
    moreover have "\<forall>i < 512. hs_mem st1 p i = 0" using a(4,5) by simp
    ultimately show ?thesis using IH tr sup1 that unfolding dup_correct_def by (metis fun_upd_same)
  qed
  have e2: "dup_ext env {vm} (Suc ?k) lev st lev' st'" using dup_ext_trans [OF a(2) s(2)] a(3) by simp
  have "dup_ext env {vm} (dup_count env ?m0 n org (Suc i)) lev0 st0 lev' st'"
    using dup_ext_trans [OF ext e2] e(1,3) by (simp add: dup_count_Suc)
  moreover have new: "hs_mem st' t = hs_mem st1 t" if "t = vm \<or> lev t \<noteq> None" for t
  proof -
    have "t \<noteq> p" using that a(5,6) by auto
    moreover have "t \<notin> set (next_pages env st1 ?k)" using that sup1 vm a(5,6) unfolding dup_supply_def by (metis fun_upd_apply option.distinct(1))
    ultimately show ?thesis using s(2) unfolding dup_ext_def by blast
  qed
  moreover have "copied env n lev' ?m0 org (hs_mem st') vm j" if "j < Suc i" for j
  proof (cases "j = i")
    case True
    have "lev' p = Some n" using s(2) by (auto simp: dup_ext_def map_le_def)
    moreover have "hs_mem st' vm i = virt_to_phys env p OR (e AND MASK_PAGEFLAG)" using new [of vm] a(4,5) by simp
    ultimately show ?thesis using True e(1,3) lk s(3) tr by (simp add: copied_def)
  next
    case False
    then have c: "copied env n lev ?m0 org (hs_mem st) vm j" using inv that by (simp add: dup_inv_def)
    show ?thesis
    proof (rule copied_keep [OF c ok])
      show "lev \<subseteq>\<^sub>m lev'" using e2 by (simp add: dup_ext_def)
      show "hs_mem st' vm j = hs_mem st vm j" using new [of vm] a(4,5) False by simp
      show "hs_mem st' t = hs_mem st t" if "k \<le> n" "lev t = Some k" for t k
        using that new [of t] a(4,6) vm by auto
    qed
  qed
  moreover have "hs_mem st' vm j = 0" if "Suc i \<le> j" "j < 512" for j
    using new [of vm] a(4,5) inv that by (simp add: dup_inv_def)
  ultimately show ?thesis using a(1) s(1) by (auto simp: dup_inv_def)
qed


lemma dup_correct_Suc:
  assumes fresh: "fresh_pages env" and IH: "dup_correct env n"
  shows "dup_correct env (Suc n)"
  unfolding dup_correct_def
proof (intro allI impI)
  fix lev0 st0 G org vm
  assume ok: "tables_ok env lev0 (hs_mem st0)" "lev0 vm = Some (Suc n)" "\<forall>i < 512. hs_mem st0 vm i = 0"
    and tree: "tree_ok env (hs_mem st0) G (Suc n) org"
    and sup: "dup_supply env (pt_count env (hs_mem st0) (Suc n) org) lev0 G st0"
  let ?m0 = "hs_mem st0"
  have cnt: "pt_count env ?m0 (Suc n) org = dup_count env ?m0 n org 512" by (simp add: dup_count_def)
  have "\<exists>st. foldo (dup_entry env (dup_tables env n) org vm) [0..<512] st0 = Some st \<and> (\<exists>lev. dup_inv env n org vm lev0 st0 512 lev st)"
  proof (rule foldo_upt_total)
    have "dup_ext env {vm} 0 lev0 st0 lev0 st0"
      using ok sup by (auto simp: dup_ext_def dup_supply_def hides_refl page_frames_def)
    then show "\<exists>lev. dup_inv env n org vm lev0 st0 0 lev st0"
      using ok by (auto simp: dup_inv_def dup_count_def)
    fix i st assume i: "i < 512" and "\<exists>lev. dup_inv env n org vm lev0 st0 i lev st"
    then obtain lev where inv: "dup_inv env n org vm lev0 st0 i lev st" by blast
    then have ext: "dup_ext env {vm} (dup_count env ?m0 n org i) lev0 st0 lev st" by (simp add: dup_inv_def)
    have vm: "lev vm = Some (Suc n)" using ext ok(2) by (auto simp: dup_ext_def map_le_def dom_def)
    have le: "dup_count env ?m0 n org i \<le> dup_count env ?m0 n org 512" using i by (intro dup_count_mono) simp
    have "vm \<notin> G" using sup ok(2) by (auto simp: dup_supply_def)
    then have same: "\<forall>t \<in> G. hs_mem st t = ?m0 t"
      using dup_ext_tables [OF ext sup [unfolded cnt] le] by auto
    have org: "org \<in> G" using tree by simp
    show "\<exists>s'. dup_entry env (dup_tables env n) org vm i st = Some s' \<and> (\<exists>lev. dup_inv env n org vm lev0 st0 (Suc i) lev s')"
    proof (cases "leaf_entry_pt (?m0 org i)")
      case True
      then show ?thesis using dup_entry_leaf [OF inv vm] same org by metis
    next
      case False
      then have e: "IS_PRESENT (?m0 org i)" "tree_ok env ?m0 G n (pt_child env (?m0 org i))" using tree i by auto
      have "dup_count env ?m0 n org (Suc i) \<le> dup_count env ?m0 n org 512" using i by (intro dup_count_mono) simp
      then have "dup_supply env (dup_count env ?m0 n org i + Suc (pt_count env ?m0 n (pt_child env (?m0 org i)))) lev0 G st0"
        using dup_supply_mono [OF sup [unfolded cnt]] False by (simp add: dup_count_Suc)
      from dup_supply_ext [OF fresh ext this] show ?thesis
        using dup_entry_link [OF fresh IH inv vm same refl org False e] by metis
    qed
  qed
  then obtain lev st where st: "foldo (dup_entry env (dup_tables env n) org vm) [0..<512] st0 = Some st"
      "dup_inv env n org vm lev0 st0 512 lev st" by blast
  have "pt_walk env (hs_mem st) (Suc n) vm addr = pt_walk env ?m0 (Suc n) org addr" for addr
    using copied_walk [OF tree] st(2) unfolding dup_inv_def by blast
  moreover have "dup_ext env {vm} (pt_count env ?m0 (Suc n) org) lev0 st0 lev st"
    using st(2) unfolding cnt by (simp add: dup_inv_def)
  moreover have "dup_tables env (Suc n) org vm st0 = Some st" using st(1) by simp
  ultimately show "\<exists>lev' st'. dup_tables env (Suc n) org vm st0 = Some st' \<and>
      dup_ext env {vm} (pt_count env ?m0 (Suc n) org) lev0 st0 lev' st' \<and>
      (\<forall>addr. pt_walk env (hs_mem st') (Suc n) vm addr = pt_walk env ?m0 (Suc n) org addr)" by blast
qed

lemma dup_tables_correct: "fresh_pages env \<Longrightarrow> dup_correct env n"
  by (induction n) (simp_all add: dup_correct_0 dup_correct_Suc)


section \<open>The host starts on a faithful copy\<close>

text \<open>The block of the top table has two pages, all of it under EPT control.\<close>

abbreviation pgd_end :: "u64 \<Rightarrow> u64" where
  "pgd_end p \<equiv> p + PAGE_SIZE * push_bit PGD_ALLOCATION_ORDER 1"

definition pgd_block :: "kernel_env \<Rightarrow> ept_state \<Rightarrow> u64 \<Rightarrow> bool" where
  "pgd_block env e p \<longleftrightarrow> unat p + 16384 \<le> 2 ^ 64 \<and> range_covered env e p (pgd_end p) ALLOC_KMALLOC"

lemma pgd_block_page:
  assumes "direct_mapped env p" "pgd_block env e p"
  shows "page_of (virt_to_phys env p) \<in> range_frames env p (pgd_end p) ALLOC_KMALLOC"
proof -
  have b: "page_base p = p" using page_base_within [of p 0] assms(1) by (simp add: direct_mapped_def)
  have e: "pgd_end p = p + 8192" by (simp add: hb_consts)
  have "unat p + 16384 \<le> 2 ^ 64" using assms(2) by (simp add: pgd_block_def)
  then have u: "unat (p + 8192) = unat p + 8192" by (simp add: unat_word_ariths)
  have "p < pgd_end p" "unat (pgd_end p) + 4095 < 2 ^ 64"
    using \<open>unat p + 16384 \<le> 2 ^ 64\<close> unfolding e by (simp_all add: word_less_nat_alt u)
  from page_phys_in_frames [OF order.refl this, of env ALLOC_KMALLOC] show ?thesis by (simp add: b page_phys_def)
qed

lemma covered_48: "ept_wf env e \<Longrightarrow> ept_covered e a \<Longrightarrow> unat a < 2 ^ 48"
proof -
  assume wf: "ept_wf env e" and c: "ept_covered e a"
  have "ept_nd e * 512 \<le> 2 ^ 36" using wf by (auto simp: ept_wf_def ept_pages_ok_def)
  with c show ?thesis by (simp add: ept_covered_def page_of_def)
qed

lemma rest_supply:
  assumes "fresh_pages env" "\<forall>q \<in> set (get_free_page env c # pages_from env (Suc c) k). q \<noteq> 0 \<and> q \<notin> G \<and> ept_covered e (virt_to_phys env q)"
    and "hides env e e1 F"
  shows "\<forall>q \<in> set (pages_from env (Suc c) k). q \<noteq> 0 \<and> q \<noteq> get_free_page env c \<and> q \<notin> G \<and> ept_covered e1 (virt_to_phys env q)"
proof -
  have P: "pages_from env c (Suc k) = get_free_page env c # pages_from env (Suc c) k" by (simp add: upt_conv_Cons del: upt_Suc)
  have "0 \<notin> set (pages_from env c (Suc k))" unfolding P using assms(2) by metis
  from pages_from_distinct [OF assms(1) this] have "get_free_page env c \<notin> set (pages_from env (Suc c) k)" unfolding P by simp
  moreover have "ept_covered e1 a \<longleftrightarrow> ept_covered e a" for a
    using assms(3) by (simp add: hides_def ept_covered_def ept_nd_def)
  ultimately show ?thesis using assms(2) by (metis list.set_intros(2))
qed

text \<open>The frames that the copy hides contain those of all tables of the host.\<close>

lemma copy_hidden:
  assumes wf: "ept_wf env e" and dm: "direct_mapped env p" and pgd: "pgd_block env e p"
    and cov: "\<forall>q \<in> set (p # qs). q \<noteq> 0 \<and> q \<notin> G \<and> ept_covered e (virt_to_phys env q)"
    and hid: "hides env e e' (range_frames env p (pgd_end p) ALLOC_KMALLOC \<union> page_frames env qs)"
    and t: "t \<in> set (p # qs)"
  shows "guest_translate env e' (virt_to_phys env t) = None"
proof -
  have "unat (virt_to_phys env t) < 2 ^ 48" "t \<noteq> 0" using covered_48 [OF wf] cov t by blast+
  moreover have "page_of (virt_to_phys env t) \<in> range_frames env p (pgd_end p) ALLOC_KMALLOC \<union> page_frames env qs"
  proof (cases "t = p")
    case True
    then show ?thesis using pgd_block_page [OF dm pgd] by blast
  next
    case False
    then have "t \<in> set qs - {0}" using t \<open>t \<noteq> 0\<close> by auto
    then show ?thesis unfolding page_frames_def by blast
  qed
  ultimately show ?thesis using hid by (simp add: hides_def)
qed

text \<open>C13: With enough memory the first start returns from \<open>hb_dup_page_table_for_host\<close> with tables of the host
  that are well typed, that translate every address to exactly the entry that the kernel's tables have for it, and whose pages the
  guest cannot access; the tables of the kernel are not changed. The pages it takes are one for the top table and one for every table
  behind it.\<close>

theorem host_tables_copied:
  assumes "fresh_pages env" "hb_get_symbol_address env INIT_LEVEL4_PGT = Some org" "hb_get_symbol_address env ''init_mm'' = Some mm"
    and "tree_ok env (hs_mem st) G 3 org" "dup_supply env (Suc (pt_count env (hs_mem st) 3 org)) Map.empty G st"
    and "pgd_block env (hs_ept st) (get_free_page env (kh_page_calls (hs_heap st)))"
  shows "\<exists>st' lev. hb_dup_page_table_for_host env 0 st = Some st' \<and> tables_ok env lev (hs_mem st') \<and>
    lev (phys_to_virt env (hs_host_phy_pml4 st')) = Some 3 \<and>
    (\<forall>addr. phy_entry (hb_get_phy_from_log env (hs_host_phy_pml4 st') addr (hs_mem st')) = pt_walk env (hs_mem st) 3 org addr) \<and>
    (\<forall>t \<in> dom lev. guest_translate env (hs_ept st') (virt_to_phys env t) = None) \<and> (\<forall>t \<in> G. hs_mem st' t = hs_mem st t) \<and>
    kh_page_calls (hs_heap st') = kh_page_calls (hs_heap st) + Suc (pt_count env (hs_mem st) 3 org)"
proof -
  let ?c = "kh_page_calls (hs_heap st)" and ?k = "pt_count env (hs_mem st) 3 org"
  let ?p = "get_free_page env (kh_page_calls (hs_heap st))"
  have P: "next_pages env st (Suc ?k) = ?p # pages_from env (Suc ?c) ?k" by (simp add: upt_conv_Cons del: upt_Suc)
  have sup: "ept_wf env (hs_ept st)" "\<forall>q \<in> set (next_pages env st (Suc ?k)). q \<noteq> 0 \<and> q \<notin> G \<and> ept_covered (hs_ept st) (virt_to_phys env q)"
    using assms(5) by (simp_all add: dup_supply_def)
  then have p: "?p \<noteq> 0" "?p \<notin> G" unfolding P by auto
  then have dm: "direct_mapped env ?p" using assms(1) by (simp add: fresh_pages_def)
  obtain e1 where e1: "hb_hide_range env ?p (pgd_end ?p) ALLOC_KMALLOC (hs_ept st) = Some e1"
      "hides env (hs_ept st) e1 (range_frames env ?p (pgd_end ?p) ALLOC_KMALLOC)"
    using hide_range_hides [OF sup(1)] assms(6) unfolding pgd_block_def by blast
  define st1 where "st1 = st\<lparr>hs_mem := (hs_mem st)(?p := \<lambda>_. 0), hs_ept := e1, hs_heap := hs_heap st\<lparr>kh_page_calls := Suc ?c\<rparr>,
    g_vm_init_phy_pml4 := virt_to_phys env org, hs_host_phy_pml4 := virt_to_phys env ?p\<rparr>"
  have G1: "\<forall>t \<in> G. hs_mem st1 t = hs_mem st t" using p by (auto simp: st1_def)
  note tr = tree_cong [OF assms(4) G1]
  have n1: "next_pages env st1 ?k = pages_from env (Suc ?c) ?k" by (simp add: st1_def)
  have "dup_supply env ?k [?p \<mapsto> 3] G st1"
    using rest_supply [OF assms(1) sup(2) [unfolded P] e1(2)] p(2) e1(2)
    unfolding dup_supply_def n1 by (auto simp: st1_def hides_def)
  moreover have "tables_ok env [?p \<mapsto> 3] (hs_mem st1)" by (auto simp: tables_ok_def st1_def split: if_splits)
  moreover have "\<forall>i < 512. hs_mem st1 ?p i = 0" by (simp add: st1_def)
  ultimately obtain lev st' where s: "dup_tables env 3 org ?p st1 = Some st'" "dup_ext env {?p} ?k [?p \<mapsto> 3] st1 lev st'"
      "\<forall>addr. pt_walk env (hs_mem st') 3 ?p addr = pt_walk env (hs_mem st1) 3 org addr"
    using dup_tables_correct [OF assms(1), of 3] tr unfolding dup_correct_def by (metis fun_upd_same)
  have run: "hb_dup_page_table_for_host env 0 st = Some st'"
    using assms(2,3) p(1) e1(1) s(1) by (simp add: hb_dup_page_table_for_host_def kh_get_free_page_def dup_pml4_tables st1_def)
  have host: "phys_to_virt env (hs_host_phy_pml4 st') = ?p" using s(2) dm by (simp add: dup_ext_def st1_def direct_mapped_def)
  have hid: "hides env (hs_ept st) (hs_ept st')
      (range_frames env ?p (pgd_end ?p) ALLOC_KMALLOC \<union> page_frames env (pages_from env (Suc ?c) ?k))"
    using hides_trans [OF e1(2)] s(2) unfolding dup_ext_def n1 by (simp add: st1_def)
  have "guest_translate env (hs_ept st') (virt_to_phys env t) = None" if "t \<in> dom lev" for t
  proof (rule copy_hidden [OF sup(1) dm assms(6) sup(2) [unfolded P] hid])
    show "t \<in> set (?p # pages_from env (Suc ?c) ?k)" using that s(2) unfolding dup_ext_def n1 by auto
  qed
  moreover have "hs_mem st' t = hs_mem st t" if t: "t \<in> G" for t
  proof -
    have "t \<notin> set (next_pages env st1 ?k)" "t \<noteq> ?p" using t sup(2) unfolding P n1 by auto
    then have "hs_mem st' t = hs_mem st1 t" using s(2) unfolding dup_ext_def by blast
    with G1 t show ?thesis by simp
  qed
  moreover have "tables_ok env lev (hs_mem st')" "lev ?p = Some 3" "kh_page_calls (hs_heap st') = ?c + Suc ?k"
    using s(2) by (auto simp: dup_ext_def map_le_def st1_def)
  ultimately show ?thesis
    using run s(3) tr host unfolding hb_get_phy_from_log_walk by (intro exI [of _ st'] exI [of _ lev]) auto
qed


text \<open>A kernel with one mapped page: tables with a single entry each.\<close>

lemma single_entry_table:
  assumes "mem t = (\<lambda>_. 0)(0 := e)" "\<not> leaf_entry_pt e" "IS_PRESENT e"
  shows "pt_count env mem (Suc n) t = Suc (pt_count env mem n (pt_child env e))"
    and "tree_ok env mem G (Suc n) t \<longleftrightarrow> t \<in> G \<and> tree_ok env mem G n (pt_child env e)"
proof -
  have "pt_count env mem (Suc n) t = (\<Sum>i < (512 :: nat). if i = 0 then Suc (pt_count env mem n (pt_child env e)) else 0)"
    unfolding pt_count.simps by (rule sum.cong) (use assms in auto)
  then show "pt_count env mem (Suc n) t = Suc (pt_count env mem n (pt_child env e))" by simp
  show "tree_ok env mem G (Suc n) t \<longleftrightarrow> t \<in> G \<and> tree_ok env mem G n (pt_child env e)"
    using assms by auto
qed

definition sample_setup :: "ept_state \<Rightarrow> host_setup" where
  "sample_setup e = \<lparr>hs_mem = (\<lambda>_ _. 0)(0x100C000 := (\<lambda>_. 0)(0 := 0x11063), 0x11000 := (\<lambda>_. 0)(0 := 0x12063),
       0x12000 := (\<lambda>_. 0)(0 := 0x13063), 0x13000 := (\<lambda>_. 0)(0 := 0x5063)), hs_ept = e,
     hs_heap = kh_init\<lparr>kh_page_calls := 3078\<rparr>, g_vm_init_phy_pml4 = 0, hs_host_phy_pml4 = 0\<rparr>"

lemma sample_setup_tree:
  "pt_count sample_env (hs_mem (sample_setup e)) 3 0x100C000 = 3"
  "tree_ok sample_env (hs_mem (sample_setup e)) {0x100C000, 0x11000, 0x12000, 0x13000} 3 0x100C000"
proof -
  have id: "phys_to_virt sample_env a = a" for a by (simp add: sample_env_def)
  have w: "GET_ADDR 0x11063 = 0x11000" "GET_ADDR 0x12063 = 0x12000" "GET_ADDR 0x13063 = 0x13000"
    "IS_PRESENT 0x11063" "IS_PRESENT 0x12063" "IS_PRESENT 0x13063"
    "\<not> IS_SIZE_FLAG_SET 0x11063" "\<not> IS_SIZE_FLAG_SET 0x12063" "\<not> IS_SIZE_FLAG_SET 0x13063"
    by (simp_all add: GET_ADDR_def IS_PRESENT_def IS_SIZE_FLAG_SET_def hb_consts)
  have m: "hs_mem (sample_setup e) 0x100C000 = (\<lambda>_. 0)(0 := 0x11063)" "hs_mem (sample_setup e) 0x11000 = (\<lambda>_. 0)(0 := 0x12063)"
    "hs_mem (sample_setup e) 0x12000 = (\<lambda>_. 0)(0 := 0x13063)" by (simp_all add: sample_setup_def)
  note tabs = single_entry_table [where mem = "hs_mem (sample_setup e)", OF m(1)]
    single_entry_table [where mem = "hs_mem (sample_setup e)", OF m(2)] single_entry_table [where mem = "hs_mem (sample_setup e)", OF m(3)]
  show "pt_count sample_env (hs_mem (sample_setup e)) 3 0x100C000 = 3"
    "tree_ok sample_env (hs_mem (sample_setup e)) {0x100C000, 0x11000, 0x12000, 0x13000} 3 0x100C000"
    unfolding numeral_3_eq_3 by (simp_all add: tabs w id del: pt_count.simps(2) tree_ok.simps(2))
qed

theorem host_tables_copied_witness:
  "\<exists>e st'. hb_dup_page_table_for_host sample_env 0 (sample_setup e) = Some st' \<and>
     phy_entry (hb_get_phy_from_log sample_env (hs_host_phy_pml4 st') 0x800 (hs_mem st')) =
       pt_walk sample_env (hs_mem (sample_setup e)) 3 0x100C000 0x800"
proof -
  obtain e where e: "ept_wf sample_env e" "ept_nd e = 2560" using sample_state by blast
  have u: "unat (get_free_page sample_env n) = (n + 1) * 4096" if "n < 4000" for n using sample_page [of n] that by simp
  have id: "virt_to_phys sample_env a = a" for a by (simp add: sample_env_def)
  have sym: "hb_get_symbol_address sample_env INIT_LEVEL4_PGT = Some 0x100C000"
    "\<exists>mm. hb_get_symbol_address sample_env ''init_mm'' = Some mm"
    by (simp_all add: hb_get_symbol_address_def sample_env_def INIT_LEVEL4_PGT_def)
  have "q \<noteq> 0 \<and> q \<notin> {0x100C000, 0x11000, 0x12000, 0x13000} \<and> ept_covered e (virt_to_phys sample_env q)"
    if mem: "q \<in> set (next_pages sample_env (sample_setup e) (Suc 3))" for q
  proof -
    obtain n where n: "q = get_free_page sample_env n" "3078 \<le> n" "n < 3082" using mem unfolding set_map set_upt by (auto simp: sample_setup_def)
    then have q: "unat q = (n + 1) * 4096" using u by simp
    then have "unat q \<notin> unat ` {0, 0x100C000, 0x11000, 0x12000, 0x13000 :: u64}" using n by auto
    then have "q \<notin> {0, 0x100C000, 0x11000, 0x12000, 0x13000}" by blast
    moreover have "page_of q < 2560 * 512" using q n(3) by (simp add: page_of_def)
    ultimately show ?thesis using e(2) by (simp add: ept_covered_def id)
  qed
  then have "dup_supply sample_env (Suc 3) Map.empty {0x100C000, 0x11000, 0x12000, 0x13000} (sample_setup e)"
    using e(1) unfolding dup_supply_def by (simp add: sample_setup_def)
  moreover have pgd: "pgd_block sample_env (hs_ept (sample_setup e)) (get_free_page sample_env (kh_page_calls (hs_heap (sample_setup e))))"
  proof -
    have p: "get_free_page sample_env (kh_page_calls (hs_heap (sample_setup e))) = 0xC07000" "hs_ept (sample_setup e) = e"
      by (simp_all add: sample_env_def sample_setup_def)
    have "range_phys sample_env 0xC07000 (pgd_end 0xC07000) ALLOC_KMALLOC = [0xC07000, 0xC08000]"
      by (simp add: range_phys_def range_pages_def align_end_def page_of_def page_phys_def id hb_consts upt_rec)
    then show ?thesis using e(2) unfolding p pgd_block_def
      by (simp add: range_covered_def ept_covered_def page_of_def)
  qed
  moreover obtain mm where "hb_get_symbol_address sample_env ''init_mm'' = Some mm" using sym(2) by blast
  ultimately show ?thesis
    using host_tables_copied [where env = sample_env and st = "sample_setup e" and org = "0x100C000",
        OF sample_fresh_pages sym(1) _ sample_setup_tree(2), unfolded sample_setup_tree(1)] by metis
qed

end
