(* ===== verification/Vmcs_Setup.thy ===== *)
theory Vmcs_Setup
  imports Cr_Guard Page_Dup
begin

text \<open>
  The first VMCS of a core (hypervisor.c): \<open>hb_init_vmx\<close> turns VMX on and loads the VMCS,
  \<open>hb_setup_vm_host_register\<close>, \<open>hb_setup_vm_guest_register\<close> and \<open>hb_setup_vm_control_register\<close> collect what goes into it,
  and \<open>hb_setup_vmcs\<close> writes it. The record \<open>cpu\<close> holds what the instructions that read processor registers
  (asm_helper.asm) return; \<open>vmcs_memory\<close> the pages of \<open>hb_alloc_vmcs_memory\<close>.
\<close>

section \<open>Data\<close>

record hb_vm_host_register =
  hr_cr0 :: u64
  hr_cr3 :: u64
  hr_cr4 :: u64
  hr_rsp :: u64
  hr_rip :: u64
  hr_cs_selector :: u64
  hr_ss_selector :: u64
  hr_ds_selector :: u64
  hr_es_selector :: u64
  hr_fs_selector :: u64
  hr_gs_selector :: u64
  hr_tr_selector :: u64
  hr_fs_base_addr :: u64
  hr_gs_base_addr :: u64
  hr_tr_base_addr :: u64
  hr_gdtr_base_addr :: u64
  hr_idtr_base_addr :: u64
  hr_ia32_sys_enter_cs :: u64
  hr_ia32_sys_enter_esp :: u64
  hr_ia32_sys_enter_eip :: u64
  hr_ia32_perf_global_ctrl :: u64
  hr_ia32_pat :: u64
  hr_ia32_efer :: u64

record hb_vm_guest_register =
  gr_cr0 :: u64
  gr_cr3 :: u64
  gr_cr4 :: u64
  gr_dr7 :: u64
  gr_rsp :: u64
  gr_rip :: u64
  gr_rflags :: u64
  gr_cs_selector :: u64
  gr_ss_selector :: u64
  gr_ds_selector :: u64
  gr_es_selector :: u64
  gr_fs_selector :: u64
  gr_gs_selector :: u64
  gr_ldtr_selector :: u64
  gr_tr_selector :: u64
  gr_cs_base_addr :: u64
  gr_ss_base_addr :: u64
  gr_ds_base_addr :: u64
  gr_es_base_addr :: u64
  gr_fs_base_addr :: u64
  gr_gs_base_addr :: u64
  gr_ldtr_base_addr :: u64
  gr_tr_base_addr :: u64
  gr_cs_limit :: u64
  gr_ss_limit :: u64
  gr_ds_limit :: u64
  gr_es_limit :: u64
  gr_fs_limit :: u64
  gr_gs_limit :: u64
  gr_ldtr_limit :: u64
  gr_tr_limit :: u64
  gr_cs_access :: u64
  gr_ss_access :: u64
  gr_ds_access :: u64
  gr_es_access :: u64
  gr_fs_access :: u64
  gr_gs_access :: u64
  gr_ldtr_access :: u64
  gr_tr_access :: u64
  gr_gdtr_base_addr :: u64
  gr_idtr_base_addr :: u64
  gr_gdtr_limit :: u64
  gr_idtr_limit :: u64
  gr_ia32_debug_ctrl :: u64
  gr_ia32_sys_enter_cs :: u64
  gr_ia32_sys_enter_esp :: u64
  gr_ia32_sys_enter_eip :: u64
  gr_vmcs_link_ptr :: u64
  gr_ia32_perf_global_ctrl :: u64
  gr_ia32_pat :: u64
  gr_ia32_efer :: u64

record hb_vm_control_register =
  cr_pin_based_ctrl :: u64
  cr_pri_proc_based_ctrl :: u64
  cr_sec_proc_based_ctrl :: u64
  cr_except_bitmap :: u64
  cr_io_bitmap_addrA :: u64
  cr_io_bitmap_addrB :: u64
  cr_ept_ptr :: u64
  cr_msr_bitmap_addr :: u64
  cr_vm_entry_ctrl_field :: u64
  cr_vm_exti_ctrl_field :: u64
  cr_virt_apic_page_addr :: u64
  cr_cr0_guest_host_mask :: u64
  cr_cr0_read_shadow :: u64
  cr_cr4_guest_host_mask :: u64
  cr_cr4_read_shadow :: u64
  cr_vmread_bitmap_addr :: u64
  cr_vmwrite_bitmap_addr :: u64

text \<open>Registers of the processor, before the hypervisor runs.\<close>

record cpu =
  cpu_cr0 :: u64
  cpu_cr3 :: u64
  cpu_cr4 :: u64
  cpu_rflags :: u64
  cpu_cs :: u64
  cpu_ss :: u64
  cpu_ds :: u64
  cpu_es :: u64
  cpu_fs :: u64
  cpu_gs :: u64
  cpu_ldtr :: u64
  cpu_tr :: u64
  cpu_gdtr :: desc_ptr
  cpu_idtr :: desc_ptr

text \<open>The pages of a core, by processor number.\<close>

record vmcs_memory =
  g_vmx_on_vmcs_log_addr :: "nat \<Rightarrow> u64"
  g_guest_vmcs_log_addr :: "nat \<Rightarrow> u64"
  vp_guest_vmcs_phy_addr :: "nat \<Rightarrow> u64"
  vp_vm_exit_stack_addr :: "nat \<Rightarrow> u64"
  g_io_bitmap_addrA :: "nat \<Rightarrow> u64"
  g_io_bitmap_addrB :: "nat \<Rightarrow> u64"
  g_msr_bitmap_addr :: "nat \<Rightarrow> u64"
  g_vmread_bitmap_addr :: "nat \<Rightarrow> u64"
  g_vmwrite_bitmap_addr :: "nat \<Rightarrow> u64"
  g_virt_apic_page_addr :: "nat \<Rightarrow> u64"

text \<open>The features found by \<open>hyper_box_init\<close> and by the set-up of the controls.\<close>

record support =
  g_support_smx :: int
  g_support_xsave :: int
  g_support_vpid :: int
  su_vmcs_shadowing :: int

definition ERROR_LAUNCH_FAIL :: int where [hb_consts]: "ERROR_LAUNCH_FAIL = 3"

definition VMCS_SIZE :: u64 where [hb_consts]: "VMCS_SIZE = 0x2000"
definition IO_BITMAP_SIZE :: u64 where [hb_consts]: "IO_BITMAP_SIZE = VAL_4KB"
definition MSR_BITMAP_SIZE :: u64 where [hb_consts]: "MSR_BITMAP_SIZE = VAL_4KB"
definition VMREAD_BITMAP_SIZE :: u64 where [hb_consts]: "VMREAD_BITMAP_SIZE = VAL_4KB"
definition VMWRITE_BITMAP_SIZE :: u64 where [hb_consts]: "VMWRITE_BITMAP_SIZE = VAL_4KB"
definition VIRT_APIC_PAGE_SIZE :: u64 where [hb_consts]: "VIRT_APIC_PAGE_SIZE = VAL_4KB"

text \<open>Numbers of the kernel's headers: MSRs, selectors of the kernel and the layout of DR7.\<close>

definition MSR_IA32_SYSENTER_CS :: u32 where [hb_consts]: "MSR_IA32_SYSENTER_CS = 0x174"
definition MSR_IA32_SYSENTER_ESP :: u32 where [hb_consts]: "MSR_IA32_SYSENTER_ESP = 0x175"
definition MSR_IA32_SYSENTER_EIP :: u32 where [hb_consts]: "MSR_IA32_SYSENTER_EIP = 0x176"
definition MSR_IA32_VMX_TRUE_PINBASED_CTLS :: u32 where [hb_consts]: "MSR_IA32_VMX_TRUE_PINBASED_CTLS = 0x48D"
definition MSR_IA32_VMX_TRUE_PROCBASED_CTLS :: u32 where [hb_consts]: "MSR_IA32_VMX_TRUE_PROCBASED_CTLS = 0x48E"
definition MSR_IA32_VMX_PROCBASED_CTLS2 :: u32 where [hb_consts]: "MSR_IA32_VMX_PROCBASED_CTLS2 = 0x48B"
definition MSR_IA32_FEAT_CTL :: u32 where [hb_consts]: "MSR_IA32_FEAT_CTL = 0x3A"
definition MSR_IA32_VMX_CR0_FIXED0 :: u32 where [hb_consts]: "MSR_IA32_VMX_CR0_FIXED0 = 0x486"
definition MSR_IA32_VMX_CR0_FIXED1 :: u32 where [hb_consts]: "MSR_IA32_VMX_CR0_FIXED1 = 0x487"
definition MSR_IA32_VMX_CR4_FIXED0 :: u32 where [hb_consts]: "MSR_IA32_VMX_CR4_FIXED0 = 0x488"
definition MSR_IA32_VMX_CR4_FIXED1 :: u32 where [hb_consts]: "MSR_IA32_VMX_CR4_FIXED1 = 0x489"
definition KERNEL_CS :: u64 where [hb_consts]: "KERNEL_CS = 0x10"
definition KERNEL_DS :: u64 where [hb_consts]: "KERNEL_DS = 0x18"
definition DR_CONTROL_SHIFT :: nat where [hb_consts]: "DR_CONTROL_SHIFT = 16"
definition DR_CONTROL_SIZE :: nat where [hb_consts]: "DR_CONTROL_SIZE = 4"
definition DR_GLOBAL_ENABLE :: u64 where [hb_consts]: "DR_GLOBAL_ENABLE = 0x2"
definition DR_ENABLE_SIZE :: nat where [hb_consts]: "DR_ENABLE_SIZE = 2"
definition X86_BREAKPOINT_LEN_X :: u64 where [hb_consts]: "X86_BREAKPOINT_LEN_X = 0x40"
definition X86_BREAKPOINT_EXECUTE :: u64 where [hb_consts]: "X86_BREAKPOINT_EXECUTE = 0x80"

section \<open>Descriptors\<close>

text \<open>The address of the descriptor of a selector: only the privilege bits are masked.\<close>

definition desc_addr :: "desc_ptr \<Rightarrow> u64 \<Rightarrow> u64" where
  "desc_addr gdtr sel = dt_address gdtr + (sel AND NOT MASK_GDT_ACCESS)"

definition hb_get_desc_base :: "desc_ptr \<Rightarrow> u64 \<Rightarrow> vm \<Rightarrow> u64" where
  "hb_get_desc_base gdtr offset s =
     (if offset = 0 then 0
      else let a = desc_addr gdtr offset;
               base0 = mem_load 2 (a + 2) s; base1 = mem_load 1 (a + 4) s; base2 = mem_load 1 (a + 7) s
           in base0 OR push_bit 16 base1 OR push_bit 24 base2)"

definition hb_get_desc_access :: "desc_ptr \<Rightarrow> u64 \<Rightarrow> vm \<Rightarrow> u64" where
  "hb_get_desc_access gdtr offset s =
     (if offset = 0 then 0x10000
      else let access = drop_bit 8 (mem_load 4 (desc_addr gdtr offset + 4) s) in access AND 0xF0FF)"

text \<open>The 16-byte descriptors of the LDT and the TSS.\<close>

definition ldttss_base :: "desc_ptr \<Rightarrow> u64 \<Rightarrow> vm \<Rightarrow> u64" where
  "ldttss_base gdtr sel s =
     (let a = desc_addr gdtr sel;
          base0 = mem_load 2 (a + 2) s; base1 = mem_load 1 (a + 4) s; base2 = mem_load 1 (a + 7) s; base3 = mem_load 4 (a + 8) s
      in base0 OR push_bit 16 base1 OR push_bit 24 base2 OR push_bit 32 base3)"

definition ldttss_limit :: "desc_ptr \<Rightarrow> u64 \<Rightarrow> vm \<Rightarrow> u64" where
  "ldttss_limit gdtr sel s =
     (let a = desc_addr gdtr sel; limit0 = mem_load 2 a s; limit1 = mem_load 1 (a + 6) s AND 0xF
      in limit0 OR push_bit 16 limit1)"

definition ldttss_access :: "desc_ptr \<Rightarrow> u64 \<Rightarrow> vm \<Rightarrow> u64" where
  "ldttss_access gdtr sel s = (let access = drop_bit 8 (mem_load 4 (desc_addr gdtr sel + 4) s) in access AND 0xF0FF)"

definition hb_encode_dr7 :: "nat \<Rightarrow> u64 \<Rightarrow> u64 \<Rightarrow> u64" where
  "hb_encode_dr7 index len type =
     (let v = (len OR type) AND 0xF;
          v = push_bit (DR_CONTROL_SHIFT + index * DR_CONTROL_SIZE) v
      in v OR push_bit (index * DR_ENABLE_SIZE) DR_GLOBAL_ENABLE)"

text \<open>\<open>memset (p, 0, n)\<close>\<close>

definition mem_clear :: "u64 \<Rightarrow> u64 \<Rightarrow> vm \<Rightarrow> vm" where
  "mem_clear p n s = s\<lparr>vs_mem := \<lambda>a. if a - p < n then 0 else vs_mem s a\<rparr>"

section \<open>Turning VMX on\<close>

text \<open>A value a control register may have in VMX operation (SDM, volume 3, appendix A.7).\<close>

definition fixed_ok :: "u64 \<Rightarrow> u64 \<Rightarrow> u64 \<Rightarrow> bool" where
  "fixed_ok f0 f1 v \<longleftrightarrow> (\<forall>k. (bit f0 k \<longrightarrow> bit v k) \<and> (bit v k \<longrightarrow> bit f1 k))"

text \<open>VMXON outside of SMX operation faults when the lock bit (0) or the enable bit (2) of IA32_FEATURE_CONTROL is clear, and when CR0 or
  CR4 has a value that VMX operation does not allow.\<close>

definition feat_ctl_ok :: "u64 \<Rightarrow> bool" where
  "feat_ctl_ok msr \<longleftrightarrow> bit msr 0 \<and> bit msr 2"

definition vmxon_allowed :: "cpu \<Rightarrow> vm \<Rightarrow> bool" where
  "vmxon_allowed c s \<longleftrightarrow> feat_ctl_ok (hb_rdmsr (ucast MSR_IA32_FEAT_CTL) s) \<and>
     fixed_ok (hb_rdmsr (ucast MSR_IA32_VMX_CR0_FIXED0) s) (hb_rdmsr (ucast MSR_IA32_VMX_CR0_FIXED1) s) (cpu_cr0 c) \<and>
     bit (cpu_cr4 c) 13 \<and>
     fixed_ok (hb_rdmsr (ucast MSR_IA32_VMX_CR4_FIXED0) s) (hb_rdmsr (ucast MSR_IA32_VMX_CR4_FIXED1) s) (cpu_cr4 c)"

text \<open>A VMXON that does not fault succeeds for the addresses that \<open>vmxon_ok\<close> accepts; one that faults has no result.
  \<open>hb_enable_vmx\<close> sets CR4.VMXE once more.\<close>

definition hb_init_vmx ::
  "vm_env \<Rightarrow> (u64 \<Rightarrow> u32 \<Rightarrow> bool) \<Rightarrow> support \<Rightarrow> vmcs_memory \<Rightarrow> nat \<Rightarrow> cpu \<times> vm \<Rightarrow> (int \<times> cpu \<times> vm) option" where
  "hb_init_vmx env vmxon_ok su vp cpu_id cs =
     (let (c, s) = cs;
          cr4 = cpu_cr4 c OR CR4_BIT_VMXE;
          cr4 = (if g_support_smx su \<noteq> 0 then cr4 OR CR4_BIT_SMXE else cr4);
          c = c\<lparr>cpu_cr4 := cr4\<rparr>;
          vmx_msr = hb_rdmsr (ucast MSR_IA32_VM_BASIC) s;
          c = c\<lparr>cpu_cr4 := cpu_cr4 c OR CR4_BIT_VMXE\<rparr>;
          vmx_phy = virt_to_phys (ve_kernel env) (g_vmx_on_vmcs_log_addr vp cpu_id);
          s = s\<lparr>vs_revision := (vs_revision s)(vmx_phy := ucast vmx_msr)\<rparr>
      in if \<not> vmxon_allowed c s then None
         else if \<not> vmxon_ok vmx_phy (vs_revision s vmx_phy) then Some (-1, c, hb_vm_error_log ERROR_LAUNCH_FAIL s)
         else
           let guest_phy = virt_to_phys (ve_kernel env) (g_guest_vmcs_log_addr vp cpu_id);
               s = s\<lparr>vs_revision := (vs_revision s)(guest_phy := ucast vmx_msr)\<rparr>;
               (r, s) = hb_clear_vmcs env guest_phy s
           in if r \<noteq> 0 then Some (-1, c, hb_vm_error_log ERROR_LAUNCH_FAIL s)
              else let (r, s) = hb_load_vmcs env guest_phy s in
                   if r \<noteq> 0 then Some (-1, c, hb_vm_error_log ERROR_LAUNCH_FAIL s) else Some (0, c, s))"

section \<open>Host state\<close>

definition hb_setup_vm_host_register ::
  "vm_env \<Rightarrow> vmcs_memory \<Rightarrow> desc_ptr \<Rightarrow> nat \<Rightarrow> cpu \<Rightarrow> hb_vm_host_register \<Rightarrow> vm \<Rightarrow> hb_vm_host_register \<times> vm" where
  "hb_setup_vm_host_register env vp host_idtr cpu_id c r s =
     (let vm_exit_stack = vp_vm_exit_stack_addr vp cpu_id;
          stack_size = g_stack_size env;
          s = mem_clear vm_exit_stack stack_size s;
          gdtr = cpu_gdtr c
      in (r\<lparr>hr_cr0 := cpu_cr0 c,
            hr_cr3 := g_vm_host_phy_pml4 env,
            hr_cr4 := cpu_cr4 c,
            hr_rsp := vm_exit_stack + stack_size - VAL_4KB,
            hr_rip := hb_vm_exit_callback_stub env,
            hr_cs_selector := KERNEL_CS,
            hr_ss_selector := KERNEL_DS,
            hr_ds_selector := KERNEL_DS,
            hr_es_selector := KERNEL_DS,
            hr_fs_selector := KERNEL_DS,
            hr_gs_selector := KERNEL_DS,
            hr_tr_selector := cpu_tr c,
            hr_fs_base_addr := hb_rdmsr (ucast MSR_FS_BASE_ADDR) s,
            hr_gs_base_addr := hb_rdmsr (ucast MSR_GS_BASE_ADDR) s,
            hr_tr_base_addr := ldttss_base gdtr (cpu_tr c) s,
            hr_gdtr_base_addr := dt_address gdtr,
            hr_idtr_base_addr := dt_address host_idtr,
            hr_ia32_sys_enter_cs := hb_rdmsr (ucast MSR_IA32_SYSENTER_CS) s,
            hr_ia32_sys_enter_esp := hb_rdmsr (ucast MSR_IA32_SYSENTER_ESP) s,
            hr_ia32_sys_enter_eip := hb_rdmsr (ucast MSR_IA32_SYSENTER_EIP) s,
            hr_ia32_pat := hb_rdmsr (ucast MSR_IA32_PAT) s,
            hr_ia32_efer := hb_rdmsr (ucast MSR_IA32_EFER) s\<rparr>, s))"

section \<open>Guest state\<close>

definition dr7_all :: u64 where
  "dr7_all = hb_encode_dr7 0 X86_BREAKPOINT_LEN_X X86_BREAKPOINT_EXECUTE OR
     hb_encode_dr7 1 X86_BREAKPOINT_LEN_X X86_BREAKPOINT_EXECUTE OR
     hb_encode_dr7 2 X86_BREAKPOINT_LEN_X X86_BREAKPOINT_EXECUTE OR
     hb_encode_dr7 3 X86_BREAKPOINT_LEN_X X86_BREAKPOINT_EXECUTE OR push_bit 10 1"

text \<open>The breakpoints on the four functions of the kernel that the monitor watches.\<close>

definition setup_breakpoints :: "vm_env \<Rightarrow> nat \<Rightarrow> vm \<Rightarrow> vm option" where
  "setup_breakpoints env cpu_id s = do {
     a0 \<leftarrow> hb_get_symbol_address (ve_kernel env) ''wake_up_new_task'';
     a1 \<leftarrow> hb_get_symbol_address (ve_kernel env) ''cgroup_release'';
     a2 \<leftarrow> hb_get_symbol_address (ve_kernel env) ''entry_SYSCALL_64'';
     a3 \<leftarrow> hb_get_symbol_address (ve_kernel env) ''commit_creds'';
     let s = set_debugreg a3 3 (set_debugreg a2 2 (set_debugreg a1 1 (set_debugreg a0 0 s)));
     let s = set_debugreg (vs_dr s 6 AND 0xFFFFFFFFFFFFFFF0) 6 s;
     Some (s\<lparr>g_test_dr := (g_test_dr s)(cpu_id := (g_test_dr s cpu_id)
       (0 := vs_dr s 0, 1 := vs_dr s 1, 2 := vs_dr s 2, 3 := vs_dr s 3, 6 := vs_dr s 6, 7 := vs_dr s 7))\<rparr>)
   }"

definition guest_segments :: "cpu \<Rightarrow> vm \<Rightarrow> hb_vm_guest_register \<Rightarrow> hb_vm_guest_register" where
  "guest_segments c s r =
     (let gdtr = cpu_gdtr c; ldt = cpu_ldtr c; tr = cpu_tr c in
      r\<lparr>gr_cs_selector := cpu_cs c, gr_ss_selector := cpu_ss c, gr_ds_selector := cpu_ds c, gr_es_selector := cpu_es c,
        gr_fs_selector := cpu_fs c, gr_gs_selector := cpu_gs c, gr_ldtr_selector := ldt, gr_tr_selector := tr,
        gr_cs_base_addr := hb_get_desc_base gdtr (cpu_cs c) s,
        gr_ss_base_addr := hb_get_desc_base gdtr (cpu_ss c) s,
        gr_ds_base_addr := hb_get_desc_base gdtr (cpu_ds c) s,
        gr_es_base_addr := hb_get_desc_base gdtr (cpu_es c) s,
        gr_fs_base_addr := hb_rdmsr (ucast MSR_FS_BASE_ADDR) s,
        gr_gs_base_addr := hb_rdmsr (ucast MSR_GS_BASE_ADDR) s,
        gr_ldtr_base_addr := (if ldt = 0 then 0 else ldttss_base gdtr ldt s),
        gr_tr_base_addr := (if tr = 0 then 0 else ldttss_base gdtr tr s),
        gr_cs_limit := 0xFFFFFFFF, gr_ss_limit := 0xFFFFFFFF, gr_ds_limit := 0xFFFFFFFF, gr_es_limit := 0xFFFFFFFF,
        gr_fs_limit := 0xFFFFFFFF, gr_gs_limit := 0xFFFFFFFF,
        gr_ldtr_limit := (if ldt = 0 then 0 else ldttss_limit gdtr ldt s),
        gr_tr_limit := (if tr = 0 then 0 else ldttss_limit gdtr tr s),
        gr_cs_access := hb_get_desc_access gdtr (cpu_cs c) s,
        gr_ss_access := hb_get_desc_access gdtr (cpu_ss c) s,
        gr_ds_access := hb_get_desc_access gdtr (cpu_ds c) s,
        gr_es_access := hb_get_desc_access gdtr (cpu_es c) s,
        gr_fs_access := hb_get_desc_access gdtr (cpu_fs c) s,
        gr_gs_access := hb_get_desc_access gdtr (cpu_gs c) s,
        gr_ldtr_access := (if ldt = 0 then 0x10000 else ldttss_access gdtr ldt s),
        gr_tr_access := (if tr = 0 then 0 else ldttss_access gdtr tr s)\<rparr>)"

definition hb_setup_vm_guest_register ::
  "vm_env \<Rightarrow> nat \<Rightarrow> cpu \<Rightarrow> hb_vm_host_register \<Rightarrow> hb_vm_guest_register \<Rightarrow> vm \<Rightarrow> (hb_vm_guest_register \<times> vm) option" where
  "hb_setup_vm_guest_register env cpu_id c host r s = do {
     s \<leftarrow> setup_breakpoints env cpu_id s;
     let r = r\<lparr>gr_cr0 := hr_cr0 host, gr_cr3 := cpu_cr3 c, gr_cr4 := hr_cr4 host, gr_dr7 := dr7_all,
        gr_rflags := cpu_rflags c, gr_rsp := 0xFFFFFFFFFFFFFFFF, gr_rip := 0xFFFFFFFFFFFFFFFF\<rparr>;
     let r = guest_segments c s r;
     Some (r\<lparr>gr_gdtr_base_addr := hr_gdtr_base_addr host,
        gr_idtr_base_addr := dt_address (cpu_idtr c),
        gr_gdtr_limit := ucast (dt_size (cpu_gdtr c)),
        gr_idtr_limit := ucast (dt_size (cpu_idtr c)),
        gr_ia32_debug_ctrl := 0,
        gr_ia32_sys_enter_cs := hr_ia32_sys_enter_cs host,
        gr_ia32_sys_enter_esp := hr_ia32_sys_enter_esp host,
        gr_ia32_sys_enter_eip := hr_ia32_sys_enter_eip host,
        gr_vmcs_link_ptr := 0xFFFFFFFFFFFFFFFF,
        gr_ia32_perf_global_ctrl := hr_ia32_perf_global_ctrl host,
        gr_ia32_pat := hr_ia32_pat host,
        gr_ia32_efer := hr_ia32_efer host\<rparr>, s)
   }"

section \<open>Controls\<close>

definition hb_vm_set_vmread_vmwrite_bitmap :: "hb_vm_control_register \<Rightarrow> u64 \<Rightarrow> vm \<Rightarrow> vm" where
  "hb_vm_set_vmread_vmwrite_bitmap r field_number s =
     (let byte_offset = field_number div 8; bit_offset = field_number mod 8;
          set = (\<lambda>a s. s\<lparr>vs_mem := (vs_mem s)(a := vs_mem s a OR push_bit (unat bit_offset) 1)\<rparr>)
      in set (cr_vmwrite_bitmap_addr r + byte_offset) (set (cr_vmread_bitmap_addr r + byte_offset) s))"

text \<open>The optional features are asked for when the high half of the capability MSR allows them.\<close>

definition sec_allowed :: "u64 \<Rightarrow> vm \<Rightarrow> bool" where
  "sec_allowed flag s \<longleftrightarrow> drop_bit 32 (hb_rdmsr (ucast MSR_IA32_VMX_PROCBASED_CTLS2) s) AND flag \<noteq> 0"

definition sec_proc_flags :: "support \<Rightarrow> vm \<Rightarrow> u64 \<times> support" where
  "sec_proc_flags su s =
     (let fl = VM_BIT_VM_SEC_PROC_CTRL_UNREST_GUEST OR VM_BIT_VM_SEC_PROC_CTRL_USE_EPT;
          fl = (if sec_allowed VM_BIT_VM_SEC_PROC_CTRL_ENABLE_INVPCID s then fl OR VM_BIT_VM_SEC_PROC_CTRL_ENABLE_INVPCID else fl);
          fl = (if g_support_xsave su = 1 \<and> sec_allowed VM_BIT_VM_SEC_PROC_CTRL_ENABLE_XSAVE s
                then fl OR VM_BIT_VM_SEC_PROC_CTRL_ENABLE_XSAVE else fl);
          fl = (if sec_allowed VM_BIT_VM_SEC_PROC_CTRL_ENABLE_RDTSCP s then fl OR VM_BIT_VM_SEC_PROC_CTRL_ENABLE_RDTSCP else fl);
          (fl, su) = (if sec_allowed VM_BIT_VM_SEC_PROC_CTRL_VMCS_SHADOWING s
                      then (fl OR VM_BIT_VM_SEC_PROC_CTRL_VMCS_SHADOWING, su\<lparr>su_vmcs_shadowing := 1\<rparr>) else (fl, su));
          (fl, su) = (if sec_allowed VM_BIT_VM_SEC_PROC_CTRL_ENABLE_VPID s
                      then (fl OR VM_BIT_VM_SEC_PROC_CTRL_ENABLE_VPID, su\<lparr>g_support_vpid := 1\<rparr>) else (fl, su))
      in (fl, su))"

definition hb_setup_vm_control_register ::
  "vm_env \<Rightarrow> vmcs_memory \<Rightarrow> u64 \<Rightarrow> nat \<Rightarrow> support \<Rightarrow> hb_vm_control_register \<Rightarrow> vm \<Rightarrow>
     hb_vm_control_register \<times> support \<times> vm" where
  "hb_setup_vm_control_register env vp ept_pml4 cpu_id su r s =
     (let (sec_flags, su) = sec_proc_flags su s;
          phys = virt_to_phys (ve_kernel env);
          r = r\<lparr>cr_pin_based_ctrl := hb_rdmsr (ucast MSR_IA32_VMX_TRUE_PINBASED_CTLS) s AND 0xFFFFFFFF,
            cr_pri_proc_based_ctrl := (hb_rdmsr (ucast MSR_IA32_VMX_TRUE_PROCBASED_CTLS) s OR
              VM_BIT_VM_PRI_PROC_CTRL_USE_IO_BITMAP OR VM_BIT_VM_PRI_PROC_CTRL_USE_MSR_BITMAP OR
              VM_BIT_VM_PRI_PROC_CTRL_USE_SEC_CTRL OR VM_BIT_VM_PRI_PROC_CTRL_USE_MOVE_DR) AND 0xFFFFFFFF,
            cr_sec_proc_based_ctrl := (hb_rdmsr (ucast MSR_IA32_VMX_PROCBASED_CTLS2) s OR sec_flags) AND 0xFFFFFFFF,
            cr_vm_entry_ctrl_field := (hb_rdmsr (ucast MSR_IA32_VMX_TRUE_ENTRY_CTRLS) s OR
              VM_BIT_VM_ENTRY_CTRL_IA32E_MODE_GUEST OR VM_BIT_VM_ENTRY_LOAD_DEBUG_CTRL) AND 0xFFFFFFFF,
            cr_vm_exti_ctrl_field := (hb_rdmsr (ucast MSR_IA32_VMX_TRUE_EXIT_CTRLS) s OR
              VM_BIT_VM_EXIT_CTRL_HOST_ADDR_SIZE OR VM_BIT_VM_EXIT_SAVE_DEBUG_CTRL OR
              VM_BIT_VM_EXIT_CTRL_SAVE_IA32_EFER) AND 0xFFFFFFFF,
            cr_except_bitmap := push_bit (unat VM_INT_DEBUG_EXCEPTION) 1,
            cr_io_bitmap_addrA := g_io_bitmap_addrA vp cpu_id,
            cr_io_bitmap_addrB := g_io_bitmap_addrB vp cpu_id,
            cr_msr_bitmap_addr := g_msr_bitmap_addr vp cpu_id,
            cr_vmread_bitmap_addr := g_vmread_bitmap_addr vp cpu_id,
            cr_vmwrite_bitmap_addr := g_vmwrite_bitmap_addr vp cpu_id,
            cr_virt_apic_page_addr := g_virt_apic_page_addr vp cpu_id\<rparr>;
          s = mem_clear (cr_io_bitmap_addrA r) IO_BITMAP_SIZE s;
          s = mem_clear (cr_io_bitmap_addrB r) IO_BITMAP_SIZE s;
          s = mem_clear (cr_msr_bitmap_addr r) MSR_BITMAP_SIZE s;
          s = mem_clear (cr_vmread_bitmap_addr r) VMREAD_BITMAP_SIZE s;
          s = mem_clear (cr_vmwrite_bitmap_addr r) VMWRITE_BITMAP_SIZE s;
          s = mem_clear (cr_virt_apic_page_addr r) VIRT_APIC_PAGE_SIZE s;
          s = hb_vm_set_vmread_vmwrite_bitmap r VM_HOST_RIP s;
          s = hb_vm_set_vmread_vmwrite_bitmap r VM_HOST_RSP s;
          s = hb_vm_set_vmread_vmwrite_bitmap r VM_HOST_CR3 s;
          r = r\<lparr>cr_io_bitmap_addrA := phys (cr_io_bitmap_addrA r),
            cr_io_bitmap_addrB := phys (cr_io_bitmap_addrB r),
            cr_msr_bitmap_addr := phys (cr_msr_bitmap_addr r),
            cr_vmread_bitmap_addr := phys (cr_vmread_bitmap_addr r),
            cr_vmwrite_bitmap_addr := phys (cr_vmwrite_bitmap_addr r),
            cr_virt_apic_page_addr := phys (cr_virt_apic_page_addr r),
            cr_ept_ptr := phys ept_pml4 OR VM_BIT_EPT_PAGE_WALK_LENGTH_BITMAP OR VM_BIT_EPT_MEM_TYPE_WB,
            cr_cr0_guest_host_mask := CR0_BIT_WP,
            cr_cr0_read_shadow := CR0_BIT_WP,
            cr_cr4_guest_host_mask := CR4_BIT_VMXE OR CR4_BIT_SMEP OR CR4_BIT_MCE,
            cr_cr4_read_shadow := CR4_BIT_VMXE OR CR4_BIT_SMEP\<rparr>
      in (r, su, s))"

section \<open>Writing the VMCS\<close>

text \<open>The writes of \<open>hb_setup_vmcs\<close>, in the order of the code: host area, guest area, controls.\<close>

definition host_writes :: "hb_vm_host_register \<Rightarrow> (u64 \<times> u64) list" where
  "host_writes host =
     [(VM_HOST_CR0, hr_cr0 host),
      (VM_HOST_CR3, hr_cr3 host),
      (VM_HOST_CR4, hr_cr4 host),
      (VM_HOST_RSP, hr_rsp host),
      (VM_HOST_RIP, hr_rip host),
      (VM_HOST_CS_SELECTOR, hr_cs_selector host),
      (VM_HOST_SS_SELECTOR, hr_ss_selector host),
      (VM_HOST_DS_SELECTOR, hr_ds_selector host),
      (VM_HOST_ES_SELECTOR, hr_es_selector host),
      (VM_HOST_FS_SELECTOR, hr_fs_selector host),
      (VM_HOST_GS_SELECTOR, hr_gs_selector host),
      (VM_HOST_TR_SELECTOR, hr_tr_selector host),
      (VM_HOST_FS_BASE, hr_fs_base_addr host),
      (VM_HOST_GS_BASE, hr_gs_base_addr host),
      (VM_HOST_TR_BASE, hr_tr_base_addr host),
      (VM_HOST_GDTR_BASE, hr_gdtr_base_addr host),
      (VM_HOST_IDTR_BASE, hr_idtr_base_addr host),
      (VM_HOST_IA32_SYSENTER_CS, hr_ia32_sys_enter_cs host),
      (VM_HOST_IA32_SYSENTER_ESP, hr_ia32_sys_enter_esp host),
      (VM_HOST_IA32_SYSENTER_EIP, hr_ia32_sys_enter_eip host),
      (VM_HOST_PERF_GLOBAL_CTRL, hr_ia32_perf_global_ctrl host),
      (VM_HOST_PAT, hr_ia32_pat host),
      (VM_HOST_EFER, hr_ia32_efer host)]"

definition guest_writes :: "hb_vm_guest_register \<Rightarrow> u64 \<Rightarrow> (u64 \<times> u64) list" where
  "guest_writes guest value =
     [(VM_GUEST_CR0, gr_cr0 guest),
      (VM_GUEST_CR3, gr_cr3 guest),
      (VM_GUEST_CR4, gr_cr4 guest),
      (VM_GUEST_DR7, gr_dr7 guest),
      (VM_GUEST_RSP, gr_rsp guest),
      (VM_GUEST_RIP, gr_rip guest),
      (VM_GUEST_RFLAGS, gr_rflags guest),
      (VM_GUEST_CS_SELECTOR, gr_cs_selector guest),
      (VM_GUEST_SS_SELECTOR, gr_ss_selector guest),
      (VM_GUEST_DS_SELECTOR, gr_ds_selector guest),
      (VM_GUEST_ES_SELECTOR, gr_es_selector guest),
      (VM_GUEST_FS_SELECTOR, gr_fs_selector guest),
      (VM_GUEST_GS_SELECTOR, gr_gs_selector guest),
      (VM_GUEST_LDTR_SELECTOR, gr_ldtr_selector guest),
      (VM_GUEST_TR_SELECTOR, gr_tr_selector guest),
      (VM_GUEST_CS_BASE, gr_cs_base_addr guest),
      (VM_GUEST_SS_BASE, gr_ss_base_addr guest),
      (VM_GUEST_DS_BASE, gr_ds_base_addr guest),
      (VM_GUEST_ES_BASE, gr_es_base_addr guest),
      (VM_GUEST_FS_BASE, gr_fs_base_addr guest),
      (VM_GUEST_GS_BASE, gr_gs_base_addr guest),
      (VM_GUEST_LDTR_BASE, gr_ldtr_base_addr guest),
      (VM_GUEST_TR_BASE, gr_tr_base_addr guest),
      (VM_GUEST_CS_LIMIT, gr_cs_limit guest),
      (VM_GUEST_SS_LIMIT, gr_ss_limit guest),
      (VM_GUEST_DS_LIMIT, gr_ds_limit guest),
      (VM_GUEST_ES_LIMIT, gr_es_limit guest),
      (VM_GUEST_FS_LIMIT, gr_fs_limit guest),
      (VM_GUEST_GS_LIMIT, gr_gs_limit guest),
      (VM_GUEST_LDTR_LIMIT, gr_ldtr_limit guest),
      (VM_GUEST_TR_LIMIT, gr_tr_limit guest),
      (VM_GUEST_CS_ACC_RIGHT, gr_cs_access guest),
      (VM_GUEST_SS_ACC_RIGHT, gr_ss_access guest),
      (VM_GUEST_DS_ACC_RIGHT, gr_ds_access guest),
      (VM_GUEST_ES_ACC_RIGHT, gr_es_access guest),
      (VM_GUEST_FS_ACC_RIGHT, gr_fs_access guest),
      (VM_GUEST_GS_ACC_RIGHT, gr_gs_access guest),
      (VM_GUEST_LDTR_ACC_RIGHT, gr_ldtr_access guest),
      (VM_GUEST_TR_ACC_RIGHT, gr_tr_access guest),
      (VM_GUEST_GDTR_BASE, gr_gdtr_base_addr guest),
      (VM_GUEST_IDTR_BASE, gr_idtr_base_addr guest),
      (VM_GUEST_GDTR_LIMIT, gr_gdtr_limit guest),
      (VM_GUEST_IDTR_LIMIT, gr_idtr_limit guest),
      (VM_GUEST_DEBUGCTL, gr_ia32_debug_ctrl guest),
      (VM_GUEST_IA32_SYSENTER_CS, gr_ia32_sys_enter_cs guest),
      (VM_GUEST_IA32_SYSENTER_ESP, gr_ia32_sys_enter_esp guest),
      (VM_GUEST_IA32_SYSENTER_EIP, gr_ia32_sys_enter_eip guest),
      (VM_GUEST_PERF_GLOBAL_CTRL, gr_ia32_perf_global_ctrl guest),
      (VM_GUEST_PAT, gr_ia32_pat guest),
      (VM_GUEST_EFER, gr_ia32_efer guest),
      (VM_VMCS_LINK_PTR, gr_vmcs_link_ptr guest),
      (VM_GUEST_INT_STATE, 0),
      (VM_GUEST_ACTIVITY_STATE, 0),
      (VM_GUEST_SMBASE, 0),
      (VM_GUEST_PENDING_DBG_EXCEPTS, 0),
      (VM_GUEST_VMX_PRE_TIMER_VALUE, value)]"

definition control_writes :: "hb_vm_control_register \<Rightarrow> (u64 \<times> u64) list" where
  "control_writes ctrl =
     [(VM_CTRL_PIN_BASED_VM_EXE_CTRL, cr_pin_based_ctrl ctrl),
      (VM_CTRL_PRI_PROC_BASED_EXE_CTRL, cr_pri_proc_based_ctrl ctrl),
      (VM_CTRL_SEC_PROC_BASED_EXE_CTRL, cr_sec_proc_based_ctrl ctrl),
      (VM_CTRL_EXCEPTION_BITMAP, cr_except_bitmap ctrl),
      (VM_CTRL_IO_BITMAP_A_ADDR, cr_io_bitmap_addrA ctrl),
      (VM_CTRL_IO_BITMAP_B_ADDR, cr_io_bitmap_addrB ctrl),
      (VM_CTRL_EPT_PTR, cr_ept_ptr ctrl),
      (VM_CTRL_MSR_BITMAPS, cr_msr_bitmap_addr ctrl),
      (VM_CTRL_VMREAD_BITMAP_ADDR, cr_vmread_bitmap_addr ctrl),
      (VM_CTRL_VMWRITE_BITMAP_ADDR, cr_vmwrite_bitmap_addr ctrl),
      (VM_CTRL_VM_ENTRY_CTRLS, cr_vm_entry_ctrl_field ctrl),
      (VM_CTRL_VM_EXIT_CTRLS, cr_vm_exti_ctrl_field ctrl),
      (VM_CTRL_VIRTUAL_APIC_ADDR, cr_virt_apic_page_addr ctrl),
      (VM_CTRL_CR0_GUEST_HOST_MASK, cr_cr0_guest_host_mask ctrl),
      (VM_CTRL_CR4_GUEST_HOST_MASK, cr_cr4_guest_host_mask ctrl),
      (VM_CTRL_CR0_READ_SHADOW, cr_cr0_read_shadow ctrl),
      (VM_CTRL_CR4_READ_SHADOW, cr_cr4_read_shadow ctrl),
      (VM_CTRL_CR3_TARGET_VALUE_0, 0),
      (VM_CTRL_CR3_TARGET_VALUE_1, 0),
      (VM_CTRL_CR3_TARGET_VALUE_2, 0),
      (VM_CTRL_CR3_TARGET_VALUE_3, 0),
      (VM_CTRL_PAGE_FAULT_ERR_CODE_MASK, 0),
      (VM_CTRL_PAGE_FAULT_ERR_CODE_MATCH, 0),
      (VM_CTRL_CR3_TARGET_COUNT, 0),
      (VM_CTRL_VM_EXIT_MSR_STORE_COUNT, 0),
      (VM_CTRL_VM_EXIT_MSR_LOAD_COUNT, 0),
      (VM_CTRL_VM_EXIT_MSR_LOAD_ADDR, 0),
      (VM_CTRL_VM_ENTRY_INT_INFO_FIELD, 0),
      (VM_CTRL_VM_ENTRY_EXCEPT_ERR_CODE, 0),
      (VM_CTRL_VM_ENTRY_INST_LENGTH, 0),
      (VM_CTRL_VM_ENTRY_MSR_LOAD_COUNT, 0),
      (VM_CTRL_VM_ENTRY_MSR_LOAD_ADDR, 0),
      (VM_CTRL_TPR_THRESHOLD, 0),
      (VM_CTRL_EXECUTIVE_VMCS_PTR, 0),
      (VM_CTRL_TSC_OFFSET, 0)]"

definition write_all :: "vm_env \<Rightarrow> (u64 \<times> u64) list \<Rightarrow> vm \<Rightarrow> vm" where
  "write_all env ws s = fold (\<lambda>(f, v). hb_write_vmcs env f v) ws s"

definition hb_setup_vmcs ::
  "vm_env \<Rightarrow> support \<Rightarrow> hb_vm_host_register \<Rightarrow> hb_vm_guest_register \<Rightarrow> hb_vm_control_register \<Rightarrow> vm \<Rightarrow> vm" where
  "hb_setup_vmcs env su host guest ctrl s =
     (let s = write_all env (host_writes host) s;
          s = write_all env (guest_writes guest (hb_calc_vm_pre_timer_value env s)) s;
          s = (if g_support_vpid su = 1 then hb_write_vmcs env VM_CTRL_VIRTUAL_PROCESS_ID 0xFFFF s else s)
      in write_all env (control_writes ctrl) s)"

section \<open>One core\<close>

text \<open>The structures as \<open>hb_vm_thread\<close> clears them.\<close>

definition host_zero :: hb_vm_host_register where
  "host_zero =
     \<lparr>hr_cr0 = 0, hr_cr3 = 0, hr_cr4 = 0, hr_rsp = 0, hr_rip = 0, hr_cs_selector = 0, hr_ss_selector = 0,
      hr_ds_selector = 0, hr_es_selector = 0, hr_fs_selector = 0, hr_gs_selector = 0, hr_tr_selector = 0,
      hr_fs_base_addr = 0, hr_gs_base_addr = 0, hr_tr_base_addr = 0, hr_gdtr_base_addr = 0, hr_idtr_base_addr = 0,
      hr_ia32_sys_enter_cs = 0, hr_ia32_sys_enter_esp = 0, hr_ia32_sys_enter_eip = 0, hr_ia32_perf_global_ctrl = 0,
      hr_ia32_pat = 0, hr_ia32_efer = 0\<rparr>"

definition guest_zero :: hb_vm_guest_register where
  "guest_zero =
     \<lparr>gr_cr0 = 0, gr_cr3 = 0, gr_cr4 = 0, gr_dr7 = 0, gr_rsp = 0, gr_rip = 0, gr_rflags = 0,
      gr_cs_selector = 0, gr_ss_selector = 0, gr_ds_selector = 0, gr_es_selector = 0, gr_fs_selector = 0,
      gr_gs_selector = 0, gr_ldtr_selector = 0, gr_tr_selector = 0, gr_cs_base_addr = 0, gr_ss_base_addr = 0,
      gr_ds_base_addr = 0, gr_es_base_addr = 0, gr_fs_base_addr = 0, gr_gs_base_addr = 0, gr_ldtr_base_addr = 0,
      gr_tr_base_addr = 0, gr_cs_limit = 0, gr_ss_limit = 0, gr_ds_limit = 0, gr_es_limit = 0, gr_fs_limit = 0,
      gr_gs_limit = 0, gr_ldtr_limit = 0, gr_tr_limit = 0, gr_cs_access = 0, gr_ss_access = 0, gr_ds_access = 0,
      gr_es_access = 0, gr_fs_access = 0, gr_gs_access = 0, gr_ldtr_access = 0, gr_tr_access = 0,
      gr_gdtr_base_addr = 0, gr_idtr_base_addr = 0, gr_gdtr_limit = 0, gr_idtr_limit = 0, gr_ia32_debug_ctrl = 0,
      gr_ia32_sys_enter_cs = 0, gr_ia32_sys_enter_esp = 0, gr_ia32_sys_enter_eip = 0, gr_vmcs_link_ptr = 0,
      gr_ia32_perf_global_ctrl = 0, gr_ia32_pat = 0, gr_ia32_efer = 0\<rparr>"

definition control_zero :: hb_vm_control_register where
  "control_zero =
     \<lparr>cr_pin_based_ctrl = 0, cr_pri_proc_based_ctrl = 0, cr_sec_proc_based_ctrl = 0, cr_except_bitmap = 0,
      cr_io_bitmap_addrA = 0, cr_io_bitmap_addrB = 0, cr_ept_ptr = 0, cr_msr_bitmap_addr = 0,
      cr_vm_entry_ctrl_field = 0, cr_vm_exti_ctrl_field = 0, cr_virt_apic_page_addr = 0, cr_cr0_guest_host_mask = 0,
      cr_cr0_read_shadow = 0, cr_cr4_guest_host_mask = 0, cr_cr4_read_shadow = 0, cr_vmread_bitmap_addr = 0,
      cr_vmwrite_bitmap_addr = 0\<rparr>"

text \<open>\<open>hb_vm_launch\<close> (asm_helper.asm): the guest continues at the return address of the call, on the same stack.
  \<open>launch\<close> is the outcome of VMLAUNCH: 0, -1 or -2.\<close>

definition hb_vm_launch :: "vm_env \<Rightarrow> int \<Rightarrow> u64 \<Rightarrow> u64 \<Rightarrow> vm \<Rightarrow> int \<times> vm" where
  "hb_vm_launch env launch rsp_value rip_value s =
     (let s = hb_write_vmcs env VM_GUEST_RSP rsp_value s;
          s = hb_write_vmcs env VM_GUEST_RIP rip_value s
      in (launch, if launch = 0 then s\<lparr>vs_launched := (vs_launched s)(vs_current s := True)\<rparr> else s))"

text \<open>The set-up of a core in \<open>hb_vm_thread\<close>, up to the launch.\<close>

definition setup_core ::
  "vm_env \<Rightarrow> (u64 \<Rightarrow> u32 \<Rightarrow> bool) \<Rightarrow> vmcs_memory \<Rightarrow> desc_ptr \<Rightarrow> u64 \<Rightarrow> nat \<Rightarrow> support \<Rightarrow> cpu \<times> vm \<Rightarrow>
     (int \<times> support \<times> cpu \<times> vm) option" where
  "setup_core env vmxon_ok vp host_idtr ept_pml4 cpu_id su cs = do {
     (r, c, s) \<leftarrow> hb_init_vmx env vmxon_ok su vp cpu_id cs;
     if r < 0 then Some (-1, su, c, s)
     else do {
       s \<leftarrow> on_prot (on_ept (hb_protect_gdt (ve_kernel env) (cpu_idtr c))) s;
       let (host, s) = hb_setup_vm_host_register env vp host_idtr cpu_id c host_zero s;
       (guest, s) \<leftarrow> hb_setup_vm_guest_register env cpu_id c host guest_zero s;
       let (ctrl, su, s) = hb_setup_vm_control_register env vp ept_pml4 cpu_id su control_zero s;
       Some (0, su, c, hb_setup_vmcs env su host guest ctrl s)
     }
   }"

section \<open>Fields after the set-up\<close>

lemma write_all_select [simp]:
  "vs_current (write_all env ws s) = vs_current s" "vs_mem (write_all env ws s) = vs_mem s"
  "vs_msr (write_all env ws s) = vs_msr s" "vs_launched (write_all env ws s) = vs_launched s"
  "vs_dr (write_all env ws s) = vs_dr s" "g_nested_vmcs_ptr (write_all env ws s) = g_nested_vmcs_ptr s"
  by (induction ws arbitrary: s) (auto simp: write_all_def)

lemma write_all_ok [simp]: "vm_ok env (write_all env ws s) = vm_ok env s"
  by (simp add: vm_ok_def)

text \<open>The last write of a field counts.\<close>

lemma write_all_field:
  assumes "vm_ok env s" "set (map fst ws) \<subseteq> set vmcs_state_fields"
  shows "vm_field (write_all env ws s) f =
    (case map_of (rev ws) f of Some v \<Rightarrow> take_bit (field_width f) v | None \<Rightarrow> vm_field s f)"
  using assms
proof (induction ws rule: rev_induct)
  case (snoc w ws)
  obtain g v where w: "w = (g, v)" by (cases w)
  have ok: "vm_ok env (write_all env ws s)" "hw_writable env g"
    using snoc.prems sdm_member(2) by (auto simp: w vm_ok_def)
  have "write_all env (ws @ [w]) s = hb_write_vmcs env g v (write_all env ws s)" by (simp add: write_all_def w)
  then show ?case using snoc write_field [OF ok] write_field_other [of f g] by (cases "f = g") (auto simp: w)
qed (simp add: write_all_def)

lemma writes_named:
  "set (map fst (host_writes host)) \<subseteq> set vmcs_state_fields" "set (map fst (guest_writes guest v)) \<subseteq> set vmcs_state_fields"
  "set (map fst (control_writes ctrl)) \<subseteq> set vmcs_state_fields"
  by (simp_all add: host_writes_def guest_writes_def control_writes_def vmcs_state_fields_def)


lemmas setup_field_defs =
  VM_HOST_CR0_def VM_HOST_CR3_def VM_HOST_CR4_def VM_HOST_RSP_def VM_HOST_RIP_def VM_HOST_CS_SELECTOR_def
  VM_HOST_SS_SELECTOR_def VM_HOST_DS_SELECTOR_def VM_HOST_ES_SELECTOR_def VM_HOST_FS_SELECTOR_def
  VM_HOST_GS_SELECTOR_def VM_HOST_TR_SELECTOR_def VM_HOST_FS_BASE_def VM_HOST_GS_BASE_def VM_HOST_TR_BASE_def
  VM_HOST_GDTR_BASE_def VM_HOST_IDTR_BASE_def VM_HOST_IA32_SYSENTER_CS_def VM_HOST_IA32_SYSENTER_ESP_def
  VM_HOST_IA32_SYSENTER_EIP_def VM_HOST_PERF_GLOBAL_CTRL_def VM_HOST_PAT_def VM_HOST_EFER_def VM_GUEST_CR0_def
  VM_GUEST_CR3_def VM_GUEST_CR4_def VM_GUEST_DR7_def VM_GUEST_RSP_def VM_GUEST_RIP_def VM_GUEST_RFLAGS_def
  VM_GUEST_CS_SELECTOR_def VM_GUEST_SS_SELECTOR_def VM_GUEST_DS_SELECTOR_def VM_GUEST_ES_SELECTOR_def
  VM_GUEST_FS_SELECTOR_def VM_GUEST_GS_SELECTOR_def VM_GUEST_LDTR_SELECTOR_def VM_GUEST_TR_SELECTOR_def
  VM_GUEST_CS_BASE_def VM_GUEST_SS_BASE_def VM_GUEST_DS_BASE_def VM_GUEST_ES_BASE_def VM_GUEST_FS_BASE_def
  VM_GUEST_GS_BASE_def VM_GUEST_LDTR_BASE_def VM_GUEST_TR_BASE_def VM_GUEST_CS_LIMIT_def VM_GUEST_SS_LIMIT_def
  VM_GUEST_DS_LIMIT_def VM_GUEST_ES_LIMIT_def VM_GUEST_FS_LIMIT_def VM_GUEST_GS_LIMIT_def VM_GUEST_LDTR_LIMIT_def
  VM_GUEST_TR_LIMIT_def VM_GUEST_CS_ACC_RIGHT_def VM_GUEST_SS_ACC_RIGHT_def VM_GUEST_DS_ACC_RIGHT_def
  VM_GUEST_ES_ACC_RIGHT_def VM_GUEST_FS_ACC_RIGHT_def VM_GUEST_GS_ACC_RIGHT_def VM_GUEST_LDTR_ACC_RIGHT_def
  VM_GUEST_TR_ACC_RIGHT_def VM_GUEST_GDTR_BASE_def VM_GUEST_IDTR_BASE_def VM_GUEST_GDTR_LIMIT_def
  VM_GUEST_IDTR_LIMIT_def VM_GUEST_DEBUGCTL_def VM_GUEST_IA32_SYSENTER_CS_def VM_GUEST_IA32_SYSENTER_ESP_def
  VM_GUEST_IA32_SYSENTER_EIP_def VM_GUEST_PERF_GLOBAL_CTRL_def VM_GUEST_PAT_def VM_GUEST_EFER_def VM_VMCS_LINK_PTR_def
  VM_GUEST_INT_STATE_def VM_GUEST_ACTIVITY_STATE_def VM_GUEST_SMBASE_def VM_GUEST_PENDING_DBG_EXCEPTS_def
  VM_GUEST_VMX_PRE_TIMER_VALUE_def VM_CTRL_PIN_BASED_VM_EXE_CTRL_def VM_CTRL_PRI_PROC_BASED_EXE_CTRL_def
  VM_CTRL_SEC_PROC_BASED_EXE_CTRL_def VM_CTRL_EXCEPTION_BITMAP_def VM_CTRL_IO_BITMAP_A_ADDR_def
  VM_CTRL_IO_BITMAP_B_ADDR_def VM_CTRL_EPT_PTR_def VM_CTRL_MSR_BITMAPS_def VM_CTRL_VMREAD_BITMAP_ADDR_def
  VM_CTRL_VMWRITE_BITMAP_ADDR_def VM_CTRL_VM_ENTRY_CTRLS_def VM_CTRL_VM_EXIT_CTRLS_def VM_CTRL_VIRTUAL_APIC_ADDR_def
  VM_CTRL_CR0_GUEST_HOST_MASK_def VM_CTRL_CR4_GUEST_HOST_MASK_def VM_CTRL_CR0_READ_SHADOW_def
  VM_CTRL_CR4_READ_SHADOW_def VM_CTRL_CR3_TARGET_VALUE_0_def VM_CTRL_CR3_TARGET_VALUE_1_def
  VM_CTRL_CR3_TARGET_VALUE_2_def VM_CTRL_CR3_TARGET_VALUE_3_def VM_CTRL_PAGE_FAULT_ERR_CODE_MASK_def
  VM_CTRL_PAGE_FAULT_ERR_CODE_MATCH_def VM_CTRL_CR3_TARGET_COUNT_def VM_CTRL_VM_EXIT_MSR_STORE_COUNT_def
  VM_CTRL_VM_EXIT_MSR_LOAD_COUNT_def VM_CTRL_VM_EXIT_MSR_LOAD_ADDR_def VM_CTRL_VM_ENTRY_INT_INFO_FIELD_def
  VM_CTRL_VM_ENTRY_EXCEPT_ERR_CODE_def VM_CTRL_VM_ENTRY_INST_LENGTH_def VM_CTRL_VM_ENTRY_MSR_LOAD_COUNT_def
  VM_CTRL_VM_ENTRY_MSR_LOAD_ADDR_def VM_CTRL_TPR_THRESHOLD_def VM_CTRL_EXECUTIVE_VMCS_PTR_def VM_CTRL_TSC_OFFSET_def
  VM_CTRL_VIRTUAL_PROCESS_ID_def

definition setup_value ::
  "support \<Rightarrow> hb_vm_host_register \<Rightarrow> hb_vm_guest_register \<Rightarrow> u64 \<Rightarrow> hb_vm_control_register \<Rightarrow> u64 \<Rightarrow> u64 option" where
  "setup_value su host guest v ctrl =
     map_of (rev (host_writes host)) ++ map_of (rev (guest_writes guest v)) ++
     (if g_support_vpid su = 1 then [VM_CTRL_VIRTUAL_PROCESS_ID \<mapsto> 0xFFFF] else Map.empty) ++ map_of (rev (control_writes ctrl))"

lemma hb_setup_vmcs_field:
  assumes "vm_ok env s"
  shows "\<exists>v. \<forall>f. vm_field (hb_setup_vmcs env su host guest ctrl s) f =
    (case setup_value su host guest v ctrl f of Some x \<Rightarrow> take_bit (field_width f) x | None \<Rightarrow> vm_field s f)"
proof -
  let ?s1 = "write_all env (host_writes host) s"
  let ?v = "hb_calc_vm_pre_timer_value env ?s1"
  let ?s2 = "write_all env (guest_writes guest ?v) ?s1"
  let ?s3 = "if g_support_vpid su = 1 then hb_write_vmcs env VM_CTRL_VIRTUAL_PROCESS_ID 0xFFFF ?s2 else ?s2"
  have ok: "vm_ok env ?s1" "vm_ok env ?s2" "vm_ok env ?s3" using assms by (simp_all add: vm_ok_def)
  have w: "hw_writable env VM_CTRL_VIRTUAL_PROCESS_ID"
    using assms sdm_member(2) by (simp add: vm_ok_def vmcs_state_fields_def)
  have f3: "vm_field ?s3 f = (if g_support_vpid su = 1 \<and> f = VM_CTRL_VIRTUAL_PROCESS_ID
      then take_bit (field_width f) 0xFFFF else vm_field ?s2 f)" for f
    using write_field [OF ok(2) w] by simp
  have "vm_field (hb_setup_vmcs env su host guest ctrl s) f =
      (case setup_value su host guest ?v ctrl f of Some x \<Rightarrow> take_bit (field_width f) x | None \<Rightarrow> vm_field s f)" for f
    unfolding hb_setup_vmcs_def Let_def write_all_field [OF ok(3) writes_named(3)] f3 write_all_field [OF ok(1) writes_named(2)]
      write_all_field [OF assms writes_named(1)]
    by (auto simp: setup_value_def map_add_def split: option.split)
  then show ?thesis by blast
qed

lemma setup_values:
  "setup_value su host guest v ctrl VM_GUEST_CR0 = Some (gr_cr0 guest)"
  "setup_value su host guest v ctrl VM_GUEST_CR4 = Some (gr_cr4 guest)"
  "setup_value su host guest v ctrl VM_GUEST_DR7 = Some (gr_dr7 guest)"
  "setup_value su host guest v ctrl VM_VMCS_LINK_PTR = Some (gr_vmcs_link_ptr guest)"
  "setup_value su host guest v ctrl VM_HOST_CR3 = Some (hr_cr3 host)"
  "setup_value su host guest v ctrl VM_HOST_RIP = Some (hr_rip host)"
  "setup_value su host guest v ctrl VM_HOST_RSP = Some (hr_rsp host)"
  "setup_value su host guest v ctrl VM_CTRL_CR0_GUEST_HOST_MASK = Some (cr_cr0_guest_host_mask ctrl)"
  "setup_value su host guest v ctrl VM_CTRL_CR4_GUEST_HOST_MASK = Some (cr_cr4_guest_host_mask ctrl)"
  "setup_value su host guest v ctrl VM_CTRL_CR0_READ_SHADOW = Some (cr_cr0_read_shadow ctrl)"
  "setup_value su host guest v ctrl VM_CTRL_CR4_READ_SHADOW = Some (cr_cr4_read_shadow ctrl)"
  "setup_value su host guest v ctrl VM_CTRL_SEC_PROC_BASED_EXE_CTRL = Some (cr_sec_proc_based_ctrl ctrl)"
  "setup_value su host guest v ctrl VM_CTRL_EPT_PTR = Some (cr_ept_ptr ctrl)"
  "setup_value su host guest v ctrl VM_CTRL_EXCEPTION_BITMAP = Some (cr_except_bitmap ctrl)"
  "setup_value su host guest v ctrl VM_CTRL_VMREAD_BITMAP_ADDR = Some (cr_vmread_bitmap_addr ctrl)"
  "setup_value su host guest v ctrl VM_CTRL_VMWRITE_BITMAP_ADDR = Some (cr_vmwrite_bitmap_addr ctrl)"
  by (simp_all add: setup_value_def map_add_def host_writes_def guest_writes_def control_writes_def setup_field_defs)


section \<open>The core that is launched\<close>

lemma init_vmx_result:
  assumes "hb_init_vmx env vmxon_ok su vp cpu_id (c, s) = Some (r, c', s')"
  defines "G \<equiv> virt_to_phys (ve_kernel env) (g_guest_vmcs_log_addr vp cpu_id)"
  shows "r = 0 \<or> r = -1" "cpu_cr4 c' = cpu_cr4 c OR CR4_BIT_VMXE OR (if g_support_smx su \<noteq> 0 then CR4_BIT_SMXE else 0)"
    and "c' = c\<lparr>cpu_cr4 := cpu_cr4 c'\<rparr>" "r = 0 \<Longrightarrow> vs_current s' = G \<and> \<not> vs_launched s' G"
    and "vs_msr s' = vs_msr s" "vs_mem s' = vs_mem s"
proof -
  have or: "(x :: u64) OR y OR z OR y = x OR y OR z" "(x :: u64) OR y OR y = x OR y" for x y z
    by (metis or.assoc or.commute or.idem)+
  show "r = 0 \<or> r = -1" "cpu_cr4 c' = cpu_cr4 c OR CR4_BIT_VMXE OR (if g_support_smx su \<noteq> 0 then CR4_BIT_SMXE else 0)"
    "c' = c\<lparr>cpu_cr4 := cpu_cr4 c'\<rparr>" "r = 0 \<Longrightarrow> vs_current s' = G \<and> \<not> vs_launched s' G"
    "vs_msr s' = vs_msr s" "vs_mem s' = vs_mem s"
    using assms
    by (auto simp: hb_init_vmx_def Let_def hb_clear_vmcs_def hb_load_vmcs_def hb_vm_error_log_def or or.assoc split: if_splits)
qed

lemma setup_select [simp]:
  "vs_current (mem_clear p n s) = vs_current s" "vs_msr (mem_clear p n s) = vs_msr s" "vs_launched (mem_clear p n s) = vs_launched s"
  "vs_current (hb_vm_set_vmread_vmwrite_bitmap r f s) = vs_current s" "vs_msr (hb_vm_set_vmread_vmwrite_bitmap r f s) = vs_msr s"
  "vs_launched (hb_vm_set_vmread_vmwrite_bitmap r f s) = vs_launched s"
  by (simp_all add: mem_clear_def hb_vm_set_vmread_vmwrite_bitmap_def Let_def)

lemma breakpoints_select:
  "setup_breakpoints env cpu_id s = Some s' \<Longrightarrow> vs_current s' = vs_current s \<and> vs_msr s' = vs_msr s \<and> vs_mem s' = vs_mem s \<and>
     vs_launched s' = vs_launched s"
  by (auto simp: setup_breakpoints_def set_debugreg_def Let_def split: bind_splits)

lemma host_register:
  assumes "hb_setup_vm_host_register env vp idtr cpu_id c r s = (host, s')"
  shows "hr_cr0 host = cpu_cr0 c" "hr_cr4 host = cpu_cr4 c" "hr_cr3 host = g_vm_host_phy_pml4 env"
    and "hr_rip host = hb_vm_exit_callback_stub env" "hr_rsp host = vp_vm_exit_stack_addr vp cpu_id + g_stack_size env - VAL_4KB"
    and "s' = mem_clear (vp_vm_exit_stack_addr vp cpu_id) (g_stack_size env) s"
  using assms by (auto simp: hb_setup_vm_host_register_def Let_def)

lemma guest_register:
  assumes "hb_setup_vm_guest_register env cpu_id c host r s = Some (guest, s')"
  shows "gr_cr0 guest = hr_cr0 host" "gr_cr4 guest = hr_cr4 host" "gr_dr7 guest = dr7_all"
    and "gr_vmcs_link_ptr guest = 0xFFFFFFFFFFFFFFFF" "setup_breakpoints env cpu_id s = Some s'"
  using assms by (auto simp: hb_setup_vm_guest_register_def guest_segments_def Let_def split: bind_splits)

lemma control_register:
  assumes "hb_setup_vm_control_register env vp pml4 cpu_id su r s = (ctrl, su', s')"
  shows "cr_cr0_guest_host_mask ctrl = CR0_BIT_WP" "cr_cr0_read_shadow ctrl = CR0_BIT_WP"
    and "cr_cr4_guest_host_mask ctrl = CR4_BIT_VMXE OR CR4_BIT_SMEP OR CR4_BIT_MCE"
    and "cr_cr4_read_shadow ctrl = CR4_BIT_VMXE OR CR4_BIT_SMEP"
    and "cr_sec_proc_based_ctrl ctrl =
      (hb_rdmsr (ucast MSR_IA32_VMX_PROCBASED_CTLS2) s OR fst (sec_proc_flags su s)) AND 0xFFFFFFFF"
    and "cr_vmread_bitmap_addr ctrl = virt_to_phys (ve_kernel env) (g_vmread_bitmap_addr vp cpu_id)"
    and "cr_vmwrite_bitmap_addr ctrl = virt_to_phys (ve_kernel env) (g_vmwrite_bitmap_addr vp cpu_id)"
    and "cr_ept_ptr ctrl = virt_to_phys (ve_kernel env) pml4 OR VM_BIT_EPT_PAGE_WALK_LENGTH_BITMAP OR VM_BIT_EPT_MEM_TYPE_WB"
    and "vs_current s' = vs_current s" "vs_launched s' = vs_launched s" "vs_msr s' = vs_msr s"
  using assms by (auto simp: hb_setup_vm_control_register_def Let_def split: prod.splits)


lemma rdmsr_ucast: "hb_rdmsr (ucast (m :: u32)) s = vs_msr s m"
proof -
  have "(ucast (ucast m :: u64) :: u32) = m" by (rule bit_word_eqI) (simp add: bit_simps)
  then show ?thesis by (simp add: hb_rdmsr_def)
qed

lemma setup_core_steps:
  assumes "setup_core env vmxon_ok vp idtr pml4 cpu_id su (c, s) = Some (0, su', c', s')"
  obtains s1 s2 host s3 guest s4 ctrl s5 where
    "hb_init_vmx env vmxon_ok su vp cpu_id (c, s) = Some (0, c', s1)"
    "on_prot (on_ept (hb_protect_gdt (ve_kernel env) (cpu_idtr c'))) s1 = Some s2"
    "hb_setup_vm_host_register env vp idtr cpu_id c' host_zero s2 = (host, s3)"
    "hb_setup_vm_guest_register env cpu_id c' host guest_zero s3 = Some (guest, s4)"
    "hb_setup_vm_control_register env vp pml4 cpu_id su control_zero s4 = (ctrl, su', s5)"
    "s' = hb_setup_vmcs env su' host guest ctrl s5"
proof -
  obtain r c1 s1 where i: "hb_init_vmx env vmxon_ok su vp cpu_id (c, s) = Some (r, c1, s1)"
    using assms by (auto simp: setup_core_def split: bind_splits)
  then have "r = 0" using assms init_vmx_result(1) [OF i] by (auto simp: setup_core_def)
  with i assms that show ?thesis by (fastforce simp: setup_core_def split: bind_splits prod.splits)
qed

text \<open>The fields that matter for the protection, in the VMCS of a core that is ready to be launched.\<close>

lemma setup_core_fields:
  assumes run: "setup_core env vmxon_ok vp idtr pml4 cpu_id su (c, s) = Some (0, su', c', s')"
    and env: "sdm_fields env" "G = virt_to_phys (ve_kernel env) (g_guest_vmcs_log_addr vp cpu_id)" "G \<noteq> NO_VMCS"
  shows "vs_current s' = G" "\<not> vs_launched s' G" "vm_field s' VM_GUEST_CR0 = cpu_cr0 c" "vm_field s' VM_GUEST_CR4 = cpu_cr4 c'"
    and "vm_field s' VM_CTRL_CR0_GUEST_HOST_MASK = CR0_BIT_WP"
    and "vm_field s' VM_CTRL_CR4_GUEST_HOST_MASK = CR4_BIT_VMXE OR CR4_BIT_SMEP OR CR4_BIT_MCE"
    and "vm_field s' VM_HOST_CR3 = g_vm_host_phy_pml4 env" "vm_field s' VM_HOST_RIP = hb_vm_exit_callback_stub env"
    and "vm_field s' VM_CTRL_SEC_PROC_BASED_EXE_CTRL =
      take_bit 32 (vs_msr s MSR_IA32_VMX_PROCBASED_CTLS2 OR fst (sec_proc_flags su s))"
    and "vm_field s' VM_CTRL_EPT_PTR = virt_to_phys (ve_kernel env) pml4 OR VM_BIT_EPT_PAGE_WALK_LENGTH_BITMAP OR VM_BIT_EPT_MEM_TYPE_WB"
proof -
  obtain s1 s2 host s3 guest s4 ctrl s5 where st: "hb_init_vmx env vmxon_ok su vp cpu_id (c, s) = Some (0, c', s1)"
      "on_prot (on_ept (hb_protect_gdt (ve_kernel env) (cpu_idtr c'))) s1 = Some s2"
      "hb_setup_vm_host_register env vp idtr cpu_id c' host_zero s2 = (host, s3)"
      "hb_setup_vm_guest_register env cpu_id c' host guest_zero s3 = Some (guest, s4)"
      "hb_setup_vm_control_register env vp pml4 cpu_id su control_zero s4 = (ctrl, su', s5)"
      "s' = hb_setup_vmcs env su' host guest ctrl s5" using setup_core_steps [OF run] .
  note i = init_vmx_result [OF st(1)] and h = host_register [OF st(3)] and g = guest_register [OF st(4)]
    and k = control_register [OF st(5)]
  have s2: "vs_current s2 = G" "\<not> vs_launched s2 G" "vs_msr s2 = vs_msr s"
    using st(2) i(4,5) env(2) by (auto simp: on_prot_def)
  have s4: "vs_current s4 = G" "\<not> vs_launched s4 G" "vs_msr s4 = vs_msr s"
    using breakpoints_select [OF g(5)] s2 h(6) by auto
  have s5: "vs_current s5 = G" "\<not> vs_launched s5 G" using k(9,10) s4 by simp_all
  have ok: "vm_ok env s5" using env(1,3) s5 by (simp add: vm_ok_def)
  obtain v where f: "vm_field s' f = (case setup_value su' host guest v ctrl f of
      Some x \<Rightarrow> take_bit (field_width f) x | None \<Rightarrow> vm_field s5 f)" for f
    using hb_setup_vmcs_field [OF ok] unfolding st(6) by blast
  show "vs_current s' = G" "\<not> vs_launched s' G"
    using s5 unfolding st(6) by (simp_all add: hb_setup_vmcs_def Let_def)
  have c: "cpu_cr0 c' = cpu_cr0 c" using i(3) by (metis cpu.select_convs(1) cpu.surjective cpu.update_convs(3))
  have w: "field_width VM_CTRL_CR0_GUEST_HOST_MASK = 64" "field_width VM_CTRL_CR4_GUEST_HOST_MASK = 64" "field_width VM_CTRL_EPT_PTR = 64"
    by (simp_all add: field_width_def hb_consts)
  show "vm_field s' VM_GUEST_CR0 = cpu_cr0 c" "vm_field s' VM_GUEST_CR4 = cpu_cr4 c'"
    "vm_field s' VM_CTRL_CR0_GUEST_HOST_MASK = CR0_BIT_WP"
    "vm_field s' VM_CTRL_CR4_GUEST_HOST_MASK = CR4_BIT_VMXE OR CR4_BIT_SMEP OR CR4_BIT_MCE"
    "vm_field s' VM_HOST_CR3 = g_vm_host_phy_pml4 env" "vm_field s' VM_HOST_RIP = hb_vm_exit_callback_stub env"
    "vm_field s' VM_CTRL_EPT_PTR = virt_to_phys (ve_kernel env) pml4 OR VM_BIT_EPT_PAGE_WALK_LENGTH_BITMAP OR VM_BIT_EPT_MEM_TYPE_WB"
    unfolding f setup_values by (simp_all add: take_bit_64 w g h k c)
  have "sec_proc_flags su s4 = sec_proc_flags su s" by (simp add: sec_proc_flags_def sec_allowed_def rdmsr_ucast s4(3))
  then show "vm_field s' VM_CTRL_SEC_PROC_BASED_EXE_CTRL =
      take_bit 32 (vs_msr s MSR_IA32_VMX_PROCBASED_CTLS2 OR fst (sec_proc_flags su s))"
    unfolding f setup_values by (simp add: k(5) mask32_take_bit rdmsr_ucast s4(3))
qed


section \<open>Properties\<close>

text \<open>C3: A core whose CR0.WP and CR4.SMEP are set, as Linux sets them, is launched with guarded control registers once
  the thread has cleared CR4.MCE: the guest/host masks make exactly the guarded bits trap, and in every state that is reached from
  there by the exits of all processors, CR0.WP, CR4.VMXE and CR4.SMEP of this core are set and CR4.MCE is clear, as long as no processor takes an
  exit while its nested VMCS pointer is the VMCS of this core. The set-up is one that came to its end: VMXON did not fault.\<close>

theorem core_starts_guarded:
  assumes "setup_core env vmxon_ok vp idtr pml4 cpu_id su (c\<lparr>cpu_cr4 := cpu_cr4 c AND NOT CR4_BIT_MCE\<rparr>, s) = Some (0, su', c', s')"
    and "sdm_fields env" "G = virt_to_phys (ve_kernel env) (g_guest_vmcs_log_addr vp cpu_id)" "G \<noteq> NO_VMCS"
    and "bit (cpu_cr0 c) 16" "bit (cpu_cr4 c) 20"
  shows "vs_current s' = G \<and> (\<forall>k. bit (vm_field s' VM_CTRL_CR0_GUEST_HOST_MASK) k \<longleftrightarrow> k = 16) \<and>
    (\<forall>k. bit (vm_field s' VM_CTRL_CR4_GUEST_HOST_MASK) k \<longleftrightarrow> k \<in> {6, 13, 20}) \<and>
    (\<forall>t. vm_reachable env G (\<lambda>t c. g_nested_vmcs_ptr t c \<noteq> G) s' t \<longrightarrow>
      cr_guarded (vs_vmcs t G VM_GUEST_CR0) (vs_vmcs t G VM_GUEST_CR4))"
proof -
  note f = setup_core_fields [OF assms(1-4)]
  obtain s1 where "hb_init_vmx env vmxon_ok su vp cpu_id (c\<lparr>cpu_cr4 := cpu_cr4 c AND NOT CR4_BIT_MCE\<rparr>, s) = Some (0, c', s1)"
    using setup_core_steps [OF assms(1)] by metis
  note cr4 = init_vmx_result(2) [OF this]
  have smx: "CR4_BIT_SMXE = 2 ^ 14" by (simp add: hb_consts)
  have "bit CR4_BIT_SMXE k \<longleftrightarrow> k = 14" for k unfolding smx bit_pow2 by auto
  then have "cr_guarded (cpu_cr0 c) (cpu_cr4 c')"
    unfolding cr4 cr_guarded_def using assms(5,6) by (auto simp: bit_simps cr_bits)
  moreover have masks: "bit CR0_BIT_WP k \<longleftrightarrow> k = 16" "bit (CR4_BIT_VMXE OR CR4_BIT_SMEP OR CR4_BIT_MCE) k \<longleftrightarrow> k \<in> {6, 13, 20}" for k
    by (auto simp: bit_simps cr_bits)
  moreover from masks have "cr_masked CR0_BIT_WP (CR4_BIT_VMXE OR CR4_BIT_SMEP OR CR4_BIT_MCE)" by (simp add: cr_masked_def)
  ultimately have "guard G s'" using f(1,3-6) by (simp add: guard_def vm_field_def)
  then have "cr_guarded (vs_vmcs t G VM_GUEST_CR0) (vs_vmcs t G VM_GUEST_CR4)"
    if "vm_reachable env G (\<lambda>t c. g_nested_vmcs_ptr t c \<noteq> G) s' t" for t
    using guard_reachable [OF that] by (simp add: guard_def)
  then show ?thesis using f(1) masks unfolding f(5,6) by blast
qed

text \<open>The secondary controls.\<close>

lemma sec_bits:
  "bit VM_BIT_VM_SEC_PROC_CTRL_USE_EPT k \<longleftrightarrow> k = 1" "bit VM_BIT_VM_SEC_PROC_CTRL_UNREST_GUEST k \<longleftrightarrow> k = 7"
  "bit VM_BIT_VM_SEC_PROC_CTRL_ENABLE_RDTSCP k \<longleftrightarrow> k = 3" "bit VM_BIT_VM_SEC_PROC_CTRL_ENABLE_VPID k \<longleftrightarrow> k = 5"
  "bit VM_BIT_VM_SEC_PROC_CTRL_ENABLE_INVPCID k \<longleftrightarrow> k = 12" "bit VM_BIT_VM_SEC_PROC_CTRL_VMCS_SHADOWING k \<longleftrightarrow> k = 14"
  "bit VM_BIT_VM_SEC_PROC_CTRL_ENABLE_XSAVE k \<longleftrightarrow> k = 20"
proof -
  have eqs: "VM_BIT_VM_SEC_PROC_CTRL_USE_EPT = 2 ^ 1" "VM_BIT_VM_SEC_PROC_CTRL_UNREST_GUEST = 2 ^ 7"
    "VM_BIT_VM_SEC_PROC_CTRL_ENABLE_RDTSCP = 2 ^ 3" "VM_BIT_VM_SEC_PROC_CTRL_ENABLE_VPID = 2 ^ 5"
    "VM_BIT_VM_SEC_PROC_CTRL_ENABLE_INVPCID = 2 ^ 12" "VM_BIT_VM_SEC_PROC_CTRL_VMCS_SHADOWING = 2 ^ 14"
    "VM_BIT_VM_SEC_PROC_CTRL_ENABLE_XSAVE = 2 ^ 20" by (simp_all add: hb_consts)
  show "bit VM_BIT_VM_SEC_PROC_CTRL_USE_EPT k \<longleftrightarrow> k = 1" "bit VM_BIT_VM_SEC_PROC_CTRL_UNREST_GUEST k \<longleftrightarrow> k = 7"
    "bit VM_BIT_VM_SEC_PROC_CTRL_ENABLE_RDTSCP k \<longleftrightarrow> k = 3" "bit VM_BIT_VM_SEC_PROC_CTRL_ENABLE_VPID k \<longleftrightarrow> k = 5"
    "bit VM_BIT_VM_SEC_PROC_CTRL_ENABLE_INVPCID k \<longleftrightarrow> k = 12" "bit VM_BIT_VM_SEC_PROC_CTRL_VMCS_SHADOWING k \<longleftrightarrow> k = 14"
    "bit VM_BIT_VM_SEC_PROC_CTRL_ENABLE_XSAVE k \<longleftrightarrow> k = 20"
    unfolding eqs bit_pow2 by auto
qed

lemma sec_allowed_bit:
  assumes "\<And>k. bit flag k \<longleftrightarrow> k = n"
  shows "sec_allowed flag s \<longleftrightarrow> bit (vs_msr s MSR_IA32_VMX_PROCBASED_CTLS2) (32 + n)"
  unfolding sec_allowed_def rdmsr_ucast and_zero_iff using assms by (auto simp: bit_drop_bit_eq)

lemmas sec_allowed_bits = sec_allowed_bit [OF sec_bits(3)] sec_allowed_bit [OF sec_bits(4)] sec_allowed_bit [OF sec_bits(5)]
  sec_allowed_bit [OF sec_bits(6)] sec_allowed_bit [OF sec_bits(7)]

text \<open>C36: The secondary processor-based controls are legal on every processor with EPT and unrestricted guests: the control has
  every bit that the capability MSR requires (low half) and no bit that it does not allow (high half), turns EPT and
  unrestricted guest on, and turns on each optional feature exactly when the processor requires or allows it, so that
  the flag for VMCS shadowing tells the handlers the truth.\<close>

theorem sec_controls_legal:
  assumes "setup_core env vmxon_ok vp idtr pml4 cpu_id su (c, s) = Some (0, su', c', s')"
    and "sdm_fields env" "virt_to_phys (ve_kernel env) (g_guest_vmcs_log_addr vp cpu_id) \<noteq> NO_VMCS"
    and "cap = vs_msr s MSR_IA32_VMX_PROCBASED_CTLS2" "\<forall>k < 32. bit cap k \<longrightarrow> bit cap (32 + k)" "bit cap 33" "bit cap 39"
    and "ctl = vm_field s' VM_CTRL_SEC_PROC_BASED_EXE_CTRL" "su_vmcs_shadowing su = 0"
  shows "(\<forall>k < 32. bit cap k \<longrightarrow> bit ctl k) \<and> (\<forall>k. bit ctl k \<longrightarrow> k < 32 \<and> bit cap (32 + k)) \<and> bit ctl 1 \<and> bit ctl 7 \<and>
    (\<forall>k \<in> {3, 5, 12, 14}. bit ctl k \<longleftrightarrow> bit cap (32 + k)) \<and> (su_vmcs_shadowing su' = 1 \<longleftrightarrow> bit ctl 14)"
proof -
  note f = setup_core_fields [OF assms(1,2) refl assms(3)]
  have bits: "bit ctl k \<longleftrightarrow> k < 32 \<and> (bit cap k \<or> k = 1 \<or> k = 7 \<or> bit cap (32 + k) \<and> (k \<in> {3, 5, 12, 14} \<or> k = 20 \<and> g_support_xsave su = 1))"
    for k unfolding assms(4,8) f(9)
    by (auto simp: sec_proc_flags_def Let_def sec_allowed_bits bit_simps sec_bits)
  have sh: "su_vmcs_shadowing su' = 1 \<longleftrightarrow> bit cap (32 + 14)"
  proof -
    obtain s1 s2 host s3 guest s4 ctrl s5 where st: "hb_init_vmx env vmxon_ok su vp cpu_id (c, s) = Some (0, c', s1)"
      "on_prot (on_ept (hb_protect_gdt (ve_kernel env) (cpu_idtr c'))) s1 = Some s2"
      "hb_setup_vm_host_register env vp idtr cpu_id c' host_zero s2 = (host, s3)"
      "hb_setup_vm_guest_register env cpu_id c' host guest_zero s3 = Some (guest, s4)"
      "hb_setup_vm_control_register env vp pml4 cpu_id su control_zero s4 = (ctrl, su', s5)" using setup_core_steps [OF assms(1)] by metis
    have "vs_msr s4 = vs_msr s" using init_vmx_result(5) [OF st(1)] st(2) host_register(6) [OF st(3)]
        breakpoints_select [OF guest_register(5) [OF st(4)]] by (auto simp: on_prot_def)
    moreover have "su' = snd (sec_proc_flags su s4)"
      using st(5) by (auto simp: hb_setup_vm_control_register_def Let_def split: prod.splits)
    ultimately show ?thesis using assms(4,9) by (auto simp: sec_proc_flags_def Let_def sec_allowed_bits)
  qed
  note req = assms(5) [rule_format]
  show ?thesis using assms(5-7) req [of 3] req [of 5] req [of 12] req [of 14] unfolding bits sh by auto
qed


text \<open>The bitmaps for VMREAD and VMWRITE of a nested hypervisor.\<close>

lemma page_offset_inj:
  assumes "page_aligned p" "page_aligned q" "unat p + 4096 \<le> 2 ^ 64" "unat q + 4096 \<le> 2 ^ 64"
    and "unat x < 4096" "unat y < 4096" "p + x = q + y"
  shows "p = q \<and> x = y"
proof -
  have "p = q" using page_base_within [OF assms(1,3,5)] page_base_within [OF assms(2,4,6)] assms(7) by simp
  with assms(7) show ?thesis by simp
qed

lemma set_bitmap_bit:
  "bit (vs_mem (hb_vm_set_vmread_vmwrite_bitmap r f s) a) j \<longleftrightarrow> bit (vs_mem s a) j \<or>
     j = unat (f mod 8) \<and> (a = cr_vmread_bitmap_addr r + f div 8 \<or> a = cr_vmwrite_bitmap_addr r + f div 8)"
proof -
  have "unat (f mod 8) < 8" by (simp add: unat_mod)
  then have "bit (push_bit (unat (f mod 8)) 1 :: u8) j \<longleftrightarrow> j = unat (f mod 8)" by (auto simp: bit_simps)
  then show ?thesis by (auto simp: hb_vm_set_vmread_vmwrite_bitmap_def Let_def bit_or_iff)
qed

lemma field_byte_bit: "x < 0x8000 \<Longrightarrow> unat (x div 8) < 4096" "x div 8 = y div 8 \<Longrightarrow> unat (x mod 8) = unat (y mod 8) \<Longrightarrow> x = y"
  for x y :: u64
proof -
  show "unat (x div 8) < 4096" if "x < 0x8000" using that by (simp add: word_less_nat_alt unat_div)
  show "x = y" if "x div 8 = y div 8" "unat (x mod 8) = unat (y mod 8)"
    using that by (metis div_mult_mod_eq word_eq_iff_unsigned)
qed

text \<open>C39: After the set-up of the controls the bitmap for VMREAD and the one for VMWRITE have, over all field encodings, exactly the bits of
  the three host fields that the hypervisor virtualises for a nested hypervisor: HOST_RIP, HOST_RSP and HOST_CR3.\<close>

theorem shadow_bitmaps_exact:
  assumes "hb_setup_vm_control_register env vp pml4 cpu_id su r s = (ctrl, su', s')"
    and "page_aligned (g_vmread_bitmap_addr vp cpu_id)" "unat (g_vmread_bitmap_addr vp cpu_id) + 4096 \<le> 2 ^ 64"
    and "page_aligned (g_vmwrite_bitmap_addr vp cpu_id)" "unat (g_vmwrite_bitmap_addr vp cpu_id) + 4096 \<le> 2 ^ 64"
    and "bm = g_vmread_bitmap_addr vp cpu_id \<or> bm = g_vmwrite_bitmap_addr vp cpu_id" "x < 0x8000"
  shows "bit (vs_mem s' (bm + x div 8)) (unat (x mod 8)) \<longleftrightarrow> x \<in> {VM_HOST_RIP, VM_HOST_RSP, VM_HOST_CR3}"
proof -
  let ?r = "g_vmread_bitmap_addr vp cpu_id" and ?w = "g_vmwrite_bitmap_addr vp cpu_id"
  have al: "page_aligned bm" "unat bm + 4096 \<le> 2 ^ 64" using assms(2-6) by auto
  note ux = field_byte_bit(1) [OF assms(7)]
  have eq: "unat (x mod 8) = unat (g mod 8) \<and> (bm + x div 8 = ?r + g div 8 \<or> bm + x div 8 = ?w + g div 8) \<longleftrightarrow> x = g"
    if "g < 0x8000" for g
    using page_offset_inj [OF al(1) assms(2) al(2) assms(3) ux field_byte_bit(1) [OF that]]
      page_offset_inj [OF al(1) assms(4) al(2) assms(5) ux field_byte_bit(1) [OF that]] field_byte_bit(2) [of x g] assms(6) by auto
  have g: "VM_HOST_RIP < 0x8000" "VM_HOST_RSP < 0x8000" "VM_HOST_CR3 < 0x8000" by (simp_all add: hb_consts)
  obtain r' s1 where s1: "s' = hb_vm_set_vmread_vmwrite_bitmap r' VM_HOST_CR3 (hb_vm_set_vmread_vmwrite_bitmap r' VM_HOST_RSP
      (hb_vm_set_vmread_vmwrite_bitmap r' VM_HOST_RIP (mem_clear (g_virt_apic_page_addr vp cpu_id) VIRT_APIC_PAGE_SIZE
        (mem_clear ?w VMWRITE_BITMAP_SIZE (mem_clear ?r VMREAD_BITMAP_SIZE s1)))))"
      "cr_vmread_bitmap_addr r' = ?r" "cr_vmwrite_bitmap_addr r' = ?w"
    using assms(1) by (auto simp: hb_setup_vm_control_register_def Let_def split: prod.splits)
  have "x div 8 < 4096" using ux by (simp add: word_less_nat_alt)
  then have "\<not> bit (vs_mem (mem_clear (g_virt_apic_page_addr vp cpu_id) VIRT_APIC_PAGE_SIZE
        (mem_clear ?w VMWRITE_BITMAP_SIZE (mem_clear ?r VMREAD_BITMAP_SIZE s1))) (bm + x div 8)) j" for j
    using assms(6) by (auto simp: mem_clear_def hb_consts)
  then show ?thesis unfolding s1(1) set_bitmap_bit s1(2,3) using eq [OF g(1)] eq [OF g(2)] eq [OF g(3)] by blast
qed


section \<open>A concrete core\<close>

definition sample_cpu :: cpu where
  "sample_cpu = \<lparr>cpu_cr0 = 0x80010021, cpu_cr3 = 0x5000, cpu_cr4 = 0x100060, cpu_rflags = 2, cpu_cs = 0x10, cpu_ss = 0x18, cpu_ds = 0,
     cpu_es = 0, cpu_fs = 0, cpu_gs = 0, cpu_ldtr = 0, cpu_tr = 0x40,
     cpu_gdtr = \<lparr>dt_size = 0x7F, dt_address = 0xFFFFC90000200000\<rparr>, cpu_idtr = \<lparr>dt_size = 0xFFF, dt_address = 0xFFFFC90000100000\<rparr>\<rparr>"

definition sample_vp :: vmcs_memory where
  "sample_vp = \<lparr>g_vmx_on_vmcs_log_addr = \<lambda>_. 0x20000, g_guest_vmcs_log_addr = \<lambda>_. 0x10000, vp_guest_vmcs_phy_addr = \<lambda>_. 0x10000,
     vp_vm_exit_stack_addr = \<lambda>c. 0x800000 * of_nat (Suc c), g_io_bitmap_addrA = \<lambda>_. 0x30000, g_io_bitmap_addrB = \<lambda>_. 0x31000,
     g_msr_bitmap_addr = \<lambda>_. 0x32000, g_vmread_bitmap_addr = \<lambda>_. 0x33000, g_vmwrite_bitmap_addr = \<lambda>_. 0x34000,
     g_virt_apic_page_addr = \<lambda>_. 0x35000\<rparr>"

definition sample_support :: support where
  "sample_support = \<lparr>g_support_smx = 0, g_support_xsave = 0, g_support_vpid = 0, su_vmcs_shadowing = 0\<rparr>"

text \<open>A processor that allows VMXON, EPT, unrestricted guests, INVPCID and VMCS shadowing.\<close>

definition sample_msrs :: "u32 \<Rightarrow> u64" where
  "sample_msrs m = (if m = MSR_IA32_FEAT_CTL then 5 else if m = MSR_IA32_VMX_CR0_FIXED0 then 0x80000021
     else if m = MSR_IA32_VMX_CR4_FIXED0 then 0x2000 else if m = MSR_IA32_VMX_CR0_FIXED1 \<or> m = MSR_IA32_VMX_CR4_FIXED1 then - 1
     else 0x0000508200000000)"

definition sample_start :: vm where
  "sample_start = (sample_vm (\<lambda>_. 0) sample_monitor)\<lparr>vs_current := NO_VMCS, vs_msr := sample_msrs\<rparr>"

lemma sample_vmxon:
  assumes "vs_msr s = sample_msrs" "cpu_cr0 c = 0x80010021" "bit (cpu_cr4 c) 13"
  shows "vmxon_allowed c s"
proof -
  have m: "hb_rdmsr (ucast m) s = sample_msrs m" for m by (simp add: rdmsr_ucast assms(1))
  have "(0x80010021 :: u64) OR 0x80000021 = 0x80010021" by simp
  then have "bit (0x80000021 :: u64) k \<Longrightarrow> bit (0x80010021 :: u64) k" for k by (metis bit_or_iff)
  moreover have p: "(0x2000 :: u64) = 2 ^ 13" by simp
  have "bit (0x2000 :: u64) k \<Longrightarrow> k = 13" for k unfolding p bit_pow2 by simp
  moreover have "bit (- 1 :: u64) k" if "bit (w :: u64) k" for w k using bit_imp_le_length [OF that] by simp
  ultimately show ?thesis
    unfolding vmxon_allowed_def m assms(2)
    using assms(3) by (auto simp: sample_msrs_def feat_ctl_ok_def fixed_ok_def MSR_IA32_FEAT_CTL_def MSR_IA32_VMX_CR0_FIXED0_def
        MSR_IA32_VMX_CR0_FIXED1_def MSR_IA32_VMX_CR4_FIXED0_def MSR_IA32_VMX_CR4_FIXED1_def)
qed

lemma sample_core_runs:
  "\<exists>su' c' s'. setup_core sample_vm_env (\<lambda>_ _. True) sample_vp (cpu_idtr sample_cpu) 0x40000 0 sample_support
     (sample_cpu\<lparr>cpu_cr4 := x\<rparr>, sample_start) = Some (0, su', c', s')"
proof -
  have k: "ve_kernel sample_vm_env = sample_env" "virt_to_phys sample_env a = a" for a by (simp_all add: sample_vm_env_def sample_env_def)
  have "\<exists>c' s'. hb_init_vmx sample_vm_env (\<lambda>_ _. True) sample_support sample_vp 0 (sample_cpu\<lparr>cpu_cr4 := x\<rparr>, sample_start) = Some (0, c', s')"
  proof -
    let ?c = "sample_cpu\<lparr>cpu_cr4 := x OR CR4_BIT_VMXE\<rparr>"
    have "bit (x OR CR4_BIT_VMXE) 13" by (simp add: bit_or_iff cr_bits)
    then have "vmxon_allowed ?c t" if "vs_msr t = sample_msrs" for t
      using that by (intro sample_vmxon) (simp_all add: sample_cpu_def)
    moreover have "x OR CR4_BIT_VMXE OR CR4_BIT_VMXE = x OR CR4_BIT_VMXE" by (simp add: or.assoc)
    moreover have "sample_msrs MSR_IA32_VM_BASIC = 0x508200000000" by (simp add: sample_msrs_def hb_consts)
    ultimately show ?thesis
      by (simp add: hb_init_vmx_def Let_def sample_support_def sample_vp_def k hb_clear_vmcs_def hb_load_vmcs_def sample_start_def
          sample_vm_def sample_vm_env_def rdmsr_ucast NO_VMCS_def VM_BIT_REVISION_SHADOW_VMCS_def)
  qed
  then obtain c' s' where i: "hb_init_vmx sample_vm_env (\<lambda>_ _. True) sample_support sample_vp 0
      (sample_cpu\<lparr>cpu_cr4 := x\<rparr>, sample_start) = Some (0, c', s')" by blast
  have "cpu_idtr c' = cpu_idtr (sample_cpu\<lparr>cpu_cr4 := x\<rparr>)"
    using init_vmx_result(3) [OF i] by (metis cpu.select_convs(14) cpu.surjective cpu.update_convs(3))
  then have idtr: "cpu_idtr c' = \<lparr>dt_size = 0xFFF, dt_address = 0xFFFFC90000100000\<rparr>" by (simp add: sample_cpu_def)
  have "hb_protect_gdt sample_env (cpu_idtr c') e = Some e" for e
    unfolding idtr by (simp add: hb_protect_gdt_def hb_lock_range_def align_end_def hb_consts page_loop_done)
  then have p: "on_prot (on_ept (hb_protect_gdt (ve_kernel sample_vm_env) (cpu_idtr c'))) s' = Some s'"
    by (simp add: k on_prot_def on_ept_def)
  have "setup_breakpoints sample_vm_env 0 t \<noteq> None" for t
    by (simp add: setup_breakpoints_def k hb_get_symbol_address_def sample_env_def Let_def)
  then have g: "hb_setup_vm_guest_register sample_vm_env 0 c' h z t \<noteq> None" for h z t
    by (auto simp: hb_setup_vm_guest_register_def Let_def split: bind_splits)
  obtain h t where h: "hb_setup_vm_host_register sample_vm_env sample_vp (cpu_idtr sample_cpu) 0 c' host_zero s' = (h, t)" by force
  obtain q u where q: "hb_setup_vm_guest_register sample_vm_env 0 c' h guest_zero t = Some (q, u)" using g [of h guest_zero t] by force
  obtain r su' v where "hb_setup_vm_control_register sample_vm_env sample_vp 0x40000 0 sample_support control_zero u = (r, su', v)"
    by (metis prod_cases3)
  with i p h q show ?thesis unfolding setup_core_def by simp
qed

theorem core_starts_guarded_witness:
  "\<exists>su' c' s'. setup_core sample_vm_env (\<lambda>_ _. True) sample_vp (cpu_idtr sample_cpu) 0x40000 0 sample_support
     (sample_cpu\<lparr>cpu_cr4 := 0x100060 AND NOT CR4_BIT_MCE\<rparr>, sample_start) = Some (0, su', c', s') \<and>
     bit (vs_vmcs s' 0x10000 VM_GUEST_CR4) 13"
proof -
  have c4: "cpu_cr4 sample_cpu = 0x100060" by (simp add: sample_cpu_def)
  obtain su' c' s' where run: "setup_core sample_vm_env (\<lambda>_ _. True) sample_vp (cpu_idtr sample_cpu) 0x40000 0 sample_support
      (sample_cpu\<lparr>cpu_cr4 := cpu_cr4 sample_cpu AND NOT CR4_BIT_MCE\<rparr>, sample_start) = Some (0, su', c', s')"
    using sample_core_runs by blast
  have G: "0x10000 = virt_to_phys (ve_kernel sample_vm_env) (g_guest_vmcs_log_addr sample_vp 0)" "0x10000 \<noteq> NO_VMCS"
    by (simp_all add: sample_vm_env_def sample_env_def sample_vp_def NO_VMCS_def)
  have b: "bit (cpu_cr0 sample_cpu) 16" "bit (cpu_cr4 sample_cpu) 20" by (simp_all add: sample_cpu_def)
  from core_starts_guarded [OF run sample_vm_ok(2) G b]
  have "cr_guarded (vs_vmcs s' 0x10000 VM_GUEST_CR0) (vs_vmcs s' 0x10000 VM_GUEST_CR4)" using vm_reachable.start by blast
  then show ?thesis using run unfolding c4 by (auto simp: cr_guarded_def)
qed

theorem sec_controls_legal_witness:
  "\<exists>su' c' s'. setup_core sample_vm_env (\<lambda>_ _. True) sample_vp (cpu_idtr sample_cpu) 0x40000 0 sample_support
     (sample_cpu\<lparr>cpu_cr4 := 0\<rparr>, sample_start) = Some (0, su', c', s') \<and>
     bit (vm_field s' VM_CTRL_SEC_PROC_BASED_EXE_CTRL) 14 \<and> su_vmcs_shadowing su' = 1"
proof -
  obtain su' c' s' where run: "setup_core sample_vm_env (\<lambda>_ _. True) sample_vp (cpu_idtr sample_cpu) 0x40000 0 sample_support
      (sample_cpu\<lparr>cpu_cr4 := 0\<rparr>, sample_start) = Some (0, su', c', s')" using sample_core_runs by blast
  have G: "virt_to_phys (ve_kernel sample_vm_env) (g_guest_vmcs_log_addr sample_vp 0) \<noteq> NO_VMCS"
    by (simp add: sample_vm_env_def sample_env_def sample_vp_def NO_VMCS_def)
  have m: "vs_msr sample_start MSR_IA32_VMX_PROCBASED_CTLS2 = 0x508200000000" by (simp add: sample_start_def sample_msrs_def hb_consts)
  have low: "\<forall>k < 32. bit (0x508200000000 :: u64) k \<longrightarrow> bit (0x508200000000 :: u64) (32 + k)"
  proof -
    have "take_bit 32 (0x508200000000 :: u64) = 0" by simp
    then have "\<not> bit (0x508200000000 :: u64) k" if "k < 32" for k using that by (metis bit_0_eq bit_take_bit_iff bot_apply bot_bool_def)
    then show ?thesis by blast
  qed
  have b: "bit (0x508200000000 :: u64) 33" "bit (0x508200000000 :: u64) 39" "bit (0x508200000000 :: u64) 46" by simp_all
  note r = sec_controls_legal [OF run sample_vm_ok(2) G m [symmetric] low b(1,2) refl]
  have "su_vmcs_shadowing sample_support = 0" by (simp add: sample_support_def)
  with r b(3) have "bit (vm_field s' VM_CTRL_SEC_PROC_BASED_EXE_CTRL) 14 \<and> su_vmcs_shadowing su' = 1" by force
  with run show ?thesis by blast
qed

theorem shadow_bitmaps_exact_witness:
  "\<exists>ctrl su' s'. hb_setup_vm_control_register sample_vm_env sample_vp 0x40000 0 sample_support control_zero sample_start = (ctrl, su', s') \<and>
     bit (vs_mem s' (0x33000 + VM_HOST_RSP div 8)) (unat (VM_HOST_RSP mod 8))"
proof -
  obtain ctrl su' s' where run: "hb_setup_vm_control_register sample_vm_env sample_vp 0x40000 0 sample_support control_zero sample_start =
      (ctrl, su', s')" by (metis prod_cases3)
  have v: "g_vmread_bitmap_addr sample_vp 0 = 0x33000" "g_vmwrite_bitmap_addr sample_vp 0 = 0x34000" by (simp_all add: sample_vp_def)
  have "VM_HOST_RSP < 0x8000" by (simp add: hb_consts)
  from shadow_bitmaps_exact [OF run _ _ _ _ _ this, unfolded v, of "0x33000"] run
  show ?thesis by (auto simp: page_aligned_iff)
qed

end
