(* ===== verification/Host_Idt.thy ===== *)
theory Host_Idt
  imports Vmcs_Setup
begin

text \<open>
  Interrupts and exceptions that reach the host (hypervisor.c, \<open>hb_setup_host_idt_and_protect\<close> and the three callbacks;
  asm_helper.asm, the three stubs): the descriptor table with a gate for every vector, and what a stub does to the registers and
  to the stack. The processor is described by the frame it pushes, with an error code for some vectors.
\<close>

section \<open>The interrupt table of the host\<close>

text \<open>The addresses of the three stubs of asm_helper.asm.\<close>

record int_stubs =
  hb_int_callback_stub :: u64
  hb_int_with_error_callback_stub :: u64
  hb_int_nmi_callback_stub :: u64

text \<open>\<open>struct gate_struct\<close> of the kernel.\<close>

record gate_struct =
  offset_low :: u16
  gate_segment :: u64
  gate_ist :: nat
  gate_type :: nat
  gate_dpl :: nat
  gate_p :: bool
  offset_middle :: u16
  offset_high :: u32

text \<open>Values of the kernel headers: the stack of debug exceptions and the type of an interrupt gate.\<close>

definition IST_INDEX_DB :: nat where "IST_INDEX_DB = 2"
definition GATE_INTERRUPT :: nat where "GATE_INTERRUPT = 0xE"

definition handlers :: "int_stubs \<Rightarrow> u64 list" where
  "handlers st =
     (let plain = hb_int_callback_stub st; err = hb_int_with_error_callback_stub st; nmi = hb_int_nmi_callback_stub st in
      [plain, plain, nmi, plain, plain, plain, plain, plain, err, plain, err, err, err, err, err, plain, plain, err,
       plain, plain, plain, err])"

definition host_gate :: "int_stubs \<Rightarrow> nat \<Rightarrow> gate_struct" where
  "host_gate st i =
     (let handler = (if i < 22 then handlers st ! i else hb_int_callback_stub st) in
      \<lparr>offset_low = ucast handler, gate_segment = KERNEL_CS, gate_ist = IST_INDEX_DB, gate_type = GATE_INTERRUPT,
       gate_dpl = 0, gate_p = True, offset_middle = ucast (drop_bit 16 handler), offset_high = ucast (drop_bit 32 handler)\<rparr>)"

text \<open>A gate has 16 bytes. The page is not checked: writing through the null pointer faults.\<close>

definition hb_setup_host_idt_and_protect ::
  "kernel_env \<Rightarrow> int_stubs \<Rightarrow> desc_ptr \<Rightarrow> kheap \<Rightarrow> ept_state \<Rightarrow> (desc_ptr \<times> gate_struct list \<times> kheap \<times> ept_state) option" where
  "hb_setup_host_idt_and_protect env st idtr h e =
     (let (p, h) = kh_get_free_page env h;
          sz = (if dt_size idtr > 0xFFF then 0xFFF else dt_size idtr);
          host = idtr\<lparr>dt_address := p, dt_size := sz\<rparr>
      in if p = 0 then None
         else do {
           e \<leftarrow> hb_hide_range env p ((p + ucast sz) AND MASK_PAGEADDR) ALLOC_KMALLOC e;
           Some (host, map (host_gate st) [0..<unat (VAL_4KB div 16)], h, e)
         })"

section \<open>The stubs\<close>

datatype gpr = RBP | RAX | RBX | RCX | RDX | RDI | RSI | R8 | R9 | R10 | R11 | R12 | R13 | R14 | R15

definition PUSHAQ :: "gpr list" where
  "PUSHAQ = [RBP, RAX, RBX, RCX, RDX, RDI, RSI, R8, R9, R10, R11, R12, R13, R14, R15]"

definition POPAQ :: "gpr list" where
  "POPAQ = [R15, R14, R13, R12, R11, R10, R9, R8, RSI, RDI, RDX, RCX, RBX, RAX, RBP]"

text \<open>The registers and the stack, its top first.\<close>

type_synonym int_state = "(gpr \<Rightarrow> u64) \<times> u64 list"

definition push_regs :: "gpr list \<Rightarrow> int_state \<Rightarrow> int_state" where
  "push_regs gs s = (fst s, fold (\<lambda>g stk. fst s g # stk) gs (snd s))"

fun pop_regs :: "gpr list \<Rightarrow> int_state \<Rightarrow> int_state" where
  "pop_regs (g # gs) (r, v # stk) = pop_regs gs (r(g := v), stk)"
| "pop_regs _ s = s"

text \<open>\<open>call\<close> is what the callback leaves in the registers; a function of C returns with the stack it found.
  The result is the state in which IRETQ is executed.\<close>

definition int_stub :: "((gpr \<Rightarrow> u64) \<Rightarrow> gpr \<Rightarrow> u64) \<Rightarrow> int_state \<Rightarrow> int_state" where
  "int_stub call s = (let s = push_regs PUSHAQ s in pop_regs POPAQ (call (fst s), snd s))"

definition int_with_error_stub :: "((gpr \<Rightarrow> u64) \<Rightarrow> gpr \<Rightarrow> u64) \<Rightarrow> int_state \<Rightarrow> int_state" where
  "int_with_error_stub call s =
     (let s = push_regs PUSHAQ s; s = pop_regs POPAQ (call (fst s), snd s) in (fst s, drop 1 (snd s)))"

definition int_nmi_stub :: "((gpr \<Rightarrow> u64) \<Rightarrow> gpr \<Rightarrow> u64) \<Rightarrow> int_state \<Rightarrow> int_state" where
  "int_nmi_stub call s = (let s = push_regs PUSHAQ s in pop_regs POPAQ (call (fst s), snd s))"

text \<open>The callbacks, which only touch the mode of the core.\<close>

definition hb_int_callback :: "nat \<Rightarrow> (nat \<Rightarrow> int) \<Rightarrow> nat \<Rightarrow> int" where
  "hb_int_callback cpu_id mode = (let mode = mode(cpu_id := 1) in mode(cpu_id := 0))"

definition hb_int_with_error_callback :: "nat \<Rightarrow> (nat \<Rightarrow> int) \<Rightarrow> nat \<Rightarrow> int" where
  "hb_int_with_error_callback cpu_id mode = (let mode = mode(cpu_id := 1) in mode(cpu_id := 0))"

definition hb_int_nmi_callback :: "nat \<Rightarrow> (nat \<Rightarrow> int) \<Rightarrow> nat \<Rightarrow> int" where
  "hb_int_nmi_callback cpu_id mode = (let mode = mode(cpu_id := 1) in mode(cpu_id := 0))"

section \<open>Delivery of an interrupt\<close>

text \<open>The entry point the processor reads from a gate, the code behind an entry point, and the vectors for which the processor
  pushes an error code (Intel SDM, volume 3, table 6-1).\<close>

definition gate_offset :: "gate_struct \<Rightarrow> u64" where
  "gate_offset g = ucast (offset_low g) OR push_bit 16 (ucast (offset_middle g)) OR push_bit 32 (ucast (offset_high g))"

definition stub_at :: "int_stubs \<Rightarrow> ((gpr \<Rightarrow> u64) \<Rightarrow> gpr \<Rightarrow> u64) \<Rightarrow> u64 \<Rightarrow> (int_state \<Rightarrow> int_state) option" where
  "stub_at st call a =
     (if a = hb_int_callback_stub st then Some (int_stub call)
      else if a = hb_int_with_error_callback_stub st then Some (int_with_error_stub call)
      else if a = hb_int_nmi_callback_stub st then Some (int_nmi_stub call) else None)"

definition error_code_vectors :: "nat set" where
  "error_code_vectors = {8, 10, 11, 12, 13, 14, 17, 21}"

definition int_frame :: "nat \<Rightarrow> u64 \<Rightarrow> u64 list \<Rightarrow> u64 list" where
  "int_frame v err frame = (if v \<in> error_code_vectors then err # frame else frame)"

lemma pop_push: "pop_regs POPAQ (r', snd (push_regs PUSHAQ (r, stk))) = (r, stk)"
proof -
  have "(r'(R15 := r R15, R14 := r R14, R13 := r R13, R12 := r R12, R11 := r R11, R10 := r R10, R9 := r R9, R8 := r R8,
      RSI := r RSI, RDI := r RDI, RDX := r RDX, RCX := r RCX, RBX := r RBX, RAX := r RAX, RBP := r RBP)) g = r g" for g
    by (cases g) simp_all
  then show ?thesis by (simp add: push_regs_def PUSHAQ_def POPAQ_def fun_eq_iff)
qed

lemma offset_parts:
  "ucast (ucast a :: u16) OR push_bit 16 (ucast (ucast (drop_bit 16 a) :: u16)) OR
     push_bit 32 (ucast (ucast (drop_bit 32 a) :: u32)) = (a :: u64)" (is "?l = a")
proof (rule bit_word_eqI)
  fix n assume n: "n < LENGTH(64)"
  consider "n < 16" | "16 \<le> n" "n < 32" | "32 \<le> n" by linarith
  then show "bit ?l n = bit a n"
    using n by cases (auto simp: bit_or_iff bit_push_bit_iff bit_ucast_iff bit_drop_bit_eq)
qed

lemma gate_handler: "gate_offset (host_gate st i) = (if i < 22 then handlers st ! i else hb_int_callback_stub st)"
  using offset_parts [of "if i < 22 then handlers st ! i else hb_int_callback_stub st"]
  by (simp only: gate_offset_def host_gate_def Let_def gate_struct.select_convs)

lemma handler_stub:
  assumes "distinct [hb_int_callback_stub st, hb_int_with_error_callback_stub st, hb_int_nmi_callback_stub st]"
  shows "stub_at st call (if i < 22 then handlers st ! i else hb_int_callback_stub st) =
    Some (if i \<in> error_code_vectors then int_with_error_stub call else if i = 2 then int_nmi_stub call else int_stub call)"
proof (cases "i < 22")
  case True
  have l: "[0..<22] = [0, 1, 2, 3, 4, 5, 6, 7, 8, 9, 10, 11, 12, 13, 14, 15, 16, 17, 18, 19, 20, 21]"
    by (simp add: upt_rec)
  have "\<forall>i \<in> set [0..<22]. stub_at st call (handlers st ! i) =
      Some (if i \<in> error_code_vectors then int_with_error_stub call else if i = 2 then int_nmi_stub call else int_stub call)"
    using assms unfolding l by (simp add: stub_at_def handlers_def Let_def error_code_vectors_def) metis
  then show ?thesis using True by simp
qed (auto simp: stub_at_def error_code_vectors_def)

text \<open>C37: Every interrupt or exception that reaches the host enters a stub that fits its frame: whatever the callback leaves in the
  registers, IRETQ is executed with all of them restored and with the frame of the interrupted code on top of the stack, the
  error code removed if the vector has one.\<close>

theorem host_interrupt_returns:
  assumes "hb_setup_host_idt_and_protect env st idtr h e = Some (host, idt, h', e')" "v < 256"
    and "distinct [hb_int_callback_stub st, hb_int_with_error_callback_stub st, hb_int_nmi_callback_stub st]"
  shows "\<exists>f. stub_at st call (gate_offset (idt ! v)) = Some f \<and> f (r, int_frame v err frame) = (r, frame)"
proof -
  have "unat (VAL_4KB div 16) = 256" by (simp add: hb_consts)
  then have "idt = map (host_gate st) [0..<256]"
    using assms(1) by (auto simp: hb_setup_host_idt_and_protect_def Let_def split: prod.splits if_splits bind_splits)
  then have g: "idt ! v = host_gate st v" using assms(2) by simp
  have "(if v \<in> error_code_vectors then int_with_error_stub call else if v = 2 then int_nmi_stub call else int_stub call)
      (r, int_frame v err frame) = (r, frame)"
    by (auto simp: int_frame_def int_stub_def int_with_error_stub_def int_nmi_stub_def Let_def pop_push)
  then show ?thesis unfolding g gate_handler handler_stub [OF assms(3)] by blast
qed

definition sample_stubs :: int_stubs where
  "sample_stubs = \<lparr>hb_int_callback_stub = 0xFFFFFFFFC0001000, hb_int_with_error_callback_stub = 0xFFFFFFFFC0001040,
     hb_int_nmi_callback_stub = 0xFFFFFFFFC0001080\<rparr>"

text \<open>The finding on the protected range: the end of the table is rounded down, so no page is hidden.\<close>

lemma host_idt_range_empty:
  assumes "hb_setup_host_idt_and_protect env st idtr h e = Some (host, idt, h', e')"
    and "page_aligned (get_free_page env (kh_page_calls h))" "unat (get_free_page env (kh_page_calls h)) + 8192 \<le> 2 ^ 64"
  shows "e' = e"
proof -
  have "hb_hide_range env (get_free_page env (kh_page_calls h)) (get_free_page env (kh_page_calls h)) ALLOC_KMALLOC e = Some e"
    by (simp add: hb_hide_range_eq empty_table_range [OF assms(2,3)])
  then show ?thesis
    using assms(1) unfolding hb_setup_host_idt_and_protect_def kh_get_free_page_def Let_def prod.case table_end_rounded [OF assms(2,3)]
    by (simp split: if_splits)
qed

theorem host_interrupt_returns_witness:
  "\<exists>e host idt h' e' f. hb_setup_host_idt_and_protect sample_env sample_stubs \<lparr>dt_size = 0xFFF, dt_address = 0xFFFFFE0000000000\<rparr>
       kh_init e = Some (host, idt, h', e') \<and>
     stub_at sample_stubs (\<lambda>_ _. 0) (gate_offset (idt ! 14)) = Some f \<and>
     f (\<lambda>_. 7, [0x2, 0xFFFFFFFF81000000, 0x10, 0x246]) = (\<lambda>_. 7, [0xFFFFFFFF81000000, 0x10, 0x246])"
proof -
  let ?r = "\<lparr>dt_size = 0xFFF, dt_address = 0xFFFFFE0000000000\<rparr>"
  have p: "get_free_page sample_env 0 = 0x1000" by (simp add: sample_env_def)
  have al: "page_aligned (0x1000 :: u64)" "unat (0x1000 :: u64) + 8192 \<le> 2 ^ 64" by (simp_all add: page_aligned_iff)
  have "hb_hide_range sample_env 0x1000 0x1000 ALLOC_KMALLOC e = Some e" for e
    by (simp add: hb_hide_range_eq empty_table_range [OF al])
  then obtain host idt h' e' where s: "hb_setup_host_idt_and_protect sample_env sample_stubs ?r kh_init undefined = Some (host, idt, h', e')"
    unfolding hb_setup_host_idt_and_protect_def kh_get_free_page_def Let_def prod.case kh_init_simps p table_end_rounded [OF al] by simp
  moreover have "int_frame 14 0x2 [0xFFFFFFFF81000000, 0x10, 0x246] = [0x2, 0xFFFFFFFF81000000, 0x10, 0x246]"
    by (simp add: int_frame_def error_code_vectors_def)
  moreover have "\<exists>f. stub_at sample_stubs (\<lambda>_ _. 0) (gate_offset (idt ! 14)) = Some f \<and>
      f (\<lambda>_. 7, int_frame 14 0x2 [0xFFFFFFFF81000000, 0x10, 0x246]) = (\<lambda>_. 7, [0xFFFFFFFF81000000, 0x10, 0x246])"
    by (rule host_interrupt_returns [OF s]) (simp_all add: sample_stubs_def)
  ultimately show ?thesis by metis
qed

end
