(* ===== verification/Startup.thy ===== *)
theory Startup
  imports Host_Idt Object_Monitor
begin

text \<open>
  The initialisation of the module (hypervisor.c, \<open>hyper_box_init\<close>): the checks of the processor, the memory of
  the VMX structures, the interrupt descriptor table of the host, and the order in which the EPT tables, the kernel and the
  structures of the hypervisor are protected before the cores are started. The start of the cores is the subject of the
  theory \<open>Thread_Start\<close>.
\<close>

section \<open>Memory of the VMX structures\<close>

definition VMCS_SIZE_ORDER :: nat where "VMCS_SIZE_ORDER = unat (VMCS_SIZE div VAL_4KB - 1)"
definition MAX_HB_STACK_SIZE :: u64 where [hb_consts]: "MAX_HB_STACK_SIZE = 0x800000"

text \<open>The allocations of core \<open>i\<close>, in order, and whether none of them failed. A block of \<open>2 ^ VMCS_SIZE_ORDER\<close> pages is one
  call of the page allocator.\<close>

definition alloc_core :: "kernel_env \<Rightarrow> nat \<Rightarrow> vmcs_memory \<Rightarrow> kheap \<Rightarrow> bool \<times> vmcs_memory \<times> kheap" where
  "alloc_core env i vp h =
     (let (on, h) = kh_get_free_page env h;
          (guest, h) = kh_get_free_page env h;
          (stack, h) = kh_vzalloc env h;
          (ioA, h) = kh_get_free_page env h;
          (ioB, h) = kh_get_free_page env h;
          (msr, h) = kh_get_free_page env h;
          (vmread, h) = kh_get_free_page env h;
          (vmwrite, h) = kh_get_free_page env h;
          (apic, h) = kh_get_free_page env h
      in (on \<noteq> 0 \<and> guest \<noteq> 0 \<and> stack \<noteq> 0 \<and> ioA \<noteq> 0 \<and> ioB \<noteq> 0 \<and> msr \<noteq> 0 \<and> vmread \<noteq> 0 \<and> vmwrite \<noteq> 0 \<and> apic \<noteq> 0,
          vp\<lparr>g_vmx_on_vmcs_log_addr := (g_vmx_on_vmcs_log_addr vp)(i := on),
             g_guest_vmcs_log_addr := (g_guest_vmcs_log_addr vp)(i := guest),
             vp_guest_vmcs_phy_addr := (vp_guest_vmcs_phy_addr vp)(i := virt_to_phys env guest),
             vp_vm_exit_stack_addr := (vp_vm_exit_stack_addr vp)(i := stack),
             g_io_bitmap_addrA := (g_io_bitmap_addrA vp)(i := ioA),
             g_io_bitmap_addrB := (g_io_bitmap_addrB vp)(i := ioB),
             g_msr_bitmap_addr := (g_msr_bitmap_addr vp)(i := msr),
             g_vmread_bitmap_addr := (g_vmread_bitmap_addr vp)(i := vmread),
             g_vmwrite_bitmap_addr := (g_vmwrite_bitmap_addr vp)(i := vmwrite),
             g_virt_apic_page_addr := (g_virt_apic_page_addr vp)(i := apic)\<rparr>, h))"

fun alloc_cores :: "kernel_env \<Rightarrow> nat list \<Rightarrow> vmcs_memory \<Rightarrow> kheap \<Rightarrow> bool \<times> vmcs_memory \<times> kheap" where
  "alloc_cores env [] vp h = (True, vp, h)"
| "alloc_cores env (i # is) vp h =
     (let (ok, vp, h) = alloc_core env i vp h in if ok then alloc_cores env is vp h else (False, vp, h))"

text \<open>The error path. \<open>__free_pages\<close> takes a \<open>struct page\<close>, but it is called with the logical addresses: the calls are
  recorded as they are made. \<open>vfree\<close> of the null pointer does nothing.\<close>

definition core_page_frees :: "vmcs_memory \<Rightarrow> nat \<Rightarrow> (u64 \<times> nat) list" where
  "core_page_frees vp i =
     [(g_vmx_on_vmcs_log_addr vp i, VMCS_SIZE_ORDER), (g_guest_vmcs_log_addr vp i, VMCS_SIZE_ORDER),
      (g_io_bitmap_addrA vp i, 0), (g_io_bitmap_addrB vp i, 0), (g_msr_bitmap_addr vp i, 0),
      (g_vmread_bitmap_addr vp i, 0), (g_vmwrite_bitmap_addr vp i, 0), (g_virt_apic_page_addr vp i, 0)]"

definition free_stack :: "vmcs_memory \<Rightarrow> nat \<Rightarrow> kheap \<Rightarrow> kheap" where
  "free_stack vp i h = (if vp_vm_exit_stack_addr vp i = 0 then h else kh_vfree (vp_vm_exit_stack_addr vp i) h)"

definition hb_alloc_vmcs_memory ::
  "kernel_env \<Rightarrow> nat \<Rightarrow> vmcs_memory \<Rightarrow> kheap \<Rightarrow> vmcs_memory \<times> kheap \<times> (u64 \<times> nat) list" where
  "hb_alloc_vmcs_memory env cpu_count vp h =
     (let (ok, vp, h) = alloc_cores env [0..<cpu_count] vp h in
      if ok then (vp, h, [])
      else (vp, fold (free_stack vp) [0..<cpu_count] h, concat (map (core_page_frees vp) [0..<cpu_count])))"

text \<open>The ranges of a core: first address, size and kind of the mapping.\<close>

definition vmcs_ranges :: "vmcs_memory \<Rightarrow> nat \<Rightarrow> (u64 \<times> u64 \<times> int) list" where
  "vmcs_ranges vp i =
     [(g_vmx_on_vmcs_log_addr vp i, VMCS_SIZE, ALLOC_KMALLOC), (g_guest_vmcs_log_addr vp i, VMCS_SIZE, ALLOC_KMALLOC),
      (vp_vm_exit_stack_addr vp i, MAX_HB_STACK_SIZE, ALLOC_VMALLOC), (g_io_bitmap_addrA vp i, IO_BITMAP_SIZE, ALLOC_KMALLOC),
      (g_io_bitmap_addrB vp i, IO_BITMAP_SIZE, ALLOC_KMALLOC), (g_msr_bitmap_addr vp i, MSR_BITMAP_SIZE, ALLOC_KMALLOC),
      (g_vmread_bitmap_addr vp i, VMREAD_BITMAP_SIZE, ALLOC_KMALLOC),
      (g_vmwrite_bitmap_addr vp i, VMWRITE_BITMAP_SIZE, ALLOC_KMALLOC),
      (g_virt_apic_page_addr vp i, VIRT_APIC_PAGE_SIZE, ALLOC_KMALLOC)]"

definition hide_item :: "kernel_env \<Rightarrow> u64 \<times> u64 \<times> int \<Rightarrow> ept_state \<Rightarrow> ept_state option" where
  "hide_item env r e = (let (p, n, t) = r in hb_hide_range env p (p + n) t e)"

definition hb_protect_vmcs :: "kernel_env \<Rightarrow> nat \<Rightarrow> vmcs_memory \<Rightarrow> ept_state \<Rightarrow> ept_state option" where
  "hb_protect_vmcs env cpu_count vp e = foldo (\<lambda>i e. foldo (hide_item env) (vmcs_ranges vp i) e) [0..<cpu_count] e"

section \<open>The environment of the module\<close>

definition ERROR_NOT_START :: int where [hb_consts]: "ERROR_NOT_START = 1"
definition ERROR_HW_NOT_SUPPORT :: int where [hb_consts]: "ERROR_HW_NOT_SUPPORT = 2"
definition ERROR_KERNEL_VERSION_MISMATCH :: int where [hb_consts]: "ERROR_KERNEL_VERSION_MISMATCH = 5"
definition ERROR_MEMORY_ALLOC_FAIL :: int where [hb_consts]: "ERROR_MEMORY_ALLOC_FAIL = 7"
definition START_MODE_INITIALIZE :: int where [hb_consts]: "START_MODE_INITIALIZE = 0"
definition START_MODE_REINITIALIZE :: int where [hb_consts]: "START_MODE_REINITIALIZE = 1"

text \<open>What the module finds: two registers of CPUID, the feature control register, the results of the two calls of
  \<open>register_kprobe\<close>, the number of cores, the interrupt table of the kernel, and whether \<open>kmalloc\<close> and \<open>kfifo_alloc\<close>
  deliver the log buffer.\<close>

record init_env =
  cpuid_1_ecx :: u64
  cpuid_d_eax :: u64
  feat_ctl :: u64
  kprobe_addr :: int
  kprobe_trigger :: int
  cpu_count :: nat
  kernel_idtr :: desc_ptr
  log_kmalloc_ok :: bool
  log_kfifo_ok :: bool
  ie_stubs :: int_stubs
  ie_mon :: mon_env
  filp_open :: "string \<Rightarrow> u64"
  sock_create :: "nat \<Rightarrow> u64 \<Rightarrow> int \<times> u64"

text \<open>The files and sockets that the object monitor looks at, as pointers. \<open>filp_open\<close> delivers an error pointer when it fails; the second
  argument and result of \<open>sock_create\<close> are the pointer variable before and after.\<close>

record opened_objects =
  op_root_file_ptr :: u64
  op_proc_file_ptr :: u64
  op_tcp_file_ptr :: u64
  op_udp_file_ptr :: u64
  op_tcp6_file_ptr :: u64
  op_udp6_file_ptr :: u64
  op_udp_sock :: u64
  op_tcp_sock :: u64

record init_state =
  is_vp :: vmcs_memory
  is_heap :: kheap
  is_page_frees :: "(u64 \<times> nat) list"
  is_prot :: prot_state
  is_mon :: monitor
  is_pool :: hb_memory_pool_struct
  is_support :: support
  is_host_idtr :: desc_ptr
  is_host_idt :: "gate_struct list"
  g_max_ram_size :: u64
  is_errors :: "int list"
  is_opened :: opened_objects

definition init_error :: "int \<Rightarrow> init_state \<Rightarrow> init_state" where
  "init_error code s = s\<lparr>is_errors := is_errors s @ [code]\<rparr>"

text \<open>The first probe delivers the address of \<open>kallsyms_lookup_name\<close> while the second is registered.\<close>

definition hb_get_kallsyms_lookup_name_ptr :: "init_env \<Rightarrow> int" where
  "hb_get_kallsyms_lookup_name_ptr ie =
     (if kprobe_addr ie < 0 then kprobe_addr ie else kprobe_trigger ie)"

definition IPPROTO_TCP :: nat where [hb_consts]: "IPPROTO_TCP = 6"
definition IPPROTO_UDP :: nat where [hb_consts]: "IPPROTO_UDP = 17"

text \<open>A file or socket that cannot be opened is reported and the result of the call is stored all the same.\<close>

definition hb_get_function_pointers :: "init_env \<Rightarrow> kernel_env \<Rightarrow> opened_objects \<Rightarrow> (int \<times> opened_objects) option" where
  "hb_get_function_pointers ie env ops =
     (let ret = hb_get_kallsyms_lookup_name_ptr ie in
      if ret \<noteq> 0 then Some (ret, ops)
      else do {
        _ \<leftarrow> hb_get_symbol_address env ''watchdog_nmi_disable'';
        _ \<leftarrow> hb_get_symbol_address env ''flush_tlb_one_kernel'';
        _ \<leftarrow> hb_get_symbol_address env ''modules'';
        Some (ret, ops\<lparr>op_root_file_ptr := filp_open ie ''/'', op_proc_file_ptr := filp_open ie ''/proc'',
          op_tcp_file_ptr := filp_open ie ''/proc/net/tcp'', op_udp_file_ptr := filp_open ie ''/proc/net/udp'',
          op_tcp6_file_ptr := filp_open ie ''/proc/net/tcp6'', op_udp6_file_ptr := filp_open ie ''/proc/net/udp6'',
          op_udp_sock := snd (sock_create ie IPPROTO_UDP (op_udp_sock ops)),
          op_tcp_sock := snd (sock_create ie IPPROTO_TCP (op_tcp_sock ops))\<rparr>)
      })"

definition hb_prepare_log_buffer :: "init_env \<Rightarrow> int" where
  "hb_prepare_log_buffer ie = (if \<not> log_kmalloc_ok ie then -1 else if \<not> log_kfifo_ok ie then -1 else 0)"

section \<open>The initialisation\<close>

text \<open>The processor: VT-x, and VMXON enabled where the firmware has locked the register.\<close>

definition check_hardware :: "init_env \<Rightarrow> init_state \<Rightarrow> int \<times> init_state" where
  "check_hardware ie s =
     (if cpuid_1_ecx ie AND CPUID_1_ECX_VMX = 0 then (-1, init_error ERROR_HW_NOT_SUPPORT s)
      else
        let s = (if cpuid_1_ecx ie AND CPUID_1_ECX_SMX \<noteq> 0 then s\<lparr>is_support := is_support s\<lparr>g_support_smx := 1\<rparr>\<rparr> else s) in
        if feat_ctl ie AND ucast MSR_IA32_FEATURE_CONTROL_BIT_CONTROL_LOCKED \<noteq> 0 \<and>
           feat_ctl ie AND ucast MSR_IA32_FEATURE_CONTROL_BIT_VMXON_ENABLED_OUTPUTSIDE_SMX = 0
        then (-1, init_error ERROR_HW_NOT_SUPPORT s) else (0, s))"

text \<open>The memory of the hypervisor and its protection, up to \<open>hb_protect_vmcs\<close>; \<open>-1\<close> stands for \<open>goto ERROR_HANDLE\<close>.\<close>

definition build_ept :: "kernel_env \<Rightarrow> init_state \<Rightarrow> (int \<times> init_state) option" where
  "build_ept env s =
     (let (r, info, h) = hb_alloc_ept_pages env (g_max_ram_size s) (g_ept_info (ept (is_prot s))) (is_heap s);
          s = s\<lparr>is_heap := h, is_prot := is_prot s\<lparr>ept := ept (is_prot s)\<lparr>g_ept_info := info\<rparr>\<rparr>\<rparr>
      in if r \<noteq> 0 then Some (-1, init_error ERROR_MEMORY_ALLOC_FAIL s)
         else do {
           e \<leftarrow> hb_setup_ept_pagetable_4KB env (g_max_ram_size s) (ept (is_prot s));
           Some (0, s\<lparr>is_prot := is_prot s\<lparr>ept := e\<rparr>\<rparr>)
         })"

definition protect_all :: "init_env \<Rightarrow> kernel_env \<Rightarrow> init_state \<Rightarrow> init_state option" where
  "protect_all ie env s = do {
     p \<leftarrow> hb_protect_kernel_ro_area env (is_prot s);
     (idtr, idt, h, e) \<leftarrow> hb_setup_host_idt_and_protect env (ie_stubs ie) (kernel_idtr ie) (is_heap s) (ept p);
     e \<leftarrow> hb_protect_ept_pages env e;
     e \<leftarrow> hb_protect_vmcs env (cpu_count ie) (is_vp s) e;
     Some (s\<lparr>is_prot := p\<lparr>ept := e\<rparr>, is_heap := h, is_host_idtr := idtr, is_host_idt := idt\<rparr>)
   }"

text \<open>The monitor, the memory pool and the log buffer; a failure returns from \<open>hyper_box_init\<close> at once.\<close>

definition prepare_rest :: "init_env \<Rightarrow> kernel_env \<Rightarrow> init_state \<Rightarrow> (int \<times> init_state) option" where
  "prepare_rest ie env s = do {
     let (p, h) = kh_vzalloc env (is_heap s);
     (r, mon) \<leftarrow> hb_prepare_monitor (ie_mon ie) env p (is_mon s);
     let s = s\<lparr>is_heap := h, is_mon := mon\<rparr>;
     if r \<noteq> 0 then Some (-1, init_error ERROR_MEMORY_ALLOC_FAIL s)
     else do {
       (r, ps) \<leftarrow> hb_setup_memory_pool env (g_max_ram_size s)
         \<lparr>g_memory_pool = is_pool s, ps_ept = ept (is_prot s), ps_heap = is_heap s\<rparr>;
       let s = s\<lparr>is_pool := g_memory_pool ps, is_prot := is_prot s\<lparr>ept := ps_ept ps\<rparr>, is_heap := ps_heap ps\<rparr>;
       if r \<noteq> 0 then Some (-1, init_error ERROR_MEMORY_ALLOC_FAIL s)
       else if hb_prepare_log_buffer ie \<noteq> 0 then Some (-1, init_error ERROR_MEMORY_ALLOC_FAIL s)
       else do { _ \<leftarrow> hb_get_symbol_address env ''tasklist_lock''; Some (0, s) }
     }
   }"

text \<open>\<open>ERROR_HANDLE\<close>: the tables are released.\<close>

definition error_handle :: "init_state \<Rightarrow> int \<times> init_state" where
  "error_handle s =
     (let (info, h) = hb_free_ept_pages (g_ept_info (ept (is_prot s))) (is_heap s)
      in (-1, s\<lparr>is_heap := h, is_prot := is_prot s\<lparr>ept := ept (is_prot s)\<lparr>g_ept_info := info\<rparr>\<rparr>\<rparr>))"

text \<open>All of \<open>hyper_box_init\<close>, with the value that \<open>hb_start\<close> returns. \<open>None\<close>: the call does not return.\<close>

definition hyper_box_init :: "init_env \<Rightarrow> kernel_env \<Rightarrow> int \<Rightarrow> init_state \<Rightarrow> (int \<times> init_state) option" where
  "hyper_box_init ie env started s =
     (let (r, s) = check_hardware ie s in
      if r \<noteq> 0 then Some (-1, s)
      else do {
        (f, ops) \<leftarrow> hb_get_function_pointers ie env (is_opened s);
        let s = s\<lparr>is_opened := ops\<rparr>;
        if f \<noteq> 0 then Some (error_handle (init_error ERROR_KERNEL_VERSION_MISMATCH s))
        else do {
          let s = (if cpuid_d_eax ie AND CPUID_D_EAX_XSAVES \<noteq> 0 then s\<lparr>is_support := is_support s\<lparr>g_support_xsave := 1\<rparr>\<rparr> else s);
          ram \<leftarrow> hb_get_max_ram_size env;
          let s = s\<lparr>g_max_ram_size := adjust_max_ram_size ram\<rparr>;
          let (vp, h, frees) = hb_alloc_vmcs_memory env (cpu_count ie) (is_vp s) (is_heap s);
          let s = s\<lparr>is_vp := vp, is_heap := h, is_page_frees := is_page_frees s @ frees\<rparr>;
          (r, s) \<leftarrow> build_ept env s;
          if r \<noteq> 0 then Some (error_handle s)
          else do {
            s \<leftarrow> protect_all ie env s;
            (r, s) \<leftarrow> prepare_rest ie env s;
            if r \<noteq> 0 then Some (-1, s)
            else if started = 0 then Some (0, s) else Some (error_handle s)
          }
        }
      })"

section \<open>Machine checks and sleep\<close>

text \<open>The state of the machine check timers of the kernel: the interval, and how often they were deleted and restarted.\<close>

record mce_timers =
  check_interval :: u64
  mce_deleted :: nat
  mce_restarted :: nat
  irqs_disabled :: "u64 set"

definition VM_MCE_TIMER_VALUE :: u64 where [hb_consts]: "VM_MCE_TIMER_VALUE = 1"

definition hb_disable_and_change_machine_check_timer ::
  "kernel_env \<Rightarrow> int \<Rightarrow> nat \<Rightarrow> cpu \<times> mce_timers \<Rightarrow> (cpu \<times> mce_timers) option" where
  "hb_disable_and_change_machine_check_timer env reinitialize cpu_id cs =
     (let (c, ms) = cs;
          c = c\<lparr>cpu_cr4 := cpu_cr4 c AND NOT CR4_BIT_MCE\<rparr>;
          ms = ms\<lparr>irqs_disabled := insert VM_INT_MACHINE_CHECK (irqs_disabled ms)\<rparr>
      in if reinitialize \<noteq> 0 then Some (c, ms)
         else if cpu_id = 0 then do {
           _ \<leftarrow> hb_get_symbol_address env ''check_interval'';
           _ \<leftarrow> hb_get_symbol_address env ''mce_timer_delete_all'';
           _ \<leftarrow> hb_get_symbol_address env ''mce_cpu_restart'';
           Some (c, ms\<lparr>check_interval := VM_MCE_TIMER_VALUE, mce_deleted := Suc (mce_deleted ms), mce_restarted := Suc (mce_restarted ms)\<rparr>)
         }
         else Some (c, ms))"

text \<open>The notifier of the power management: the mode in which \<open>hb_start\<close> is called, if it is, and the result.\<close>

definition PM_POST_HIBERNATION :: int where "PM_POST_HIBERNATION = 2"
definition PM_POST_SUSPEND :: int where "PM_POST_SUSPEND = 4"
definition NOTIFY_OK :: int where "NOTIFY_OK = 1"

definition hb_system_sleep_notify :: "int \<Rightarrow> int option \<times> int" where
  "hb_system_sleep_notify val =
     (if val = PM_POST_HIBERNATION \<or> val = PM_POST_SUSPEND then Some START_MODE_REINITIALIZE else None, NOTIFY_OK)"

text \<open>The set-up of the virtual machine starts with machine checks off, as the guard of CR4 requires.\<close>

lemma machine_checks_off:
  assumes "hb_disable_and_change_machine_check_timer env reinitialize cpu_id (c, ms) = Some (c', ms')"
  shows "c' = c\<lparr>cpu_cr4 := cpu_cr4 c AND NOT CR4_BIT_MCE\<rparr>"
  using assms by (auto simp: hb_disable_and_change_machine_check_timer_def Let_def split: if_splits bind_splits)

section \<open>What the guest sees\<close>

text \<open>The frames \<open>H\<close> are hidden, the frames \<open>L\<close> can be read and executed, everything else is fully accessible at its own address.\<close>

definition guest_map :: "kernel_env \<Rightarrow> ept_state \<Rightarrow> nat set \<Rightarrow> nat set \<Rightarrow> bool" where
  "guest_map env e H L \<longleftrightarrow> ept_wf env e \<and> (\<forall>gpa. unat gpa < 2 ^ 48 \<longrightarrow> guest_translate env e gpa =
     (if page_of gpa \<in> H then None
      else if page_of gpa \<in> L then Some (gpa, EPT_READ OR EPT_EXECUTE) else Some (gpa, EPT_ALL_ACCESS)))"

lemma guest_map_hides: "guest_map env e H L \<Longrightarrow> hides env e e' F \<Longrightarrow> guest_map env e' (H \<union> F) L"
  by (auto simp: guest_map_def hides_def)

lemma guest_map_lock:
  assumes "guest_map env e {} L" "range_covered env e a b t"
  shows "\<exists>e'. hb_lock_range env a b t e = Some e' \<and> guest_map env e' {} (L \<union> range_frames env a b t) \<and>
    g_ept_info e' = g_ept_info e"
proof -
  have "EPT_READ OR EPT_EXECUTE = 5" by (simp add: hb_consts)
  then show ?thesis using hb_lock_range_translate [OF _ assms(2)] assms(1) by (fastforce simp: guest_map_def)
qed

text \<open>Addresses in the memory that the tables control.\<close>

definition in_ram :: "kernel_env \<Rightarrow> u64 \<Rightarrow> u64 \<Rightarrow> u64 \<Rightarrow> int \<Rightarrow> bool" where
  "in_ram env m a b t \<longleftrightarrow> (\<forall>pa \<in> set (range_phys env a b t). page_of pa < unat m div 4096)"

definition controls :: "u64 \<Rightarrow> ept_state \<Rightarrow> bool" where
  "controls m e \<longleftrightarrow> unat m div 4096 \<le> ept_nd e * 512"

lemma controls_cong: "g_ept_info e' = g_ept_info e \<Longrightarrow> controls m e' \<longleftrightarrow> controls m e"
  by (simp add: controls_def ept_nd_def)

lemma in_ram_covered: "in_ram env m a b t \<Longrightarrow> controls m e \<Longrightarrow> range_covered env e a b t"
  by (auto simp: in_ram_def controls_def range_covered_def ept_covered_def intro: order.strict_trans2)

text \<open>The memory of the kernel lies in the RAM: what \<open>vmalloc\<close> and the page allocator deliver, the latter in blocks of up to two
  pages, and the read-only areas of the kernel.\<close>

definition memory_in_ram :: "kernel_env \<Rightarrow> u64 \<Rightarrow> bool" where
  "memory_in_ram env m \<longleftrightarrow> (\<forall>a. page_of (push_bit 12 (vmalloc_to_pfn env a)) < unat m div 4096) \<and>
     (\<forall>n. get_free_page env n \<noteq> 0 \<longrightarrow> unat (get_free_page env n) + 16384 \<le> 2 ^ 64 \<and>
        page_of (virt_to_phys env (get_free_page env n)) < unat m div 4096 \<and>
        page_of (virt_to_phys env (get_free_page env n + 4096)) < unat m div 4096) \<and>
     (\<forall>(a, b) \<in> set kernel_ro_symbols. in_ram env m (kallsyms env a) (kallsyms env b) ALLOC_KMALLOC)"

lemma vmalloc_in_ram: "memory_in_ram env m \<Longrightarrow> in_ram env m a b ALLOC_VMALLOC"
  by (auto simp: memory_in_ram_def in_ram_def range_phys_def page_phys_def ALLOC_VMALLOC_def ALLOC_KMALLOC_def)

lemma range_pages_two:
  assumes "page_aligned p" "unat p + 16384 \<le> 2 ^ 64"
  shows "range_pages p (p + VMCS_SIZE) = [p, p + 4096]"
proof -
  have p: "unat p mod 4096 = 0" using assms(1) by (simp add: page_aligned_iff)
  have "p + VMCS_SIZE + PAGE_SIZE - 1 = p + 12287" by (simp add: hb_consts)
  then have al: "align_end (p + VMCS_SIZE) = page_base (p + 12287)"
    by (simp only: align_end_def page_base_def MASK_PAGEADDR_mask)
  have "unat (p + 12287) = unat p + 12287" using assms(2) by (simp add: unat_word_ariths)
  then have "page_of (align_end (p + VMCS_SIZE)) = (unat p + 12287) div 4096"
    unfolding al by (simp add: page_of_def unat_page_base)
  also have m: "unat p = page_of p * 4096" using p by (simp add: page_of_def dvd_div_mult_self mod_0_imp_dvd)
  also have "(page_of p * 4096 + 12287) div 4096 = Suc (Suc (page_of p))" by simp
  finally have e: "page_of (align_end (p + VMCS_SIZE)) = Suc (Suc (page_of p))" .
  have "of_nat (page_of p * 4096) = p" by (simp flip: m del: of_nat_mult)
  moreover have "of_nat (Suc (page_of p) * 4096) = p + 4096"
    using calculation by (simp add: distrib_right)
  ultimately show ?thesis unfolding range_pages_def e by (simp del: of_nat_mult mult_Suc)
qed

lemma page_in_ram:
  assumes "memory_in_ram env m" "fresh_pages env" "get_free_page env n \<noteq> 0" "sz = VAL_4KB \<or> sz = VMCS_SIZE"
  shows "in_ram env m (get_free_page env n) (get_free_page env n + sz) ALLOC_KMALLOC"
proof -
  have dm: "direct_mapped env (get_free_page env n)" using assms(2,3) by (simp add: fresh_pages_def)
  have "VAL_4KB = EPT_PAGE_SIZE" by (simp add: hb_consts)
  then have "set (range_pages (get_free_page env n) (get_free_page env n + sz)) \<subseteq> {get_free_page env n, get_free_page env n + 4096}"
    using assms range_pages_one [OF dm] range_pages_two [of "get_free_page env n"] dm
    by (auto simp: memory_in_ram_def direct_mapped_def)
  then show ?thesis using assms(1,3) by (auto simp: in_ram_def range_phys_def page_phys_def memory_in_ram_def)
qed

section \<open>The VMX structures\<close>

text \<open>The structures of a core are allocated: pages of the allocator, and a stack.\<close>

definition core_allocated :: "kernel_env \<Rightarrow> vmcs_memory \<Rightarrow> nat \<Rightarrow> bool" where
  "core_allocated env vp i \<longleftrightarrow> (\<forall>(p, n, t) \<in> set (vmcs_ranges vp i). p \<noteq> 0 \<and>
     (t = ALLOC_KMALLOC \<longrightarrow> p \<in> range (get_free_page env) \<and> (n = VAL_4KB \<or> n = VMCS_SIZE)))"

lemma alloc_core_result:
  assumes "alloc_core env i vp h = (ok, vp', h')"
  shows "ok \<longleftrightarrow> 0 \<notin> set (pages_from env (kh_page_calls h) 8) \<and> vzalloc env (kh_vmalloc_calls h) \<noteq> 0"
    and "h' = h\<lparr>kh_page_calls := kh_page_calls h + 8, kh_vmalloc_calls := Suc (kh_vmalloc_calls h)\<rparr>"
    and "ok \<Longrightarrow> core_allocated env vp' i" "j \<noteq> i \<Longrightarrow> vmcs_ranges vp' j = vmcs_ranges vp j"
proof -
  have l: "pages_from env c 8 = map (\<lambda>k. get_free_page env (c + k)) [0, 1, 2, 3, 4, 5, 6, 7]" for c
  proof -
    have "[c..<c + 8] = map (\<lambda>k. c + k) [0..<8]" by (simp add: map_add_upt add.commute)
    then show ?thesis by (simp add: upt_rec eval_nat_numeral)
  qed
  show "ok \<longleftrightarrow> 0 \<notin> set (pages_from env (kh_page_calls h) 8) \<and> vzalloc env (kh_vmalloc_calls h) \<noteq> 0"
    "h' = h\<lparr>kh_page_calls := kh_page_calls h + 8, kh_vmalloc_calls := Suc (kh_vmalloc_calls h)\<rparr>"
    using assms unfolding l by (auto simp: alloc_core_def kh_get_free_page_def kh_vzalloc_def eval_nat_numeral)
  show "ok \<Longrightarrow> core_allocated env vp' i" "j \<noteq> i \<Longrightarrow> vmcs_ranges vp' j = vmcs_ranges vp j"
    using assms by (auto simp: alloc_core_def kh_get_free_page_def kh_vzalloc_def core_allocated_def vmcs_ranges_def
        IO_BITMAP_SIZE_def MSR_BITMAP_SIZE_def VMREAD_BITMAP_SIZE_def VMWRITE_BITMAP_SIZE_def VIRT_APIC_PAGE_SIZE_def
        ALLOC_VMALLOC_def ALLOC_KMALLOC_def)
qed

lemma alloc_cores_result:
  assumes "alloc_cores env is vp h = (ok, vp', h')"
    and "0 \<notin> set (pages_from env (kh_page_calls h) (8 * length is))"
    and "0 \<notin> set (map (vzalloc env) [kh_vmalloc_calls h..<kh_vmalloc_calls h + length is])"
  shows "ok \<and> (\<forall>i. i \<in> set is \<or> core_allocated env vp i \<longrightarrow> core_allocated env vp' i) \<and>
    h' = h\<lparr>kh_page_calls := kh_page_calls h + 8 * length is, kh_vmalloc_calls := kh_vmalloc_calls h + length is\<rparr>"
  using assms
proof (induction "is" arbitrary: vp h)
  case (Cons i "is")
  obtain ok1 vp1 h1 where s1: "alloc_core env i vp h = (ok1, vp1, h1)" by (metis prod_cases3)
  note r = alloc_core_result [OF s1]
  have p: "pages_from env (kh_page_calls h) (8 * length (i # is)) =
      pages_from env (kh_page_calls h) 8 @ pages_from env (kh_page_calls h + 8) (8 * length is)"
    using upt_add_eq_append [of "kh_page_calls h" "kh_page_calls h + 8" "8 * length is"]
    by (simp only: map_append [symmetric]) (simp add: add.assoc)
  have v: "map (vzalloc env) [kh_vmalloc_calls h..<kh_vmalloc_calls h + length (i # is)] =
      vzalloc env (kh_vmalloc_calls h) # map (vzalloc env) [Suc (kh_vmalloc_calls h)..<Suc (kh_vmalloc_calls h) + length is]"
    by (simp add: upt_conv_Cons del: upt_Suc)
  have ok1: "ok1" using r(1) Cons.prems(2,3) unfolding p v by simp
  have nz: "0 \<notin> set (pages_from env (kh_page_calls h1) (8 * length is))"
    "0 \<notin> set (map (vzalloc env) [kh_vmalloc_calls h1..<kh_vmalloc_calls h1 + length is])"
    using Cons.prems(2,3) unfolding p v r(2) by simp_all
  have "alloc_cores env is vp1 h1 = (ok, vp', h')" using Cons.prems(1) s1 ok1 by simp
  note ih = Cons.IH [OF this nz]
  have "core_allocated env vp1 j" if "j = i \<or> core_allocated env vp j" for j
    using that r(3) [OF ok1] r(4) [of j] by (cases "j = i") (auto simp: core_allocated_def)
  with ih show ?case by (auto simp: r(2))
qed simp

definition vmx_frames :: "kernel_env \<Rightarrow> nat \<Rightarrow> vmcs_memory \<Rightarrow> nat set" where
  "vmx_frames env n vp = (\<Union>i < n. \<Union>(p, sz, t) \<in> set (vmcs_ranges vp i). range_frames env p (p + sz) t)"

lemma hides_op_foldo:
  "(\<And>x. x \<in> set xs \<Longrightarrow> hides_op env st (f x) (F x)) \<Longrightarrow> hides_op env st (foldo f xs) (\<Union>x \<in> set xs. F x)"
proof (induction xs)
  case (Cons x xs)
  have "hides_op env st (f x) (F x)" "hides_op env st (foldo f xs) (\<Union>x \<in> set xs. F x)" using Cons by simp_all
  from hides_op_bind [OF this] show ?case by simp
qed (simp add: hides_op_def)

lemma core_range_in_ram:
  assumes "core_allocated env vp i" "memory_in_ram env m" "fresh_pages env" "(p, n, t) \<in> set (vmcs_ranges vp i)"
  shows "in_ram env m p (p + n) t"
proof (cases "t = ALLOC_KMALLOC")
  case True
  then obtain k where "p = get_free_page env k" "p \<noteq> 0" "n = VAL_4KB \<or> n = VMCS_SIZE"
    using assms(1,4) by (fastforce simp: core_allocated_def)
  then show ?thesis using page_in_ram [OF assms(2,3)] True by metis
next
  case False
  then have "t = ALLOC_VMALLOC" using assms(4) by (auto simp: vmcs_ranges_def)
  then show ?thesis using vmalloc_in_ram [OF assms(2)] by simp
qed

lemma protect_vmcs_hides:
  assumes "\<And>i. i < n \<Longrightarrow> core_allocated env vp i" "memory_in_ram env m" "fresh_pages env" "controls m e"
  shows "hides_op env e (hb_protect_vmcs env n vp) (vmx_frames env n vp)"
proof -
  have item: "hides_op env e (hide_item env r) (case r of (p, sz, t) \<Rightarrow> range_frames env p (p + sz) t)"
    if "i < n" "r \<in> set (vmcs_ranges vp i)" for i r
  proof -
    obtain p sz t where r: "r = (p, sz, t)" by (metis prod_cases3)
    have "range_covered env e p (p + sz) t"
      using in_ram_covered [OF core_range_in_ram [OF assms(1) assms(2,3)] assms(4)] that r by blast
    from hides_op_range [OF this] show ?thesis by (simp add: r hide_item_def [abs_def])
  qed
  have "hides_op env e (\<lambda>e. foldo (hide_item env) (vmcs_ranges vp i) e)
      (\<Union>(p, sz, t) \<in> set (vmcs_ranges vp i). range_frames env p (p + sz) t)" if "i < n" for i
    by (rule hides_op_foldo [OF item [OF that]])
  then have "hides_op env e (foldo (\<lambda>i e. foldo (hide_item env) (vmcs_ranges vp i) e) [0..<n])
      (\<Union>i \<in> set [0..<n]. \<Union>(p, sz, t) \<in> set (vmcs_ranges vp i). range_frames env p (p + sz) t)"
    by (intro hides_op_foldo [of "[0..<n]"]) simp
  then show ?thesis by (simp add: hb_protect_vmcs_def [abs_def] vmx_frames_def atLeast0LessThan)
qed

section \<open>The steps of the initialisation\<close>

text \<open>The pages of the EPT tables for a memory of \<open>m\<close> bytes.\<close>

definition ept_need :: "u64 \<Rightarrow> nat" where
  "ept_need m = 513 + ceil_div (unat m) (2 ^ 30) + ceil_div (unat m) (2 ^ 21)"

definition ept_built :: "kernel_env \<Rightarrow> u64 \<Rightarrow> ept_state \<Rightarrow> bool" where
  "ept_built env m e \<longleftrightarrow> guest_map env e {} {} \<and> controls m e \<and> unat (pml4_page_count (g_ept_info e)) = 1 \<and>
     (\<forall>p \<in> set (ept_arrays (g_ept_info e)). p \<noteq> 0 \<and> p \<in> range (get_free_page env))"

lemma alloc_counts:
  assumes al: "ept_allocated env m info h 0 info' h'" and m: "0 < unat m" "unat m \<le> 2 ^ 48"
  shows "unat (pml4_page_count info') = 1" "kh_page_calls h' \<le> kh_page_calls h + ept_need m"
    and "\<forall>p \<in> set (ept_arrays info'). p \<noteq> 0 \<and> p \<in> range (get_free_page env)"
proof -
  have cnt: "ept_counts m info' = info'" and sized: "arrays_sized info'"
    and nz: "0 \<notin> set (array_ptrs info')" "0 \<notin> set (ept_arrays info')"
    and arr: "ept_arrays info' = pages_from env (kh_page_calls h) (length (ept_arrays info'))"
    and calls: "kh_page_calls h' \<le> kh_page_calls h + length (ept_arrays info')"
    using al unfolding ept_allocated_def by blast+
  note c = ept_counts_unat [OF m, of info', unfolded cnt]
  show "unat (pml4_page_count info') = 1" by (rule c)
  have "length (ept_arrays info') = ept_need m"
    using sized nz c by (auto simp: arrays_sized_def array_ptrs_def ept_arrays_def ept_need_def split: if_splits)
  then show "kh_page_calls h' \<le> kh_page_calls h + ept_need m" using calls by simp
  have "set (ept_arrays info') \<subseteq> range (get_free_page env)" by (subst arr) auto
  then show "\<forall>p \<in> set (ept_arrays info'). p \<noteq> 0 \<and> p \<in> range (get_free_page env)" using nz(2) by auto
qed

lemma build_ept_ok:
  assumes env: "fresh_pages env" "ram_ranges_clipped env" and m: "0 < unat (g_max_ram_size s)" "unat (g_max_ram_size s) \<le> 2 ^ 48"
    and g: "0 \<notin> set (pages_from env (kh_page_calls (is_heap s)) (ept_need (g_max_ram_size s)))"
    and v: "0 \<notin> set (map (vzalloc env) [kh_vmalloc_calls (is_heap s)..<kh_vmalloc_calls (is_heap s) + 4])"
  shows "\<exists>e c. build_ept env s = Some (0, s\<lparr>is_heap := is_heap s\<lparr>kh_page_calls := c,
      kh_vmalloc_calls := kh_vmalloc_calls (is_heap s) + 4\<rparr>, is_prot := is_prot s\<lparr>ept := e\<rparr>\<rparr>) \<and>
    ept_built env (g_max_ram_size s) e \<and> kh_page_calls (is_heap s) \<le> c \<and> c \<le> kh_page_calls (is_heap s) + ept_need (g_max_ram_size s)"
proof -
  let ?m = "g_max_ram_size s" and ?h = "is_heap s" and ?e = "ept (is_prot s)"
  obtain r info' h' where al0: "hb_alloc_ept_pages env ?m (g_ept_info ?e) ?h = (r, info', h')" by (metis prod_cases3)
  have "r = 0" using alloc_ok_if_pages [OF m v g [unfolded ept_need_def], of "g_ept_info ?e"] al0 by simp
  note al0 = al0 [unfolded this]
  note al = hb_alloc_ept_pages_allocated [OF al0 m]
  let ?st = "?e\<lparr>g_ept_info := info'\<rparr>"
  have ok: "ept_pages_ok env ?st" "unat ?m div 4096 \<le> ept_nd ?st * 512" using alloc_pages_ok [OF al env(1) m] by simp_all
  obtain e where e: "hb_setup_ept_pagetable_4KB env ?m ?st = Some e" "g_ept_info e = info'" "ept_wf env e"
      "\<forall>n < ept_nd ?st * 512. pte e n = pt_entry n"
    using setup_wf [OF ok(1) env(2) ok(2)] by auto
  have nd: "ept_nd e = ept_nd ?st" by (simp add: ept_nd_def e(2))
  have "guest_translate env e gpa = Some (gpa, EPT_ALL_ACCESS)" if "unat gpa < 2 ^ 48" for gpa
    using e(4) pt_entry_perm nd
    by (simp add: guest_translate_wf [OF e(3) that] ept_covered_def EPT_ALL_ACCESS_def EPT_READ_def EPT_WRITE_def EPT_EXECUTE_def
        mask_eq_exp_minus_1)
  then have "ept_built env ?m e"
    using alloc_counts [OF al m] e(2,3) ok(2) nd by (auto simp: ept_built_def guest_map_def controls_def)
  moreover have "h' = ?h\<lparr>kh_page_calls := kh_page_calls h', kh_vmalloc_calls := kh_vmalloc_calls ?h + 4\<rparr>"
    "kh_page_calls ?h \<le> kh_page_calls h'" using al unfolding ept_allocated_def by blast+
  ultimately show ?thesis
    using al0 e(1) alloc_counts(2) [OF al m] by (intro exI [of _ e] exI [of _ "kh_page_calls h'"]) (simp add: build_ept_def)
qed

definition kernel_frames :: "kernel_env \<Rightarrow> nat set" where
  "kernel_frames env = (\<Union>(a, b) \<in> set kernel_ro_symbols. range_frames env (kallsyms env a) (kallsyms env b) ALLOC_KMALLOC)"

lemma protect_kernel_ok:
  assumes "guest_map env (ept p) {} {}" "controls m (ept p)" "memory_in_ram env m"
    and sym: "\<forall>(a, b) \<in> set kernel_ro_symbols. kallsyms env a \<noteq> 0 \<and> kallsyms env b \<noteq> 0"
  shows "\<exists>p'. hb_protect_kernel_ro_area env p = Some p' \<and> guest_map env (ept p') {} (kernel_frames env) \<and>
    g_ept_info (ept p') = g_ept_info (ept p)"
proof -
  let ?F = "\<lambda>xs. \<Union>(a, b) \<in> set xs. range_frames env (kallsyms env a) (kallsyms env b) ALLOC_KMALLOC"
  let ?P = "\<lambda>xs p'. guest_map env (ept p') {} (?F xs) \<and> g_ept_info (ept p') = g_ept_info (ept p)"
  have "\<exists>p'. hb_protect_kernel_ro_area env p = Some p' \<and> ?P kernel_ro_symbols p'"
    unfolding hb_protect_kernel_ro_area_def
  proof (rule foldo_list_total)
    show "?P [] p" using assms(1) by simp
    fix ys x zs and q :: prot_state assume xs: "kernel_ro_symbols = ys @ x # zs" and q: "?P ys q"
    obtain a b where x: "x = (a, b)" by fastforce
    have "in_ram env m (kallsyms env a) (kallsyms env b) ALLOC_KMALLOC" "kallsyms env a \<noteq> 0" "kallsyms env b \<noteq> 0"
      using assms(3) sym unfolding memory_in_ram_def xs x by auto
    moreover have "controls m (ept q)" using assms(2) q controls_cong by metis
    ultimately obtain e' where "hb_lock_range env (kallsyms env a) (kallsyms env b) ALLOC_KMALLOC (ept q) = Some e'"
        "guest_map env e' {} (?F ys \<union> range_frames env (kallsyms env a) (kallsyms env b) ALLOC_KMALLOC)"
        "g_ept_info e' = g_ept_info (ept q)"
      using guest_map_lock [OF conjunct1 [OF q] in_ram_covered] by blast
    then show "\<exists>s'. (case x of (first, final) \<Rightarrow> \<lambda>s. do {
         start_log_addr \<leftarrow> hb_get_symbol_address env first;
         end_log_addr \<leftarrow> hb_get_symbol_address env final;
         s \<leftarrow> on_ept (hb_lock_range env start_log_addr end_log_addr ALLOC_KMALLOC) s;
         Some (s\<lparr>ro := hb_add_ro_area start_log_addr end_log_addr RO_KERNEL (ro s)\<rparr>)}) q = Some s' \<and> ?P (ys @ [x]) s'"
      using q \<open>kallsyms env a \<noteq> 0\<close> \<open>kallsyms env b \<noteq> 0\<close>
      by (simp add: x hb_get_symbol_address_def on_ept_def Un_commute)
  qed
  then show ?thesis by (simp add: kernel_frames_def)
qed

lemma page_controlled:
  assumes "memory_in_ram env m" "controls m e" "p \<noteq> 0" "p \<in> range (get_free_page env)"
  shows "ept_covered e (virt_to_phys env p)"
  using assms by (auto simp: memory_in_ram_def controls_def ept_covered_def intro: order.strict_trans2)

lemma built_self_covered:
  assumes "ept_built env m e" "memory_in_ram env m"
  shows "ept_self_covered env e"
proof -
  have c: "controls m e" using assms(1) by (simp add: ept_built_def)
  have "range_covered env e a b ALLOC_VMALLOC" for a b using in_ram_covered [OF vmalloc_in_ram [OF assms(2)] c] .
  moreover have "ept_covered e (virt_to_phys env p)" if "p \<in> set (ept_arrays (g_ept_info e))" for p
    using page_controlled [OF assms(2) c] assms(1) that by (simp add: ept_built_def)
  ultimately show ?thesis by (auto simp: ept_self_covered_def ept_arrays_def)
qed

lemma host_idt_ok:
  assumes "fresh_pages env" "get_free_page env (kh_page_calls h) \<noteq> 0"
  shows "\<exists>idtr idt. hb_setup_host_idt_and_protect env st kidtr h e = Some (idtr, idt, h\<lparr>kh_page_calls := Suc (kh_page_calls h)\<rparr>, e)"
proof -
  have al: "page_aligned (get_free_page env (kh_page_calls h))" "unat (get_free_page env (kh_page_calls h)) + 8192 \<le> 2 ^ 64"
    using assms by (auto simp: fresh_pages_def direct_mapped_def)
  show ?thesis
    unfolding hb_setup_host_idt_and_protect_def kh_get_free_page_def Let_def prod.case table_end_rounded [OF al]
    using assms(2) by (simp add: hb_hide_range_eq empty_table_range [OF al])
qed

lemma protect_all_ok:
  assumes env: "fresh_pages env" "memory_in_ram env m" and b: "ept_built env m (ept (is_prot s))"
    and sym: "\<forall>(a, b) \<in> set kernel_ro_symbols. kallsyms env a \<noteq> 0 \<and> kallsyms env b \<noteq> 0"
    and vp: "\<And>i. i < cpu_count ie \<Longrightarrow> core_allocated env (is_vp s) i" and g: "get_free_page env (kh_page_calls (is_heap s)) \<noteq> 0"
  shows "\<exists>p' idtr idt. protect_all ie env s = Some (s\<lparr>is_prot := p',
      is_heap := is_heap s\<lparr>kh_page_calls := Suc (kh_page_calls (is_heap s))\<rparr>, is_host_idtr := idtr, is_host_idt := idt\<rparr>) \<and>
    guest_map env (ept p') (ept_frames env (g_ept_info (ept (is_prot s))) \<union> vmx_frames env (cpu_count ie) (is_vp s)) (kernel_frames env) \<and>
    g_ept_info (ept p') = g_ept_info (ept (is_prot s))"
proof -
  let ?e = "ept (is_prot s)"
  obtain p where p: "hb_protect_kernel_ro_area env (is_prot s) = Some p" "guest_map env (ept p) {} (kernel_frames env)"
      "g_ept_info (ept p) = g_ept_info ?e"
    using protect_kernel_ok [OF _ _ env(2) sym] b by (auto simp: ept_built_def)
  obtain idtr idt where idt: "hb_setup_host_idt_and_protect env (ie_stubs ie) (kernel_idtr ie) (is_heap s) (ept p) =
      Some (idtr, idt, is_heap s\<lparr>kh_page_calls := Suc (kh_page_calls (is_heap s))\<rparr>, ept p)"
    using host_idt_ok [OF env(1) g] by blast
  have cov: "ept_self_covered env (ept p)" "unat (pml4_page_count (g_ept_info (ept p))) = 1" "controls m (ept p)"
    using built_self_covered [OF b env(2)] b p(3) controls_cong [OF p(3)]
    by (simp_all add: ept_self_covered_def ept_built_def range_covered_cong [OF p(3)] ept_covered_def ept_nd_def)
  have wf: "ept_wf env (ept p)" using p(2) by (simp add: guest_map_def)
  obtain e1 where e1: "hb_protect_ept_pages env (ept p) = Some e1" "hides env (ept p) e1 (ept_frames env (g_ept_info ?e))"
    using protect_ept_pages_hides [OF wf cov(1,2)] p(3) by auto
  obtain e2 where e2: "hb_protect_vmcs env (cpu_count ie) (is_vp s) e1 = Some e2"
      "hides env (ept p) e2 (ept_frames env (g_ept_info ?e) \<union> vmx_frames env (cpu_count ie) (is_vp s))"
    using protect_vmcs_hides [OF vp env(2,1) cov(3), of "cpu_count ie"] e1(2) unfolding hides_op_def by blast
  have "g_ept_info e2 = g_ept_info ?e" using e2(2) p(3) by (simp add: hides_def)
  with guest_map_hides [OF p(2) e2(2)] show ?thesis
    by (intro exI [of _ "p\<lparr>ept := e2\<rparr>"] exI [of _ idtr] exI [of _ idt]) (simp add: protect_all_def p(1) idt e1(1) e2(1))
qed

text \<open>The pages of the memory pool.\<close>

definition pool_need :: "u64 \<Rightarrow> nat" where
  "pool_need m = unat m div 2097152 * 2"

lemma prepare_rest_ok:
  assumes env: "fresh_pages env" "memory_in_ram env (g_max_ram_size s)" "unat (g_max_ram_size s) \<le> 2 ^ 48"
    and map: "guest_map env (ept (is_prot s)) H L" "controls (g_max_ram_size s) (ept (is_prot s))"
    and sym: "kallsyms env ''do_send_sig_info'' \<noteq> 0" "kallsyms env ''tasklist_lock'' \<noteq> 0"
    and log: "log_kmalloc_ok ie" "log_kfifo_ok ie"
    and v: "vzalloc env (kh_vmalloc_calls (is_heap s)) \<noteq> 0" "vzalloc env (Suc (kh_vmalloc_calls (is_heap s))) \<noteq> 0"
    and g: "0 \<notin> set (pages_from env (kh_page_calls (is_heap s)) (pool_need (g_max_ram_size s)))"
  shows "\<exists>s'. prepare_rest ie env s = Some (0, s') \<and> is_vp s' = is_vp s \<and>
    pool_stock (is_pool s') = pages_from env (kh_page_calls (is_heap s)) (pool_need (g_max_ram_size s)) \<and>
    g_ept_info (ept (is_prot s')) = g_ept_info (ept (is_prot s)) \<and>
    guest_map env (ept (is_prot s')) (H \<union> page_frames env (pool_stock (is_pool s'))) L"
proof -
  let ?h = "is_heap s\<lparr>kh_vmalloc_calls := Suc (kh_vmalloc_calls (is_heap s))\<rparr>"
  let ?ps = "\<lparr>g_memory_pool = is_pool s, ps_ept = ept (is_prot s), ps_heap = ?h\<rparr>"
  obtain mon where mon: "hb_prepare_monitor (ie_mon ie) env (vzalloc env (kh_vmalloc_calls (is_heap s))) (is_mon s) = Some (0, mon)"
    using v(1) sym(1) by (simp add: hb_prepare_monitor_def hb_get_symbol_address_def)
  have "p \<in> range (get_free_page env)" if "p \<in> set (pages_from env c k)" for p c k using that by auto
  then have "pages_covered env (ept (is_prot s)) (kh_page_calls (is_heap s)) (pool_need (g_max_ram_size s))"
    using page_controlled [OF env(2) map(2)] unfolding pages_covered_def by blast
  then obtain ps where ps: "hb_setup_memory_pool env (g_max_ram_size s) ?ps = Some (0, ps)"
      "pool_stock (g_memory_pool ps) = pages_from env (kh_page_calls (is_heap s)) (pool_need (g_max_ram_size s))"
      "hides env (ept (is_prot s)) (ps_ept ps) (page_frames env (pool_stock (g_memory_pool ps)))"
    using setup_pool_success [OF env(1), of ?ps "g_max_ram_size s"] map(1) env(3) v(2) g
    unfolding guest_map_def pool_need_def by auto
  have "g_ept_info (ps_ept ps) = g_ept_info (ept (is_prot s))" using ps(3) by (simp add: hides_def)
  with guest_map_hides [OF map(1) ps(3)] ps(1,2) mon log sym(2) show ?thesis
    by (simp add: prepare_rest_def kh_vzalloc_def hb_prepare_log_buffer_def hb_get_symbol_address_def)
qed

section \<open>The state before the start of the cores\<close>

definition processor_ok :: "init_env \<Rightarrow> bool" where
  "processor_ok ie \<longleftrightarrow> cpuid_1_ecx ie AND CPUID_1_ECX_VMX \<noteq> 0 \<and>
     (feat_ctl ie AND ucast MSR_IA32_FEATURE_CONTROL_BIT_CONTROL_LOCKED \<noteq> 0 \<longrightarrow>
      feat_ctl ie AND ucast MSR_IA32_FEATURE_CONTROL_BIT_VMXON_ENABLED_OUTPUTSIDE_SMX \<noteq> 0)"

definition kernel_ok :: "init_env \<Rightarrow> kernel_env \<Rightarrow> bool" where
  "kernel_ok ie env \<longleftrightarrow> 0 \<le> kprobe_addr ie \<and> kprobe_trigger ie = 0 \<and> log_kmalloc_ok ie \<and> log_kfifo_ok ie \<and>
     (\<forall>x \<in> {''watchdog_nmi_disable'', ''flush_tlb_one_kernel'', ''modules'', ''do_send_sig_info'', ''tasklist_lock''}.
        kallsyms env x \<noteq> 0) \<and>
     (\<forall>(a, b) \<in> set kernel_ro_symbols. kallsyms env a \<noteq> 0 \<and> kallsyms env b \<noteq> 0)"

text \<open>The allocator delivers the pages and areas that the initialisation asks for, starting with the state \<open>h\<close>.\<close>

definition enough_memory :: "kernel_env \<Rightarrow> kheap \<Rightarrow> nat \<Rightarrow> u64 \<Rightarrow> bool" where
  "enough_memory env h n m \<longleftrightarrow>
     0 \<notin> set (pages_from env (kh_page_calls h) (8 * n + ept_need m + 1 + pool_need m)) \<and>
     0 \<notin> set (map (vzalloc env) [kh_vmalloc_calls h..<kh_vmalloc_calls h + (n + 6)])"

lemma calls_part:
  fixes f :: "nat \<Rightarrow> u64"
  assumes "0 \<notin> set (map f [c..<c + n])" "c \<le> d" "d + k \<le> c + n"
  shows "0 \<notin> set (map f [d..<d + k])"
  using assms by auto

lemma calls_one:
  fixes f :: "nat \<Rightarrow> u64"
  assumes "0 \<notin> set (map f [c..<c + n])" "c \<le> d" "d < c + n"
  shows "f d \<noteq> 0"
  using assms by (metis atLeastLessThan_iff image_eqI list.set_map set_upt)

text \<open>The two halves of the initialisation: the memory and the tables, then the protection.\<close>

lemma memory_phase:
  assumes env: "fresh_pages env" "ram_ranges_clipped env" and m: "g_max_ram_size s = m" "0 < unat m" "unat m \<le> 2 ^ 48"
    and mem: "enough_memory env (is_heap s) n m"
  shows "\<exists>vp h s'. hb_alloc_vmcs_memory env n (is_vp s) (is_heap s) = (vp, h, []) \<and>
    build_ept env (s\<lparr>is_vp := vp, is_heap := h, is_page_frees := is_page_frees s\<rparr>) = Some (0, s') \<and> (\<forall>i < n. core_allocated env (is_vp s') i) \<and>
    g_max_ram_size s' = m \<and> ept_built env m (ept (is_prot s')) \<and>
    0 \<notin> set (pages_from env (kh_page_calls (is_heap s')) (Suc (pool_need m))) \<and>
    0 \<notin> set (map (vzalloc env) [kh_vmalloc_calls (is_heap s')..<kh_vmalloc_calls (is_heap s') + 2])"
proof -
  let ?c = "kh_page_calls (is_heap s)" and ?v = "kh_vmalloc_calls (is_heap s)"
  have g: "0 \<notin> set (map (get_free_page env) [?c..<?c + (8 * n + ept_need m + 1 + pool_need m)])"
    and v: "0 \<notin> set (map (vzalloc env) [?v..<?v + (n + 6)])"
    using mem unfolding enough_memory_def by blast+
  obtain ok vp h where al: "alloc_cores env [0..<n] (is_vp s) (is_heap s) = (ok, vp, h)" by (metis prod_cases3)
  note cores = alloc_cores_result [OF al, unfolded length_upt diff_zero]
  have c1: "ok" "\<And>i. i < n \<Longrightarrow> core_allocated env vp i"
    "h = is_heap s\<lparr>kh_page_calls := ?c + 8 * n, kh_vmalloc_calls := ?v + n\<rparr>"
    using cores calls_part [OF g, of ?c "8 * n"] calls_part [OF v, of ?v n] by auto
  let ?s2 = "s\<lparr>is_vp := vp, is_heap := h, is_page_frees := is_page_frees s\<rparr>"
  have h2: "kh_page_calls (is_heap ?s2) = ?c + 8 * n" "kh_vmalloc_calls (is_heap ?s2) = ?v + n" "g_max_ram_size ?s2 = m"
    by (simp_all add: c1(3) m(1))
  obtain e c where b: "build_ept env ?s2 = Some (0, ?s2\<lparr>is_heap := is_heap ?s2\<lparr>kh_page_calls := c,
      kh_vmalloc_calls := ?v + n + 4\<rparr>, is_prot := is_prot ?s2\<lparr>ept := e\<rparr>\<rparr>)" "ept_built env m e" "?c + 8 * n \<le> c"
      "c \<le> ?c + 8 * n + ept_need m"
    using build_ept_ok [OF env, of ?s2, unfolded h2, OF m(2,3)] calls_part [OF g, of "?c + 8 * n" "ept_need m"]
      calls_part [OF v, of "?v + n" 4] by auto
  then show ?thesis
    using al c1(1,2) m(1) calls_part [OF g, of c "Suc (pool_need m)"] calls_part [OF v, of "?v + n + 4" 2]
    by (simp add: hb_alloc_vmcs_memory_def del: upt_Suc)
qed

lemma protection_phase:
  assumes env: "fresh_pages env" "kernel_ok ie env" "memory_in_ram env m" and m: "g_max_ram_size s = m" "unat m \<le> 2 ^ 48"
    and b: "ept_built env m (ept (is_prot s))" and vp: "\<And>i. i < cpu_count ie \<Longrightarrow> core_allocated env (is_vp s) i"
    and g: "0 \<notin> set (pages_from env (kh_page_calls (is_heap s)) (Suc (pool_need m)))"
    and v: "0 \<notin> set (map (vzalloc env) [kh_vmalloc_calls (is_heap s)..<kh_vmalloc_calls (is_heap s) + 2])"
  shows "\<exists>s1 s'. protect_all ie env s = Some s1 \<and> prepare_rest ie env s1 = Some (0, s') \<and> is_vp s' = is_vp s \<and>
    length (pool_stock (is_pool s')) = pool_need m \<and>
    guest_map env (ept (is_prot s')) (ept_frames env (g_ept_info (ept (is_prot s'))) \<union> vmx_frames env (cpu_count ie) (is_vp s') \<union>
      page_frames env (pool_stock (is_pool s'))) (kernel_frames env)"
proof -
  let ?c = "kh_page_calls (is_heap s)" and ?v = "kh_vmalloc_calls (is_heap s)" and ?e = "ept (is_prot s)"
  obtain p' idtr idt where pr: "protect_all ie env s = Some (s\<lparr>is_prot := p', is_heap := is_heap s\<lparr>kh_page_calls := Suc ?c\<rparr>,
      is_host_idtr := idtr, is_host_idt := idt\<rparr>)" (is "_ = Some ?s1")
      "guest_map env (ept p') (ept_frames env (g_ept_info ?e) \<union> vmx_frames env (cpu_count ie) (is_vp s)) (kernel_frames env)"
      "g_ept_info (ept p') = g_ept_info ?e"
    using protect_all_ok [OF env(1,3) b _ _ calls_one [OF g, of ?c], of ie] vp env(2) by (auto simp: kernel_ok_def)
  have ctl: "controls m (ept p')" using b controls_cong [OF pr(3)] by (simp add: ept_built_def)
  have h: "kh_page_calls (is_heap ?s1) = Suc ?c" "kh_vmalloc_calls (is_heap ?s1) = ?v" "is_vp ?s1 = is_vp s"
    "ept (is_prot ?s1) = ept p'" "g_max_ram_size ?s1 = m" by (simp_all add: m(1))
  show ?thesis
    using prepare_rest_ok [OF env(1), of ?s1, unfolded h, OF env(3) m(2) pr(2) ctl, of ie] pr(1,3)
      calls_part [OF g, of "Suc ?c" "pool_need m"] calls_one [OF v, of ?v] calls_one [OF v, of "Suc ?v"] env(2)
    by (auto simp: kernel_ok_def)
qed

text \<open>C2: On a machine that meets the requirements \<open>hyper_box_init\<close> returns 0 once the cores have started, and before it starts them
  the guest is confined: it cannot access the EPT tables with their pointer arrays, any structure of any core
  (VMXON region, VMCS, exit stack, bitmaps, virtual APIC page) nor any page of the memory pool; it can read and execute but not
  write the read-only areas of the kernel; every other address is accessible and mapped to itself.\<close>

theorem startup_confines_guest:
  assumes "processor_ok ie" "kernel_ok ie env" "fresh_pages env" "ram_ranges_clipped env"
    and "map_option adjust_max_ram_size (hb_get_max_ram_size env) = Some m" "0 < unat m" "unat m \<le> 2 ^ 48"
    and "memory_in_ram env m" "enough_memory env (is_heap s) (cpu_count ie) m"
  shows "\<exists>s'. hyper_box_init ie env 0 s = Some (0, s') \<and>
    (\<forall>i < cpu_count ie. \<forall>(p, n, t) \<in> set (vmcs_ranges (is_vp s') i). p \<noteq> 0) \<and>
    length (pool_stock (is_pool s')) = unat m div 2097152 * 2 \<and>
    (\<forall>gpa. unat gpa < 2 ^ 48 \<longrightarrow> guest_translate env (ept (is_prot s')) gpa =
      (if page_of gpa \<in> ept_frames env (g_ept_info (ept (is_prot s'))) \<union> vmx_frames env (cpu_count ie) (is_vp s') \<union>
           page_frames env (pool_stock (is_pool s')) then None
       else if page_of gpa \<in> kernel_frames env then Some (gpa, EPT_READ OR EPT_EXECUTE) else Some (gpa, EPT_ALL_ACCESS)))"
proof -
  obtain s0 where s0: "check_hardware ie s = (0, s0)" "is_heap s0 = is_heap s"
    using assms(1) by (fastforce simp: check_hardware_def processor_ok_def Let_def)
  obtain ops where f: "hb_get_function_pointers ie env (is_opened s0) = Some (0, ops)"
    using assms(2) by (simp add: kernel_ok_def hb_get_function_pointers_def hb_get_kallsyms_lookup_name_ptr_def hb_get_symbol_address_def)
  let ?o = "s0\<lparr>is_opened := ops\<rparr>"
  let ?s1 = "(if cpuid_d_eax ie AND CPUID_D_EAX_XSAVES \<noteq> 0 then ?o\<lparr>is_support := is_support ?o\<lparr>g_support_xsave := 1\<rparr>\<rparr> else ?o)
    \<lparr>g_max_ram_size := m\<rparr>"
  have "is_heap ?s1 = is_heap s" "g_max_ram_size ?s1 = m" using s0(2) by simp_all
  from memory_phase [OF assms(3,4) this(2) assms(6,7), unfolded this(1), OF assms(9)] obtain vp h s2 where
    s2: "hb_alloc_vmcs_memory env (cpu_count ie) (is_vp ?s1) (is_heap s) = (vp, h, [])"
      "build_ept env (?s1\<lparr>is_vp := vp, is_heap := h, is_page_frees := is_page_frees ?s1\<rparr>) = Some (0, s2)" "\<forall>i < cpu_count ie. core_allocated env (is_vp s2) i"
      "g_max_ram_size s2 = m" "ept_built env m (ept (is_prot s2))"
      "0 \<notin> set (pages_from env (kh_page_calls (is_heap s2)) (Suc (pool_need m)))"
      "0 \<notin> set (map (vzalloc env) [kh_vmalloc_calls (is_heap s2)..<kh_vmalloc_calls (is_heap s2) + 2])" by blast
  from protection_phase [OF assms(3,2,8) s2(4) assms(7) s2(5) _ s2(6,7)] s2(3) obtain s3 s' where
    s': "protect_all ie env s2 = Some s3" "prepare_rest ie env s3 = Some (0, s')" "is_vp s' = is_vp s2"
      "length (pool_stock (is_pool s')) = pool_need m"
      "guest_map env (ept (is_prot s')) (ept_frames env (g_ept_info (ept (is_prot s'))) \<union> vmx_frames env (cpu_count ie) (is_vp s') \<union>
         page_frames env (pool_stock (is_pool s'))) (kernel_frames env)" by blast
  have "hyper_box_init ie env 0 s = Some (0, s')"
    using s0 s2(1,2) s'(1,2) assms(5)
    by (cases "cpuid_d_eax ie AND CPUID_D_EAX_XSAVES = 0") (auto simp: hyper_box_init_def f)
  moreover have "\<forall>i < cpu_count ie. \<forall>(p, n, t) \<in> set (vmcs_ranges (is_vp s') i). p \<noteq> 0"
    using s2(3) s'(3) by (fastforce simp: core_allocated_def)
  ultimately show ?thesis using s'(4,5) unfolding guest_map_def pool_need_def by blast
qed

section \<open>Files that cannot be opened\<close>

text \<open>A file that cannot be opened does not stop the start: its error pointer, which is not null, is handed on to the object monitor, which
  tests for null only.\<close>

lemma error_pointer_kept:
  assumes "hb_get_function_pointers ie env ops = Some (0, ops')"
  shows "op_tcp_file_ptr ops' = filp_open ie ''/proc/net/tcp''"
  using assms by (auto simp: hb_get_function_pointers_def Let_def split: bind_splits if_splits)

section \<open>A concrete machine\<close>

text \<open>A machine with 4GB of memory whose page allocator hands out 16384 pages.\<close>

definition boot_env :: kernel_env where
  "boot_env = sample_env\<lparr>get_free_page := \<lambda>n. if n < 16384 then get_free_page sample_env n else 0\<rparr>"

definition boot_ie :: init_env where
  "boot_ie = \<lparr>cpuid_1_ecx = 0x20, cpuid_d_eax = 8, feat_ctl = 5, kprobe_addr = 0, kprobe_trigger = 0, cpu_count = 2,
     kernel_idtr = \<lparr>dt_size = 0xFFF, dt_address = 0xFFFFFE0000000000\<rparr>, log_kmalloc_ok = True, log_kfifo_ok = True,
     ie_stubs = sample_stubs, ie_mon = undefined, filp_open = (\<lambda>_. 0xFFFF888000000000), sock_create = (\<lambda>_ _. (0, 0xFFFF888000001000))\<rparr>"

lemma boot_env_select:
  "virt_to_phys boot_env a = a" "phys_to_virt boot_env a = a" "vzalloc boot_env = vzalloc sample_env"
  "vmalloc_to_pfn boot_env = vmalloc_to_pfn sample_env" "kallsyms boot_env = kallsyms sample_env"
  "system_ram boot_env = system_ram sample_env" "totalram_pages boot_env = totalram_pages sample_env"
  "get_free_page boot_env n = (if n < 16384 then get_free_page sample_env n else 0)"
  by (simp_all add: boot_env_def) (simp_all add: sample_env_def)

lemma boot_page: "n < 16384 \<Longrightarrow> unat (get_free_page boot_env n) = (n + 1) * 4096"
  using sample_page [of n] by (simp add: boot_env_select)

lemma boot_fresh_pages: "fresh_pages boot_env"
proof -
  have "direct_mapped boot_env p \<longleftrightarrow> direct_mapped sample_env p" for p
    by (simp add: direct_mapped_def boot_env_select) (simp add: sample_env_def)
  then show ?thesis using sample_fresh_pages by (simp add: fresh_pages_def boot_env_select)
qed

lemma boot_ram: "map_option adjust_max_ram_size (hb_get_max_ram_size boot_env) = Some 0x140000000" "ram_ranges_clipped boot_env"
proof -
  show "ram_ranges_clipped boot_env" using sample_ram_clipped by (simp add: ram_ranges_clipped_def boot_env_select)
  have "hb_get_symbol_address boot_env ''walk_system_ram_range'' = Some 0x1015000"
    unfolding hb_get_symbol_address_def boot_env_select by (simp add: sample_env_def)
  then have "hb_get_max_ram_size boot_env = Some 0x100000000"
    by (simp add: hb_get_max_ram_size_def boot_env_select hb_callback_walk_ram_def hb_consts) (simp add: sample_env_def hb_callback_walk_ram_def hb_consts)
  then show "map_option adjust_max_ram_size (hb_get_max_ram_size boot_env) = Some 0x140000000"
    by (simp add: adjust_max_ram_size_def CEIL_def hb_consts)
qed

lemma boot_memory: "memory_in_ram boot_env 0x140000000"
proof -
  have "page_of (push_bit 12 (take_bit 20 a)) < 1310720" for a :: u64
  proof -
    have "unat (take_bit 20 a) < 2 ^ 20" by (simp add: take_bit_eq_mod unat_mod)
    then show ?thesis by (simp add: page_of_def push_bit_eq_mult unat_word_ariths)
  qed
  then have "page_of (push_bit 12 (vmalloc_to_pfn boot_env a)) < 1310720" for a by (simp add: boot_env_select) (simp add: sample_env_def)
  moreover have "unat (get_free_page boot_env n) + 16384 \<le> 2 ^ 64 \<and> page_of (get_free_page boot_env n) < 1310720 \<and>
      page_of (get_free_page boot_env n + 4096) < 1310720" if "get_free_page boot_env n \<noteq> 0" for n
  proof -
    have n: "n < 16384" using that by (simp add: boot_env_select split: if_splits)
    then show ?thesis using boot_page [OF n] by (simp add: page_of_def unat_word_ariths)
  qed
  moreover have "in_ram boot_env 0x140000000 (kallsyms boot_env a) (kallsyms boot_env b) ALLOC_KMALLOC"
    if "(a, b) \<in> set kernel_ro_symbols" for a b
  proof -
    have "kallsyms boot_env b \<in> {0x1006000, 0x1011000, 0x100C000}"
      using that by (auto simp: kernel_ro_symbols_def boot_env_select) (simp_all add: sample_env_def)
    then have "page_of (align_end (kallsyms boot_env b)) < 1310720" by (auto simp: align_end_def hb_consts page_of_def)
    moreover have "page_of pa < page_of (align_end (kallsyms boot_env b))"
      if "pa \<in> set (range_phys boot_env (kallsyms boot_env a) (kallsyms boot_env b) ALLOC_KMALLOC)" for pa
      using that page_of_less [of "align_end (kallsyms boot_env b)"]
      by (auto simp: range_phys_def page_phys_def range_pages_def boot_env_select(1) page_of_def unat_page_addr simp del: of_nat_mult)
    ultimately show ?thesis by (fastforce simp: in_ram_def)
  qed
  ultimately show ?thesis by (auto simp: memory_in_ram_def boot_env_select(1))
qed

lemma boot_enough: "enough_memory boot_env kh_init 2 0x140000000"
proof -
  have n: "8 * 2 + ept_need 0x140000000 + 1 + pool_need 0x140000000 = 8215"
    by (simp add: ept_need_def pool_need_def ceil_div_def)
  have "get_free_page boot_env n \<noteq> 0" if "n < 8215" for n
    using boot_page [of n] that by auto
  moreover have "vzalloc boot_env n \<noteq> 0" if "n < 8" for n
  proof -
    have "n \<in> {0, 1, 2, 3, 4, 5, 6, 7}" using that by auto
    then show ?thesis unfolding boot_env_select by (auto simp: sample_env_def)
  qed
  ultimately show ?thesis unfolding enough_memory_def n by fastforce
qed

lemma boot_checks: "processor_ok boot_ie" "kernel_ok boot_ie boot_env"
proof -
  show "processor_ok boot_ie" by (simp add: processor_ok_def boot_ie_def hb_consts)
  have "kallsyms boot_env x \<noteq> 0" if "x \<noteq> ''missing''" "length x < 100" for x
  proof -
    have "unat (0x1000000 + of_nat (length x * 4096) :: u64) = 0x1000000 + length x * 4096"
      using that(2) by (simp add: unat_word_ariths unat_of_nat take_bit_eq_mod)
    then show ?thesis using that(1) unfolding boot_env_select by (auto simp: sample_env_def)
  qed
  then show "kernel_ok boot_ie boot_env" by (simp add: kernel_ok_def boot_ie_def kernel_ro_symbols_def)
qed

theorem startup_confines_guest_witness:
  "\<exists>s s'. is_heap s = kh_init \<and> hyper_box_init boot_ie boot_env 0 s = Some (0, s') \<and> length (pool_stock (is_pool s')) = 5120"
proof -
  define s :: init_state where "s = undefined\<lparr>is_heap := kh_init\<rparr>"
  have h: "is_heap s = kh_init" "cpu_count boot_ie = 2" by (simp_all add: s_def boot_ie_def)
  have m: "map_option adjust_max_ram_size (hb_get_max_ram_size boot_env) = Some 0x140000000" "0 < unat (0x140000000 :: u64)"
    "unat (0x140000000 :: u64) \<le> 2 ^ 48" using boot_ram(1) by simp_all
  from startup_confines_guest [OF boot_checks boot_fresh_pages boot_ram(2) m boot_memory, of s] boot_enough h
  show ?thesis by auto
qed

end
