(* ===== verification/Thread_Start.thy ===== *)
theory Thread_Start
  imports Prelude
begin

text \<open>
  The start of the hypervisor on all cores (hypervisor.c, \<open>hb_start\<close> and \<open>hb_vm_thread\<close>): one kernel thread per core,
  synchronised by counters that every thread decrements once and that the others wait for, and the caller of
  \<open>hb_start\<close>, which waits for all of them. The interleaving of the threads is a step relation; a waiting loop is a step that
  is possible only when its condition holds. What a core does between the barriers is the subject of the theories
  \<open>Page_Dup\<close>, \<open>Task_Manager\<close> and \<open>Vmcs_Setup\<close>; here it is recorded as done.
\<close>

section \<open>States\<close>

text \<open>Where a thread is. \<open>Failed\<close>: the allocation of the register structures failed and the thread has returned.\<close>

datatype vm_pc =
    Entry | Wait_entry | Alloc | Failed | Rcu | Wait_rcu | Mutex | Run | Wait_run | Work | Wait_sync | Launch | Finish | Done

record start_state =
  thread_pc :: "nat \<Rightarrow> vm_pc"
  g_thread_entry_count :: int
  g_thread_rcu_sync_count :: int
  g_mutex_lock_flags :: int
  g_thread_run_flags :: int
  g_sync_flags :: int
  g_complete_flags :: int
  g_enter_count :: int
  g_thread_result :: int
  g_need_init_in_secure :: int
  g_allow_hyper_box_hide :: int
  host_ready :: bool
  launched_cores :: "nat set"
  start_result :: "int option"

text \<open>\<open>hb_start\<close> up to the loop in which it waits; the threads have been created and woken up.\<close>

definition hb_start_init :: "nat \<Rightarrow> start_state" where
  "hb_start_init cpu_count =
     \<lparr>thread_pc = (\<lambda>_. Entry), g_thread_entry_count = int cpu_count, g_thread_rcu_sync_count = int cpu_count,
      g_mutex_lock_flags = 0, g_thread_run_flags = int cpu_count, g_sync_flags = int cpu_count, g_complete_flags = int cpu_count,
      g_enter_count = 0, g_thread_result = 0, g_need_init_in_secure = 1,
      g_allow_hyper_box_hide = 0, host_ready = False, launched_cores = {}, start_result = None\<rparr>"

definition move :: "nat \<Rightarrow> vm_pc \<Rightarrow> start_state \<Rightarrow> start_state" where
  "move i p s = s\<lparr>thread_pc := (thread_pc s)(i := p)\<rparr>"

section \<open>Steps\<close>

text \<open>\<open>alloc_ok i\<close>: the allocations of core \<open>i\<close> succeed; \<open>launch_ok i\<close>: \<open>hb_init_vmx\<close> and VMLAUNCH succeed on it.
  A VMXON that faults, because the firmware left IA32_FEATURE_CONTROL unlocked, is not an outcome here.\<close>

inductive vm_thread :: "(nat \<Rightarrow> bool) \<Rightarrow> (nat \<Rightarrow> bool) \<Rightarrow> nat \<Rightarrow> start_state \<Rightarrow> start_state \<Rightarrow> bool" for alloc_ok launch_ok i where
  entry: "thread_pc s i = Entry \<Longrightarrow> vm_thread alloc_ok launch_ok i s
     (move i Wait_entry (s\<lparr>g_thread_entry_count := g_thread_entry_count s - 1\<rparr>))"
| entry_done: "thread_pc s i = Wait_entry \<Longrightarrow> \<not> g_thread_entry_count s > 0 \<Longrightarrow> vm_thread alloc_ok launch_ok i s (move i Alloc s)"
| alloc: "thread_pc s i = Alloc \<Longrightarrow> alloc_ok i \<Longrightarrow> vm_thread alloc_ok launch_ok i s (move i Rcu s)"
| alloc_fail: "thread_pc s i = Alloc \<Longrightarrow> \<not> alloc_ok i \<Longrightarrow> vm_thread alloc_ok launch_ok i s
     (move i Failed (s\<lparr>g_thread_result := -1\<rparr>))"
| rcu: "thread_pc s i = Rcu \<Longrightarrow> vm_thread alloc_ok launch_ok i s
     (move i Wait_rcu (s\<lparr>g_thread_rcu_sync_count := g_thread_rcu_sync_count s - 1\<rparr>))"
| rcu_done: "thread_pc s i = Wait_rcu \<Longrightarrow> \<not> g_thread_rcu_sync_count s > 0 \<Longrightarrow> vm_thread alloc_ok launch_ok i s (move i Mutex s)"
| mutex_first: "thread_pc s i = Mutex \<Longrightarrow> i = 0 \<Longrightarrow> vm_thread alloc_ok launch_ok i s (move i Run (s\<lparr>g_mutex_lock_flags := 1\<rparr>))"
| mutex_other: "thread_pc s i = Mutex \<Longrightarrow> i \<noteq> 0 \<Longrightarrow> g_mutex_lock_flags s \<noteq> 0 \<Longrightarrow> vm_thread alloc_ok launch_ok i s (move i Run s)"
| run: "thread_pc s i = Run \<Longrightarrow> vm_thread alloc_ok launch_ok i s
     (move i Wait_run (s\<lparr>g_thread_run_flags := g_thread_run_flags s - 1\<rparr>))"
| run_done: "thread_pc s i = Wait_run \<Longrightarrow> \<not> g_thread_run_flags s > 0 \<Longrightarrow> vm_thread alloc_ok launch_ok i s (move i Work s)"
| work: "thread_pc s i = Work \<Longrightarrow> vm_thread alloc_ok launch_ok i s
     (move i Wait_sync (s\<lparr>host_ready := (if i = 0 then True else host_ready s), g_sync_flags := g_sync_flags s - 1\<rparr>))"
| work_done: "thread_pc s i = Wait_sync \<Longrightarrow> \<not> g_sync_flags s > 0 \<Longrightarrow> vm_thread alloc_ok launch_ok i s (move i Launch s)"
| launch: "thread_pc s i = Launch \<Longrightarrow> vm_thread alloc_ok launch_ok i s
     (move i Finish (s\<lparr>g_enter_count := g_enter_count s + 1,
        launched_cores := (if launch_ok i then insert i (launched_cores s) else launched_cores s),
        g_thread_result := (if launch_ok i then g_thread_result s else -1)\<rparr>))"
| finish: "thread_pc s i = Finish \<Longrightarrow> vm_thread alloc_ok launch_ok i s
     (move i Done (s\<lparr>g_complete_flags := g_complete_flags s - 1\<rparr>))"

text \<open>The end of \<open>hb_start\<close>.\<close>

definition hb_start_finish :: "start_state \<Rightarrow> start_state" where
  "hb_start_finish s =
     (if g_thread_result s \<noteq> 0 then s\<lparr>start_result := Some (-1)\<rparr>
      else s\<lparr>g_allow_hyper_box_hide := 1, start_result := Some 0\<rparr>)"

inductive start_step :: "(nat \<Rightarrow> bool) \<Rightarrow> (nat \<Rightarrow> bool) \<Rightarrow> nat \<Rightarrow> start_state \<Rightarrow> start_state \<Rightarrow> bool"
  for alloc_ok launch_ok cpu_count where
  thread: "i < cpu_count \<Longrightarrow> vm_thread alloc_ok launch_ok i s t \<Longrightarrow> start_step alloc_ok launch_ok cpu_count s t"
| caller: "start_result s = None \<Longrightarrow> \<not> g_complete_flags s > 0 \<Longrightarrow>
     start_step alloc_ok launch_ok cpu_count s (hb_start_finish s)"

inductive_cases vm_threadE: "vm_thread alloc_ok launch_ok i s t"
inductive_cases start_stepE: "start_step alloc_ok launch_ok cpu_count s t"

inductive start_reachable :: "(nat \<Rightarrow> bool) \<Rightarrow> (nat \<Rightarrow> bool) \<Rightarrow> nat \<Rightarrow> start_state \<Rightarrow> bool" for alloc_ok launch_ok cpu_count where
  init: "start_reachable alloc_ok launch_ok cpu_count (hb_start_init cpu_count)"
| step: "start_reachable alloc_ok launch_ok cpu_count s \<Longrightarrow> start_step alloc_ok launch_ok cpu_count s t \<Longrightarrow>
    start_reachable alloc_ok launch_ok cpu_count t"

section \<open>Counting\<close>

text \<open>How far a thread has come; a failed one stays where its allocation failed.\<close>

fun rank :: "vm_pc \<Rightarrow> nat" where
  "rank Entry = 0"
| "rank Wait_entry = 1"
| "rank Alloc = 2"
| "rank Failed = 2"
| "rank Rcu = 3"
| "rank Wait_rcu = 4"
| "rank Mutex = 5"
| "rank Run = 6"
| "rank Wait_run = 7"
| "rank Work = 8"
| "rank Wait_sync = 9"
| "rank Launch = 10"
| "rank Finish = 11"
| "rank Done = 12"

text \<open>The number of threads that have not come to \<open>k\<close>.\<close>

definition behind :: "nat \<Rightarrow> (nat \<Rightarrow> vm_pc) \<Rightarrow> nat \<Rightarrow> nat" where
  "behind n pc k = card {i. i < n \<and> rank (pc i) < k}"

lemma behind_zero: "behind n pc k = 0 \<longleftrightarrow> (\<forall>i < n. k \<le> rank (pc i))"
  by (auto simp: behind_def not_less) (metis not_le)

lemma behind_move:
  assumes "i < n" "rank (pc i) < k \<longleftrightarrow> rank p < k"
  shows "behind n (pc(i := p)) k = behind n pc k"
proof -
  have "{j. j < n \<and> rank ((pc(i := p)) j) < k} = {j. j < n \<and> rank (pc j) < k}" using assms by auto
  then show ?thesis by (simp add: behind_def)
qed

lemma behind_pass:
  assumes "i < n" "rank (pc i) < k" "\<not> rank p < k"
  shows "int (behind n (pc(i := p)) k) = int (behind n pc k) - 1"
proof -
  have "{j. j < n \<and> rank ((pc(i := p)) j) < k} = {j. j < n \<and> rank (pc j) < k} - {i}" using assms by auto
  moreover have "i \<in> {j. j < n \<and> rank (pc j) < k}" using assms by simp
  moreover have "0 < card {j. j < n \<and> rank (pc j) < k}" using assms by (auto simp: card_gt_0_iff)
  ultimately show ?thesis by (simp add: behind_def card_Diff_singleton of_nat_diff)
qed


section \<open>Invariants\<close>

lemma move_select [simp]:
  "thread_pc (move i p s) = (thread_pc s)(i := p)" "g_thread_entry_count (move i p s) = g_thread_entry_count s"
  "g_thread_rcu_sync_count (move i p s) = g_thread_rcu_sync_count s" "g_mutex_lock_flags (move i p s) = g_mutex_lock_flags s"
  "g_thread_run_flags (move i p s) = g_thread_run_flags s" "g_sync_flags (move i p s) = g_sync_flags s"
  "g_complete_flags (move i p s) = g_complete_flags s" "g_thread_result (move i p s) = g_thread_result s"
  "host_ready (move i p s) = host_ready s" "launched_cores (move i p s) = launched_cores s" "start_result (move i p s) = start_result s"
  by (simp_all add: move_def)

lemma finish_select [simp]:
  "thread_pc (hb_start_finish s) = thread_pc s" "g_thread_entry_count (hb_start_finish s) = g_thread_entry_count s"
  "g_thread_rcu_sync_count (hb_start_finish s) = g_thread_rcu_sync_count s" "g_mutex_lock_flags (hb_start_finish s) = g_mutex_lock_flags s"
  "g_thread_run_flags (hb_start_finish s) = g_thread_run_flags s" "g_sync_flags (hb_start_finish s) = g_sync_flags s"
  "g_complete_flags (hb_start_finish s) = g_complete_flags s" "g_thread_result (hb_start_finish s) = g_thread_result s"
  "host_ready (hb_start_finish s) = host_ready s" "launched_cores (hb_start_finish s) = launched_cores s"
  by (simp_all add: hb_start_finish_def)

text \<open>Each counter counts the threads that have not come to its barrier.\<close>

definition counters :: "nat \<Rightarrow> start_state \<Rightarrow> bool" where
  "counters n s \<longleftrightarrow> g_thread_entry_count s = int (behind n (thread_pc s) 1) \<and>
     g_thread_rcu_sync_count s = int (behind n (thread_pc s) 4) \<and> g_thread_run_flags s = int (behind n (thread_pc s) 7) \<and>
     g_sync_flags s = int (behind n (thread_pc s) 9) \<and> g_complete_flags s = int (behind n (thread_pc s) 12)"

lemma counters_init: "counters n (hb_start_init n)"
  by (simp add: counters_def hb_start_init_def behind_def)

lemma counters_thread: "vm_thread alloc_ok launch_ok i s t \<Longrightarrow> i < n \<Longrightarrow> counters n s \<Longrightarrow> counters n t"
  by (erule vm_threadE) (simp_all add: counters_def behind_move behind_pass)

text \<open>A thread behind a barrier is behind it together with all others.\<close>

definition barrier :: "nat \<Rightarrow> nat \<Rightarrow> start_state \<Rightarrow> bool" where
  "barrier n b s \<longleftrightarrow> (\<forall>i < n. \<forall>j < n. Suc b \<le> rank (thread_pc s i) \<longrightarrow> b \<le> rank (thread_pc s j))"

definition barriers :: "nat \<Rightarrow> start_state \<Rightarrow> bool" where
  "barriers n s \<longleftrightarrow> barrier n 1 s \<and> barrier n 4 s \<and> barrier n 7 s \<and> barrier n 9 s"

lemma rank_mono: "vm_thread alloc_ok launch_ok i s t \<Longrightarrow> rank (thread_pc s j) \<le> rank (thread_pc t j)"
  by (erule vm_threadE) auto

lemma rank_step: "vm_thread alloc_ok launch_ok i s t \<Longrightarrow> rank (thread_pc t i) \<le> Suc (rank (thread_pc s i))"
  by (erule vm_threadE) auto

lemma pc_other: "vm_thread alloc_ok launch_ok i s t \<Longrightarrow> j \<noteq> i \<Longrightarrow> thread_pc t j = thread_pc s j"
  by (erule vm_threadE) auto

lemma barrier_pass:
  assumes "vm_thread alloc_ok launch_ok i s t" "i < n" "counters n s" "b \<in> {1, 4, 7, 9}"
    and "rank (thread_pc s i) = b" "rank (thread_pc t i) = Suc b"
  shows "\<forall>j < n. b \<le> rank (thread_pc s j)"
proof -
  have "behind n (thread_pc s) b = 0"
    using assms(1) by (rule vm_threadE) (use assms(3-6) in \<open>auto simp: counters_def\<close>)
  then show ?thesis by (simp add: behind_zero)
qed

lemma barrier_thread:
  assumes t: "vm_thread alloc_ok launch_ok i s t" "i < n" "counters n s" "b \<in> {1, 4, 7, 9}" "barrier n b s"
  shows "barrier n b t"
  unfolding barrier_def
proof (intro allI impI)
  fix k j assume k: "k < n" "j < n" "Suc b \<le> rank (thread_pc t k)"
  show "b \<le> rank (thread_pc t j)"
  proof (cases "Suc b \<le> rank (thread_pc s k)")
    case True
    then have "b \<le> rank (thread_pc s j)" using t(5) k by (auto simp: barrier_def)
    then show ?thesis using rank_mono [OF t(1)] le_trans by blast
  next
    case False
    with k(3) pc_other [OF t(1)] have "k = i" by metis
    with False k(3) rank_step [OF t(1)] have "rank (thread_pc s i) = b" "rank (thread_pc t i) = Suc b" by simp_all
    then have "b \<le> rank (thread_pc s j)" using barrier_pass [OF t(1-4)] k(2) by blast
    then show ?thesis using rank_mono [OF t(1)] le_trans by blast
  qed
qed

text \<open>What core 0 has done, and the outcome so far.\<close>

definition core_zero :: "start_state \<Rightarrow> bool" where
  "core_zero s \<longleftrightarrow> (g_mutex_lock_flags s \<noteq> 0 \<longleftrightarrow> 6 \<le> rank (thread_pc s 0)) \<and> (host_ready s \<longleftrightarrow> 9 \<le> rank (thread_pc s 0))"

lemma core_zero_thread: "vm_thread alloc_ok launch_ok i s t \<Longrightarrow> core_zero s \<Longrightarrow> core_zero t"
  by (erule vm_threadE; cases "i = 0") (simp_all add: core_zero_def)

text \<open>The threads that have reported a failure, and those that have entered the guest.\<close>

definition bad_thread :: "(nat \<Rightarrow> bool) \<Rightarrow> nat \<Rightarrow> vm_pc \<Rightarrow> bool" where
  "bad_thread launch_ok i p \<longleftrightarrow> p = Failed \<or> 11 \<le> rank p \<and> \<not> launch_ok i"

definition outcome :: "(nat \<Rightarrow> bool) \<Rightarrow> nat \<Rightarrow> start_state \<Rightarrow> bool" where
  "outcome launch_ok n s \<longleftrightarrow> (g_thread_result s \<noteq> 0 \<longleftrightarrow> (\<exists>i < n. bad_thread launch_ok i (thread_pc s i)))"

lemma outcome_keep:
  assumes "outcome launch_ok n s" "thread_pc t = (thread_pc s)(i := p)" "g_thread_result t = g_thread_result s"
    and "bad_thread launch_ok i p \<longleftrightarrow> bad_thread launch_ok i (thread_pc s i)"
  shows "outcome launch_ok n t"
proof -
  have "bad_thread launch_ok j (thread_pc t j) \<longleftrightarrow> bad_thread launch_ok j (thread_pc s j)" for j
    using assms(2,4) by simp
  then show ?thesis using assms(1,3) by (simp add: outcome_def)
qed

lemma outcome_bad:
  assumes "i < n" "bad_thread launch_ok i (thread_pc t i)" "g_thread_result t = -1"
  shows "outcome launch_ok n t"
  using assms by (auto simp: outcome_def)

lemma outcome_thread:
  assumes "vm_thread alloc_ok launch_ok i s t" "i < n" "outcome launch_ok n s"
  shows "outcome launch_ok n t"
proof (cases "bad_thread launch_ok i (thread_pc t i) \<longleftrightarrow> bad_thread launch_ok i (thread_pc s i)")
  case True
  have "g_thread_result t = g_thread_result s"
    using assms(1) by (rule vm_threadE) (use True in \<open>simp_all add: bad_thread_def\<close>)
  moreover have "thread_pc t = (thread_pc s)(i := thread_pc t i)" using pc_other [OF assms(1)] by auto
  ultimately show ?thesis using outcome_keep [OF assms(3) _ _ True] by blast
next
  case False
  have "bad_thread launch_ok i (thread_pc t i) \<and> g_thread_result t = -1"
    using assms(1) by (rule vm_threadE) (use False in \<open>simp_all add: bad_thread_def\<close>)
  then show ?thesis using outcome_bad assms(2) by blast
qed

definition entered :: "(nat \<Rightarrow> bool) \<Rightarrow> nat \<Rightarrow> start_state \<Rightarrow> bool" where
  "entered launch_ok n s \<longleftrightarrow> launched_cores s = {i. i < n \<and> 11 \<le> rank (thread_pc s i) \<and> launch_ok i}"

lemma entered_update:
  assumes "i < n" "entered launch_ok n s" "thread_pc t = (thread_pc s)(i := p)" "rank (thread_pc s i) \<le> rank p"
    and "launched_cores t = (if 11 \<le> rank p \<and> launch_ok i then insert i (launched_cores s) else launched_cores s)"
  shows "entered launch_ok n t"
proof -
  have "j \<in> launched_cores t \<longleftrightarrow> j < n \<and> 11 \<le> rank (thread_pc t j) \<and> launch_ok j" for j
    using assms by (cases "j = i") (auto simp: entered_def)
  then show ?thesis by (auto simp: entered_def)
qed

lemma entered_thread:
  assumes "vm_thread alloc_ok launch_ok i s t" "i < n" "entered launch_ok n s"
  shows "entered launch_ok n t"
proof -
  have "launched_cores t =
      (if 11 \<le> rank (thread_pc t i) \<and> launch_ok i then insert i (launched_cores s) else launched_cores s)"
    using assms(1) by (rule vm_threadE) (use assms(2,3) in \<open>simp_all add: entered_def insert_absorb\<close>)
  moreover have "thread_pc t = (thread_pc s)(i := thread_pc t i)" using pc_other [OF assms(1)] by auto
  ultimately show ?thesis using entered_update [OF assms(2,3)] rank_mono [OF assms(1)] by blast
qed

definition failed_ok :: "(nat \<Rightarrow> bool) \<Rightarrow> nat \<Rightarrow> start_state \<Rightarrow> bool" where
  "failed_ok alloc_ok n s \<longleftrightarrow> (\<forall>i < n. (thread_pc s i = Failed \<longrightarrow> \<not> alloc_ok i) \<and> (3 \<le> rank (thread_pc s i) \<longrightarrow> alloc_ok i))"

lemma failed_ok_thread: "vm_thread alloc_ok launch_ok i s t \<Longrightarrow> failed_ok alloc_ok n s \<Longrightarrow> failed_ok alloc_ok n t"
  by (erule vm_threadE) (simp_all add: failed_ok_def)

text \<open>The whole invariant. Once \<open>hb_start\<close> has returned every thread is done and the value says whether all launched.\<close>

definition returned_ok :: "(nat \<Rightarrow> bool) \<Rightarrow> nat \<Rightarrow> start_state \<Rightarrow> bool" where
  "returned_ok launch_ok n s \<longleftrightarrow> start_result s = None \<or>
     (\<forall>i < n. thread_pc s i = Done) \<and> start_result s = Some (if \<forall>i < n. launch_ok i then 0 else -1)"

definition start_inv :: "(nat \<Rightarrow> bool) \<Rightarrow> (nat \<Rightarrow> bool) \<Rightarrow> nat \<Rightarrow> start_state \<Rightarrow> bool" where
  "start_inv alloc_ok launch_ok n s \<longleftrightarrow> counters n s \<and> barriers n s \<and> core_zero s \<and> outcome launch_ok n s \<and>
     entered launch_ok n s \<and> failed_ok alloc_ok n s \<and> returned_ok launch_ok n s"

lemma rank_done: "12 \<le> rank p \<longleftrightarrow> p = Done"
  by (cases p) simp_all

lemma rank_le: "rank p \<le> 12"
  by (cases p) simp_all

lemma thread_done: "vm_thread alloc_ok launch_ok i s t \<Longrightarrow> thread_pc s i \<noteq> Done"
  by (erule vm_threadE) auto

lemma thread_result: "vm_thread alloc_ok launch_ok i s t \<Longrightarrow> start_result t = start_result s"
  by (erule vm_threadE) auto

lemma start_inv_init: "start_inv alloc_ok launch_ok n (hb_start_init n)"
  using counters_init [of n]
  by (simp add: start_inv_def hb_start_init_def barriers_def barrier_def core_zero_def outcome_def entered_def failed_ok_def
      returned_ok_def bad_thread_def)

lemma start_inv_thread:
  assumes "vm_thread alloc_ok launch_ok i s t" "i < n" "start_inv alloc_ok launch_ok n s"
  shows "start_inv alloc_ok launch_ok n t"
proof -
  have "barriers n t" using barrier_thread [OF assms(1,2)] assms(3) by (simp add: start_inv_def barriers_def)
  moreover have "returned_ok launch_ok n t"
    using assms(2,3) thread_done [OF assms(1)] thread_result [OF assms(1)] by (auto simp: start_inv_def returned_ok_def)
  ultimately show ?thesis
    using assms(2,3) counters_thread [OF assms(1)] core_zero_thread [OF assms(1)] outcome_thread [OF assms(1)]
      entered_thread [OF assms(1)] failed_ok_thread [OF assms(1)] by (simp add: start_inv_def)
qed

lemma start_inv_caller:
  assumes "\<not> g_complete_flags s > 0" "start_inv alloc_ok launch_ok n s"
  shows "start_inv alloc_ok launch_ok n (hb_start_finish s)"
proof -
  have "behind n (thread_pc s) 12 = 0" using assms by (auto simp: start_inv_def counters_def)
  then have d: "\<forall>i < n. thread_pc s i = Done" by (simp add: behind_zero rank_done)
  then have "g_thread_result s \<noteq> 0 \<longleftrightarrow> (\<exists>i < n. \<not> launch_ok i)"
    using assms(2) by (auto simp: start_inv_def outcome_def bad_thread_def)
  with d have "returned_ok launch_ok n (hb_start_finish s)" by (auto simp: returned_ok_def hb_start_finish_def)
  then show ?thesis using assms(2)
    by (simp add: start_inv_def counters_def barriers_def barrier_def core_zero_def outcome_def entered_def failed_ok_def)
qed

lemma start_inv_step:
  "start_step alloc_ok launch_ok n s t \<Longrightarrow> start_inv alloc_ok launch_ok n s \<Longrightarrow> start_inv alloc_ok launch_ok n t"
  by (erule start_stepE) (auto intro: start_inv_thread start_inv_caller)

lemma start_inv_reachable: "start_reachable alloc_ok launch_ok n s \<Longrightarrow> start_inv alloc_ok launch_ok n s"
  by (induction rule: start_reachable.induct) (auto intro: start_inv_init start_inv_step)

section \<open>Ordering\<close>

lemma barrier_le:
  "barrier n b s \<Longrightarrow> i < n \<Longrightarrow> j < n \<Longrightarrow> Suc b \<le> rank (thread_pc s i) \<Longrightarrow> b \<le> rank (thread_pc s j)"
  by (simp add: barrier_def)

text \<open>C10: While core 0 copies the page tables and initialises the monitors every other core is held between the barrier before
  this work and the one after it, and a core that has entered the guest mode finds this work done, with no core left before
  the last barrier.\<close>

theorem cores_held_during_setup:
  assumes "start_reachable alloc_ok launch_ok cpu_count s" "i < cpu_count" "0 < cpu_count"
  shows "(thread_pc s 0 = Work \<longrightarrow> thread_pc s i \<in> {Wait_run, Work, Wait_sync}) \<and>
    (i \<in> launched_cores s \<longrightarrow> host_ready s \<and> (\<forall>j < cpu_count. thread_pc s j \<in> {Wait_sync, Launch, Finish, Done}))"
proof -
  have inv: "start_inv alloc_ok launch_ok cpu_count s" using assms(1) by (rule start_inv_reachable)
  then have b: "barrier cpu_count 7 s" "barrier cpu_count 9 s" by (simp_all add: start_inv_def barriers_def)
  have "thread_pc s i \<in> {Wait_run, Work, Wait_sync}" if w: "thread_pc s 0 = Work"
  proof -
    have "7 \<le> rank (thread_pc s i)" using barrier_le [OF b(1), of 0 i] assms w by simp
    moreover have "\<not> 10 \<le> rank (thread_pc s i)" using barrier_le [OF b(2), of i 0] assms w by auto
    ultimately show ?thesis by (cases "thread_pc s i") simp_all
  qed
  moreover have "host_ready s \<and> (\<forall>j < cpu_count. thread_pc s j \<in> {Wait_sync, Launch, Finish, Done})" if l: "i \<in> launched_cores s"
  proof -
    have r: "9 \<le> rank (thread_pc s j)" if "j < cpu_count" for j
      using barrier_le [OF b(2), of i j] that l inv by (simp add: start_inv_def entered_def)
    then have "thread_pc s j \<in> {Wait_sync, Launch, Finish, Done}" if "j < cpu_count" for j
      using that by (cases "thread_pc s j") (fastforce simp: that dest: r)+
    then show ?thesis using r [OF assms(3)] inv by (simp add: start_inv_def core_zero_def)
  qed
  ultimately show ?thesis by blast
qed

text \<open>Schedules of the threads, to reach concrete states.\<close>

definition thread_next :: "(nat \<Rightarrow> bool) \<Rightarrow> nat \<Rightarrow> start_state \<Rightarrow> start_state option" where
  "thread_next launch_ok i s = (case thread_pc s i of
       Entry \<Rightarrow> Some (move i Wait_entry (s\<lparr>g_thread_entry_count := g_thread_entry_count s - 1\<rparr>))
     | Wait_entry \<Rightarrow> if g_thread_entry_count s > 0 then None else Some (move i Alloc s)
     | Alloc \<Rightarrow> Some (move i Rcu s)
     | Rcu \<Rightarrow> Some (move i Wait_rcu (s\<lparr>g_thread_rcu_sync_count := g_thread_rcu_sync_count s - 1\<rparr>))
     | Wait_rcu \<Rightarrow> if g_thread_rcu_sync_count s > 0 then None else Some (move i Mutex s)
     | Mutex \<Rightarrow> if i = 0 then Some (move i Run (s\<lparr>g_mutex_lock_flags := 1\<rparr>))
         else if g_mutex_lock_flags s \<noteq> 0 then Some (move i Run s) else None
     | Run \<Rightarrow> Some (move i Wait_run (s\<lparr>g_thread_run_flags := g_thread_run_flags s - 1\<rparr>))
     | Wait_run \<Rightarrow> if g_thread_run_flags s > 0 then None else Some (move i Work s)
     | Work \<Rightarrow> Some (move i Wait_sync (s\<lparr>host_ready := (if i = 0 then True else host_ready s), g_sync_flags := g_sync_flags s - 1\<rparr>))
     | Wait_sync \<Rightarrow> if g_sync_flags s > 0 then None else Some (move i Launch s)
     | Launch \<Rightarrow> Some (move i Finish (s\<lparr>g_enter_count := g_enter_count s + 1,
         launched_cores := (if launch_ok i then insert i (launched_cores s) else launched_cores s),
         g_thread_result := (if launch_ok i then g_thread_result s else -1)\<rparr>))
     | Finish \<Rightarrow> Some (move i Done (s\<lparr>g_complete_flags := g_complete_flags s - 1\<rparr>))
     | _ \<Rightarrow> None)"

lemma thread_next_step: "thread_next launch_ok i s = Some t \<Longrightarrow> vm_thread (\<lambda>_. True) launch_ok i s t"
  using vm_thread.work [of s i "\<lambda>_. True" launch_ok] vm_thread.launch [of s i "\<lambda>_. True" launch_ok]
  unfolding thread_next_def by (auto split: vm_pc.splits if_splits intro: vm_thread.intros)

fun schedule :: "(nat \<Rightarrow> bool) \<Rightarrow> nat list \<Rightarrow> start_state \<Rightarrow> start_state option" where
  "schedule launch_ok [] s = Some s"
| "schedule launch_ok (i # is) s = (case thread_next launch_ok i s of None \<Rightarrow> None | Some t \<Rightarrow> schedule launch_ok is t)"

lemma schedule_reachable:
  "schedule launch_ok is s = Some t \<Longrightarrow> set is \<subseteq> {..<n} \<Longrightarrow> start_reachable (\<lambda>_. True) launch_ok n s \<Longrightarrow>
    start_reachable (\<lambda>_. True) launch_ok n t"
proof (induction "is" arbitrary: s)
  case (Cons i "is")
  then obtain u where u: "thread_next launch_ok i s = Some u" "schedule launch_ok is u = Some t" by (auto split: option.splits)
  have "start_step (\<lambda>_. True) launch_ok n s u" using Cons.prems(2) thread_next_step [OF u(1)] by (auto intro: start_step.thread)
  then show ?case using Cons.IH [OF u(2)] Cons.prems(2,3) start_reachable.step by auto
qed simp

text \<open>Two cores, taking turns, up to the point at which core 0 has entered the guest mode and core 1 is about to.\<close>

lemma two_cores_run:
  obtains s where "start_reachable (\<lambda>_. True) (\<lambda>_. True) 2 s" "launched_cores s = {0}" "thread_pc s 1 = Launch"
proof -
  let ?is = "[0, 1, 0, 1, 0, 1, 0, 1, 0, 1, 0, 1, 0, 1, 0, 1, 0, 1, 0, 1, 0]"
  obtain s where s: "schedule (\<lambda>_. True) ?is (hb_start_init 2) = Some s" "launched_cores s = {0}" "thread_pc s 1 = Launch"
    by (simp add: thread_next_def hb_start_init_def)
  have "start_reachable (\<lambda>_. True) (\<lambda>_. True) 2 s"
    by (rule schedule_reachable [OF s(1)]) (simp_all add: start_reachable.init)
  then show ?thesis using s(2,3) that by blast
qed

theorem cores_held_during_setup_witness:
  "\<exists>s. start_reachable (\<lambda>_. True) (\<lambda>_. True) 2 s \<and> 0 \<in> launched_cores s \<and> host_ready s \<and>
     thread_pc s 1 \<in> {Wait_sync, Launch, Finish, Done}"
proof -
  obtain s where s: "start_reachable (\<lambda>_. True) (\<lambda>_. True) 2 s" "launched_cores s = {0}" "thread_pc s 1 = Launch"
    by (rule two_cores_run)
  then show ?thesis using cores_held_during_setup [OF s(1), of 0] by auto
qed

section \<open>Failing allocations\<close>

text \<open>C40: A core whose register structures cannot be allocated leaves without counting down, so that no core passes the next
  barrier and \<open>hb_start\<close> never returns, not even with an error.\<close>

theorem alloc_failure_blocks_start:
  assumes "start_reachable alloc_ok launch_ok cpu_count s" "i < cpu_count" "\<not> alloc_ok i"
  shows "start_result s = None \<and> launched_cores s = {} \<and> (\<forall>j < cpu_count. rank (thread_pc s j) \<le> rank Wait_rcu)"
proof -
  have inv: "start_inv alloc_ok launch_ok cpu_count s" using assms(1) by (rule start_inv_reachable)
  then have "\<not> 3 \<le> rank (thread_pc s i)" using assms(2,3) by (auto simp: start_inv_def failed_ok_def)
  then have r: "rank (thread_pc s j) \<le> 4" if "j < cpu_count" for j
    using that assms(2) inv barrier_le [of cpu_count 4 s j i] by (force simp: start_inv_def barriers_def)
  moreover have "thread_pc s i \<noteq> Done" using r [OF assms(2)] by auto
  ultimately show ?thesis using inv assms(2) by (fastforce simp: start_inv_def returned_ok_def entered_def)
qed

lemma single_core_fails:
  obtains s where "start_reachable (\<lambda>_. False) launch_ok 1 s" "thread_pc s 0 = Failed"
proof -
  let ?s1 = "move 0 Wait_entry ((hb_start_init 1)\<lparr>g_thread_entry_count := 0\<rparr>)"
  have "start_step (\<lambda>_. False) launch_ok 1 (hb_start_init 1) ?s1"
    using vm_thread.entry [of "hb_start_init 1" 0] by (auto intro!: start_step.thread simp: hb_start_init_def)
  then have 1: "start_reachable (\<lambda>_. False) launch_ok 1 ?s1" by (rule start_reachable.step [OF start_reachable.init])
  have "start_step (\<lambda>_. False) launch_ok 1 ?s1 (move 0 Alloc ?s1)"
    by (auto intro!: start_step.thread vm_thread.entry_done)
  then have "start_reachable (\<lambda>_. False) launch_ok 1 (move 0 Alloc ?s1)" by (rule start_reachable.step [OF 1])
  moreover have "start_step (\<lambda>_. False) launch_ok 1 (move 0 Alloc ?s1) (move 0 Failed ((move 0 Alloc ?s1)\<lparr>g_thread_result := -1\<rparr>))"
    by (auto intro!: start_step.thread vm_thread.alloc_fail)
  ultimately have "start_reachable (\<lambda>_. False) launch_ok 1 (move 0 Failed ((move 0 Alloc ?s1)\<lparr>g_thread_result := -1\<rparr>))"
    by (rule start_reachable.step)
  then show ?thesis by (rule that) simp
qed

theorem alloc_failure_blocks_start_witness:
  "\<exists>s. start_reachable (\<lambda>_. False) (\<lambda>_. True) 1 s \<and> thread_pc s 0 = Failed \<and> start_result s = None"
proof -
  obtain s where s: "start_reachable (\<lambda>_. False) (\<lambda>_. True) 1 s" "thread_pc s 0 = Failed" by (rule single_core_fails)
  then show ?thesis using alloc_failure_blocks_start [OF s(1), of 0] by auto
qed

section \<open>Termination\<close>

text \<open>A run: in every state either somebody makes a step, or nobody can. A thread that waits makes no step.\<close>

definition start_run :: "(nat \<Rightarrow> bool) \<Rightarrow> (nat \<Rightarrow> bool) \<Rightarrow> nat \<Rightarrow> (nat \<Rightarrow> start_state) \<Rightarrow> bool" where
  "start_run alloc_ok launch_ok cpu_count f \<longleftrightarrow> f 0 = hb_start_init cpu_count \<and>
     (\<forall>k. start_step alloc_ok launch_ok cpu_count (f k) (f (Suc k)) \<or>
          f (Suc k) = f k \<and> (\<nexists>t. start_step alloc_ok launch_ok cpu_count (f k) t))"

definition todo :: "nat \<Rightarrow> start_state \<Rightarrow> nat" where
  "todo n s = (\<Sum>i<n. 12 - rank (thread_pc s i)) + (if start_result s = None then 1 else 0)"

lemma rank_thread: "vm_thread (\<lambda>_. True) launch_ok i s t \<Longrightarrow> rank (thread_pc t i) = Suc (rank (thread_pc s i))"
  by (erule vm_threadE) auto

lemma todo_thread:
  assumes "vm_thread (\<lambda>_. True) launch_ok i s t" "i < n"
  shows "todo n s = Suc (todo n t)"
proof -
  have split: "(\<Sum>j<n. 12 - rank (thread_pc u j)) = (12 - rank (thread_pc u i)) + (\<Sum>j\<in>{..<n} - {i}. 12 - rank (thread_pc u j))" for u
    using assms(2) by (intro sum.remove) simp_all
  moreover have "(\<Sum>j\<in>{..<n} - {i}. 12 - rank (thread_pc t j)) = (\<Sum>j\<in>{..<n} - {i}. 12 - rank (thread_pc s j))"
    using pc_other [OF assms(1)] by (intro sum.cong) simp_all
  moreover have "12 - rank (thread_pc s i) = Suc (12 - rank (thread_pc t i))"
    using rank_thread [OF assms(1)] rank_le [of "thread_pc t i"] by simp
  ultimately show ?thesis using thread_result [OF assms(1)] unfolding todo_def split [of s] split [of t] by simp
qed

lemma todo_finish: "start_result s = None \<Longrightarrow> todo n s = Suc (todo n (hb_start_finish s))"
  by (auto simp: todo_def hb_start_finish_def)

lemma todo_step: "start_step (\<lambda>_. True) launch_ok n s t \<Longrightarrow> todo n s = Suc (todo n t)"
  by (erule start_stepE) (auto dest: todo_thread todo_finish)

lemma minimal_thread:
  assumes "j < n"
  shows "\<exists>i < n. \<forall>k < n. rank (thread_pc s i) \<le> rank (thread_pc s k)"
  using arg_min_least [of "{..<n}" j "\<lambda>i. rank (thread_pc s i)"] assms
    arg_min_if_finite(1) [of "{..<n}" "\<lambda>i. rank (thread_pc s i)"]
    arg_min_least [of "{..<n}" _ "\<lambda>i. rank (thread_pc s i)"] by (metis emptyE finite_lessThan lessThan_iff)

lemma waiting_zero:
  assumes "counters n s" "\<And>k. k < n \<Longrightarrow> b \<le> rank (thread_pc s k)"
  shows "b = 1 \<Longrightarrow> \<not> g_thread_entry_count s > 0" "b = 4 \<Longrightarrow> \<not> g_thread_rcu_sync_count s > 0"
    "b = 7 \<Longrightarrow> \<not> g_thread_run_flags s > 0" "b = 9 \<Longrightarrow> \<not> g_sync_flags s > 0" "b = 12 \<Longrightarrow> \<not> g_complete_flags s > 0"
proof -
  have "behind n (thread_pc s) b = 0" using assms(2) by (simp add: behind_zero)
  with assms(1) show "b = 1 \<Longrightarrow> \<not> g_thread_entry_count s > 0" "b = 4 \<Longrightarrow> \<not> g_thread_rcu_sync_count s > 0"
    "b = 7 \<Longrightarrow> \<not> g_thread_run_flags s > 0" "b = 9 \<Longrightarrow> \<not> g_sync_flags s > 0" "b = 12 \<Longrightarrow> \<not> g_complete_flags s > 0"
    by (simp_all add: counters_def)
qed

lemma minimal_moves:
  assumes inv: "start_inv (\<lambda>_. True) launch_ok n s" and i: "i < n" "thread_pc s i \<noteq> Done"
    and m: "\<And>k. k < n \<Longrightarrow> rank (thread_pc s i) \<le> rank (thread_pc s k)" and x: "thread_pc s i = Mutex \<Longrightarrow> i = 0 \<or> thread_pc s 0 \<noteq> Mutex"
  shows "\<exists>t. vm_thread (\<lambda>_. True) launch_ok i s t"
proof -
  have c: "counters n s" "core_zero s" using inv by (simp_all add: start_inv_def)
  note w = waiting_zero [OF c(1) m]
  show ?thesis
  proof (cases "thread_pc s i")
    case Mutex
    have "6 \<le> rank (thread_pc s 0)" if "i \<noteq> 0"
      using that x [OF Mutex] m [of 0] i(1) Mutex by (cases "thread_pc s 0") auto
    then show ?thesis using Mutex c(2) by (cases "i = 0") (auto simp: core_zero_def intro: vm_thread.intros)
  next
    case Failed
    then show ?thesis using inv i(1) by (simp add: start_inv_def failed_ok_def)
  qed (use w i in \<open>auto intro: vm_thread.intros\<close>)
qed

lemma start_progress:
  assumes inv: "start_inv (\<lambda>_. True) launch_ok n s" and r: "start_result s = None"
  shows "\<exists>t. start_step (\<lambda>_. True) launch_ok n s t"
proof (cases "\<forall>i < n. thread_pc s i = Done")
  case True
  then have "\<not> g_complete_flags s > 0" using inv waiting_zero(5) [of n s 12] by (simp add: start_inv_def)
  then show ?thesis using r start_step.caller by blast
next
  case False
  then obtain j where j: "j < n" "thread_pc s j \<noteq> Done" by blast
  obtain i where i: "i < n" "\<And>k. k < n \<Longrightarrow> rank (thread_pc s i) \<le> rank (thread_pc s k)" using minimal_thread [OF j(1)] by blast
  let ?i = "if thread_pc s i = Mutex \<and> thread_pc s 0 = Mutex then 0 else i"
  have "rank (thread_pc s i) < 12" using i(2) [OF j(1)] j(2) rank_le [of "thread_pc s j"] rank_done [of "thread_pc s j"] by linarith
  then have "?i < n" "thread_pc s ?i \<noteq> Done" "\<And>k. k < n \<Longrightarrow> rank (thread_pc s ?i) \<le> rank (thread_pc s k)"
    using i by auto
  then obtain t where "vm_thread (\<lambda>_. True) launch_ok ?i s t" using minimal_moves [OF inv, of ?i] by (auto split: if_splits)
  then show ?thesis using start_step.thread \<open>?i < n\<close> by blast
qed

lemma run_inv: "start_run alloc_ok launch_ok n f \<Longrightarrow> start_inv alloc_ok launch_ok n (f k)"
proof (induction k)
  case (Suc k)
  then show ?case unfolding start_run_def by (metis start_inv_step)
qed (simp add: start_run_def start_inv_init)

lemma run_todo: "start_run (\<lambda>_. True) launch_ok n f \<Longrightarrow> todo n (f k) + k \<le> 12 * n + 1 \<or> start_result (f k) \<noteq> None"
proof (induction k)
  case 0
  then show ?case by (simp add: start_run_def todo_def hb_start_init_def)
next
  case (Suc k)
  show ?case
  proof (cases "start_step (\<lambda>_. True) launch_ok n (f k) (f (Suc k))")
    case True
    then show ?thesis using Suc todo_step [OF True] by (auto elim!: start_stepE dest: thread_result simp: hb_start_finish_def)
  next
    case False
    then have "f (Suc k) = f k" "\<nexists>t. start_step (\<lambda>_. True) launch_ok n (f k) t" using Suc.prems by (auto simp: start_run_def)
    then show ?thesis using start_progress [OF run_inv [OF Suc.prems]] by metis
  qed
qed

text \<open>C4: If every core can allocate its structures, then whatever the interleaving of the threads, after at most twelve steps
  of every core and one of the caller \<open>hb_start\<close> has returned: every thread has ended, exactly the cores whose launch succeeds
  are in the guest mode, and the result is 0 if these are all cores and -1 otherwise.\<close>

theorem start_terminates:
  assumes "start_run (\<lambda>_. True) launch_ok cpu_count f"
  shows "(\<forall>i < cpu_count. thread_pc (f (12 * cpu_count + 1)) i = Done) \<and>
    launched_cores (f (12 * cpu_count + 1)) = {i. i < cpu_count \<and> launch_ok i} \<and>
    start_result (f (12 * cpu_count + 1)) = Some (if \<forall>i < cpu_count. launch_ok i then 0 else -1)"
proof -
  let ?s = "f (12 * cpu_count + 1)"
  have inv: "returned_ok launch_ok cpu_count ?s" "entered launch_ok cpu_count ?s"
    using run_inv [OF assms] by (simp_all add: start_inv_def)
  have "start_result ?s \<noteq> None"
    using run_todo [OF assms, of "12 * cpu_count + 1"] by (intro notI) (simp add: todo_def split del: if_split)
  then have d: "\<forall>i < cpu_count. thread_pc ?s i = Done"
    and r: "start_result ?s = Some (if \<forall>i < cpu_count. launch_ok i then 0 else -1)"
    using inv(1) unfolding returned_ok_def by argo+
  have "11 \<le> rank (thread_pc ?s i)" if "i < cpu_count" for i
    using d [rule_format, OF that] by simp
  then have "{i. i < cpu_count \<and> 11 \<le> rank (thread_pc ?s i) \<and> launch_ok i} = {i. i < cpu_count \<and> launch_ok i}"
    by blast
  then show ?thesis using d r inv(2) unfolding entered_def by simp
qed

lemma run_exists: "\<exists>f. start_run alloc_ok launch_ok n f"
proof -
  let ?next = "\<lambda>s. if \<exists>t. start_step alloc_ok launch_ok n s t then SOME t. start_step alloc_ok launch_ok n s t else s"
  let ?f = "\<lambda>k. (?next ^^ k) (hb_start_init n)"
  have "start_step alloc_ok launch_ok n s (?next s) \<or> ?next s = s \<and> (\<nexists>t. start_step alloc_ok launch_ok n s t)" for s
    by (cases "\<exists>t. start_step alloc_ok launch_ok n s t") (simp_all add: someI_ex)
  then have "start_run alloc_ok launch_ok n ?f" unfolding start_run_def by simp
  then show ?thesis by blast
qed

theorem start_terminates_witness: "\<exists>f. start_run (\<lambda>_. True) (\<lambda>i. i \<noteq> 1) 4 f \<and> start_result (f 49) = Some (-1)"
proof -
  obtain f where f: "start_run (\<lambda>_. True) (\<lambda>i. i \<noteq> 1) 4 f" using run_exists by blast
  have "\<not> (\<forall>i < 4. i \<noteq> (1::nat))" by simp
  then show ?thesis using f start_terminates [OF f] by auto
qed

end
