(* ===== verification/Log_Buffer.thy ===== *)
theory Log_Buffer
  imports Prelude
begin

text \<open>
  The way of a message out of the hypervisor (hypervisor.c, \<open>hb_printf\<close> and \<open>hb_internal_printf\<close>; hyper_box_helper/helper.c): in
  root mode the hypervisor must not call the kernel, so it puts the text into a queue of bytes, which a thread of the
  helper module drains and prints line by line. The queue is the \<open>kfifo\<close> of the kernel, a parameter of the model; what
  \<open>vscnprintf\<close> would produce without a limit is the text of a message.
\<close>

section \<open>The queue\<close>

record 'q kfifo_lib =
  kfifo_in :: "'q \<Rightarrow> string \<Rightarrow> nat \<times> 'q"
  kfifo_out :: "'q \<Rightarrow> nat \<Rightarrow> string \<times> 'q"
  kfifo_is_full :: "'q \<Rightarrow> bool"

text \<open>Documented behaviour of \<open>kfifo\<close> with \<open>cap\<close> bytes, where \<open>data\<close> is what a queue holds: \<open>kfifo_in\<close> appends as much as there is
  room for, \<open>kfifo_out\<close> takes as much as there is, at most what is asked for, and both return the number of bytes.\<close>

definition kfifo_ok :: "'q kfifo_lib \<Rightarrow> ('q \<Rightarrow> string) \<Rightarrow> nat \<Rightarrow> bool" where
  "kfifo_ok lib data cap \<longleftrightarrow>
     (\<forall>q s. fst (kfifo_in lib q s) = min (length s) (cap - length (data q)) \<and>
        data (snd (kfifo_in lib q s)) = data q @ take (cap - length (data q)) s) \<and>
     (\<forall>q k. fst (kfifo_out lib q k) = take k (data q) \<and> data (snd (kfifo_out lib q k)) = drop k (data q)) \<and>
     (\<forall>q. kfifo_is_full lib q \<longleftrightarrow> cap \<le> length (data q))"

section \<open>Writing\<close>

definition MAX_LOG_LINE :: nat where [hb_consts]: "MAX_LOG_LINE = 1024"
definition newline :: char where "newline = CHR 0x0A"
definition NUL :: char where "NUL = CHR 0x00"

text \<open>The loop of \<open>hb_internal_printf\<close> on the bytes that remain.\<close>

partial_function (option) printf_loop :: "'q kfifo_lib \<Rightarrow> string \<Rightarrow> 'q \<Rightarrow> 'q option" where
  "printf_loop lib rest q =
     (if kfifo_is_full lib q then Some q
      else let (ret, q) = kfifo_in lib q rest; rest = drop ret rest
           in if rest \<noteq> [] then printf_loop lib rest q else Some q)"

text \<open>\<open>vscnprintf (buffer, sizeof (buffer) - 1, ...)\<close> keeps at most \<open>MAX_LOG_LINE - 2\<close> characters. For an empty text the code reads
  \<open>buffer[-1]\<close>.\<close>

definition hb_internal_printf :: "'q kfifo_lib \<Rightarrow> string \<Rightarrow> 'q \<Rightarrow> 'q option" where
  "hb_internal_printf lib text q =
     (let buffer = take (MAX_LOG_LINE - 2) text; len = length buffer in
      if len = 0 then None
      else
        let buffer =
          (if buffer ! (len - 1) \<noteq> newline
           then if MAX_LOG_LINE \<le> len then buffer[len - 1 := newline] else buffer @ [newline]
           else buffer)
        in printf_loop lib buffer q)"

text \<open>\<open>mode\<close> is \<open>g_vmx_root_mode\<close> of the core; outside of root mode the text goes to the log of the kernel.\<close>

record 'q log_state =
  g_log_info :: 'q
  kernel_log :: "string list"

definition hb_printf :: "'q kfifo_lib \<Rightarrow> int \<Rightarrow> string \<Rightarrow> 'q log_state \<Rightarrow> 'q log_state option" where
  "hb_printf lib mode text s =
     (if mode = 0 then Some (s\<lparr>kernel_log := kernel_log s @ [text]\<rparr>)
      else map_option (\<lambda>q. s\<lparr>g_log_info := q\<rparr>) (hb_internal_printf lib text (g_log_info s)))"

section \<open>Reading\<close>

record 'q log_thread =
  lt_buffer :: string
  lt_index :: nat
  lt_fifo :: 'q
  lt_printed :: "string list"

text \<open>The text that \<open>%s\<close> prints, and the index at which the scan for a newline stops.\<close>

definition c_string :: "string \<Rightarrow> string" where
  "c_string b = takeWhile (\<lambda>c. c \<noteq> NUL) b"

definition scan :: "string \<Rightarrow> nat \<Rightarrow> nat" where
  "scan b n = length (takeWhile (\<lambda>c. c \<noteq> newline) (take n b))"

text \<open>One iteration of the loop of \<open>hbh_log_thread\<close>. The \<open>memcpy\<close> goes forward.\<close>

definition log_iter :: "'q kfifo_lib \<Rightarrow> 'q log_thread \<Rightarrow> 'q log_thread" where
  "log_iter lib s =
     (let index = lt_index s; remain = MAX_LOG_LINE - index;
          (chunk, q) = kfifo_out lib (lt_fifo s) remain; ret = length chunk;
          buffer = take index (lt_buffer s) @ chunk @ drop (index + ret) (lt_buffer s);
          n = index + ret; i = scan buffer n; s = s\<lparr>lt_fifo := q\<rparr>
      in if i < n then
           let buffer = buffer[i := NUL]; copy_bytes = n - (i + 1)
           in s\<lparr>lt_printed := lt_printed s @ [c_string buffer @ [newline]],
                lt_buffer := take copy_bytes (drop (i + 1) buffer) @ drop copy_bytes buffer, lt_index := copy_bytes\<rparr>
         else if i = MAX_LOG_LINE then
           let buffer = buffer[MAX_LOG_LINE - 1 := NUL]
           in s\<lparr>lt_printed := lt_printed s @ [c_string buffer], lt_buffer := buffer, lt_index := 0\<rparr>
         else s\<lparr>lt_buffer := buffer\<rparr>)"

text \<open>The thread runs \<open>n\<close> times through its loop before \<open>kthread_should_stop\<close> ends it, at least once. Without a queue
  it reports the error and goes on with the null pointer.\<close>

definition hbh_log_thread :: "'q kfifo_lib \<Rightarrow> 'q option \<Rightarrow> nat \<Rightarrow> 'q log_thread option" where
  "hbh_log_thread lib fifo n =
     map_option (\<lambda>q. (log_iter lib ^^ n) \<lparr>lt_buffer = replicate MAX_LOG_LINE NUL, lt_index = 0, lt_fifo = q, lt_printed = []\<rparr>) fifo"

definition HYPER_BOX_MODULE_NAME :: string where "HYPER_BOX_MODULE_NAME = ''hyper_box''"

text \<open>The wait for the module; \<open>names k\<close> are the modules listed at the \<open>k\<close>-th attempt. The result is the attempt that found it.\<close>

partial_function (option) hbh_wait_hyper_box_module :: "(nat \<Rightarrow> string list) \<Rightarrow> nat \<Rightarrow> nat option" where
  "hbh_wait_hyper_box_module names k =
     (if HYPER_BOX_MODULE_NAME \<in> set (names k) then Some k else hbh_wait_hyper_box_module names (Suc k))"

text \<open>Start and end of the helper module: the thread, the references to the module and the threads that were told to stop. \<open>run\<close> is the
  result of \<open>kthread_run\<close>.\<close>

record helper_state =
  g_log_thread_id :: u64
  module_refs :: nat
  stopped_threads :: "u64 list"

definition EINVAL :: int where [hb_consts]: "EINVAL = 22"

definition hyper_box_helper_init :: "u64 \<Rightarrow> helper_state \<Rightarrow> int \<times> helper_state" where
  "hyper_box_helper_init run s =
     (let s = s\<lparr>g_log_thread_id := run\<rparr>
      in if g_log_thread_id s = 0 then (- EINVAL, s) else (0, s\<lparr>module_refs := Suc (module_refs s)\<rparr>))"

definition hyper_box_helper_exit :: "helper_state \<Rightarrow> helper_state" where
  "hyper_box_helper_exit s =
     (if g_log_thread_id s \<noteq> 0 then s\<lparr>stopped_threads := stopped_threads s @ [g_log_thread_id s]\<rparr> else s)"

section \<open>The queue holds what was written\<close>

text \<open>What a message becomes: its first 1022 characters, with a newline at the end.\<close>

definition log_line :: "string \<Rightarrow> string" where
  "log_line text = (let t = take 1022 text in if last t = newline then butlast t else t)"

lemma kfifo_laws:
  assumes "kfifo_ok lib data cap"
  shows "fst (kfifo_in lib q s) = min (length s) (cap - length (data q))"
    and "data (snd (kfifo_in lib q s)) = data q @ take (cap - length (data q)) s"
    and "fst (kfifo_out lib q k) = take k (data q)" "data (snd (kfifo_out lib q k)) = drop k (data q)"
    and "kfifo_is_full lib q \<longleftrightarrow> cap \<le> length (data q)"
  using assms by (simp_all add: kfifo_ok_def)

lemma printf_loop_writes:
  assumes "kfifo_ok lib data cap" "length (data q) + length rest \<le> cap" "rest \<noteq> []"
  shows "\<exists>q'. printf_loop lib rest q = Some q' \<and> data q' = data q @ rest"
proof -
  note k = kfifo_laws [OF assms(1)]
  have "0 < length rest" using assms(3) by simp
  then have "\<not> cap \<le> length (data q)" "min (length rest) (cap - length (data q)) = length rest" using assms(2) by linarith+
  then have "printf_loop lib rest q = Some (snd (kfifo_in lib q rest))"
    by (simp add: printf_loop.simps [of lib rest q] k split: prod.split) (metis drop_all fst_conv k(1) order_refl snd_conv)
  then show ?thesis using k(2) [of q rest] assms(2) by simp
qed

lemma internal_printf_writes:
  assumes "kfifo_ok lib data cap" "text \<noteq> []" "length (data q) + length (log_line text) < cap"
  shows "\<exists>q'. hb_internal_printf lib text q = Some q' \<and> data q' = data q @ log_line text @ [newline]"
proof -
  let ?t = "take 1022 text"
  have t: "?t \<noteq> []" "?t ! (length ?t - 1) = last ?t" "length ?t < 1024" using assms(2) by (auto simp: last_conv_nth)
  have "hb_internal_printf lib text q = printf_loop lib (log_line text @ [newline]) q"
    using t append_butlast_last_id [OF t(1)] unfolding hb_internal_printf_def log_line_def MAX_LOG_LINE_def Let_def
    by (cases "last ?t = newline") (auto simp: min_def)
  then show ?thesis using printf_loop_writes [OF assms(1), of q "log_line text @ [newline]"] assms(3) by simp
qed

lemma messages_written:
  assumes "kfifo_ok lib data cap" "\<forall>m \<in> set ms. m \<noteq> []" "length (data q) + (\<Sum>m\<leftarrow>ms. length (log_line m) + 1) \<le> cap"
  shows "\<exists>q'. foldo (hb_internal_printf lib) ms q = Some q' \<and> data q' = data q @ concat (map (\<lambda>m. log_line m @ [newline]) ms)"
  using assms(2-)
proof (induction ms arbitrary: q)
  case (Cons m ms)
  obtain q1 where q1: "hb_internal_printf lib m q = Some q1" "data q1 = data q @ log_line m @ [newline]"
    using internal_printf_writes [OF assms(1), of m q] Cons.prems by auto
  with Cons.IH [of q1] Cons.prems show ?case by auto
qed simp

section \<open>The thread prints what the queue holds\<close>

text \<open>The bytes on their way: what the thread has read but not printed, and what is still in the queue.\<close>

definition pending :: "('q \<Rightarrow> string) \<Rightarrow> 'q log_thread \<Rightarrow> string" where
  "pending data s = take (lt_index s) (lt_buffer s) @ data (lt_fifo s)"

definition thread_ok :: "'q log_thread \<Rightarrow> bool" where
  "thread_ok s \<longleftrightarrow> length (lt_buffer s) = MAX_LOG_LINE \<and> lt_index s \<le> MAX_LOG_LINE"

lemma takeWhile_stop: "x \<notin> set l \<Longrightarrow> takeWhile (\<lambda>c. c \<noteq> x) (l @ x # r) = l"
  by (subst takeWhile_append2) auto

text \<open>The step of the thread on the bytes that fill the buffer: \<open>got\<close> is all it has, \<open>old\<close> what lies behind it.\<close>

lemma line_step:
  assumes "got = l @ newline # r" "newline \<notin> set l" "NUL \<notin> set l"
  shows "scan (got @ old) (length got) = length l"
    and "c_string ((got @ old)[length l := NUL]) = l"
    and "drop (Suc (length l)) ((got @ old)[length l := NUL]) = r @ old"
proof -
  show "scan (got @ old) (length got) = length l" by (simp add: scan_def assms(1) takeWhile_stop [OF assms(2)])
  have "(got @ old)[length l := NUL] = l @ NUL # r @ old" by (simp add: assms(1))
  then show "c_string ((got @ old)[length l := NUL]) = l" "drop (Suc (length l)) ((got @ old)[length l := NUL]) = r @ old"
    by (simp_all add: c_string_def takeWhile_stop [OF assms(3)])
qed

lemma log_iter_line:
  assumes lib: "kfifo_ok lib data cap" and ok: "thread_ok s"
    and p: "pending data s = l @ newline # r" and l: "newline \<notin> set l" "NUL \<notin> set l" "length l < MAX_LOG_LINE"
  shows "lt_printed (log_iter lib s) = lt_printed s @ [l @ [newline]] \<and> pending data (log_iter lib s) = r \<and>
    thread_ok (log_iter lib s)"
proof -
  let ?b = "lt_buffer s" and ?k = "MAX_LOG_LINE - lt_index s"
  obtain q where out: "kfifo_out lib (lt_fifo s) ?k = (take ?k (data (lt_fifo s)), q)" "data q = drop ?k (data (lt_fifo s))"
    using kfifo_laws(3,4) [OF lib] by (metis prod.collapse)
  define chunk where "chunk = take ?k (data (lt_fifo s))"
  define got where "got = take (lt_index s) ?b @ chunk"
  define old where "old = drop (length got) ?b"
  have idx: "length (take (lt_index s) ?b) = lt_index s" "lt_index s \<le> MAX_LOG_LINE" using ok by (simp_all add: thread_ok_def)
  have "got = take MAX_LOG_LINE (pending data s)" using idx by (simp add: got_def chunk_def pending_def)
  then obtain r1 where got: "got = l @ newline # r1"
    using p l(3) by (simp add: take_Cons' Suc_diff_Suc)
  have n: "lt_index s + length chunk = length got" using idx by (simp add: got_def)
  have len: "length got \<le> MAX_LOG_LINE" "length got + length old = MAX_LOG_LINE"
    using idx ok unfolding got_def old_def chunk_def thread_ok_def by auto
  have rest: "r1 @ data q = r"
  proof -
    have "pending data s = got @ data q" unfolding out(2) got_def chunk_def by (simp add: pending_def)
    then show ?thesis using p got by simp
  qed
  note st = line_step [OF got l(1,2), of old]
  have lt: "length l < length got" using got by simp
  have iter: "log_iter lib s = s\<lparr>lt_fifo := q, lt_printed := lt_printed s @ [l @ [newline]],
      lt_buffer := r1 @ drop (length r1) ((got @ old)[length l := NUL]), lt_index := length r1\<rparr>"
  proof -
    have c: "length got - (length l + 1) = length r1" by (simp add: got)
    have buf: "take (lt_index s) ?b @ chunk @ old = got @ old" by (simp add: got_def)
    show ?thesis
      unfolding log_iter_def Let_def out(1) prod.case chunk_def [symmetric] n old_def [symmetric] buf st(1) c
      using lt st(2,3) c by simp
  qed
  have "length r1 \<le> length got" "length ((got @ old)[length l := NUL]) = MAX_LOG_LINE" using got len by simp_all
  then show ?thesis using rest len(1) unfolding iter by (auto simp: pending_def thread_ok_def)
qed

lemma log_iter_lines:
  assumes lib: "kfifo_ok lib data cap"
    and l: "\<forall>l \<in> set ls. newline \<notin> set l \<and> NUL \<notin> set l \<and> length l < MAX_LOG_LINE"
    and "thread_ok s" "pending data s = concat (map (\<lambda>l. l @ [newline]) ls) @ r"
  shows "lt_printed ((log_iter lib ^^ length ls) s) = lt_printed s @ map (\<lambda>l. l @ [newline]) ls \<and>
    pending data ((log_iter lib ^^ length ls) s) = r"
  using l assms(3-)
proof (induction ls arbitrary: s)
  case (Cons l ls)
  have "lt_printed (log_iter lib s) = lt_printed s @ [l @ [newline]] \<and>
      pending data (log_iter lib s) = concat (map (\<lambda>l. l @ [newline]) ls) @ r \<and> thread_ok (log_iter lib s)"
    using Cons.prems by (intro log_iter_line [OF lib]) auto
  with Cons.IH [of "log_iter lib s"] Cons.prems(1) show ?case by (simp add: funpow_Suc_right del: funpow.simps)
qed simp

lemma log_line_props:
  assumes "newline \<notin> set (butlast (take 1022 m))" "NUL \<notin> set m"
  shows "newline \<notin> set (log_line m)" "NUL \<notin> set (log_line m)" "length (log_line m) < MAX_LOG_LINE"
proof -
  let ?t = "take 1022 m"
  have "set (log_line m) \<subseteq> set ?t" "length (log_line m) \<le> length ?t"
    by (auto simp: log_line_def Let_def dest: in_set_butlastD)
  then show "NUL \<notin> set (log_line m)" "length (log_line m) < MAX_LOG_LINE"
    using assms(2) set_take_subset [of 1022 m] by (auto simp: MAX_LOG_LINE_def)
  show "newline \<notin> set (log_line m)"
  proof (cases "?t = []")
    case False
    then have "set ?t = insert (last ?t) (set (butlast ?t))" by (metis append_butlast_last_id list.simps(15) rotate1.simps(2) set_rotate1)
    then show ?thesis using assms(1) by (auto simp: log_line_def Let_def)
  qed (simp add: log_line_def)
qed

text \<open>C38: Messages that the hypervisor logs in root mode, of one line each, come out of the log thread unchanged and in order, one line per
  run through its loop, as long as the queue has room for them; a message of more than 1022 characters is cut.\<close>

theorem log_messages_delivered:
  assumes "kfifo_ok lib data cap" "data q = []" "(\<Sum>m\<leftarrow>ms. length (log_line m) + 1) \<le> cap"
    and "\<forall>m \<in> set ms. m \<noteq> [] \<and> NUL \<notin> set m \<and> newline \<notin> set (butlast (take 1022 m))"
  shows "\<exists>q' s. foldo (hb_internal_printf lib) ms q = Some q' \<and> hbh_log_thread lib (Some q') (length ms) = Some s \<and>
    lt_printed s = map (\<lambda>m. log_line m @ [newline]) ms \<and> pending data s = []"
proof -
  obtain q' where q': "foldo (hb_internal_printf lib) ms q = Some q'" "data q' = concat (map (\<lambda>m. log_line m @ [newline]) ms)"
    using messages_written [OF assms(1), of ms q] assms(2-4) by auto
  let ?s = "\<lparr>lt_buffer = replicate MAX_LOG_LINE NUL, lt_index = 0, lt_fifo = q', lt_printed = []\<rparr>"
  have "lt_printed ((log_iter lib ^^ length (map log_line ms)) ?s) = lt_printed ?s @ map (\<lambda>l. l @ [newline]) (map log_line ms) \<and>
      pending data ((log_iter lib ^^ length (map log_line ms)) ?s) = []"
    by (rule log_iter_lines [OF assms(1)])
      (use assms(4) log_line_props in \<open>auto simp: thread_ok_def pending_def q'(2) comp_def\<close>)
  then show ?thesis using q'(1) by (simp add: hbh_log_thread_def comp_def)
qed

text \<open>A text without a newline that does not fill the buffer is lost: \<open>index\<close> stays as it was, and the next bytes overwrite it.\<close>

lemma unterminated_text_lost:
  assumes lib: "kfifo_ok lib data cap" and s: "thread_ok s" "lt_index s = 0"
    and d: "newline \<notin> set (data (lt_fifo s))" "length (data (lt_fifo s)) < MAX_LOG_LINE"
  shows "pending data (log_iter lib s) = [] \<and> lt_printed (log_iter lib s) = lt_printed s"
proof -
  let ?d = "data (lt_fifo s)"
  obtain q where out: "kfifo_out lib (lt_fifo s) MAX_LOG_LINE = (?d, q)" "data q = []"
    using kfifo_laws(3,4) [OF lib, of "lt_fifo s" MAX_LOG_LINE] d(2)
    by (metis drop_all less_imp_le_nat prod.collapse take_all)
  have "scan (?d @ x) (length ?d) = length ?d" for x
  proof -
    have "takeWhile (\<lambda>c. c \<noteq> newline) ?d = ?d" using d(1) by (intro takeWhile_eq_all_conv [THEN iffD2]) auto
    then show ?thesis by (simp add: scan_def del: takeWhile_eq_all_conv)
  qed
  then show ?thesis using s(2) d(2) out(2) by (simp add: log_iter_def out(1) pending_def)
qed

text \<open>A queue as a list.\<close>

definition list_kfifo :: "nat \<Rightarrow> string kfifo_lib" where
  "list_kfifo cap = \<lparr>kfifo_in = (\<lambda>q s. (min (length s) (cap - length q), q @ take (cap - length q) s)),
     kfifo_out = (\<lambda>q k. (take k q, drop k q)), kfifo_is_full = (\<lambda>q. cap \<le> length q)\<rparr>"

lemma list_kfifo_ok: "kfifo_ok (list_kfifo cap) (\<lambda>q. q) cap"
  by (simp add: kfifo_ok_def list_kfifo_def)

theorem log_messages_delivered_witness:
  "\<exists>q' s. foldo (hb_internal_printf (list_kfifo 4096)) [''VM [0] INT'', ''Error=000004'' @ [newline]] [] = Some q' \<and>
     hbh_log_thread (list_kfifo 4096) (Some q') 2 = Some s \<and>
     lt_printed s = [''VM [0] INT'' @ [newline], ''Error=000004'' @ [newline]]"
  using log_messages_delivered [OF list_kfifo_ok [of 4096], of "[]" "[''VM [0] INT'', ''Error=000004'' @ [newline]]"]
  by (simp add: log_line_def newline_def NUL_def numeral_2_eq_2) blast

section \<open>Waiting for the module\<close>

text \<open>The wait ends as soon as the module has appeared.\<close>

lemma wait_ends:
  assumes "k \<le> n" "HYPER_BOX_MODULE_NAME \<in> set (names n)"
  shows "\<exists>m. hbh_wait_hyper_box_module names k = Some m \<and> m \<le> n \<and> HYPER_BOX_MODULE_NAME \<in> set (names m)"
  using assms(1)
proof (induction "n - k" arbitrary: k)
  case 0
  then have "k = n" by simp
  then show ?case using assms(2) by (simp add: hbh_wait_hyper_box_module.simps)
next
  case (Suc d)
  show ?case
  proof (cases "HYPER_BOX_MODULE_NAME \<in> set (names k)")
    case True
    then show ?thesis using Suc.prems by (simp add: hbh_wait_hyper_box_module.simps)
  next
    case False
    then have "hbh_wait_hyper_box_module names k = hbh_wait_hyper_box_module names (Suc k)"
      by (simp add: hbh_wait_hyper_box_module.simps [of _ k])
    moreover have "d = n - Suc k" "Suc k \<le> n" using Suc.hyps(2) by simp_all
    ultimately show ?thesis using Suc.hyps(1) by simp
  qed
qed

section \<open>Start and end of the helper module\<close>

text \<open>The thread that was started is the one that is stopped, unless there was none. \<open>kthread_run\<close> reports a failure by an error pointer, such
  as the one for \<open>-ENOMEM\<close>, and never by the null pointer: the module is then loaded without a thread and its end stops the error pointer.\<close>

lemma helper_stops_thread:
  "stopped_threads (hyper_box_helper_exit (snd (hyper_box_helper_init run s))) = stopped_threads s @ (if run = 0 then [] else [run])"
  by (simp add: hyper_box_helper_init_def hyper_box_helper_exit_def Let_def)

lemma helper_accepts_error_pointer:
  "fst (hyper_box_helper_init (- 12) s) = 0" "- 12 \<in> set (stopped_threads (hyper_box_helper_exit (snd (hyper_box_helper_init (- 12) s))))"
  using helper_stops_thread [of "- 12" s] by (simp_all add: hyper_box_helper_init_def)

end
