(* ===== verification/Probe.thy ===== *)
theory Probe
  imports Vmcs_Setup
begin

text \<open>
  The probe module (src/hypervisor/hb_probe.c and asm_helper.asm): a second module that turns VMX on on every processor, loads
  a VMCS, writes a guest state into it and reads it back, without ever launching a guest, and that turns everything off again when
  it fails or when it is unloaded. An instruction that would fault (a VMX instruction outside of VMX operation, a
  control register with a forbidden value, VMXON with IA32_FEATURE_CONTROL not locked) has no result. The set of online processors does
  not change between loading and unloading.
\<close>

section \<open>Processors and the state of the module\<close>

text \<open>A processor: its registers, whether it is in VMX operation, the current VMCS, the contents of its VMCS regions, and whether
  interrupts and preemption are on.\<close>

record probe_core =
  pc_cpu :: cpu
  pc_in_vmx :: bool
  pc_current :: u64
  pc_vmcs :: "u64 \<Rightarrow> u64 \<Rightarrow> u64"
  pc_irqs :: bool
  pc_preempt :: nat

record hb_percpu_vmx =
  vmxon_region :: u64
  vmcs_region :: u64
  vmx_on :: bool
  saved_cr0 :: u64
  saved_cr4 :: u64

record probe_state =
  pr_cores :: "nat \<Rightarrow> probe_core"
  g_vmx :: "(nat \<Rightarrow> hb_percpu_vmx) option"
  g_vmx_revision :: u32
  g_vmx_probe_failed :: int
  pr_revision :: "u64 \<Rightarrow> u32"
  pr_heap :: kheap

text \<open>What the module finds: CPUID, memory and model specific registers of a processor (\<open>hw_view\<close>), whether VMXON, VMCLEAR, VMPTRLD and
  VMWRITE succeed, the modules under /sys/module, and the processors that are online.\<close>

record probe_hw =
  hw_cpuid_1_ecx :: u32
  hw_view :: "nat \<Rightarrow> vm"
  hw_dr7 :: "nat \<Rightarrow> u64"
  hw_vmxon :: "nat \<Rightarrow> u64 \<Rightarrow> u32 \<Rightarrow> bool"
  hw_vmclear :: "nat \<Rightarrow> u64 \<Rightarrow> bool"
  hw_vmptrld :: "nat \<Rightarrow> u64 \<Rightarrow> u32 \<Rightarrow> bool"
  hw_vmwrite :: "nat \<Rightarrow> u64 \<Rightarrow> bool"
  hw_kern_path :: "string \<Rightarrow> int"
  hw_kcalloc :: bool
  hw_kernel :: kernel_env
  hw_online :: "nat list"

definition ENODEV :: int where [hb_consts]: "ENODEV = 19"
definition EBUSY :: int where [hb_consts]: "EBUSY = 16"
definition ENOMEM :: int where [hb_consts]: "ENOMEM = 12"
definition EIO :: int where [hb_consts]: "EIO = 5"

abbreviation hw_rdmsr :: "probe_hw \<Rightarrow> nat \<Rightarrow> u32 \<Rightarrow> u64" where
  "hw_rdmsr hw i m \<equiv> hb_rdmsr (ucast m) (hw_view hw i)"

section \<open>Instructions\<close>

definition cr0_ok :: "probe_hw \<Rightarrow> nat \<Rightarrow> u64 \<Rightarrow> bool" where
  "cr0_ok hw i v \<longleftrightarrow> fixed_ok (hw_rdmsr hw i MSR_IA32_VMX_CR0_FIXED0) (hw_rdmsr hw i MSR_IA32_VMX_CR0_FIXED1) v"

definition cr4_ok :: "probe_hw \<Rightarrow> nat \<Rightarrow> u64 \<Rightarrow> bool" where
  "cr4_ok hw i v \<longleftrightarrow> bit v 13 \<and> fixed_ok (hw_rdmsr hw i MSR_IA32_VMX_CR4_FIXED0) (hw_rdmsr hw i MSR_IA32_VMX_CR4_FIXED1) v"

definition pr_set_cr0 :: "probe_hw \<Rightarrow> nat \<Rightarrow> u64 \<Rightarrow> probe_core \<Rightarrow> probe_core option" where
  "pr_set_cr0 hw i v c = (if pc_in_vmx c \<and> \<not> cr0_ok hw i v then None else Some (c\<lparr>pc_cpu := pc_cpu c\<lparr>cpu_cr0 := v\<rparr>\<rparr>))"

definition pr_set_cr4 :: "probe_hw \<Rightarrow> nat \<Rightarrow> u64 \<Rightarrow> probe_core \<Rightarrow> probe_core option" where
  "pr_set_cr4 hw i v c = (if pc_in_vmx c \<and> \<not> cr4_ok hw i v then None else Some (c\<lparr>pc_cpu := pc_cpu c\<lparr>cpu_cr4 := v\<rparr>\<rparr>))"

text \<open>BTS and BTC of bit 13: the one sets CR4.VMXE, the other complements it.\<close>

definition pr_enable_vmx :: "probe_hw \<Rightarrow> nat \<Rightarrow> probe_core \<Rightarrow> probe_core option" where
  "pr_enable_vmx hw i c = pr_set_cr4 hw i (cpu_cr4 (pc_cpu c) OR CR4_BIT_VMXE) c"

definition pr_disable_vmx :: "probe_hw \<Rightarrow> nat \<Rightarrow> probe_core \<Rightarrow> probe_core option" where
  "pr_disable_vmx hw i c = pr_set_cr4 hw i (cpu_cr4 (pc_cpu c) XOR CR4_BIT_VMXE) c"

text \<open>VMXON faults when a control register has a value that VMX operation does not allow, or when IA32_FEATURE_CONTROL is not locked
  or does not enable VMXON outside of SMX operation.\<close>

definition pr_start_vmx :: "probe_hw \<Rightarrow> nat \<Rightarrow> u64 \<Rightarrow> u32 \<Rightarrow> probe_core \<Rightarrow> (int \<times> probe_core) option" where
  "pr_start_vmx hw i pa revid c =
     (if \<not> cr0_ok hw i (cpu_cr0 (pc_cpu c)) \<or> \<not> cr4_ok hw i (cpu_cr4 (pc_cpu c)) \<or>
         \<not> feat_ctl_ok (hw_rdmsr hw i MSR_IA32_FEAT_CTL) then None
      else if pc_in_vmx c \<or> \<not> hw_vmxon hw i pa revid then Some (-1, c)
      else Some (0, c\<lparr>pc_in_vmx := True, pc_current := NO_VMCS\<rparr>))"

definition pr_stop_vmx :: "probe_core \<Rightarrow> probe_core option" where
  "pr_stop_vmx c = (if pc_in_vmx c then Some (c\<lparr>pc_in_vmx := False, pc_current := NO_VMCS\<rparr>) else None)"

definition pr_clear_vmcs :: "probe_hw \<Rightarrow> nat \<Rightarrow> u64 \<Rightarrow> probe_core \<Rightarrow> (int \<times> probe_core) option" where
  "pr_clear_vmcs hw i pa c =
     (if \<not> pc_in_vmx c then None else if \<not> hw_vmclear hw i pa then Some (-1, c)
      else Some (0, if pc_current c = pa then c\<lparr>pc_current := NO_VMCS\<rparr> else c))"

definition pr_load_vmcs :: "probe_hw \<Rightarrow> nat \<Rightarrow> u64 \<Rightarrow> u32 \<Rightarrow> probe_core \<Rightarrow> (int \<times> probe_core) option" where
  "pr_load_vmcs hw i pa revid c =
     (if \<not> pc_in_vmx c then None else if \<not> hw_vmptrld hw i pa revid then Some (-1, c) else Some (0, c\<lparr>pc_current := pa\<rparr>))"

definition pr_write_vmcs :: "probe_hw \<Rightarrow> nat \<Rightarrow> u64 \<Rightarrow> u64 \<Rightarrow> probe_core \<Rightarrow> (int \<times> probe_core) option" where
  "pr_write_vmcs hw i field v c =
     (if \<not> pc_in_vmx c then None else if pc_current c = NO_VMCS \<or> \<not> hw_vmwrite hw i field then Some (-1, c)
      else Some (0, c\<lparr>pc_vmcs := (pc_vmcs c)(pc_current c := (pc_vmcs c (pc_current c))(field := v))\<rparr>))"

definition pr_read_vmcs :: "probe_hw \<Rightarrow> nat \<Rightarrow> u64 \<Rightarrow> probe_core \<Rightarrow> (int \<times> u64) option" where
  "pr_read_vmcs hw i field c =
     (if \<not> pc_in_vmx c then None else if pc_current c = NO_VMCS then Some (-1, 0)
      else Some (0, pc_vmcs c (pc_current c) field))"

section \<open>Checks\<close>

definition hb_module_loaded :: "probe_hw \<Rightarrow> string \<Rightarrow> bool" where
  "hb_module_loaded hw name \<longleftrightarrow> hw_kern_path hw (take 47 (''/sys/module/'' @ name)) = 0"

definition hb_is_kvm_loaded :: "probe_hw \<Rightarrow> bool" where
  "hb_is_kvm_loaded hw \<longleftrightarrow> hb_module_loaded hw ''kvm_intel'' \<or> hb_module_loaded hw ''kvm''"

definition is_vmx_supported :: "probe_hw \<Rightarrow> bool" where
  "is_vmx_supported hw \<longleftrightarrow> hw_cpuid_1_ecx hw AND ucast CPUID_1_ECX_VMX \<noteq> 0"

definition is_bios_vmx_allowed :: "u64 \<Rightarrow> bool" where
  "is_bios_vmx_allowed msr \<longleftrightarrow> \<not> (msr AND ucast MSR_IA32_FEATURE_CONTROL_BIT_CONTROL_LOCKED \<noteq> 0 \<and>
     msr AND ucast MSR_IA32_FEATURE_CONTROL_BIT_VMXON_ENABLED_OUTPUTSIDE_SMX = 0)"

definition hb_vmx_revision_id :: "u64 \<Rightarrow> u32" where
  "hb_vmx_revision_id vmx_basic = ucast (vmx_basic AND 0x7FFFFFFF)"

definition hb_adjust_vmx_cr0_cr4 :: "probe_hw \<Rightarrow> nat \<Rightarrow> probe_core \<Rightarrow> probe_core option" where
  "hb_adjust_vmx_cr0_cr4 hw i c = do {
     c \<leftarrow> pr_set_cr0 hw i ((cpu_cr0 (pc_cpu c) OR hw_rdmsr hw i MSR_IA32_VMX_CR0_FIXED0) AND hw_rdmsr hw i MSR_IA32_VMX_CR0_FIXED1) c;
     pr_set_cr4 hw i ((cpu_cr4 (pc_cpu c) OR hw_rdmsr hw i MSR_IA32_VMX_CR4_FIXED0) AND hw_rdmsr hw i MSR_IA32_VMX_CR4_FIXED1) c
   }"

section \<open>Regions\<close>

text \<open>\<open>kcalloc\<close> delivers a zeroed array.\<close>

definition percpu_zero :: hb_percpu_vmx where
  "percpu_zero = \<lparr>vmxon_region = 0, vmcs_region = 0, vmx_on = False, saved_cr0 = 0, saved_cr4 = 0\<rparr>"

definition free_region :: "u64 \<Rightarrow> kheap \<Rightarrow> kheap" where
  "free_region p h = (if p \<noteq> 0 then kh_free_page p h else h)"

definition hb_vmx_free_regions :: "probe_hw \<Rightarrow> probe_state \<Rightarrow> probe_state" where
  "hb_vmx_free_regions hw st =
     (case g_vmx st of
        None \<Rightarrow> st
      | Some g \<Rightarrow> st\<lparr>g_vmx := None,
          pr_heap := fold (\<lambda>i h. free_region (vmcs_region (g i)) (free_region (vmxon_region (g i)) h)) (hw_online hw) (pr_heap st)\<rparr>)"

text \<open>The loop of \<open>hb_vmx_alloc_regions\<close>; the two pages are zeroed.\<close>

fun alloc_regions :: "probe_hw \<Rightarrow> nat list \<Rightarrow> (nat \<Rightarrow> hb_percpu_vmx) \<Rightarrow> (u64 \<Rightarrow> u32) \<Rightarrow> kheap \<Rightarrow>
    bool \<times> (nat \<Rightarrow> hb_percpu_vmx) \<times> (u64 \<Rightarrow> u32) \<times> kheap" where
  "alloc_regions hw [] g revid h = (True, g, revid, h)"
| "alloc_regions hw (i # is) g revid h =
     (let (vmxon, h) = kh_get_free_page (hw_kernel hw) h;
          (vmcs, h) = kh_get_free_page (hw_kernel hw) h;
          g = g(i := g i\<lparr>vmxon_region := vmxon, vmcs_region := vmcs\<rparr>)
      in if vmxon = 0 \<or> vmcs = 0 then (False, g, revid, h)
         else alloc_regions hw is g (revid(vmxon := 0, vmcs := 0)) h)"

definition hb_vmx_alloc_regions :: "probe_hw \<Rightarrow> probe_state \<Rightarrow> int \<times> probe_state" where
  "hb_vmx_alloc_regions hw st =
     (if \<not> hw_kcalloc hw then (- ENOMEM, st\<lparr>g_vmx := None\<rparr>)
      else let (ok, g, revid, h) = alloc_regions hw (hw_online hw) (\<lambda>_. percpu_zero) (pr_revision st) (pr_heap st);
               st = st\<lparr>g_vmx := Some g, pr_revision := revid, pr_heap := h\<rparr>
           in if ok then (0, st) else (- ENOMEM, hb_vmx_free_regions hw st))"

section \<open>The guest state\<close>

definition HB_GUEST_RIP_RSP_PLACEHOLDER :: u64 where [hb_consts]: "HB_GUEST_RIP_RSP_PLACEHOLDER = 0xFFFFFFFFFFFFFFFF"

record hb_probe_guest_state =
  pg_cr0 :: u64
  pg_cr3 :: u64
  pg_cr4 :: u64
  pg_dr7 :: u64
  pg_rsp :: u64
  pg_rip :: u64
  pg_rflags :: u64
  pg_cs_sel :: u64
  pg_ss_sel :: u64
  pg_ds_sel :: u64
  pg_es_sel :: u64
  pg_fs_sel :: u64
  pg_gs_sel :: u64
  pg_ldtr_sel :: u64
  pg_tr_sel :: u64
  pg_cs_base :: u64
  pg_ss_base :: u64
  pg_ds_base :: u64
  pg_es_base :: u64
  pg_fs_base :: u64
  pg_gs_base :: u64
  pg_ldtr_base :: u64
  pg_tr_base :: u64
  pg_cs_lim :: u32
  pg_ss_lim :: u32
  pg_ds_lim :: u32
  pg_es_lim :: u32
  pg_fs_lim :: u32
  pg_gs_lim :: u32
  pg_ldtr_lim :: u32
  pg_tr_lim :: u32
  pg_cs_ar :: u32
  pg_ss_ar :: u32
  pg_ds_ar :: u32
  pg_es_ar :: u32
  pg_fs_ar :: u32
  pg_gs_ar :: u32
  pg_ldtr_ar :: u32
  pg_tr_ar :: u32
  pg_gdtr_base :: u64
  pg_idtr_base :: u64
  pg_gdtr_lim :: u32
  pg_idtr_lim :: u32
  pg_sysenter_cs :: u64
  pg_sysenter_esp :: u64
  pg_sysenter_eip :: u64
  pg_debugctl :: u64
  pg_pat :: u64
  pg_efer :: u64
  pg_vmcs_link_ptr :: u64

definition hb_probe_gdt_desc_base :: "desc_ptr \<Rightarrow> u64 \<Rightarrow> vm \<Rightarrow> u64" where
  "hb_probe_gdt_desc_base gdtr selector s =
     (if selector = 0 then 0
      else let gdt = desc_addr gdtr selector
           in mem_load 2 (gdt + 2) s OR push_bit 16 (mem_load 1 (gdt + 4) s) OR push_bit 24 (mem_load 1 (gdt + 7) s))"

definition hb_probe_gdt_desc_access :: "desc_ptr \<Rightarrow> u64 \<Rightarrow> vm \<Rightarrow> u32" where
  "hb_probe_gdt_desc_access gdtr selector s =
     (if selector = 0 then 0x10000
      else let access = drop_bit 8 (ucast (mem_load 4 (desc_addr gdtr selector + 4) s) :: u32) in access AND 0xF0FF)"

text \<open>Base, limit and access rights by \<open>struct hb_ldttss_desc64\<close>, whose member \<open>limit1\<close> is the byte at offset 5.\<close>

definition hb_probe_ldtr_tr_fields :: "desc_ptr \<Rightarrow> u64 \<Rightarrow> vm \<Rightarrow> u64 \<times> u32 \<times> u32" where
  "hb_probe_ldtr_tr_fields gdtr selector s =
     (if selector = 0 then (0, 0, 0x10000)
      else let ent = desc_addr gdtr selector;
               base0 = mem_load 2 (ent + 2) s; base1 = mem_load 1 (ent + 4) s; base2 = mem_load 1 (ent + 7) s;
               base3 = mem_load 4 (ent + 8) s; limit0 = mem_load 2 ent s; limit1 = mem_load 1 (ent + 5) s;
               acc = drop_bit 8 (ucast (mem_load 4 (ent + 4) s) :: u32)
           in (base0 OR push_bit 16 base1 OR push_bit 24 base2 OR push_bit 32 base3,
               ucast limit0 OR push_bit 16 (ucast limit1), acc AND 0xF0FF))"

definition hb_probe_capture_guest_state :: "cpu \<Rightarrow> u64 \<Rightarrow> vm \<Rightarrow> hb_probe_guest_state" where
  "hb_probe_capture_guest_state c dr7 s =
     (let gdtr = cpu_gdtr c;
          (ldtr_base, ldtr_lim, ldtr_ar) = hb_probe_ldtr_tr_fields gdtr (cpu_ldtr c) s;
          (tr_base, tr_lim, tr_ar) =
            (if cpu_tr c = 0 then (0, 0, 0) else hb_probe_ldtr_tr_fields gdtr (cpu_tr c) s)
      in \<lparr>pg_cr0 = cpu_cr0 c,
        pg_cr3 = cpu_cr3 c,
        pg_cr4 = cpu_cr4 c,
        pg_dr7 = dr7,
        pg_rsp = HB_GUEST_RIP_RSP_PLACEHOLDER,
        pg_rip = HB_GUEST_RIP_RSP_PLACEHOLDER,
        pg_rflags = cpu_rflags c,
        pg_cs_sel = cpu_cs c,
        pg_ss_sel = cpu_ss c,
        pg_ds_sel = cpu_ds c,
        pg_es_sel = cpu_es c,
        pg_fs_sel = cpu_fs c,
        pg_gs_sel = cpu_gs c,
        pg_ldtr_sel = cpu_ldtr c,
        pg_tr_sel = cpu_tr c,
        pg_cs_base = hb_probe_gdt_desc_base gdtr (cpu_cs c) s,
        pg_ss_base = hb_probe_gdt_desc_base gdtr (cpu_ss c) s,
        pg_ds_base = hb_probe_gdt_desc_base gdtr (cpu_ds c) s,
        pg_es_base = hb_probe_gdt_desc_base gdtr (cpu_es c) s,
        pg_fs_base = hb_rdmsr (ucast MSR_FS_BASE_ADDR) s,
        pg_gs_base = hb_rdmsr (ucast MSR_GS_BASE_ADDR) s,
        pg_ldtr_base = ldtr_base,
        pg_tr_base = tr_base,
        pg_cs_lim = 0xFFFFFFFF,
        pg_ss_lim = 0xFFFFFFFF,
        pg_ds_lim = 0xFFFFFFFF,
        pg_es_lim = 0xFFFFFFFF,
        pg_fs_lim = 0xFFFFFFFF,
        pg_gs_lim = 0xFFFFFFFF,
        pg_ldtr_lim = ldtr_lim,
        pg_tr_lim = tr_lim,
        pg_cs_ar = hb_probe_gdt_desc_access gdtr (cpu_cs c) s,
        pg_ss_ar = hb_probe_gdt_desc_access gdtr (cpu_ss c) s,
        pg_ds_ar = hb_probe_gdt_desc_access gdtr (cpu_ds c) s,
        pg_es_ar = hb_probe_gdt_desc_access gdtr (cpu_es c) s,
        pg_fs_ar = hb_probe_gdt_desc_access gdtr (cpu_fs c) s,
        pg_gs_ar = hb_probe_gdt_desc_access gdtr (cpu_gs c) s,
        pg_ldtr_ar = ldtr_ar,
        pg_tr_ar = tr_ar,
        pg_gdtr_base = dt_address gdtr,
        pg_idtr_base = dt_address (cpu_idtr c),
        pg_gdtr_lim = ucast (dt_size gdtr),
        pg_idtr_lim = ucast (dt_size (cpu_idtr c)),
        pg_sysenter_cs = hb_rdmsr (ucast MSR_IA32_SYSENTER_CS) s,
        pg_sysenter_esp = hb_rdmsr (ucast MSR_IA32_SYSENTER_ESP) s,
        pg_sysenter_eip = hb_rdmsr (ucast MSR_IA32_SYSENTER_EIP) s,
        pg_debugctl = 0,
        pg_pat = hb_rdmsr (ucast MSR_IA32_PAT) s,
        pg_efer = hb_rdmsr (ucast MSR_IA32_EFER) s,
        pg_vmcs_link_ptr = 0xFFFFFFFFFFFFFFFF\<rparr>)"

definition guest_state_writes :: "hb_probe_guest_state \<Rightarrow> (u64 \<times> u64) list" where
  "guest_state_writes g =
     [(VM_GUEST_CR0, pg_cr0 g),
      (VM_GUEST_CR3, pg_cr3 g),
      (VM_GUEST_CR4, pg_cr4 g),
      (VM_GUEST_DR7, pg_dr7 g),
      (VM_GUEST_RSP, pg_rsp g),
      (VM_GUEST_RIP, pg_rip g),
      (VM_GUEST_RFLAGS, pg_rflags g),
      (VM_GUEST_CS_SELECTOR, pg_cs_sel g),
      (VM_GUEST_SS_SELECTOR, pg_ss_sel g),
      (VM_GUEST_DS_SELECTOR, pg_ds_sel g),
      (VM_GUEST_ES_SELECTOR, pg_es_sel g),
      (VM_GUEST_FS_SELECTOR, pg_fs_sel g),
      (VM_GUEST_GS_SELECTOR, pg_gs_sel g),
      (VM_GUEST_LDTR_SELECTOR, pg_ldtr_sel g),
      (VM_GUEST_TR_SELECTOR, pg_tr_sel g),
      (VM_GUEST_CS_BASE, pg_cs_base g),
      (VM_GUEST_SS_BASE, pg_ss_base g),
      (VM_GUEST_DS_BASE, pg_ds_base g),
      (VM_GUEST_ES_BASE, pg_es_base g),
      (VM_GUEST_FS_BASE, pg_fs_base g),
      (VM_GUEST_GS_BASE, pg_gs_base g),
      (VM_GUEST_LDTR_BASE, pg_ldtr_base g),
      (VM_GUEST_TR_BASE, pg_tr_base g),
      (VM_GUEST_CS_LIMIT, ucast (pg_cs_lim g)),
      (VM_GUEST_SS_LIMIT, ucast (pg_ss_lim g)),
      (VM_GUEST_DS_LIMIT, ucast (pg_ds_lim g)),
      (VM_GUEST_ES_LIMIT, ucast (pg_es_lim g)),
      (VM_GUEST_FS_LIMIT, ucast (pg_fs_lim g)),
      (VM_GUEST_GS_LIMIT, ucast (pg_gs_lim g)),
      (VM_GUEST_LDTR_LIMIT, ucast (pg_ldtr_lim g)),
      (VM_GUEST_TR_LIMIT, ucast (pg_tr_lim g)),
      (VM_GUEST_CS_ACC_RIGHT, ucast (pg_cs_ar g)),
      (VM_GUEST_SS_ACC_RIGHT, ucast (pg_ss_ar g)),
      (VM_GUEST_DS_ACC_RIGHT, ucast (pg_ds_ar g)),
      (VM_GUEST_ES_ACC_RIGHT, ucast (pg_es_ar g)),
      (VM_GUEST_FS_ACC_RIGHT, ucast (pg_fs_ar g)),
      (VM_GUEST_GS_ACC_RIGHT, ucast (pg_gs_ar g)),
      (VM_GUEST_LDTR_ACC_RIGHT, ucast (pg_ldtr_ar g)),
      (VM_GUEST_TR_ACC_RIGHT, ucast (pg_tr_ar g)),
      (VM_GUEST_GDTR_BASE, pg_gdtr_base g),
      (VM_GUEST_IDTR_BASE, pg_idtr_base g),
      (VM_GUEST_GDTR_LIMIT, ucast (pg_gdtr_lim g)),
      (VM_GUEST_IDTR_LIMIT, ucast (pg_idtr_lim g)),
      (VM_GUEST_DEBUGCTL, pg_debugctl g),
      (VM_GUEST_IA32_SYSENTER_CS, pg_sysenter_cs g),
      (VM_GUEST_IA32_SYSENTER_ESP, pg_sysenter_esp g),
      (VM_GUEST_IA32_SYSENTER_EIP, pg_sysenter_eip g),
      (VM_GUEST_PAT, pg_pat g),
      (VM_GUEST_EFER, pg_efer g),
      (VM_VMCS_LINK_PTR, pg_vmcs_link_ptr g),
      (VM_GUEST_INT_STATE, 0),
      (VM_GUEST_ACTIVITY_STATE, 0),
      (VM_GUEST_SMBASE, 0),
      (VM_GUEST_PENDING_DBG_EXCEPTS, 0)]"

text \<open>The writes stop at the first that fails.\<close>

fun vw_all :: "probe_hw \<Rightarrow> nat \<Rightarrow> (u64 \<times> u64) list \<Rightarrow> probe_core \<Rightarrow> (int \<times> probe_core) option" where
  "vw_all hw i [] c = Some (0, c)"
| "vw_all hw i ((field, v) # ws) c = do {
     (ret, c) \<leftarrow> pr_write_vmcs hw i field v c;
     if ret \<noteq> 0 then Some (ret, c) else vw_all hw i ws c
   }"

definition hb_probe_vmwrite_guest_state :: "probe_hw \<Rightarrow> nat \<Rightarrow> hb_probe_guest_state \<Rightarrow> probe_core \<Rightarrow> (int \<times> probe_core) option" where
  "hb_probe_vmwrite_guest_state hw i g c = vw_all hw i (guest_state_writes g) c"

text \<open>The registers as the processor reads them: \<open>local_irq_disable\<close> clears the interrupt flag in RFLAGS.\<close>

definition irq_view :: "probe_core \<Rightarrow> cpu" where
  "irq_view c = pc_cpu c\<lparr>cpu_rflags :=
     (if pc_irqs c then cpu_rflags (pc_cpu c) OR 0x200 else cpu_rflags (pc_cpu c) AND NOT 0x200)\<rparr>"

definition hb_vmx_probe_vmwrite :: "probe_hw \<Rightarrow> nat \<Rightarrow> probe_core \<Rightarrow> (int \<times> probe_core) option" where
  "hb_vmx_probe_vmwrite hw i c =
     (let link_none = 0xFFFFFFFFFFFFFFFF in do {
        (ret, c) \<leftarrow> pr_write_vmcs hw i VM_VMCS_LINK_PTR link_none c;
        if ret \<noteq> 0 then Some (ret, c)
        else do {
          (ret, read_back) \<leftarrow> pr_read_vmcs hw i VM_VMCS_LINK_PTR c;
          if ret \<noteq> 0 then Some (ret, c)
          else if read_back \<noteq> link_none then Some (- EIO, c)
          else do {
            let gst = hb_probe_capture_guest_state (irq_view c) (hw_dr7 hw i) (hw_view hw i);
            (ret, c) \<leftarrow> hb_probe_vmwrite_guest_state hw i gst c;
            if ret \<noteq> 0 then Some (ret, c)
            else do {
              (ret, cr3_read) \<leftarrow> pr_read_vmcs hw i VM_GUEST_CR3 c;
              if ret \<noteq> 0 then Some (ret, c) else if cr3_read \<noteq> pg_cr3 gst then Some (- EIO, c) else Some (0, c)
            }
          }
        }
      })"

section \<open>Turning VMX on and off\<close>

text \<open>From VMCLEAR to the end of the probe; a result other than 0 stands for \<open>goto out_vmxoff\<close>.\<close>

definition probe_vmcs :: "probe_hw \<Rightarrow> nat \<Rightarrow> u64 \<Rightarrow> u32 \<Rightarrow> probe_core \<Rightarrow> (int \<times> probe_core) option" where
  "probe_vmcs hw i vmcs_pa revid c = do {
     (ret, c) \<leftarrow> pr_clear_vmcs hw i vmcs_pa c;
     if ret \<noteq> 0 then Some (ret, c)
     else do {
       (ret, c) \<leftarrow> pr_load_vmcs hw i vmcs_pa revid c;
       if ret \<noteq> 0 then Some (ret, c) else hb_vmx_probe_vmwrite hw i c
     }
   }"

definition out_restore_cr :: "probe_hw \<Rightarrow> nat \<Rightarrow> u64 \<Rightarrow> u64 \<Rightarrow> probe_core \<Rightarrow> probe_core option" where
  "out_restore_cr hw i cr0 cr4 c = do {
     c \<leftarrow> pr_disable_vmx hw i c;
     c \<leftarrow> pr_set_cr4 hw i cr4 c;
     c \<leftarrow> pr_set_cr0 hw i cr0 c;
     Some (c\<lparr>pc_irqs := True, pc_preempt := pc_preempt c - 1\<rparr>)
   }"

text \<open>The processor's part of \<open>hb_vmxon_on_cpu\<close>: what becomes of the flag \<open>vmx_on\<close>, which stays as it is when VMXON itself fails.\<close>

definition vmxon_core :: "probe_hw \<Rightarrow> nat \<Rightarrow> u64 \<Rightarrow> u64 \<Rightarrow> u32 \<Rightarrow> probe_core \<Rightarrow> (bool option \<times> probe_core) option" where
  "vmxon_core hw i vmxon_pa vmcs_pa revid c =
     (let cr0 = cpu_cr0 (pc_cpu c); cr4 = cpu_cr4 (pc_cpu c);
          c = c\<lparr>pc_preempt := Suc (pc_preempt c), pc_irqs := False\<rparr>
      in do {
        c \<leftarrow> hb_adjust_vmx_cr0_cr4 hw i c;
        c \<leftarrow> pr_enable_vmx hw i c;
        (ret, c) \<leftarrow> pr_start_vmx hw i vmxon_pa revid c;
        if ret \<noteq> 0 then do { c \<leftarrow> out_restore_cr hw i cr0 cr4 c; Some (None, c) }
        else do {
          (ret, c) \<leftarrow> probe_vmcs hw i vmcs_pa revid c;
          if ret \<noteq> 0 then do {
            c \<leftarrow> pr_stop_vmx c;
            c \<leftarrow> out_restore_cr hw i cr0 cr4 c;
            Some (Some False, c)
          }
          else Some (Some True, c\<lparr>pc_irqs := True, pc_preempt := pc_preempt c - 1\<rparr>)
        }
      })"

definition set_percpu :: "nat \<Rightarrow> hb_percpu_vmx \<Rightarrow> probe_state \<Rightarrow> probe_state" where
  "set_percpu i pc st = st\<lparr>g_vmx := map_option (\<lambda>g. g(i := pc)) (g_vmx st)\<rparr>"

definition hb_vmxon_on_cpu :: "probe_hw \<Rightarrow> nat \<Rightarrow> probe_state \<Rightarrow> probe_state option" where
  "hb_vmxon_on_cpu hw i st =
     (if g_vmx_probe_failed st \<noteq> 0 then Some st
      else do {
        g \<leftarrow> g_vmx st;
        let pc = g i;
        if vmxon_region pc = 0 \<or> vmcs_region pc = 0 then Some (st\<lparr>g_vmx_probe_failed := 1\<rparr>)
        else do {
          let st = st\<lparr>pr_revision := (pr_revision st)(vmxon_region pc := g_vmx_revision st, vmcs_region pc := g_vmx_revision st)\<rparr>;
          let c = pr_cores st i;
          (on, c') \<leftarrow> vmxon_core hw i (virt_to_phys (hw_kernel hw) (vmxon_region pc)) (virt_to_phys (hw_kernel hw) (vmcs_region pc))
            (g_vmx_revision st) c;
          Some (set_percpu i (pc\<lparr>vmx_on := (case on of None \<Rightarrow> vmx_on pc | Some b \<Rightarrow> b), saved_cr0 := cpu_cr0 (pc_cpu c), saved_cr4 := cpu_cr4 (pc_cpu c)\<rparr>)
            (st\<lparr>pr_cores := (pr_cores st)(i := c'), g_vmx_probe_failed := (if on = Some True then g_vmx_probe_failed st else 1)\<rparr>))
        }
      })"

definition hb_vmxoff_on_cpu :: "probe_hw \<Rightarrow> nat \<Rightarrow> probe_state \<Rightarrow> probe_state option" where
  "hb_vmxoff_on_cpu hw i st = do {
     g \<leftarrow> g_vmx st;
     let pc = g i;
     if \<not> vmx_on pc then Some st
     else do {
       let c = pr_cores st i;
       c \<leftarrow> pr_stop_vmx (c\<lparr>pc_preempt := Suc (pc_preempt c), pc_irqs := False\<rparr>);
       c \<leftarrow> out_restore_cr hw i (saved_cr0 pc) (saved_cr4 pc) c;
       Some (set_percpu i (pc\<lparr>vmx_on := False\<rparr>) (st\<lparr>pr_cores := (pr_cores st)(i := c)\<rparr>))
     }
   }"

fun startup_loop :: "probe_hw \<Rightarrow> nat list \<Rightarrow> probe_state \<Rightarrow> (int \<times> probe_state) option" where
  "startup_loop hw [] st = Some (0, st)"
| "startup_loop hw (i # is) st = do {
     st \<leftarrow> hb_vmxon_on_cpu hw i st;
     if g_vmx_probe_failed st \<noteq> 0 then Some (- EIO, st) else startup_loop hw is st
   }"

definition hb_vmx_startup_all_cpus :: "probe_hw \<Rightarrow> probe_state \<Rightarrow> (int \<times> probe_state) option" where
  "hb_vmx_startup_all_cpus hw st = startup_loop hw (hw_online hw) (st\<lparr>g_vmx_probe_failed := 0\<rparr>)"

definition hb_vmx_teardown_all_cpus :: "probe_hw \<Rightarrow> probe_state \<Rightarrow> probe_state option" where
  "hb_vmx_teardown_all_cpus hw st =
     (case g_vmx st of None \<Rightarrow> Some st | Some _ \<Rightarrow> foldo (hb_vmxoff_on_cpu hw) (hw_online hw) st)"

text \<open>\<open>this\<close> is the processor on which the module is loaded.\<close>

definition hypervisor_init :: "probe_hw \<Rightarrow> nat \<Rightarrow> probe_state \<Rightarrow> (int \<times> probe_state) option" where
  "hypervisor_init hw this st =
     (if \<not> is_vmx_supported hw then Some (- ENODEV, st)
      else if \<not> is_bios_vmx_allowed (hw_rdmsr hw this MSR_IA32_FEAT_CTL) then Some (- ENODEV, st)
      else if hb_is_kvm_loaded hw then Some (- EBUSY, st)
      else
        let st = st\<lparr>g_vmx_revision := hb_vmx_revision_id (hw_rdmsr hw this MSR_IA32_VM_BASIC)\<rparr>;
            (ret, st) = hb_vmx_alloc_regions hw st
        in if ret \<noteq> 0 then Some (ret, st)
           else do {
             (ret, st) \<leftarrow> hb_vmx_startup_all_cpus hw st;
             if ret \<noteq> 0 then do {
               st \<leftarrow> hb_vmx_teardown_all_cpus hw st;
               Some (ret, hb_vmx_free_regions hw st)
             }
             else Some (0, st)
           })"

definition hypervisor_exit :: "probe_hw \<Rightarrow> probe_state \<Rightarrow> probe_state option" where
  "hypervisor_exit hw st = map_option (hb_vmx_free_regions hw) (hb_vmx_teardown_all_cpus hw st)"

section \<open>One processor\<close>

text \<open>A bit that is fixed to 1 may be 1, and VMXE may be set.\<close>

definition vmx_msrs_ok :: "probe_hw \<Rightarrow> nat \<Rightarrow> bool" where
  "vmx_msrs_ok hw i \<longleftrightarrow>
     (\<forall>k. bit (hw_rdmsr hw i MSR_IA32_VMX_CR0_FIXED0) k \<longrightarrow> bit (hw_rdmsr hw i MSR_IA32_VMX_CR0_FIXED1) k) \<and>
     (\<forall>k. bit (hw_rdmsr hw i MSR_IA32_VMX_CR4_FIXED0) k \<longrightarrow> bit (hw_rdmsr hw i MSR_IA32_VMX_CR4_FIXED1) k) \<and>
     bit (hw_rdmsr hw i MSR_IA32_VMX_CR4_FIXED1) 13"

lemma fixed_ok_adjusted: "\<forall>k. bit f0 k \<longrightarrow> bit f1 k \<Longrightarrow> fixed_ok f0 f1 ((v OR f0) AND f1)"
  by (simp add: fixed_ok_def bit_simps)

lemma bit_vmxe: "bit CR4_BIT_VMXE k \<longleftrightarrow> k = 13"
proof -
  have "CR4_BIT_VMXE = 2 ^ 13" by (simp add: hb_consts)
  then show ?thesis unfolding \<open>CR4_BIT_VMXE = 2 ^ 13\<close> bit_exp_iff by auto
qed

lemma adjust_enable:
  assumes "vmx_msrs_ok hw i" "\<not> pc_in_vmx c"
  shows "\<exists>a b. Option.bind (hb_adjust_vmx_cr0_cr4 hw i c) (pr_enable_vmx hw i) =
      Some (c\<lparr>pc_cpu := pc_cpu c\<lparr>cpu_cr0 := a, cpu_cr4 := b\<rparr>\<rparr>) \<and> cr0_ok hw i a \<and> cr4_ok hw i b"
proof -
  let ?f0 = "hw_rdmsr hw i MSR_IA32_VMX_CR0_FIXED0" and ?f1 = "hw_rdmsr hw i MSR_IA32_VMX_CR0_FIXED1"
  let ?g0 = "hw_rdmsr hw i MSR_IA32_VMX_CR4_FIXED0" and ?g1 = "hw_rdmsr hw i MSR_IA32_VMX_CR4_FIXED1"
  let ?a = "(cpu_cr0 (pc_cpu c) OR ?f0) AND ?f1" and ?b = "(cpu_cr4 (pc_cpu c) OR ?g0) AND ?g1"
  have "cr0_ok hw i ?a" using fixed_ok_adjusted assms(1) by (simp add: cr0_ok_def vmx_msrs_ok_def)
  moreover have "cr4_ok hw i (?b OR CR4_BIT_VMXE)"
    using fixed_ok_adjusted [of ?g0 ?g1 "cpu_cr4 (pc_cpu c)"] assms(1)
    by (auto simp: cr4_ok_def vmx_msrs_ok_def fixed_ok_def bit_or_iff bit_vmxe)
  moreover have "Option.bind (hb_adjust_vmx_cr0_cr4 hw i c) (pr_enable_vmx hw i) =
      Some (c\<lparr>pc_cpu := pc_cpu c\<lparr>cpu_cr0 := ?a, cpu_cr4 := ?b OR CR4_BIT_VMXE\<rparr>\<rparr>)"
    using assms(2) by (simp add: hb_adjust_vmx_cr0_cr4_def pr_enable_vmx_def pr_set_cr0_def pr_set_cr4_def)
  ultimately show ?thesis by blast
qed

lemma restore_ok:
  assumes "\<not> pc_in_vmx c"
  shows "out_restore_cr hw i cr0 cr4 c =
    Some (c\<lparr>pc_cpu := pc_cpu c\<lparr>cpu_cr0 := cr0, cpu_cr4 := cr4\<rparr>, pc_irqs := True, pc_preempt := pc_preempt c - 1\<rparr>)"
  using assms by (simp add: out_restore_cr_def pr_disable_vmx_def pr_set_cr0_def pr_set_cr4_def)

text \<open>A processor on which none of the VMX instructions fails.\<close>

definition vmx_works :: "probe_hw \<Rightarrow> nat \<Rightarrow> bool" where
  "vmx_works hw i \<longleftrightarrow> (\<forall>pa revid. hw_vmxon hw i pa revid \<and> hw_vmclear hw i pa \<and> hw_vmptrld hw i pa revid) \<and> (\<forall>f. hw_vmwrite hw i f)"

text \<open>The writes change the current VMCS only, and when all of them succeed it holds what was written.\<close>

lemma vw_all_keeps:
  assumes "pc_in_vmx c"
  shows "\<exists>ret m. vw_all hw i ws c = Some (ret, c\<lparr>pc_vmcs := m\<rparr>) \<and> (vmx_works hw i \<and> pc_current c \<noteq> NO_VMCS \<longrightarrow> ret = 0)"
  using assms
proof (induction ws arbitrary: c)
  case (Cons w ws)
  obtain f v where w: "w = (f, v)" by fastforce
  show ?case
  proof (cases "pc_current c = NO_VMCS \<or> \<not> hw_vmwrite hw i f")
    case True
    then show ?thesis using Cons.prems by (auto simp: w pr_write_vmcs_def vmx_works_def intro: exI [of _ "pc_vmcs c"])
  next
    case False
    let ?c = "c\<lparr>pc_vmcs := (pc_vmcs c)(pc_current c := (pc_vmcs c (pc_current c))(f := v))\<rparr>"
    have "pc_in_vmx ?c" using Cons.prems by simp
    from Cons.IH [OF this] show ?thesis using False Cons.prems by (auto simp: w pr_write_vmcs_def)
  qed
qed (simp, metis probe_core.surjective probe_core.update_convs(4))

lemma vw_all_written:
  assumes "vw_all hw i ws c = Some (0, c')" "distinct (map fst ws)" "pc_in_vmx c"
  shows "pc_current c' = pc_current c \<and> pc_cpu c' = pc_cpu c \<and> pc_vmcs c' (pc_current c) f =
    (case map_of ws f of Some v \<Rightarrow> v | None \<Rightarrow> pc_vmcs c (pc_current c) f)"
  using assms
proof (induction ws arbitrary: c)
  case (Cons w ws)
  obtain g v where w: "w = (g, v)" by fastforce
  let ?c = "c\<lparr>pc_vmcs := (pc_vmcs c)(pc_current c := (pc_vmcs c (pc_current c))(g := v))\<rparr>"
  have "vw_all hw i ws ?c = Some (0, c')" using Cons.prems(1,3) by (auto simp: w pr_write_vmcs_def split: if_splits)
  note ih = Cons.IH [OF this]
  have g: "map_of ws g = None" using Cons.prems(2) by (simp add: w map_of_eq_None_iff)
  show ?case using ih Cons.prems(2,3) g by (cases "f = g") (simp_all add: w split: option.split)
qed simp

lemma writes_distinct: "distinct (map fst (guest_state_writes g))"
  by (simp add: guest_state_writes_def hb_consts)

definition captured :: "probe_hw \<Rightarrow> nat \<Rightarrow> probe_core \<Rightarrow> bool" where
  "captured hw i c \<longleftrightarrow> (\<forall>(f, v) \<in> set (guest_state_writes (hb_probe_capture_guest_state (irq_view (c\<lparr>pc_irqs := False\<rparr>)) (hw_dr7 hw i) (hw_view hw i))).
     pc_vmcs c (pc_current c) f = v)"

lemma update_same: "\<exists>m. c = c\<lparr>pc_vmcs := m\<rparr>" for c :: probe_core
  by (intro exI [of _ "pc_vmcs c"]) simp

lemma irq_view_vmcs [simp]: "irq_view (c\<lparr>pc_vmcs := m\<rparr>) = irq_view c"
  by (simp add: irq_view_def)

lemma probe_vmwrite_result:
  assumes "pc_in_vmx c" "\<not> pc_irqs c"
  shows "\<exists>ret m. hb_vmx_probe_vmwrite hw i c = Some (ret, c\<lparr>pc_vmcs := m\<rparr>) \<and> (ret = 0 \<longrightarrow> captured hw i (c\<lparr>pc_vmcs := m\<rparr>)) \<and>
    (vmx_works hw i \<and> pc_current c \<noteq> NO_VMCS \<longrightarrow> ret = 0)"
proof (cases "pc_current c = NO_VMCS \<or> \<not> hw_vmwrite hw i VM_VMCS_LINK_PTR")
  case True
  then have "hb_vmx_probe_vmwrite hw i c = Some (-1, c)" using assms by (auto simp: hb_vmx_probe_vmwrite_def pr_write_vmcs_def)
  then show ?thesis using update_same [of c] True by (auto simp: vmx_works_def)
next
  case False
  let ?c = "c\<lparr>pc_vmcs := (pc_vmcs c)(pc_current c := (pc_vmcs c (pc_current c))(VM_VMCS_LINK_PTR := 0xFFFFFFFFFFFFFFFF))\<rparr>"
  let ?g = "hb_probe_capture_guest_state (irq_view c) (hw_dr7 hw i) (hw_view hw i)"
  have in_vmx: "pc_in_vmx ?c" using assms by simp
  obtain ret m where w: "vw_all hw i (guest_state_writes ?g) ?c = Some (ret, ?c\<lparr>pc_vmcs := m\<rparr>)"
      and ok: "vmx_works hw i \<longrightarrow> ret = 0" using vw_all_keeps [OF in_vmx, of hw i "guest_state_writes ?g"] False by auto
  have run: "hb_vmx_probe_vmwrite hw i c = (if ret \<noteq> 0 then Some (ret, c\<lparr>pc_vmcs := m\<rparr>)
      else if m (pc_current c) VM_GUEST_CR3 \<noteq> pg_cr3 ?g then Some (- EIO, c\<lparr>pc_vmcs := m\<rparr>) else Some (0, c\<lparr>pc_vmcs := m\<rparr>))"
    using False assms w by (simp add: hb_vmx_probe_vmwrite_def hb_probe_vmwrite_guest_state_def pr_write_vmcs_def pr_read_vmcs_def)
  have wr: "m (pc_current c) f = v" if "ret = 0" "(f, v) \<in> set (guest_state_writes ?g)" for f v
    using vw_all_written [OF w [unfolded that(1)] writes_distinct in_vmx, of f] map_of_is_SomeI [OF writes_distinct that(2)] by simp
  have "(VM_GUEST_CR3, pg_cr3 ?g) \<in> set (guest_state_writes ?g)" by (simp add: guest_state_writes_def)
  then have "ret = 0 \<longrightarrow> m (pc_current c) VM_GUEST_CR3 = pg_cr3 ?g" using wr by blast
  moreover have "ret = 0 \<longrightarrow> captured hw i (c\<lparr>pc_vmcs := m\<rparr>)" using wr assms(2) by (auto simp: captured_def irq_view_def)
  ultimately show ?thesis using ok unfolding run by (cases "ret = 0") auto
qed

lemma probe_vmcs_result:
  assumes "pc_in_vmx c" "pc_current c = NO_VMCS" "\<not> pc_irqs c"
  shows "\<exists>ret cur m. probe_vmcs hw i pa revid c = Some (ret, c\<lparr>pc_current := cur, pc_vmcs := m\<rparr>) \<and>
    (ret = 0 \<longrightarrow> cur = pa \<and> captured hw i (c\<lparr>pc_current := cur, pc_vmcs := m\<rparr>)) \<and> (vmx_works hw i \<and> pa \<noteq> NO_VMCS \<longrightarrow> ret = 0)"
proof -
  have c: "c = c\<lparr>pc_current := NO_VMCS, pc_vmcs := pc_vmcs c\<rparr>" using assms(2) by simp
  show ?thesis
  proof (cases "hw_vmclear hw i pa \<and> hw_vmptrld hw i pa revid")
    case True
    let ?c = "c\<lparr>pc_current := pa\<rparr>"
    have "pc_in_vmx ?c" "\<not> pc_irqs ?c" using assms by simp_all
    from probe_vmwrite_result [OF this, of hw i] show ?thesis using True assms
      by (auto simp: probe_vmcs_def pr_clear_vmcs_def pr_load_vmcs_def)
  next
    case False
    then have "probe_vmcs hw i pa revid c = Some (-1, c)"
      using assms c by (auto simp: probe_vmcs_def pr_clear_vmcs_def pr_load_vmcs_def)
    moreover have "\<not> vmx_works hw i" using False by (auto simp: vmx_works_def)
    ultimately show ?thesis using c by (metis neg_equal_0_iff_equal one_neq_zero)
  qed
qed

text \<open>The processor is as it was, except for the interrupt flag, which the code turns on; or VMX is on with the VMCS of the module.\<close>

definition core_restored :: "probe_core \<Rightarrow> probe_core \<Rightarrow> bool" where
  "core_restored c c' \<longleftrightarrow> pc_cpu c' = pc_cpu c \<and> \<not> pc_in_vmx c' \<and> pc_preempt c' = pc_preempt c"

definition core_active :: "probe_hw \<Rightarrow> nat \<Rightarrow> u64 \<Rightarrow> probe_core \<Rightarrow> probe_core \<Rightarrow> bool" where
  "core_active hw i pa c c' \<longleftrightarrow> pc_in_vmx c' \<and> pc_current c' = pa \<and> captured hw i c' \<and> pc_preempt c' = pc_preempt c \<and>
     cr0_ok hw i (cpu_cr0 (pc_cpu c')) \<and> cr4_ok hw i (cpu_cr4 (pc_cpu c')) \<and>
     pc_cpu c' = pc_cpu c\<lparr>cpu_cr0 := cpu_cr0 (pc_cpu c'), cpu_cr4 := cpu_cr4 (pc_cpu c')\<rparr>"

lemma vmxon_core_result:
  assumes "vmx_msrs_ok hw i" "\<not> pc_in_vmx c" "feat_ctl_ok (hw_rdmsr hw i MSR_IA32_FEAT_CTL)"
  shows "\<exists>on c'. vmxon_core hw i vmxon_pa pa revid c = Some (on, c') \<and>
    (if on = Some True then core_active hw i pa c c' else core_restored c c') \<and> (vmx_works hw i \<and> pa \<noteq> NO_VMCS \<longrightarrow> on = Some True)"
proof -
  let ?c0 = "c\<lparr>pc_preempt := Suc (pc_preempt c), pc_irqs := False\<rparr>"
  have "\<not> pc_in_vmx ?c0" using assms(2) by simp
  from adjust_enable [OF assms(1) this] obtain a b where
    ab: "Option.bind (hb_adjust_vmx_cr0_cr4 hw i ?c0) (pr_enable_vmx hw i) = Some (?c0\<lparr>pc_cpu := pc_cpu c\<lparr>cpu_cr0 := a, cpu_cr4 := b\<rparr>\<rparr>)"
      "cr0_ok hw i a" "cr4_ok hw i b" by auto
  let ?c1 = "?c0\<lparr>pc_cpu := pc_cpu c\<lparr>cpu_cr0 := a, cpu_cr4 := b\<rparr>\<rparr>"
  have run: "vmxon_core hw i vmxon_pa pa revid c = do {
        (ret, c') \<leftarrow> pr_start_vmx hw i vmxon_pa revid ?c1;
        if ret \<noteq> 0 then do { c' \<leftarrow> out_restore_cr hw i (cpu_cr0 (pc_cpu c)) (cpu_cr4 (pc_cpu c)) c'; Some (None, c') }
        else do {
          (ret, c') \<leftarrow> probe_vmcs hw i pa revid c';
          if ret \<noteq> 0 then do {
            c' \<leftarrow> pr_stop_vmx c';
            c' \<leftarrow> out_restore_cr hw i (cpu_cr0 (pc_cpu c)) (cpu_cr4 (pc_cpu c)) c';
            Some (Some False, c')
          }
          else Some (Some True, c'\<lparr>pc_irqs := True, pc_preempt := pc_preempt c' - 1\<rparr>)
        }
      }"
    using ab(1) unfolding vmxon_core_def Let_def by (cases "hb_adjust_vmx_cr0_cr4 hw i ?c0") simp_all
  show ?thesis
  proof (cases "hw_vmxon hw i vmxon_pa revid")
    case True
    let ?c2 = "?c1\<lparr>pc_in_vmx := True, pc_current := NO_VMCS\<rparr>"
    have "pc_in_vmx ?c2" "pc_current ?c2 = NO_VMCS" "\<not> pc_irqs ?c2" by simp_all
    from probe_vmcs_result [OF this, of hw i pa revid] obtain ret cur m where
      p: "probe_vmcs hw i pa revid ?c2 = Some (ret, ?c2\<lparr>pc_current := cur, pc_vmcs := m\<rparr>)"
        "ret = 0 \<longrightarrow> cur = pa \<and> captured hw i (?c2\<lparr>pc_current := cur, pc_vmcs := m\<rparr>)"
        "vmx_works hw i \<and> pa \<noteq> NO_VMCS \<longrightarrow> ret = 0" by blast
    then show ?thesis using True ab(2,3) assms(2,3) unfolding run
      by (cases "ret = 0") (auto simp: pr_start_vmx_def pr_stop_vmx_def restore_ok core_active_def core_restored_def captured_def irq_view_def)
  next
    case False
    then show ?thesis using ab(2,3) assms(2,3) unfolding run by (auto simp: pr_start_vmx_def restore_ok core_restored_def vmx_works_def)
  qed
qed

lemma vmxon_core_needs: "vmxon_core hw i vmxon_pa pa revid c = Some x \<Longrightarrow> feat_ctl_ok (hw_rdmsr hw i MSR_IA32_FEAT_CTL)"
proof (rule ccontr)
  assume run: "vmxon_core hw i vmxon_pa pa revid c = Some x" and "\<not> feat_ctl_ok (hw_rdmsr hw i MSR_IA32_FEAT_CTL)"
  then have "pr_start_vmx hw i vmxon_pa revid d = None" for d by (simp add: pr_start_vmx_def)
  with run show False by (auto simp: vmxon_core_def Let_def split: bind_splits)
qed

lemma core_off:
  assumes "core_active hw i pa c c'"
  shows "\<exists>d. Option.bind (pr_stop_vmx (c'\<lparr>pc_preempt := Suc (pc_preempt c'), pc_irqs := False\<rparr>))
      (out_restore_cr hw i (cpu_cr0 (pc_cpu c)) (cpu_cr4 (pc_cpu c))) = Some d \<and> core_restored c d"
proof -
  have "pc_cpu c'\<lparr>cpu_cr0 := cpu_cr0 (pc_cpu c), cpu_cr4 := cpu_cr4 (pc_cpu c)\<rparr> = pc_cpu c"
    using assms by (subst core_active_def [THEN iffD1, OF assms, THEN conjunct2, THEN conjunct2, THEN conjunct2, THEN conjunct2,
      THEN conjunct2, THEN conjunct2]) simp
  then show ?thesis using assms by (simp add: pr_stop_vmx_def restore_ok core_active_def core_restored_def)
qed

section \<open>All processors\<close>

text \<open>Every processor is as the flags of the module say, relative to the processors \<open>orig\<close> before the module was loaded, and the
  regions are those of \<open>g0\<close>.\<close>

definition region_of :: "hb_percpu_vmx \<Rightarrow> u64 \<times> u64" where
  "region_of pc = (vmxon_region pc, vmcs_region pc)"

definition core_state :: "probe_hw \<Rightarrow> (nat \<Rightarrow> probe_core) \<Rightarrow> (nat \<Rightarrow> hb_percpu_vmx) \<Rightarrow> (nat \<Rightarrow> probe_core) \<Rightarrow> nat \<Rightarrow> bool" where
  "core_state hw orig g cores i \<longleftrightarrow>
     (if vmx_on (g i) then core_active hw i (virt_to_phys (hw_kernel hw) (vmcs_region (g i))) (orig i) (cores i) \<and>
        saved_cr0 (g i) = cpu_cr0 (pc_cpu (orig i)) \<and> saved_cr4 (g i) = cpu_cr4 (pc_cpu (orig i))
      else core_restored (orig i) (cores i))"

definition tracked :: "probe_hw \<Rightarrow> (nat \<Rightarrow> probe_core) \<Rightarrow> (nat \<Rightarrow> hb_percpu_vmx) \<Rightarrow> kheap \<Rightarrow> nat set \<Rightarrow> probe_state \<Rightarrow> bool" where
  "tracked hw orig g0 h A st \<longleftrightarrow> (\<exists>g. g_vmx st = Some g \<and> (\<forall>i. core_state hw orig g (pr_cores st) i) \<and>
     (\<forall>i. region_of (g i) = region_of (g0 i)) \<and> (\<forall>i. vmx_on (g i) \<longrightarrow> i \<in> A)) \<and> pr_heap st = h"

lemma restored_again: "core_restored c d \<Longrightarrow> core_restored d e \<Longrightarrow> core_restored c e"
  by (simp add: core_restored_def)

lemma active_again: "core_restored c d \<Longrightarrow> core_active hw i pa d e \<Longrightarrow> core_active hw i pa c e"
  by (simp add: core_restored_def core_active_def)

lemma vmxon_tracked:
  assumes "tracked hw orig g0 h A st" "i \<notin> A" "vmx_msrs_ok hw i" "vmxon_region (g0 i) \<noteq> 0" "vmcs_region (g0 i) \<noteq> 0"
    and "g_vmx_probe_failed st = 0" "feat_ctl_ok (hw_rdmsr hw i MSR_IA32_FEAT_CTL)"
  shows "\<exists>st'. hb_vmxon_on_cpu hw i st = Some st' \<and> tracked hw orig g0 h (insert i A) st' \<and>
    (g_vmx_probe_failed st' = 0 \<longrightarrow> (\<exists>g. g_vmx st' = Some g \<and> vmx_on (g i) \<and>
      (\<forall>j. j \<noteq> i \<longrightarrow> vmx_on (g j) = vmx_on (the (g_vmx st) j)))) \<and>
    (vmx_works hw i \<and> virt_to_phys (hw_kernel hw) (vmcs_region (g0 i)) \<noteq> NO_VMCS \<longrightarrow> g_vmx_probe_failed st' = 0)"
proof -
  obtain g where g: "g_vmx st = Some g" "\<And>j. core_state hw orig g (pr_cores st) j" "\<And>j. region_of (g j) = region_of (g0 j)"
      "\<And>j. vmx_on (g j) \<Longrightarrow> j \<in> A" "pr_heap st = h" using assms(1) unfolding tracked_def by blast
  have off: "\<not> vmx_on (g i)" using g(4) assms(2) by blast
  then have r: "core_restored (orig i) (pr_cores st i)" using g(2) [of i] by (simp add: core_state_def)
  let ?pa = "virt_to_phys (hw_kernel hw) (vmcs_region (g i))"
  obtain on c' where v: "vmxon_core hw i (virt_to_phys (hw_kernel hw) (vmxon_region (g i))) ?pa (g_vmx_revision st) (pr_cores st i) = Some (on, c')"
      "if on = Some True then core_active hw i ?pa (pr_cores st i) c' else core_restored (pr_cores st i) c'"
      "vmx_works hw i \<and> ?pa \<noteq> NO_VMCS \<longrightarrow> on = Some True"
    using vmxon_core_result [OF assms(3) _ assms(7)] r unfolding core_restored_def by blast
  let ?pc = "g i\<lparr>vmx_on := (case on of None \<Rightarrow> vmx_on (g i) | Some b \<Rightarrow> b), saved_cr0 := cpu_cr0 (pc_cpu (pr_cores st i)),
      saved_cr4 := cpu_cr4 (pc_cpu (pr_cores st i))\<rparr>"
  let ?st = "set_percpu i ?pc (st\<lparr>pr_revision := (pr_revision st)(vmxon_region (g i) := g_vmx_revision st, vmcs_region (g i) := g_vmx_revision st),
      pr_cores := (pr_cores st)(i := c'), g_vmx_probe_failed := (if on = Some True then g_vmx_probe_failed st else 1)\<rparr>)"
  have nz: "vmxon_region (g i) \<noteq> 0" "vmcs_region (g i) \<noteq> 0" using g(3) [of i] assms(4,5) by (simp_all add: region_of_def)
  have "hb_vmxon_on_cpu hw i st = Some ?st"
    using v(1) by (simp add: hb_vmxon_on_cpu_def Let_def g(1) nz assms(6) split del: if_split cong: if_cong)
  moreover have on: "vmx_on ?pc \<longleftrightarrow> on = Some True" using off by (simp split: option.split)
  have cpu: "pc_cpu (pr_cores st i) = pc_cpu (orig i)" using r by (simp add: core_restored_def)
  have "core_state hw orig (g(i := ?pc)) ((pr_cores st)(i := c')) j" for j
    using g(2) [of j] on v(2) restored_again [OF r, of c'] active_again [OF r, of hw i ?pa c'] cpu
    by (cases "j = i") (auto simp: core_state_def)
  then have "tracked hw orig g0 h (insert i A) ?st"
    using g(1,3-5) by (auto simp: tracked_def set_percpu_def region_of_def)
  moreover have "g_vmx_probe_failed ?st = 0 \<longrightarrow> (\<exists>g'. g_vmx ?st = Some g' \<and> vmx_on (g' i) \<and>
      (\<forall>j. j \<noteq> i \<longrightarrow> vmx_on (g' j) = vmx_on (the (g_vmx st) j)))"
    using g(1) on by (auto simp: set_percpu_def)
  moreover have "vmx_works hw i \<and> virt_to_phys (hw_kernel hw) (vmcs_region (g0 i)) \<noteq> NO_VMCS \<longrightarrow> g_vmx_probe_failed ?st = 0"
    using v(3) g(3) [of i] assms(6) by (simp add: set_percpu_def region_of_def)
  ultimately show ?thesis by blast
qed

lemma startup_tracked:
  assumes "tracked hw orig g0 h A st" "distinct is" "A \<inter> set is = {}" "\<And>i. vmx_msrs_ok hw i" "g_vmx_probe_failed st = 0"
    and "\<forall>i \<in> set is. vmxon_region (g0 i) \<noteq> 0 \<and> vmcs_region (g0 i) \<noteq> 0"
    and "\<forall>i \<in> set is. feat_ctl_ok (hw_rdmsr hw i MSR_IA32_FEAT_CTL)"
  shows "\<exists>r st'. startup_loop hw is st = Some (r, st') \<and> tracked hw orig g0 h (A \<union> set is) st' \<and>
    (r = 0 \<longrightarrow> (\<exists>g. g_vmx st' = Some g \<and> (\<forall>i. vmx_on (g i) \<longleftrightarrow> i \<in> set is \<or> vmx_on (the (g_vmx st) i)))) \<and>
    ((\<forall>i \<in> set is. vmx_works hw i \<and> virt_to_phys (hw_kernel hw) (vmcs_region (g0 i)) \<noteq> NO_VMCS) \<longrightarrow> r = 0)"
  using assms(1-3,5-7)
proof (induction "is" arbitrary: A st)
  case Nil
  then obtain g where "g_vmx st = Some g" by (auto simp: tracked_def)
  with Nil show ?case by simp
next
  case (Cons i "is")
  have i: "i \<notin> A" "vmxon_region (g0 i) \<noteq> 0" "vmcs_region (g0 i) \<noteq> 0" using Cons.prems(3,5) by auto
  obtain st1 where st1: "hb_vmxon_on_cpu hw i st = Some st1" "tracked hw orig g0 h (insert i A) st1"
      "g_vmx_probe_failed st1 = 0 \<longrightarrow> (\<exists>g. g_vmx st1 = Some g \<and> vmx_on (g i) \<and>
        (\<forall>j. j \<noteq> i \<longrightarrow> vmx_on (g j) = vmx_on (the (g_vmx st) j)))"
      "vmx_works hw i \<and> virt_to_phys (hw_kernel hw) (vmcs_region (g0 i)) \<noteq> NO_VMCS \<longrightarrow> g_vmx_probe_failed st1 = 0"
    using vmxon_tracked [OF Cons.prems(1) i(1) assms(4) i(2,3) Cons.prems(4)] Cons.prems(6) by auto
  show ?case
  proof (cases "g_vmx_probe_failed st1 = 0")
    case True
    obtain r st' where st': "startup_loop hw is st1 = Some (r, st')" "tracked hw orig g0 h (insert i A \<union> set is) st'"
        "r = 0 \<longrightarrow> (\<exists>g. g_vmx st' = Some g \<and> (\<forall>j. vmx_on (g j) \<longleftrightarrow> j \<in> set is \<or> vmx_on (the (g_vmx st1) j)))"
        "(\<forall>i \<in> set is. vmx_works hw i \<and> virt_to_phys (hw_kernel hw) (vmcs_region (g0 i)) \<noteq> NO_VMCS) \<longrightarrow> r = 0"
      using Cons.IH [OF st1(2) _ _ True] Cons.prems(2,3,5,6) by auto
    obtain g1 where g1: "g_vmx st1 = Some g1" "vmx_on (g1 i)" "\<forall>j. j \<noteq> i \<longrightarrow> vmx_on (g1 j) = vmx_on (the (g_vmx st) j)"
      using st1(3) True by blast
    have on: "j \<in> set is \<or> vmx_on (g1 j) \<longleftrightarrow> j \<in> set (i # is) \<or> vmx_on (the (g_vmx st) j)" for j
      using g1(2,3) by (cases "j = i") simp_all
    have "startup_loop hw (i # is) st = Some (r, st')" using st1(1) True st'(1) by simp
    moreover have "insert i A \<union> set is = A \<union> set (i # is)" by simp
    ultimately show ?thesis using st'(2-4) on unfolding g1(1) option.sel by (intro exI [of _ r] exI [of _ st']) simp
  next
    case False
    have "tracked hw orig g0 h (A \<union> set (i # is)) st1" using st1(2) unfolding tracked_def by auto
    then show ?thesis using st1(1,4) False by (auto simp: hb_consts)
  qed
qed

text \<open>A start-up that succeeds has executed VMXON on every processor of the list.\<close>

lemma vmxon_needs:
  "hb_vmxon_on_cpu hw i st = Some st' \<Longrightarrow> g_vmx_probe_failed st = 0 \<Longrightarrow> g_vmx_probe_failed st' = 0 \<Longrightarrow>
     feat_ctl_ok (hw_rdmsr hw i MSR_IA32_FEAT_CTL)"
  by (auto simp: hb_vmxon_on_cpu_def Let_def dest: vmxon_core_needs split: bind_splits if_splits)

lemma startup_needs:
  assumes "startup_loop hw is st = Some (0, st')" "g_vmx_probe_failed st = 0"
  shows "\<forall>i \<in> set is. feat_ctl_ok (hw_rdmsr hw i MSR_IA32_FEAT_CTL)"
  using assms
proof (induction "is" arbitrary: st)
  case (Cons i "is")
  then obtain st1 where "hb_vmxon_on_cpu hw i st = Some st1" "g_vmx_probe_failed st1 = 0" "startup_loop hw is st1 = Some (0, st')"
    by (auto simp: hb_consts split: bind_splits if_splits)
  then show ?case using Cons.IH [of st1] vmxon_needs [of hw i st st1] Cons.prems(2) by simp
qed simp

lemma vmxoff_tracked:
  assumes "tracked hw orig g0 h A st"
  shows "\<exists>st'. hb_vmxoff_on_cpu hw i st = Some st' \<and> tracked hw orig g0 h (A - {i}) st'"
proof -
  obtain g where g: "g_vmx st = Some g" "\<And>j. core_state hw orig g (pr_cores st) j" "\<And>j. region_of (g j) = region_of (g0 j)"
      "\<And>j. vmx_on (g j) \<Longrightarrow> j \<in> A" "pr_heap st = h" using assms(1) unfolding tracked_def by blast
  show ?thesis
  proof (cases "vmx_on (g i)")
    case True
    then have a: "core_active hw i (virt_to_phys (hw_kernel hw) (vmcs_region (g i))) (orig i) (pr_cores st i)"
      "saved_cr0 (g i) = cpu_cr0 (pc_cpu (orig i))" "saved_cr4 (g i) = cpu_cr4 (pc_cpu (orig i))"
      using g(2) [of i] by (simp_all add: core_state_def)
    let ?c = "pr_cores st i\<lparr>pc_preempt := Suc (pc_preempt (pr_cores st i)), pc_irqs := False\<rparr>"
    obtain d where d: "Option.bind (pr_stop_vmx ?c) (out_restore_cr hw i (saved_cr0 (g i)) (saved_cr4 (g i))) = Some d" "core_restored (orig i) d"
      using core_off [OF a(1)] unfolding a(2,3) by blast
    let ?st = "set_percpu i (g i\<lparr>vmx_on := False\<rparr>) (st\<lparr>pr_cores := (pr_cores st)(i := d)\<rparr>)"
    have "hb_vmxoff_on_cpu hw i st = Some ?st"
      using g(1) True d(1) by (cases "pr_stop_vmx ?c") (simp_all add: hb_vmxoff_on_cpu_def Let_def)
    moreover have "core_state hw orig (g(i := g i\<lparr>vmx_on := False\<rparr>)) ((pr_cores st)(i := d)) j" for j
      using g(2) [of j] d(2) by (cases "j = i") (simp_all add: core_state_def)
    then have "tracked hw orig g0 h (A - {i}) ?st" using g(1,3-5) by (auto simp: tracked_def set_percpu_def region_of_def)
    ultimately show ?thesis by blast
  next
    case False
    then have "tracked hw orig g0 h (A - {i}) st" using g by (auto simp: tracked_def)
    then show ?thesis using False g(1) by (simp add: hb_vmxoff_on_cpu_def Let_def)
  qed
qed

lemma teardown_tracked:
  assumes "tracked hw orig g0 h (set (hw_online hw)) st"
  shows "\<exists>st'. hb_vmx_teardown_all_cpus hw st = Some st' \<and> tracked hw orig g0 h {} st'"
proof -
  have "\<exists>st'. foldo (hb_vmxoff_on_cpu hw) is st = Some st' \<and> tracked hw orig g0 h (A - set is) st'"
    if "tracked hw orig g0 h A st" for "is" A using that
  proof (induction "is" arbitrary: A st)
    case (Cons i "is")
    obtain st1 where st1: "hb_vmxoff_on_cpu hw i st = Some st1" "tracked hw orig g0 h (A - {i}) st1"
      using vmxoff_tracked [OF Cons.prems] by blast
    have "A - {i} - set is = A - set (i # is)" by auto
    with Cons.IH [OF st1(2)] st1(1) show ?case by simp
  qed simp
  from this [OF assms, of "hw_online hw"] obtain st' where
    "foldo (hb_vmxoff_on_cpu hw) (hw_online hw) st = Some st'" "tracked hw orig g0 h {} st'" by (auto simp del: foldo.simps)
  moreover obtain g where "g_vmx st = Some g" using assms by (auto simp: tracked_def)
  ultimately show ?thesis by (simp add: hb_vmx_teardown_all_cpus_def)
qed

section \<open>The pages\<close>

definition region_pages :: "nat list \<Rightarrow> (nat \<Rightarrow> hb_percpu_vmx) \<Rightarrow> u64 list" where
  "region_pages is g = concat (map (\<lambda>i. [vmxon_region (g i), vmcs_region (g i)]) is)"

lemma free_regions_fold:
  "fold (\<lambda>i h. free_region (vmcs_region (g i)) (free_region (vmxon_region (g i)) h)) is h =
     h\<lparr>kh_freed := kh_freed h @ filter (\<lambda>p. p \<noteq> 0) (region_pages is g)\<rparr>"
  by (induction "is" arbitrary: h) (simp_all add: region_pages_def free_region_def kh_free_page_def)

definition regions_taken :: "probe_hw \<Rightarrow> nat list \<Rightarrow> (nat \<Rightarrow> hb_percpu_vmx) \<Rightarrow> kheap \<Rightarrow> kheap \<Rightarrow> bool" where
  "regions_taken hw is g h h' \<longleftrightarrow> kh_page_calls h \<le> kh_page_calls h' \<and> kh_freed h' = kh_freed h \<and>
     filter (\<lambda>p. p \<noteq> 0) (region_pages is g) =
       filter (\<lambda>p. p \<noteq> 0) (map (get_free_page (hw_kernel hw)) [kh_page_calls h..<kh_page_calls h'])"

lemma regions_zero: "\<forall>i \<in> set is. region_of (g i) = (0, 0) \<Longrightarrow> filter (\<lambda>p. p \<noteq> 0) (region_pages is g) = []"
  by (induction "is") (simp_all add: region_pages_def region_of_def)

lemma region_pages_cong: "\<forall>i \<in> set is. region_of (g' i) = region_of (g i) \<Longrightarrow> region_pages is g' = region_pages is g"
  unfolding region_pages_def region_of_def by (intro arg_cong [of _ _ concat] map_cong) auto

text \<open>The \<open>k\<close>-th request for a page succeeds.\<close>

definition page_ok :: "probe_hw \<Rightarrow> nat \<Rightarrow> bool" where
  "page_ok hw k \<longleftrightarrow> get_free_page (hw_kernel hw) k \<noteq> 0 \<and> virt_to_phys (hw_kernel hw) (get_free_page (hw_kernel hw) k) \<noteq> NO_VMCS"

lemma alloc_regions_result:
  assumes "alloc_regions hw is g revid h = (ok, g', revid', h')" "distinct is" "\<forall>i \<in> set is. region_of (g i) = (0, 0)"
  shows "regions_taken hw is g' h h' \<and> (ok \<longrightarrow> (\<forall>i \<in> set is. vmxon_region (g' i) \<noteq> 0 \<and> vmcs_region (g' i) \<noteq> 0)) \<and>
    (\<forall>i. vmx_on (g' i) = vmx_on (g i)) \<and> (\<forall>i. i \<notin> set is \<longrightarrow> g' i = g i) \<and>
    ((\<forall>k \<in> {kh_page_calls h..<kh_page_calls h + 2 * length is}. page_ok hw k) \<longrightarrow>
      ok \<and> (\<forall>i \<in> set is. virt_to_phys (hw_kernel hw) (vmcs_region (g' i)) \<noteq> NO_VMCS))"
  using assms
proof (induction "is" arbitrary: g revid h)
  case Nil
  then show ?case by (simp add: regions_taken_def region_pages_def)
next
  case (Cons i "is")
  let ?f = "get_free_page (hw_kernel hw)" and ?c = "kh_page_calls h"
  let ?g = "g(i := g i\<lparr>vmxon_region := ?f ?c, vmcs_region := ?f (Suc ?c)\<rparr>)" and ?h = "h\<lparr>kh_page_calls := Suc (Suc ?c)\<rparr>"
  have z: "\<forall>j \<in> set is. region_of (?g j) = (0, 0)" using Cons.prems(2,3) by auto
  show ?case
  proof (cases "?f ?c = 0 \<or> ?f (Suc ?c) = 0")
    case True
    then have e: "ok = False" "g' = ?g" "h' = ?h" using Cons.prems(1) by (simp_all add: kh_get_free_page_def)
    have f: "filter (\<lambda>p. p \<noteq> 0) (region_pages (i # is) ?g) = filter (\<lambda>p. p \<noteq> 0) [?f ?c, ?f (Suc ?c)]"
      using regions_zero [OF z] by (simp add: region_pages_def)
    have m: "map ?f [?c..<kh_page_calls ?h] = [?f ?c, ?f (Suc ?c)]" by (simp add: upt_conv_Cons)
    have "regions_taken hw (i # is) g' h h'" unfolding regions_taken_def e f m by simp
    moreover have "vmx_on (g' j) = vmx_on (g j)" "j \<notin> set (i # is) \<Longrightarrow> g' j = g j" for j unfolding e by simp_all
    moreover have "\<not> (\<forall>k \<in> {?c..<?c + 2 * length (i # is)}. page_ok hw k)" using True by (force simp: page_ok_def)
    ultimately show ?thesis using e(1) by blast
  next
    case False
    then have "alloc_regions hw is ?g (revid(?f ?c := 0, ?f (Suc ?c) := 0)) ?h = (ok, g', revid', h')"
      using Cons.prems(1) by (simp add: kh_get_free_page_def)
    note ih = Cons.IH [OF this _ z]
    have d: "i \<notin> set is" "distinct is" using Cons.prems(2) by simp_all
    then have gi: "g' i = ?g i" using ih by blast
    have le: "Suc (Suc ?c) \<le> kh_page_calls h'" using ih d(2) by (simp add: regions_taken_def)
    then have u: "[?c..<kh_page_calls h'] = ?c # Suc ?c # [Suc (Suc ?c)..<kh_page_calls h']" by (simp add: upt_conv_Cons)
    have "region_pages (i # is) g' = ?f ?c # ?f (Suc ?c) # region_pages is g'" using gi by (simp add: region_pages_def)
    then have "regions_taken hw (i # is) g' h h'" using ih d(2) le unfolding regions_taken_def u by simp
    moreover have "vmx_on (?g j) = vmx_on (g j)" for j by simp
    moreover have "ok \<and> (\<forall>j \<in> set (i # is). virt_to_phys (hw_kernel hw) (vmcs_region (g' j)) \<noteq> NO_VMCS)"
      if "\<forall>k \<in> {?c..<?c + 2 * length (i # is)}. page_ok hw k"
    proof -
      have "\<forall>k \<in> {kh_page_calls ?h..<kh_page_calls ?h + 2 * length is}. page_ok hw k" using that by simp
      moreover have "page_ok hw (Suc ?c)" using that by simp
      ultimately show ?thesis using ih d(2) gi by (auto simp: page_ok_def)
    qed
    ultimately show ?thesis using ih d gi False by (auto simp: fun_upd_apply)
  qed
qed

section \<open>Loading and unloading\<close>

text \<open>Before: no region, no processor in VMX operation.\<close>

definition unloaded :: "probe_state \<Rightarrow> bool" where
  "unloaded st \<longleftrightarrow> g_vmx st = None \<and> (\<forall>i. \<not> pc_in_vmx (pr_cores st i))"

text \<open>Undone: the processors are as they were, and every page that was taken has been given back once.\<close>

definition undone :: "probe_hw \<Rightarrow> probe_state \<Rightarrow> probe_state \<Rightarrow> bool" where
  "undone hw st st' \<longleftrightarrow> g_vmx st' = None \<and> (\<forall>i. core_restored (pr_cores st i) (pr_cores st' i)) \<and>
     kh_freed (pr_heap st') = kh_freed (pr_heap st) @
       filter (\<lambda>p. p \<noteq> 0) (map (get_free_page (hw_kernel hw)) [kh_page_calls (pr_heap st)..<kh_page_calls (pr_heap st')])"

lemma free_undone:
  assumes "tracked hw (pr_cores st) g0 h A st1" "A = {}" "regions_taken hw (hw_online hw) g0 (pr_heap st) h"
  shows "undone hw st (hb_vmx_free_regions hw st1)"
proof -
  obtain g where g: "g_vmx st1 = Some g" "\<And>j. core_state hw (pr_cores st) g (pr_cores st1) j" "\<And>j. region_of (g j) = region_of (g0 j)"
      "\<And>j. \<not> vmx_on (g j)" "pr_heap st1 = h" using assms(1,2) unfolding tracked_def by blast
  have "core_restored (pr_cores st j) (pr_cores st1 j)" for j using g(2) [of j] g(4) by (simp add: core_state_def)
  moreover have "region_pages (hw_online hw) g = region_pages (hw_online hw) g0" using g(3) by (intro region_pages_cong) simp
  ultimately show ?thesis
    using assms(3) g(1,5) by (simp add: undone_def hb_vmx_free_regions_def free_regions_fold regions_taken_def)
qed

text \<open>Memory for all regions.\<close>

definition pages_ok :: "probe_hw \<Rightarrow> probe_state \<Rightarrow> bool" where
  "pages_ok hw st \<longleftrightarrow> hw_kcalloc hw \<and>
     (\<forall>k \<in> {kh_page_calls (pr_heap st)..<kh_page_calls (pr_heap st) + 2 * length (hw_online hw)}. page_ok hw k)"

text \<open>After the regions are there, no processor has been touched yet.\<close>

lemma alloc_tracked:
  assumes "hb_vmx_alloc_regions hw st = (r, st1)" "distinct (hw_online hw)" "unloaded st"
  shows "(r = 0 \<longrightarrow> (\<exists>g. tracked hw (pr_cores st) g (pr_heap st1) {} st1 \<and> g_vmx st1 = Some g \<and> (\<forall>i. \<not> vmx_on (g i)) \<and>
      regions_taken hw (hw_online hw) g (pr_heap st) (pr_heap st1) \<and>
      (\<forall>i \<in> set (hw_online hw). vmxon_region (g i) \<noteq> 0 \<and> vmcs_region (g i) \<noteq> 0) \<and>
      (pages_ok hw st \<longrightarrow> (\<forall>i \<in> set (hw_online hw). virt_to_phys (hw_kernel hw) (vmcs_region (g i)) \<noteq> NO_VMCS)))) \<and>
    (r \<noteq> 0 \<longrightarrow> undone hw st st1) \<and> (pages_ok hw st \<longrightarrow> r = 0)"
proof (cases "hw_kcalloc hw")
  case True
  obtain ok g revid h where a: "alloc_regions hw (hw_online hw) (\<lambda>_. percpu_zero) (pr_revision st) (pr_heap st) = (ok, g, revid, h)"
    by (metis prod_cases4)
  have res: "regions_taken hw (hw_online hw) g (pr_heap st) h" "\<And>i. \<not> vmx_on (g i)"
      "ok \<longrightarrow> (\<forall>i \<in> set (hw_online hw). vmxon_region (g i) \<noteq> 0 \<and> vmcs_region (g i) \<noteq> 0)"
      "pages_ok hw st \<longrightarrow> ok \<and> (\<forall>i \<in> set (hw_online hw). virt_to_phys (hw_kernel hw) (vmcs_region (g i)) \<noteq> NO_VMCS)"
    using alloc_regions_result [OF a assms(2)] by (simp_all add: region_of_def percpu_zero_def pages_ok_def)
  let ?st = "st\<lparr>g_vmx := Some g, pr_revision := revid, pr_heap := h\<rparr>"
  have t: "tracked hw (pr_cores st) g h {} ?st"
    using res(2) assms(3) by (simp add: tracked_def core_state_def core_restored_def unloaded_def)
  have "undone hw st (hb_vmx_free_regions hw ?st)" using free_undone [OF t refl res(1)] .
  then show ?thesis using assms(1) True t res a by (cases ok) (auto simp: hb_vmx_alloc_regions_def hb_consts)
next
  case False
  then show ?thesis using assms by (auto simp: hb_vmx_alloc_regions_def undone_def unloaded_def core_restored_def pages_ok_def hb_consts)
qed

text \<open>Nothing stands in the way of loading the module.\<close>

definition can_load :: "probe_hw \<Rightarrow> nat \<Rightarrow> probe_state \<Rightarrow> bool" where
  "can_load hw this st \<longleftrightarrow> is_vmx_supported hw \<and> is_bios_vmx_allowed (hw_rdmsr hw this MSR_IA32_FEAT_CTL) \<and> \<not> hb_is_kvm_loaded hw \<and>
     pages_ok hw st \<and> (\<forall>i \<in> set (hw_online hw). vmx_works hw i)"

lemma undone_same: "unloaded st \<Longrightarrow> undone hw st st"
  by (simp add: undone_def unloaded_def core_restored_def)

text \<open>The outcome of loading: every online processor is active and nothing is left over, or all of it is undone.\<close>

lemma init_needs:
  "hypervisor_init hw this st = Some (0, st') \<Longrightarrow> \<forall>i \<in> set (hw_online hw). feat_ctl_ok (hw_rdmsr hw i MSR_IA32_FEAT_CTL)"
  by (auto simp: hypervisor_init_def hb_vmx_startup_all_cpus_def Let_def hb_consts dest: startup_needs split: if_splits bind_splits prod.splits)

lemma init_result:
  assumes "distinct (hw_online hw)" "\<And>i. vmx_msrs_ok hw i" "unloaded st"
    and feat: "is_bios_vmx_allowed (hw_rdmsr hw this MSR_IA32_FEAT_CTL) \<longrightarrow>
      (\<forall>i \<in> set (hw_online hw). feat_ctl_ok (hw_rdmsr hw i MSR_IA32_FEAT_CTL))"
  shows "\<exists>r st'. hypervisor_init hw this st = Some (r, st') \<and> (r \<noteq> 0 \<longrightarrow> undone hw st st') \<and>
    (r = 0 \<longrightarrow> (\<exists>g0 g h. tracked hw (pr_cores st) g0 h (set (hw_online hw)) st' \<and> regions_taken hw (hw_online hw) g0 (pr_heap st) h \<and>
      g_vmx st' = Some g \<and> (\<forall>i. vmx_on (g i) \<longleftrightarrow> i \<in> set (hw_online hw)))) \<and> (can_load hw this st \<longrightarrow> r = 0)"
proof (cases "\<not> is_vmx_supported hw \<or> \<not> is_bios_vmx_allowed (hw_rdmsr hw this MSR_IA32_FEAT_CTL) \<or> hb_is_kvm_loaded hw")
  case True
  then show ?thesis using undone_same [OF assms(3)] by (auto simp: hypervisor_init_def can_load_def hb_consts)
next
  case False
  let ?st0 = "st\<lparr>g_vmx_revision := hb_vmx_revision_id (hw_rdmsr hw this MSR_IA32_VM_BASIC)\<rparr>"
  have u: "unloaded ?st0" "undone hw ?st0 = undone hw st" using assms(3) by (simp_all add: unloaded_def undone_def fun_eq_iff)
  obtain r1 st1 where a: "hb_vmx_alloc_regions hw ?st0 = (r1, st1)" by fastforce
  have "pages_ok hw ?st0 \<longleftrightarrow> pages_ok hw st" by (simp add: pages_ok_def)
  note al = alloc_tracked [OF a assms(1) u(1), unfolded u(2) this]
  have run: "hypervisor_init hw this st = (if r1 \<noteq> 0 then Some (r1, st1)
      else do {
        (ret, st2) \<leftarrow> hb_vmx_startup_all_cpus hw st1;
        if ret \<noteq> 0 then do { st3 \<leftarrow> hb_vmx_teardown_all_cpus hw st2; Some (ret, hb_vmx_free_regions hw st3) } else Some (0, st2)
      })" using False a by (simp add: hypervisor_init_def)
  show ?thesis
  proof (cases "r1 = 0")
    case True
    with al obtain g0 where g0: "tracked hw (pr_cores st) g0 (pr_heap st1) {} st1" "g_vmx st1 = Some g0" "\<And>i. \<not> vmx_on (g0 i)"
      "regions_taken hw (hw_online hw) g0 (pr_heap st) (pr_heap st1)"
      "\<forall>i \<in> set (hw_online hw). vmxon_region (g0 i) \<noteq> 0 \<and> vmcs_region (g0 i) \<noteq> 0"
      "pages_ok hw st \<longrightarrow> (\<forall>i \<in> set (hw_online hw). virt_to_phys (hw_kernel hw) (vmcs_region (g0 i)) \<noteq> NO_VMCS)" by auto
    let ?st1 = "st1\<lparr>g_vmx_probe_failed := 0\<rparr>"
    have "tracked hw (pr_cores st) g0 (pr_heap st1) {} ?st1" "g_vmx_probe_failed ?st1 = 0" using g0(1) by (simp_all add: tracked_def)
    from startup_tracked [OF this(1) assms(1) _ assms(2) this(2) g0(5) mp [OF feat]] obtain r2 st2 where
      st2: "hb_vmx_startup_all_cpus hw st1 = Some (r2, st2)" "tracked hw (pr_cores st) g0 (pr_heap st1) (set (hw_online hw)) st2"
        "r2 = 0 \<longrightarrow> (\<exists>g. g_vmx st2 = Some g \<and> (\<forall>i. vmx_on (g i) \<longleftrightarrow> i \<in> set (hw_online hw)))"
        "(\<forall>i \<in> set (hw_online hw). vmx_works hw i \<and> virt_to_phys (hw_kernel hw) (vmcs_region (g0 i)) \<noteq> NO_VMCS) \<longrightarrow> r2 = 0"
      using g0(2,3) False by (auto simp: hb_vmx_startup_all_cpus_def)
    obtain st3 where st3: "hb_vmx_teardown_all_cpus hw st2 = Some st3" "tracked hw (pr_cores st) g0 (pr_heap st1) {} st3"
      using teardown_tracked [OF st2(2)] by blast
    have "undone hw st (hb_vmx_free_regions hw st3)" by (rule free_undone [OF st3(2) refl g0(4)])
    moreover have "can_load hw this st \<longrightarrow> r2 = 0" using st2(4) g0(6) by (auto simp: can_load_def)
    ultimately show ?thesis using st2(1-3) st3(1) g0(4) True unfolding run by (cases "r2 = 0") auto
  qed (use al run in \<open>simp add: can_load_def\<close>)
qed

section \<open>Properties\<close>

text \<open>On every processor the firmware has locked IA32_FEATURE_CONTROL, with the same choice for VMXON outside of SMX operation as on the
  processor \<open>this\<close>, the only one that the module asks.\<close>

definition feat_ctl_locked :: "probe_hw \<Rightarrow> nat \<Rightarrow> bool" where
  "feat_ctl_locked hw this \<longleftrightarrow> (\<forall>i \<in> insert this (set (hw_online hw)). bit (hw_rdmsr hw i MSR_IA32_FEAT_CTL) 0 \<and>
     (bit (hw_rdmsr hw i MSR_IA32_FEAT_CTL) 2 \<longleftrightarrow> bit (hw_rdmsr hw this MSR_IA32_FEAT_CTL) 2))"

lemma bios_allowed_iff: "is_bios_vmx_allowed msr \<longleftrightarrow> (bit msr 0 \<longrightarrow> bit msr 2)"
proof -
  have p: "(ucast MSR_IA32_FEATURE_CONTROL_BIT_CONTROL_LOCKED :: u64) = 2 ^ 0"
    "(ucast MSR_IA32_FEATURE_CONTROL_BIT_VMXON_ENABLED_OUTPUTSIDE_SMX :: u64) = 2 ^ 2" by (simp_all add: hb_consts)
  have "msr AND 2 ^ n = 0 \<longleftrightarrow> \<not> bit msr n" if "n < 64" for n using that by (auto simp: and_zero_iff bit_pow2)
  from this [of 0] this [of 2] show ?thesis unfolding is_bios_vmx_allowed_def p by (simp del: power_0 power2_eq_square add: and_one_eq)
qed

lemma feat_ctl_locked_ok:
  "feat_ctl_locked hw this \<Longrightarrow> is_bios_vmx_allowed (hw_rdmsr hw this MSR_IA32_FEAT_CTL) \<longrightarrow>
     (\<forall>i \<in> set (hw_online hw). feat_ctl_ok (hw_rdmsr hw i MSR_IA32_FEAT_CTL))"
  by (auto simp: feat_ctl_locked_def feat_ctl_ok_def bios_allowed_iff)

text \<open>C11: When the firmware has locked IA32_FEATURE_CONTROL in the same way on every processor, loading the probe module comes to an
  end without a faulting instruction. When it succeeds, every online processor is in VMX operation with its own VMCS current, control
  registers that VMX allows and the guest state it captured in that VMCS, and the other processors are untouched; when it fails, at whatever
  step, every processor is as it was before, apart from the interrupt flag, which the code turns on, and every page that was taken has been given back exactly once. It succeeds when the
  checks pass, memory suffices and no VMX instruction fails. The module does not check the lock: \<open>unlocked_load_faults\<close> below.\<close>

theorem probe_load_all_or_nothing:
  assumes "distinct (hw_online hw)" "\<forall>i. vmx_msrs_ok hw i" "unloaded st" "feat_ctl_locked hw this"
  shows "\<exists>r st'. hypervisor_init hw this st = Some (r, st') \<and> (can_load hw this st \<longrightarrow> r = 0) \<and>
    (if r = 0
     then \<forall>i. if i \<in> set (hw_online hw)
        then core_active hw i (virt_to_phys (hw_kernel hw) (vmcs_region (the (g_vmx st') i))) (pr_cores st i) (pr_cores st' i)
        else core_restored (pr_cores st i) (pr_cores st' i)
     else undone hw st st')"
proof -
  obtain r st' where r: "hypervisor_init hw this st = Some (r, st')" "r \<noteq> 0 \<longrightarrow> undone hw st st'" "can_load hw this st \<longrightarrow> r = 0"
      "r = 0 \<longrightarrow> (\<exists>g0 g h. tracked hw (pr_cores st) g0 h (set (hw_online hw)) st' \<and> regions_taken hw (hw_online hw) g0 (pr_heap st) h \<and>
        g_vmx st' = Some g \<and> (\<forall>i. vmx_on (g i) \<longleftrightarrow> i \<in> set (hw_online hw)))"
    using init_result [OF assms(1) _ assms(3) feat_ctl_locked_ok [OF assms(4)]] assms(2) by blast
  have "if i \<in> set (hw_online hw)
      then core_active hw i (virt_to_phys (hw_kernel hw) (vmcs_region (the (g_vmx st') i))) (pr_cores st i) (pr_cores st' i)
      else core_restored (pr_cores st i) (pr_cores st' i)" if z: "r = 0" for i
  proof -
    obtain g0 g h where "tracked hw (pr_cores st) g0 h (set (hw_online hw)) st'" "g_vmx st' = Some g"
        "\<forall>i. vmx_on (g i) \<longleftrightarrow> i \<in> set (hw_online hw)" using r(4) z by blast
    then show ?thesis by (simp add: tracked_def core_state_def)
  qed
  with r(1-3) show ?thesis by auto
qed

text \<open>C12: Unloading undoes loading: after a successful load, \<open>hypervisor_exit\<close> comes to an end without a faulting instruction, every
  processor has left VMX operation with its registers, CR0 and CR4 included, as before the module was loaded, apart from the interrupt flag,
  and every page that was taken has been given back exactly once.\<close>

theorem probe_unload_restores:
  assumes "distinct (hw_online hw)" "\<forall>i. vmx_msrs_ok hw i" "unloaded st" "hypervisor_init hw this st = Some (0, st1)"
  shows "\<exists>st2. hypervisor_exit hw st1 = Some st2 \<and> undone hw st st2"
proof -
  obtain g0 h where t: "tracked hw (pr_cores st) g0 h (set (hw_online hw)) st1" "regions_taken hw (hw_online hw) g0 (pr_heap st) h"
    using init_result [OF assms(1) _ assms(3), of this] init_needs [OF assms(4)] assms(2,4) by auto
  obtain st2 where "hb_vmx_teardown_all_cpus hw st1 = Some st2" "tracked hw (pr_cores st) g0 h {} st2"
    using teardown_tracked [OF t(1)] by blast
  with free_undone [OF this(2) refl t(2)] show ?thesis by (simp add: hypervisor_exit_def)
qed

text \<open>With IA32_FEATURE_CONTROL unlocked the check of the module passes, and the load faults at the first VMXON, with VMX enabled in CR4 of that
  processor and all pages taken.\<close>

lemma unlocked_load_faults:
  assumes "distinct (hw_online hw)" "unloaded st" "is_vmx_supported hw" "\<not> hb_is_kvm_loaded hw" "pages_ok hw st"
    and "\<not> bit (hw_rdmsr hw this MSR_IA32_FEAT_CTL) 0" "hw_online hw = i # is" "\<not> bit (hw_rdmsr hw i MSR_IA32_FEAT_CTL) 0"
  shows "is_bios_vmx_allowed (hw_rdmsr hw this MSR_IA32_FEAT_CTL) \<and> hypervisor_init hw this st = None"
proof -
  let ?st0 = "st\<lparr>g_vmx_revision := hb_vmx_revision_id (hw_rdmsr hw this MSR_IA32_VM_BASIC)\<rparr>"
  obtain r1 st1 where a: "hb_vmx_alloc_regions hw ?st0 = (r1, st1)" by fastforce
  have "unloaded ?st0" "pages_ok hw ?st0" using assms(2,5) by (simp_all add: unloaded_def pages_ok_def)
  with alloc_tracked [OF a assms(1)] obtain g where g: "r1 = 0" "g_vmx st1 = Some g"
      "vmxon_region (g i) \<noteq> 0 \<and> vmcs_region (g i) \<noteq> 0" using assms(7) by auto
  have "vmxon_core hw i pa pb revid c = None" for pa pb revid c
    using vmxon_core_needs assms(8) by (metis feat_ctl_ok_def option.exhaust)
  then have "hb_vmx_startup_all_cpus hw st1 = None"
    using g assms(7) by (simp add: hb_vmx_startup_all_cpus_def hb_vmxon_on_cpu_def Let_def)
  then show ?thesis using a g(1) assms(3,4,6) by (simp add: hypervisor_init_def bios_allowed_iff)
qed

text \<open>The limit of a task state segment: the member \<open>limit1\<close> is the access byte of the descriptor, so a segment with limit 0x67 and access
  byte 0x8B is given the limit 0x8B0067.\<close>

lemma tss_limit_has_access_byte:
  "fst (snd (hb_probe_ldtr_tr_fields \<lparr>dt_size = 0x7F, dt_address = 0x1000\<rparr> 0x40
     (undefined\<lparr>vs_mem := (\<lambda>a. if a = 0x1040 then 0x67 else if a = 0x1045 then 0x8B else 0)\<rparr>))) = 0x8B0067"
proof -
  have "load_bytes 1 a m = ucast (m a)" "load_bytes 2 a m = ucast (m a) OR push_bit 8 (ucast (m (a + 1)))" for a m
    by (simp_all add: numeral_2_eq_2)
  then show ?thesis by (simp add: hb_probe_ldtr_tr_fields_def desc_addr_def mem_load_def hb_consts)
qed

section \<open>A concrete machine\<close>

definition probe_machine :: probe_hw where
  "probe_machine =
     \<lparr>hw_cpuid_1_ecx = 0x20,
      hw_view = (\<lambda>_. undefined\<lparr>vs_msr := (\<lambda>m. if m = 0x486 then 0x80000021 else if m = 0x488 then 0x2000
        else if m = 0x487 \<or> m = 0x489 then - 1 else if m = 0x3A then 5 else 4)\<rparr>),
      hw_dr7 = (\<lambda>_. 0x400), hw_vmxon = (\<lambda>_ _ _. True), hw_vmclear = (\<lambda>_ _. True), hw_vmptrld = (\<lambda>_ _ _. True),
      hw_vmwrite = (\<lambda>_ _. True), hw_kern_path = (\<lambda>_. - 2), hw_kcalloc = True, hw_kernel = sample_env, hw_online = [0, 1]\<rparr>"

definition probe_start :: probe_state where
  "probe_start = \<lparr>pr_cores = (\<lambda>_. undefined\<lparr>pc_in_vmx := False\<rparr>), g_vmx = None, g_vmx_revision = 0, g_vmx_probe_failed = 0,
     pr_revision = (\<lambda>_. 0), pr_heap = kh_init\<rparr>"

lemma probe_machine_ok: "distinct (hw_online probe_machine)" "\<forall>i. vmx_msrs_ok probe_machine i" "unloaded probe_start"
  "feat_ctl_locked probe_machine 0"
  by (auto simp: probe_machine_def probe_start_def unloaded_def vmx_msrs_ok_def feat_ctl_locked_def hb_rdmsr_def hb_consts)

lemma probe_machine_loads: "can_load probe_machine 0 probe_start"
proof -
  have "page_ok probe_machine k" if "k < 4" for k
  proof -
    have "unat (get_free_page sample_env k) = (k + 1) * 4096" using sample_page [of k] that by simp
    then have "0 < unat (get_free_page sample_env k)" "unat (get_free_page sample_env k) < unat NO_VMCS"
      using that by (simp_all add: NO_VMCS_def)
    moreover have "hw_kernel probe_machine = sample_env" "virt_to_phys sample_env = (\<lambda>a. a)"
      by (simp_all add: probe_machine_def sample_env_def)
    ultimately show ?thesis by (auto simp: page_ok_def)
  qed
  then show ?thesis
    by (simp add: can_load_def pages_ok_def vmx_works_def is_vmx_supported_def is_bios_vmx_allowed_def hb_is_kvm_loaded_def
      hb_module_loaded_def hb_rdmsr_def probe_machine_def probe_start_def hb_consts)
qed

theorem probe_load_all_or_nothing_witness:
  "\<exists>st'. hypervisor_init probe_machine 0 probe_start = Some (0, st') \<and> pc_in_vmx (pr_cores st' 1)"
proof -
  have "1 \<in> set (hw_online probe_machine)" by (simp add: probe_machine_def)
  then show ?thesis
    using probe_load_all_or_nothing [OF probe_machine_ok] probe_machine_loads unfolding core_active_def by metis
qed

theorem probe_unload_restores_witness:
  "\<exists>st1 st2. hypervisor_init probe_machine 0 probe_start = Some (0, st1) \<and> hypervisor_exit probe_machine st1 = Some st2 \<and>
     undone probe_machine probe_start st2"
proof -
  obtain st1 where "hypervisor_init probe_machine 0 probe_start = Some (0, st1)"
    using init_result [OF probe_machine_ok(1) _ probe_machine_ok(3) feat_ctl_locked_ok [OF probe_machine_ok(4)]] probe_machine_ok(2)
      probe_machine_loads by blast
  with probe_unload_restores [OF probe_machine_ok(1-3) this] show ?thesis by blast
qed

end
