(* ===== verification/Spec2Isabelle.thy ===== *)
theory Spec2Isabelle
  imports Cr_Guard Startup Thread_Start Log_Buffer Probe
begin

text \<open>
  Verification of Alcatraz, a hypervisor for the Linux kernel (src/Source/hyper_box, a loadable module in C with some
  assembly), with the module that prints its log (src/Source/hyper_box_helper) and a small module that
  tries VMX out on a machine (src/hypervisor).

  \<^bold>\<open>The program.\<close> The module puts the running Linux system into a virtual machine on the same processor (VT-x) and
  stays below it. It gives the guest an identity mapping of physical memory through extended page tables (EPT) and takes
  access rights away from the pages that matter: the kernel text and read-only data become read-only, the data of the hypervisor
  itself is hidden (mmu.c, and the range functions of hypervisor.c). The guest keeps running; when it touches a protected
  page, writes a control register, reaches one of four hardware breakpoints or executes a VMX instruction, the
  processor leaves it and \<open>hb_vm_exit_callback\<close> (hypervisor.c) decides what happens. The breakpoints feed the
  monitor (monitor.c), which records every task with its credentials in a red-black tree, kills tasks with
  forged credentials and hidden tasks, and checks the function pointers of kernel objects against the registry of
  read-only areas. A guest may run a hypervisor of its own (KVM); its VMX instructions are emulated.
  \<open>hyper_box_init\<close> prepares all this and starts one thread for each core, which fills in a VMCS from the state of the
  core and launches the guest, so that the thread itself continues as the guest. In root mode the kernel must not be called: memory comes from a
  pool that was set aside, messages go through a queue to the helper module, and the page tables are a copy of those of the kernel,
  kept up to date by \<open>hb_sync_page_table\<close>.

  \<^bold>\<open>Configuration.\<close> The code is full of conditional compilation. The model is the code for Linux 5.8 and later with the switches
  of hyper_box.h as they are in the repository: EPT, hardware breakpoints, sleep, VPID, VMCS shadowing, module protection
  and termination of malicious processes on; compatibility mode, work-around, MSR protection, preemption timer and
  shutdown off.

  \<^bold>\<open>Theories.\<close>

  \<^item> \<open>Prelude\<close>: machine words of C, loops that may fail (\<open>foldo\<close>) or not end (\<open>page_loop\<close>), pages.
  \<^item> \<open>Kernel_Env\<close>: the services of the Linux kernel, which are not part of the repository, as a record of functions
    with what the code relies on as named predicates (\<open>fresh_pages\<close>, \<open>ram_ranges_clipped\<close>, \<open>direct_mapped\<close>), and one
    concrete kernel for the examples.
  \<^item> \<open>Ept\<close>, \<open>Ept_Walk\<close>, \<open>Ept_Ops\<close>, \<open>Ept_Setup\<close> (mmu.c): the tables and the operations on them; the walk that the processor
    does, as the specification; permission changes of single pages (a locale for an operation on one page, interpreted
    for hide, lock, read-only and all access); allocation, construction and release.
  \<^item> \<open>Ro_Area\<close> (hypervisor.c, \<open>hb_add_ro_area\<close> and its relatives): the registry of read-only areas, with the locale of an area registry
    and the abstraction to a multiset of areas.
  \<^item> \<open>Ranges\<close> (hypervisor.c, mmu.c): the loops over address ranges and what they are applied to: kernel, modules, descriptor
    tables and the EPT itself.
  \<^item> \<open>Task_Tree\<close>, \<open>Task_Manager\<close>, \<open>Cred_Monitor\<close>, \<open>Object_Monitor\<close> (monitor.c): the search tree over the kernel's red-black
    tree library, the pool of task records with the callbacks for new and exiting tasks and the search for hidden tasks, the checks of
    credentials and executables, and the timer with the checks of function pointers.
  \<^item> \<open>Vmcs_Fields\<close>, \<open>Vmcs\<close> (hyper_box.h, hypervisor.c, asm_helper.asm): the fields of the VMCS and the state of the machine in a handler:
    VMCS regions with their revision word and launch state, the registers and the memory of the guest, the globals of
    the hypervisor; the VMX instructions on it.
  \<^item> \<open>Vm_Exit\<close> (hypervisor.c): \<open>hb_vm_exit_callback\<close> and every handler of this configuration.
  \<^item> \<open>Guest_Cpu\<close>, \<open>Nested\<close>, \<open>Cr_Guard\<close>: what the handlers guarantee.
  \<^item> \<open>Memory_Pool\<close> (hypervisor.c, \<open>hb_setup_memory_pool\<close>, \<open>hb_get_memory\<close>): the pages for root mode.
  \<^item> \<open>Page_Table\<close>, \<open>Page_Dup\<close> (hypervisor.c, \<open>hb_sync_page_table\<close>, \<open>hb_dup_page_table_for_host\<close>): page tables in memory with the walk of the
    processor as the specification, the synchronisation of one address, and the copy of all tables of the kernel.
  \<^item> \<open>Vmcs_Setup\<close> (hypervisor.c, \<open>hb_init_vmx\<close> to \<open>hb_setup_vmcs\<close>): VMX is turned on, and the host, guest and control fields are computed from the
    core and written.
  \<^item> \<open>Host_Idt\<close> (hypervisor.c, asm_helper.asm): the interrupt descriptor table of the host and its stubs.
  \<^item> \<open>Thread_Start\<close> (hypervisor.c, \<open>hb_start\<close>, \<open>hb_vm_thread\<close>): the threads of all cores as a step relation on the shared counters, so that every
    interleaving is covered.
  \<^item> \<open>Startup\<close> (hypervisor.c, \<open>hyper_box_init\<close>): the whole initialisation up to the start of the threads, composed of the parts above.
  \<^item> \<open>Log_Buffer\<close> (hypervisor.c, hyper_box_helper/helper.c): the log queue, its writer and its reader, and the helper module.
  \<^item> \<open>Probe\<close> (src/hypervisor/hb_probe.c, asm_helper.asm): the module that turns VMX on on every core, writes a VMCS and turns VMX off.

  \<^bold>\<open>Conventions.\<close> A C function is a function on an explicit state. \<open>None\<close> stands for undefined behaviour (a null pointer or an access out of
  bounds) and for a function that does not return; error codes are values. Integers have the width of the
  code and wrap around. Loops over the guest's data (process list, dentries, modules) run over lists that are arguments, what the guest
  shows; loops over the red-black tree call the library for the next node and may diverge, so their users return an option and
  the theorems prove that they return. The walk over page tables is bounded by their four levels. There is no fuel. Locks make an operation on the shared data one atomic step.

  \<^bold>\<open>What is shown.\<close>

  \<^item> EPT: after a successful allocation the construction returns and the guest sees every physical address at itself with full access;
    the allocator succeeds exactly when no allocation fails, and the release gives back exactly what was taken; permission changes
    affect the pages of the range and no others; the tables themselves become invisible to the guest.
  \<^item> Registry: the two queries are membership in the registered areas, also the one with an early exit, under every sequence of
    additions and deletions; loading and unloading a module are inverse.
  \<^item> Monitor: the tree and the pool refine a finite map from tasks to records; a task created outside of fork, vfork and clone,
    and a task whose credentials have another exclusive or than the recorded ones, is killed and its thread group marked; tasks whose exclusive or
    is unchanged pass; the timer checks return, find exactly the hooked pointers and kill nobody when all tasks are visible.
  \<^item> Handlers: register access is a register file over the context and the VMCS; MSR and descriptor table instructions round-trip; a
    violation of the EPT widens no permission, except at the address of \<open>hb_system_sleep_notify\<close>, where the accessed page becomes
    readable; a task with changed credentials is turned into an exit call; user code cannot use the hypervisor's call. In every state reached by
    exits of all processors and by the guests in between, the guarded bits of CR0 and CR4 keep their values, as long as no exit is taken on
    a processor whose nested VMCS is the VMCS of the core.
  \<^item> Nested guests: the host state of a nested VMCS always holds the entry point of this hypervisor, while the guest reads back what it wrote;
    an exit of the nested guest continues exactly there; an entry finds the nested VMCS in the state that the processor demands.
  \<^item> Start: on a machine that meets the requirements \<open>hyper_box_init\<close> succeeds, and then the guest can reach neither the EPT tables nor
    the VMX structures nor the memory pool, cannot write the read-only areas of the kernel and sees everything else at its own address; this is
    the state before the threads run, whose later changes of the EPT are in the theories of the parts. The set-up of a core establishes the guard of CR0 and CR4. In every interleaving the cores wait for each other around the work of core 0, no
    core enters the guest before it, and \<open>hb_start\<close> returns after a bounded number of steps with the result that fits
    the cores that were launched.
  \<^item> Host: the copied and the synchronised tables translate as those of the kernel, and synchronisation keeps the typing of the tables; the pool
    delivers distinct hidden pages and a failed set-up gives all of them back; every interrupt of the host returns to
    the code it interrupted with its registers; the secondary controls are legal for the processor.
  \<^item> Log: messages that were logged in root mode are printed unchanged and in order.
  \<^item> Probe: with IA32_FEATURE_CONTROL locked by the firmware, loading the module either leaves every core in VMX operation with the captured state in its VMCS or undoes everything, whatever step
    fails, and unloading it undoes a successful load.
  \<^item> Weaknesses of the code are stated as theorems too: credentials whose changes cancel out are not distinguished, a task that
    is reported twice loses a record of the pool, the lock on the interrupt descriptor table and the range that hides the one of the host are
    empty, a core that cannot allocate memory blocks the start for ever, the split of a large page counts from the wrong
    address, a text without a newline is lost, and the probe gives wrong limits to system segments. A guest that makes its own VMCS its
    nested VMCS writes it with VMWRITE and so clears CR0.WP (\<open>own_vmcs_defeats_guard\<close>), and the probe faults when the firmware has
    not locked the feature control register, which it does not check (\<open>unlocked_load_faults\<close>).

  \<^bold>\<open>Not modelled.\<close> The functions that only format values for the log (the dumps of the register structures and the
  logo) have no effect on the state and are left out, as is the text of messages everywhere but in \<open>Log_Buffer\<close>. The code that is compiled
  out (shutdown of a core, MSR protection, work-around, compatibility system calls, profiling) is left out. Handlers that call
  \<open>hb_sync_page_table\<close> record the call as an event, since memory as the page tables see it is part of the state of \<open>Page_Table\<close> and not of
  the machine in \<open>Vmcs\<close>. Documented behaviour of the kernel and of the processor enters as parameters with named
  hypotheses; interrupts between two instructions of a handler, and caches, are not part of the model.
\<close>

end
